(* ===== verification/Rust_Base.thy ===== *)
theory Rust_Base
  imports Main "HOL-Library.Char_ord" "HOL-Library.List_Lexorder" "HOL-Library.Product_Lexorder"
    "HOL-Library.AList"
begin

text \<open>
  The prelude: what every component theory shares.

  \<^item> Rust integers: an unsigned value is a \<open>nat\<close> with its saturating operations written out
    (\<open>saturating_sub\<close> is the truncated subtraction of \<open>nat\<close>), an \<open>i64\<close> is an \<open>int\<close> clamped to its range.
  \<^item> \<open>Result\<close>: a sum with the error on the left, \<open>r_bind\<close> for the question mark operator and
    \<open>r_mapm\<close> for \<open>collect\<close> into a \<open>Result\<close> of a vector.
  \<^item> \<open>BTreeMap\<close> and \<open>BTreeSet\<close>: strictly ascending association lists and lists, iterated in key
    order; \<open>HashMap\<close>: association lists with distinct keys, whose order carries no meaning.
    The locale \<open>kv_store\<close> states what both maps promise; the two interpretations give its laws.
  \<^item> \<open>wire_format\<close>: the interface of a pair of a printer and a parser of names.
\<close>

named_theorems result_simps "equations and inversions of the result monad"

section \<open>Machine integers\<close>

type_synonym u8 = nat
type_synonym u16 = nat
type_synonym u32 = nat
type_synonym u64 = nat
type_synonym usize = nat
type_synonym i64 = int

abbreviation u64_max :: nat where "u64_max \<equiv> 18446744073709551615"
abbreviation u32_max :: nat where "u32_max \<equiv> 4294967295"
abbreviation i64_max :: int where "i64_max \<equiv> 9223372036854775807"
abbreviation i64_min :: int where "i64_min \<equiv> - 9223372036854775808"

definition sat_add :: "u64 \<Rightarrow> u64 \<Rightarrow> u64" where
  "sat_add a b = min (a + b) u64_max"

definition sat_mul :: "u64 \<Rightarrow> u64 \<Rightarrow> u64" where
  "sat_mul a b = min (a * b) u64_max"

definition sat_add32 :: "u32 \<Rightarrow> u32 \<Rightarrow> u32" where
  "sat_add32 a b = min (a + b) u32_max"

definition sat_i64 :: "int \<Rightarrow> i64" where
  "sat_i64 x = max i64_min (min i64_max x)"

definition div_ceil :: "nat \<Rightarrow> nat \<Rightarrow> nat" where
  "div_ceil a b = (a + b - 1) div b"

lemma sat_add_le [simp]: "sat_add a b \<le> u64_max"
  by (simp add: sat_add_def)

lemma sat_mul_le [simp]: "sat_mul a b \<le> u64_max"
  by (simp add: sat_mul_def)

lemma sat_add_exact: "a + b \<le> u64_max \<Longrightarrow> sat_add a b = a + b"
  by (simp add: sat_add_def)

lemma sat_mul_exact: "a * b \<le> u64_max \<Longrightarrow> sat_mul a b = a * b"
  by (simp add: sat_mul_def)

lemma sat_add_le_iff: "c < u64_max \<Longrightarrow> sat_add a b \<le> c \<longleftrightarrow> a + b \<le> c"
  by (auto simp: sat_add_def)

lemma sat_add_mono: "a \<le> a' \<Longrightarrow> b \<le> b' \<Longrightarrow> sat_add a b \<le> sat_add a' b'"
  by (auto simp: sat_add_def)

lemma sat_i64_exact: "i64_min \<le> x \<Longrightarrow> x \<le> i64_max \<Longrightarrow> sat_i64 x = x"
  by (simp add: sat_i64_def)

lemma sat_i64_range: "i64_min \<le> sat_i64 x \<and> sat_i64 x \<le> i64_max"
  by (simp add: sat_i64_def)

lemma sat_i64_mono: "x \<le> y \<Longrightarrow> sat_i64 x \<le> sat_i64 y"
  by (auto simp: sat_i64_def)

section \<open>Results\<close>

type_synonym ('e, 'a) result = "'e + 'a"

definition r_bind :: "'e + 'a \<Rightarrow> ('a \<Rightarrow> 'e + 'b) \<Rightarrow> 'e + 'b" where
  "r_bind r f = (case r of Inl e \<Rightarrow> Inl e | Inr x \<Rightarrow> f x)"

definition r_map :: "('a \<Rightarrow> 'b) \<Rightarrow> 'e + 'a \<Rightarrow> 'e + 'b" where
  "r_map f r = (case r of Inl e \<Rightarrow> Inl e | Inr x \<Rightarrow> Inr (f x))"

definition ok_or :: "'a option \<Rightarrow> 'e \<Rightarrow> 'e + 'a" where
  "ok_or x e = (case x of None \<Rightarrow> Inl e | Some y \<Rightarrow> Inr y)"

fun r_mapm :: "('a \<Rightarrow> 'e + 'b) \<Rightarrow> 'a list \<Rightarrow> 'e + 'b list" where
  "r_mapm f [] = Inr []"
| "r_mapm f (x # xs) =
     (case f x of Inl e \<Rightarrow> Inl e
      | Inr y \<Rightarrow> (case r_mapm f xs of Inl e \<Rightarrow> Inl e | Inr ys \<Rightarrow> Inr (y # ys)))"

definition is_ok :: "'e + 'a \<Rightarrow> bool" where
  "is_ok r = (case r of Inl _ \<Rightarrow> False | Inr _ \<Rightarrow> True)"

lemma r_bind_simps [simp]: "r_bind (Inl e) f = Inl e" "r_bind (Inr x) f = f x"
  by (simp_all add: r_bind_def)

lemma r_map_simps [simp]: "r_map f (Inl e) = Inl e" "r_map f (Inr x) = Inr (f x)"
  by (simp_all add: r_map_def)

lemma ok_or_simps [simp]: "ok_or None e = Inl e" "ok_or (Some y) e = Inr y"
  by (simp_all add: ok_or_def)

lemma is_ok_simps [simp]: "is_ok (Inl e) = False" "is_ok (Inr x) = True"
  by (simp_all add: is_ok_def)

lemma r_bind_Inr [result_simps]: "r_bind r f = Inr y \<longleftrightarrow> (\<exists>x. r = Inr x \<and> f x = Inr y)"
  by (cases r) auto

lemma r_bind_Inl [result_simps]:
  "r_bind r f = Inl e \<longleftrightarrow> r = Inl e \<or> (\<exists>x. r = Inr x \<and> f x = Inl e)"
  by (cases r) auto

lemma r_map_Inr [result_simps]: "r_map f r = Inr y \<longleftrightarrow> (\<exists>x. r = Inr x \<and> f x = y)"
  by (cases r) auto

lemma r_map_Inl [result_simps]: "r_map f r = Inl e \<longleftrightarrow> r = Inl e"
  by (cases r) auto

lemma ok_or_Inr [result_simps]: "ok_or x e = Inr y \<longleftrightarrow> x = Some y"
  by (cases x) auto

lemma ok_or_Inl [result_simps]: "ok_or x e = Inl e' \<longleftrightarrow> x = None \<and> e' = e"
  by (cases x) auto

lemma is_ok_iff [result_simps]: "is_ok r \<longleftrightarrow> (\<exists>x. r = Inr x)"
  by (cases r) auto

lemma r_mapm_Inr [result_simps]:
  "r_mapm f xs = Inr ys \<longleftrightarrow> list_all2 (\<lambda>x y. f x = Inr y) xs ys"
proof (induction xs arbitrary: ys)
  case Nil
  then show ?case by auto
next
  case (Cons x xs)
  have "r_mapm f (x # xs) = Inr ys \<longleftrightarrow>
      (\<exists>y zs. ys = y # zs \<and> f x = Inr y \<and> r_mapm f xs = Inr zs)"
    by (auto split: sum.splits)
  then show ?case by (auto simp: Cons.IH list_all2_Cons1)
qed

lemma r_mapm_is_ok: "is_ok (r_mapm f xs) \<longleftrightarrow> (\<forall>x \<in> set xs. is_ok (f x))"
  by (induction xs) (auto split: sum.splits)

section \<open>Association lists as maps\<close>

text \<open>\<open>BTreeMap\<close>: insertion keeps the keys strictly ascending and replaces an equal key in place.\<close>

primrec bt_insert :: "'k::linorder \<Rightarrow> 'v \<Rightarrow> ('k \<times> 'v) list \<Rightarrow> ('k \<times> 'v) list" where
  "bt_insert k v [] = [(k, v)]"
| "bt_insert k v (p # m) =
     (if fst p < k then p # bt_insert k v m
      else if fst p = k then (k, v) # m
      else (k, v) # p # m)"

definition bt_remove :: "'k \<Rightarrow> ('k \<times> 'v) list \<Rightarrow> ('k \<times> 'v) list" where
  "bt_remove k m = filter (\<lambda>p. fst p \<noteq> k) m"

definition bt_update :: "'k \<Rightarrow> ('v \<Rightarrow> 'v) \<Rightarrow> ('k \<times> 'v) list \<Rightarrow> ('k \<times> 'v) list" where
  "bt_update k f m = map (\<lambda>p. if fst p = k then (k, f (snd p)) else p) m"

definition bt_ok :: "('k::linorder \<times> 'v) list \<Rightarrow> bool" where
  "bt_ok m = sorted_wrt (<) (map fst m)"

lemma bt_ok_Nil [simp]: "bt_ok []"
  by (simp add: bt_ok_def)

lemma bt_ok_Cons: "bt_ok (p # m) \<longleftrightarrow> (\<forall>q \<in> set m. fst p < fst q) \<and> bt_ok m"
  by (simp add: bt_ok_def)

lemma bt_ok_distinct: "bt_ok m \<Longrightarrow> distinct (map fst m)"
  by (induction m) (auto simp: bt_ok_Cons)

lemma fst_bt_insert: "fst ` set (bt_insert k v m) = insert k (fst ` set m)"
  by (induction m) auto

lemma set_bt_insert: "q \<in> set (bt_insert k v m) \<Longrightarrow> q = (k, v) \<or> q \<in> set m"
  by (induction m) (auto split: if_splits)

lemma bt_ok_insert: "bt_ok m \<Longrightarrow> bt_ok (bt_insert k v m)"
proof (induction m)
  case Nil
  then show ?case by (simp add: bt_ok_def)
next
  case (Cons p m)
  then have IH: "bt_ok (bt_insert k v m)" and low: "\<forall>q \<in> set m. fst p < fst q"
    and okm: "bt_ok m" by (auto simp: bt_ok_Cons)
  consider "fst p < k" | "fst p = k" | "k < fst p" by fastforce
  then show ?case
  proof cases
    case 1
    with IH low show ?thesis by (auto simp: bt_ok_Cons dest!: set_bt_insert)
  next
    case 2
    with low okm show ?thesis by (auto simp: bt_ok_Cons)
  next
    case 3
    with low okm show ?thesis by (fastforce simp: bt_ok_Cons)
  qed
qed

lemma map_of_bt_insert [simp]: "map_of (bt_insert k v m) = (map_of m)(k \<mapsto> v)"
  by (induction m) (auto simp: fun_eq_iff)

lemma map_of_bt_remove [simp]: "map_of (bt_remove k m) = (map_of m)(k := None)"
  by (induction m) (auto simp: bt_remove_def fun_eq_iff)

lemma map_of_bt_update [simp]:
  "map_of (bt_update k f m) = (map_of m)(k := map_option f (map_of m k))"
  by (induction m) (auto simp: bt_update_def fun_eq_iff)

lemma bt_ok_remove: "bt_ok m \<Longrightarrow> bt_ok (bt_remove k m)"
  by (induction m) (auto simp: bt_ok_Cons bt_remove_def)

lemma keys_bt_update [simp]: "map fst (bt_update k f m) = map fst m"
  by (induction m) (auto simp: bt_update_def)

lemma fst_bt_update [simp]: "fst ` set (bt_update k f m) = fst ` set m"
  using keys_bt_update[of k f m] by (metis set_map)

lemma set_bt_update:
  "q \<in> set (bt_update k f m) \<Longrightarrow> q \<in> set m \<or> (\<exists>v. (k, v) \<in> set m \<and> q = (k, f v))"
  by (auto simp: bt_update_def split: if_splits)

lemma bt_update_absent: "k \<notin> fst ` set m \<Longrightarrow> bt_update k f m = m"
  by (induction m) (auto simp: bt_update_def)

lemma bt_ok_update: "bt_ok m \<Longrightarrow> bt_ok (bt_update k f m)"
  by (simp add: bt_ok_def)

lemma dom_bt_update [simp]: "dom (map_of (bt_update k f m)) = dom (map_of m)"
  by (auto simp: dom_def)

lemma bt_update_split:
  assumes "bt_ok m" and "map_of m k = Some v"
  obtains xs ys where "m = xs @ (k, v) # ys" and "\<And>f. bt_update k f m = xs @ (k, f v) # ys"
    and "\<forall>p \<in> set xs \<union> set ys. fst p \<noteq> k"
proof -
  from assms(2) have "(k, v) \<in> set m" by (rule map_of_SomeD)
  then obtain xs ys where m: "m = xs @ (k, v) # ys" by (auto dest: split_list)
  with bt_ok_distinct[OF assms(1)] have other: "\<forall>p \<in> set xs \<union> set ys. fst p \<noteq> k"
    by force
  then have "bt_update k f m = xs @ (k, f v) # ys" for f
    unfolding m bt_update_def by (simp add: map_idI)
  with m other show thesis by (intro that)
qed

lemma bt_insert_split:
  assumes "k \<notin> fst ` set m"
  obtains xs ys where "m = xs @ ys" and "\<And>v. bt_insert k v m = xs @ (k, v) # ys"
proof -
  have "\<exists>xs ys. m = xs @ ys \<and> (\<forall>v. bt_insert k v m = xs @ (k, v) # ys)"
    using assms
  proof (induction m)
    case Nil
    then show ?case by simp
  next
    case (Cons p m)
    then obtain xs ys where "m = xs @ ys" "\<forall>v. bt_insert k v m = xs @ (k, v) # ys" by auto
    moreover have "fst p \<noteq> k" using Cons.prems by auto
    ultimately show ?case
      by (cases "fst p < k") (auto intro: exI[of _ "p # xs"] exI[of _ "[]"])
  qed
  then show thesis using that by blast
qed

lemma sum_list_map_zero: "(\<And>x. x \<in> set xs \<Longrightarrow> f x = 0) \<Longrightarrow> (\<Sum>x \<leftarrow> xs. f x) = (0 :: 'b :: comm_monoid_add)"
  by (induction xs) auto

text \<open>What a map promises its clients, whichever way it is stored.\<close>

locale kv_store =
  fixes get :: "'m \<Rightarrow> 'k \<Rightarrow> 'v option"
    and put :: "'k \<Rightarrow> 'v \<Rightarrow> 'm \<Rightarrow> 'm"
    and del :: "'k \<Rightarrow> 'm \<Rightarrow> 'm"
    and ok :: "'m \<Rightarrow> bool"
  assumes get_put: "ok m \<Longrightarrow> get (put k v m) = (get m)(k \<mapsto> v)"
    and get_del: "ok m \<Longrightarrow> get (del k m) = (get m)(k := None)"
    and ok_put: "ok m \<Longrightarrow> ok (put k v m)"
    and ok_del: "ok m \<Longrightarrow> ok (del k m)"
begin

lemma get_put_same: "ok m \<Longrightarrow> get (put k v m) k = Some v"
  by (simp add: get_put)

lemma get_put_other: "ok m \<Longrightarrow> j \<noteq> k \<Longrightarrow> get (put k v m) j = get m j"
  by (simp add: get_put)

lemma get_del_same: "ok m \<Longrightarrow> get (del k m) k = None"
  by (simp add: get_del)

lemma get_put_put: "ok m \<Longrightarrow> get (put k v (put k u m)) = get (put k v m)"
  by (simp add: get_put ok_put)

lemma get_put_del: "ok m \<Longrightarrow> get (del k (put k v m)) = get (del k m)"
  by (simp add: get_put get_del ok_put)

lemma get_del_put: "ok m \<Longrightarrow> get (put k v (del k m)) = get (put k v m)"
  by (simp add: get_put get_del ok_del)

end

interpretation btm: kv_store map_of bt_insert bt_remove bt_ok
  by unfold_locales (auto simp: bt_ok_insert bt_ok_remove)

interpretation hm: kv_store map_of AList.update AList.delete "\<lambda>m. distinct (map fst m)"
  by unfold_locales (auto simp: update_conv' delete_conv' distinct_update distinct_delete)

section \<open>Ordered sets\<close>

text \<open>\<open>BTreeSet\<close> as a strictly ascending list.\<close>

primrec bs_insert :: "'a::linorder \<Rightarrow> 'a list \<Rightarrow> 'a list" where
  "bs_insert x [] = [x]"
| "bs_insert x (y # ys) =
     (if y < x then y # bs_insert x ys else if y = x then y # ys else x # y # ys)"

definition bs_ok :: "'a::linorder list \<Rightarrow> bool" where
  "bs_ok xs = sorted_wrt (<) xs"

lemma set_bs_insert [simp]: "set (bs_insert x xs) = insert x (set xs)"
  by (induction xs) auto

lemma bs_ok_insert: "bs_ok xs \<Longrightarrow> bs_ok (bs_insert x xs)"
  unfolding bs_ok_def by (induction xs) fastforce+

lemma bs_ok_Nil [simp]: "bs_ok []"
  by (simp add: bs_ok_def)

lemma bs_ok_distinct: "bs_ok xs \<Longrightarrow> distinct xs"
  unfolding bs_ok_def by (induction xs) auto

lemma set_foldl_bs_insert: "set (foldl (\<lambda>s x. bs_insert (f x) s) s xs) = f ` set xs \<union> set s"
  by (induction xs arbitrary: s) auto

lemma bs_ok_foldl: "bs_ok s \<Longrightarrow> bs_ok (foldl (\<lambda>s x. bs_insert (f x) s) s xs)"
  by (induction xs arbitrary: s) (auto intro: bs_ok_insert)

section \<open>Sorting\<close>

text \<open>\<open>sort\<close> followed by \<open>dedup\<close>: the sorted list with adjacent duplicates dropped.\<close>

definition sort_dedup :: "'a::linorder list \<Rightarrow> 'a list" where
  "sort_dedup xs = remdups_adj (sort xs)"

lemma set_sort_dedup [simp]: "set (sort_dedup xs) = set xs"
  by (simp add: sort_dedup_def)

lemma sorted_sort_dedup [simp]: "sorted (sort_dedup xs)"
  by (simp add: sort_dedup_def)

lemma distinct_sort_dedup [simp]: "distinct (sort_dedup xs)"
proof -
  have "sorted ys \<Longrightarrow> distinct (remdups_adj ys)" for ys :: "'a list"
    by (induction ys rule: remdups_adj.induct) (auto simp: less_le)
  then show ?thesis by (simp add: sort_dedup_def)
qed

section \<open>Names on the wire\<close>

text \<open>
  A type printed to a string and read back. The client only knows that reading what was printed
  gives the value back; it follows that printing loses nothing.
\<close>

locale wire_format =
  fixes render :: "'a \<Rightarrow> 'w"
    and parse :: "'w \<Rightarrow> 'a option"
    and valid :: "'a \<Rightarrow> bool"
  assumes parse_render: "valid x \<Longrightarrow> parse (render x) = Some x"
begin

lemma render_inj: "valid x \<Longrightarrow> valid y \<Longrightarrow> render x = render y \<Longrightarrow> x = y"
  by (metis option.inject parse_render)

lemma render_eq_iff: "valid x \<Longrightarrow> valid y \<Longrightarrow> render x = render y \<longleftrightarrow> x = y"
  using render_inj by blast

end

locale strict_wire_format = wire_format +
  assumes render_parse: "parse w = Some x \<Longrightarrow> render x = w \<and> valid x"
begin

lemma parse_iff: "parse w = Some x \<longleftrightarrow> valid x \<and> render x = w"
  using parse_render render_parse by blast

lemma parse_inj: "parse v = Some x \<Longrightarrow> parse w = Some x \<Longrightarrow> v = w"
  using render_parse by blast

end

end
