(* ===== verification/Rust_Str.thy ===== *)
theory Rust_Str
  imports Rust_Base
begin

text \<open>
  Rust strings. A \<open>String\<close> or \<open>&str\<close> is its sequence of UTF-8 bytes, an Isabelle \<open>string\<close> (whose
  \<open>char\<close> is a byte): \<open>len\<close> is \<open>length\<close>, byte order is the order of \<open>str\<close>, and every search for an
  ASCII pattern is a search for bytes. The scalar values (\<open>chars\<close>) are recovered by grouping each
  lead byte with the continuation bytes that follow it, so \<open>trim\<close>, \<open>split_whitespace\<close> and
  \<open>chars().take(n)\<close> act on whole scalar values, with the \<open>White_Space\<close> code points written out in
  UTF-8. The operations of the standard library the sources use are defined here, with the facts
  about them the components share.
\<close>

type_synonym str = string

abbreviation byte :: "char \<Rightarrow> nat" where "byte c \<equiv> of_char c"

section \<open>Scalar values\<close>

definition is_cont :: "char \<Rightarrow> bool" where
  "is_cont c = (128 \<le> byte c \<and> byte c < 192)"

function chars :: "str \<Rightarrow> str list" where
  "chars [] = []"
| "chars (b # bs) = (b # takeWhile is_cont bs) # chars (dropWhile is_cont bs)"
  by pat_completeness auto
termination
  by (relation "measure length") (auto simp: le_imp_less_Suc length_dropWhile_le)

definition char_count :: "str \<Rightarrow> nat" where
  "char_count s = length (chars s)"

definition take_chars :: "nat \<Rightarrow> str \<Rightarrow> str" where
  "take_chars n s = concat (take n (chars s))"

definition is_char_boundary :: "str \<Rightarrow> nat \<Rightarrow> bool" where
  "is_char_boundary s i =
     (i = 0 \<or> i = length s \<or> (i < length s \<and> \<not> is_cont (s ! i)))"

definition unicode_white_space :: "str list" where
  "unicode_white_space =
    [[CHR 0x09], [CHR 0x0A], [CHR 0x0B], [CHR 0x0C], [CHR 0x0D], [CHR 0x20],
     [CHR 0xC2, CHR 0x85], [CHR 0xC2, CHR 0xA0], [CHR 0xE1, CHR 0x9A, CHR 0x80],
     [CHR 0xE2, CHR 0x80, CHR 0x80], [CHR 0xE2, CHR 0x80, CHR 0x81], [CHR 0xE2, CHR 0x80, CHR 0x82],
     [CHR 0xE2, CHR 0x80, CHR 0x83], [CHR 0xE2, CHR 0x80, CHR 0x84], [CHR 0xE2, CHR 0x80, CHR 0x85],
     [CHR 0xE2, CHR 0x80, CHR 0x86], [CHR 0xE2, CHR 0x80, CHR 0x87], [CHR 0xE2, CHR 0x80, CHR 0x88],
     [CHR 0xE2, CHR 0x80, CHR 0x89], [CHR 0xE2, CHR 0x80, CHR 0x8A], [CHR 0xE2, CHR 0x80, CHR 0xA8],
     [CHR 0xE2, CHR 0x80, CHR 0xA9], [CHR 0xE2, CHR 0x80, CHR 0xAF], [CHR 0xE2, CHR 0x81, CHR 0x9F],
     [CHR 0xE3, CHR 0x80, CHR 0x80]]"

definition is_whitespace :: "str \<Rightarrow> bool" where
  "is_whitespace g = (g \<in> set unicode_white_space)"

text \<open>A sequence of scalar values: each a lead byte and its continuation bytes.\<close>

definition is_group :: "str \<Rightarrow> bool" where
  "is_group g = (g \<noteq> [] \<and> (\<forall>c \<in> set (tl g). is_cont c))"

definition starter :: "str \<Rightarrow> bool" where
  "starter g = (is_group g \<and> \<not> is_cont (hd g))"

fun groups_ok :: "str list \<Rightarrow> bool" where
  "groups_ok [] = True"
| "groups_ok (g # gs) = (is_group g \<and> (\<forall>h \<in> set gs. starter h))"

lemma concat_chars [simp]: "concat (chars s) = s"
  by (induction s rule: chars.induct) auto

lemma chars_Nil_iff [simp]: "chars s = [] \<longleftrightarrow> s = []"
  by (cases s) auto

lemma dropWhile_stop: "dropWhile P xs = [] \<or> \<not> P (hd (dropWhile P xs))"
  by (induction xs) auto

lemma while_stopped:
  "xs = [] \<or> \<not> P (hd xs) \<Longrightarrow> takeWhile P xs = []"
  "xs = [] \<or> \<not> P (hd xs) \<Longrightarrow> dropWhile P xs = xs"
  by (cases xs; simp)+

lemma is_group_lead [simp]: "is_group (b # takeWhile is_cont bs)"
  by (auto simp: is_group_def dest: set_takeWhileD)

lemma chars_starter:
  "s = [] \<or> \<not> is_cont (hd s) \<Longrightarrow> h \<in> set (chars s) \<Longrightarrow> starter h"
proof (induction s rule: chars.induct)
  case 1
  then show ?case by simp
next
  case (2 b bs)
  from "2.prems" have b: "\<not> is_cont b" by simp
  from "2.prems" consider "h = b # takeWhile is_cont bs" | "h \<in> set (chars (dropWhile is_cont bs))"
    by auto
  then show ?case
  proof cases
    case 1
    with b show ?thesis by (simp add: starter_def)
  next
    case 2
    then show ?thesis by (rule "2.IH"[OF dropWhile_stop])
  qed
qed

lemma groups_ok_chars [simp]: "groups_ok (chars s)"
proof (cases s)
  case (Cons b bs)
  have "starter h" if "h \<in> set (chars (dropWhile is_cont bs))" for h
    by (rule chars_starter[OF dropWhile_stop that])
  then show ?thesis by (simp add: Cons)
qed simp

lemma groups_ok_starters: "\<forall>h \<in> set gs. starter h \<Longrightarrow> groups_ok gs"
  by (cases gs) (simp_all add: starter_def)

lemma groups_ok_tail: "groups_ok (g # gs) \<Longrightarrow> groups_ok gs"
  by (simp add: groups_ok_starters)

lemma groups_ok_append: "groups_ok (gs @ hs) \<Longrightarrow> groups_ok gs \<and> groups_ok hs"
  by (cases gs) (simp_all add: groups_ok_starters)

lemma chars_concat: "groups_ok gs \<Longrightarrow> chars (concat gs) = gs"
proof (induction gs)
  case Nil
  then show ?case by simp
next
  case (Cons g gs)
  then obtain b t where g: "g = b # t" and t: "\<forall>c \<in> set t. is_cont c"
    by (cases g) (auto simp: is_group_def)
  have "concat gs = [] \<or> \<not> is_cont (hd (concat gs))"
  proof (cases gs)
    case (Cons h hs)
    with \<open>groups_ok (g # gs)\<close> have "h \<noteq> []" "\<not> is_cont (hd h)"
      by (simp_all add: starter_def is_group_def)
    then show ?thesis by (simp add: Cons)
  qed simp
  then have stop: "takeWhile is_cont (concat gs) = []" "dropWhile is_cont (concat gs) = concat gs"
    by (rule while_stopped)+
  have IH: "chars (concat gs) = gs" using Cons.IH groups_ok_tail[OF Cons.prems] by blast
  have "chars (b # (t @ concat gs)) = (b # t) # gs"
    using t by (simp add: takeWhile_append2 dropWhile_append2 stop IH)
  then show ?case by (simp add: g)
qed

lemma chars_concat_sub: "chars s = as @ bs @ cs \<Longrightarrow> chars (concat bs) = bs"
  by (metis chars_concat groups_ok_append groups_ok_chars)

lemma chars_take_chars [simp]: "chars (take_chars n s) = take n (chars s)"
  unfolding take_chars_def
  by (rule chars_concat_sub [of s "[]" _ "drop n (chars s)"]) simp

lemma char_count_take_chars: "char_count (take_chars n s) \<le> n"
  by (simp add: char_count_def)

lemma take_chars_id: "char_count s \<le> n \<Longrightarrow> take_chars n s = s"
  by (simp add: take_chars_def char_count_def)

lemma take_chars_prefix: "take_chars n s @ concat (drop n (chars s)) = s"
  by (metis append_take_drop_id concat_append concat_chars take_chars_def)

lemma char_count_le_length: "char_count s \<le> length s"
  unfolding char_count_def
proof (induction s rule: chars.induct)
  case (2 b bs)
  have "length (dropWhile is_cont bs) \<le> length bs" by (simp add: length_dropWhile_le)
  with 2 show ?case by simp
qed simp

section \<open>Trimming and splitting on white space\<close>

definition trim_start :: "str \<Rightarrow> str" where
  "trim_start s = concat (dropWhile is_whitespace (chars s))"

definition trim_end :: "str \<Rightarrow> str" where
  "trim_end s = concat (rev (dropWhile is_whitespace (rev (chars s))))"

definition trim :: "str \<Rightarrow> str" where
  "trim s = concat (rev (dropWhile is_whitespace (rev (dropWhile is_whitespace (chars s)))))"

definition trim_matches :: "(str \<Rightarrow> bool) \<Rightarrow> str \<Rightarrow> str" where
  "trim_matches P s = concat (rev (dropWhile P (rev (dropWhile P (chars s)))))"

fun split_ws :: "str list \<Rightarrow> str \<Rightarrow> str list" where
  "split_ws [] cur = (if cur = [] then [] else [cur])"
| "split_ws (g # gs) cur =
     (if is_whitespace g
      then (if cur = [] then split_ws gs [] else cur # split_ws gs [])
      else split_ws gs (cur @ g))"

definition split_whitespace :: "str \<Rightarrow> str list" where
  "split_whitespace s = split_ws (chars s) []"

abbreviation blank :: "str \<Rightarrow> bool" where "blank s \<equiv> trim s = []"

lemma dropWhile_suffix: "\<exists>as. xs = as @ dropWhile P xs"
  by (metis takeWhile_dropWhile_id)

lemma trim_matches_middle: "\<exists>as cs. chars s = as @ chars (trim_matches P s) @ cs"
proof -
  let ?d = "dropWhile P (chars s)" and ?e = "rev (dropWhile P (rev (dropWhile P (chars s))))"
  obtain as where as: "chars s = as @ ?d" using dropWhile_suffix by blast
  obtain bs where "rev ?d = bs @ dropWhile P (rev ?d)" using dropWhile_suffix by blast
  then have "?d = ?e @ rev bs" by (metis rev_append rev_rev_ident)
  with as have mid: "chars s = as @ ?e @ rev bs" by simp
  then have "chars (concat ?e) = ?e" by (rule chars_concat_sub)
  with mid show ?thesis unfolding trim_matches_def by metis
qed

lemma chars_trim_matches:
  "chars (trim_matches P s) = rev (dropWhile P (rev (dropWhile P (chars s))))"
proof -
  let ?d = "dropWhile P (chars s)" and ?e = "rev (dropWhile P (rev (dropWhile P (chars s))))"
  obtain as where as: "chars s = as @ ?d" using dropWhile_suffix by blast
  obtain bs where "rev ?d = bs @ dropWhile P (rev ?d)" using dropWhile_suffix by blast
  then have "?d = ?e @ rev bs" by (metis rev_append rev_rev_ident)
  with as have "chars s = as @ ?e @ rev bs" by simp
  then show ?thesis unfolding trim_matches_def by (rule chars_concat_sub)
qed

lemma trim_eq: "trim s = trim_matches is_whitespace s"
  by (simp add: trim_def trim_matches_def)

lemma dropWhile_trimmed:
  "dropWhile P (rev (dropWhile P (rev (dropWhile P xs)))) = rev (dropWhile P (rev (dropWhile P xs)))"
proof (cases "dropWhile P xs")
  case (Cons x zs)
  then have nx: "\<not> P x" by (metis hd_dropWhile list.distinct(1) list.sel(1))
  have "rev (dropWhile P (rev (x # zs))) = x # rev (dropWhile P (rev zs))"
    using nx by (simp add: dropWhile_append)
  with nx show ?thesis by (simp add: Cons)
next
  case Nil
  then show ?thesis by (simp only: rev.simps dropWhile.simps)
qed

lemma dropWhile_both_idem:
  "rev (dropWhile P (rev (dropWhile P (rev (dropWhile P (rev (dropWhile P xs))))))) =
     rev (dropWhile P (rev (dropWhile P xs)))"
  by (simp add: dropWhile_trimmed dropWhile_idem)

lemma trim_matches_idem [simp]: "trim_matches P (trim_matches P s) = trim_matches P s"
proof -
  have "trim_matches P (trim_matches P s) = concat (chars (trim_matches P (trim_matches P s)))"
    by simp
  also have "\<dots> = concat (chars (trim_matches P s))"
    by (simp only: chars_trim_matches dropWhile_both_idem)
  finally show ?thesis by simp
qed

lemma trim_idem [simp]: "trim (trim s) = trim s"
  by (simp add: trim_eq)

lemma trim_Nil [simp]: "trim [] = []"
  by (simp add: trim_def)

lemma trim_matches_hd_last:
  assumes "trim_matches P s \<noteq> []"
  shows "\<not> P (hd (chars (trim_matches P s)))" and "\<not> P (last (chars (trim_matches P s)))"
proof -
  let ?d = "dropWhile P (rev (dropWhile P (chars s)))"
  have c: "chars (trim_matches P s) = rev ?d" by (rule chars_trim_matches)
  then have d: "?d \<noteq> []" using assms by (metis chars_Nil_iff rev.simps(1))
  from hd_dropWhile[OF d] show "\<not> P (last (chars (trim_matches P s)))"
    by (simp add: c last_rev)
  have "dropWhile P (rev ?d) \<noteq> []" using d by (simp add: dropWhile_trimmed)
  from hd_dropWhile[OF this] show "\<not> P (hd (chars (trim_matches P s)))"
    by (simp add: c dropWhile_trimmed)
qed

lemma trim_matches_subset: "set (trim_matches P s) \<subseteq> set s"
proof -
  obtain as cs where "chars s = as @ chars (trim_matches P s) @ cs" using trim_matches_middle by blast
  then have "s = concat as @ trim_matches P s @ concat cs" by (metis concat_append concat_chars)
  then show ?thesis by (metis Un_iff set_append subsetI)
qed

end
