(* ===== verification/Graph.thy ===== *)
theory Graph
  imports Rust_Search
begin

text \<open>
  The versioned execution graph and its lease table (\<open>crates/minha-core/src/graph.rs\<close>).
  \<open>nodes\<close> is a \<open>BTreeMap\<close> and \<open>dependencies\<close> a \<open>BTreeSet\<close> of pairs; operations return a new version
  or an error. \<open>Utc::now()\<close> and \<open>Uuid::now_v7()\<close> are arguments (\<open>now\<close>, \<open>uuid\<close>), times and durations
  are integers on one scale. The breadth-first search keeps the source's queue and \<open>seen\<close> set.
\<close>

type_synonym time = int
type_synonym node_id = str
type_synonym agent_id = str

section \<open>The graph\<close>

datatype node_state = Pending | Ready | Running | Succeeded | Failed | Blocked

record graph_node =
  gn_id :: node_id
  label :: str
  state :: node_state
  assigned_to :: "agent_id option"

record graph_version =
  version :: u64
  nodes :: "(node_id \<times> graph_node) list"
  dependencies :: "(node_id \<times> node_id) list"

datatype graph_error = DuplicateNode node_id | UnknownNode node_id | Cycle

definition graph_new :: graph_version where
  "graph_new = \<lparr>version = 0, nodes = [], dependencies = []\<rparr>"

definition add_node :: "graph_version \<Rightarrow> graph_node \<Rightarrow> graph_error + graph_version" where
  "add_node g n =
     (if map_of (nodes g) (gn_id n) \<noteq> None then Inl (DuplicateNode (gn_id n))
      else Inr (g\<lparr>nodes := bt_insert (gn_id n) n (nodes g), version := version g + 1\<rparr>))"

function bfs :: "(node_id \<times> node_id) list \<Rightarrow> node_id \<Rightarrow> node_id list \<Rightarrow> node_id list \<Rightarrow> bool" where
  "bfs deps target seen [] = False"
| "bfs deps target seen (current # queue) =
     (if current = target then True
      else if current \<in> set seen then bfs deps target seen queue
      else bfs deps target (bs_insert current seen)
             (queue @ map snd (filter (\<lambda>(p, d). p = current) deps)))"
  by pat_completeness auto

lemma bfs_frontier_shrinks:
  assumes "current \<notin> set seen"
  shows "card ((set (queue @ map snd (filter (\<lambda>(p, d). p = current) deps)) \<union> snd ` set deps)
            - insert current (set seen))
         < card ((set (current # queue) \<union> snd ` set deps) - set seen)"
proof (rule psubset_card_mono)
  show "finite ((set (current # queue) \<union> snd ` set deps) - set seen)" by simp
  have "current \<in> (set (current # queue) \<union> snd ` set deps) - set seen" using assms by simp
  moreover have "((set (queue @ map snd (filter (\<lambda>(p, d). p = current) deps)) \<union> snd ` set deps)
            - insert current (set seen)) \<subseteq> (set (current # queue) \<union> snd ` set deps) - set seen"
    by auto
  ultimately show "((set (queue @ map snd (filter (\<lambda>(p, d). p = current) deps)) \<union> snd ` set deps)
            - insert current (set seen)) \<subset> (set (current # queue) \<union> snd ` set deps) - set seen"
    by blast
qed

termination bfs
proof (relation "measures
    [\<lambda>(deps, target, seen, queue). card ((set queue \<union> snd ` set deps) - set seen),
     \<lambda>(deps, target, seen, queue). length queue]", goal_cases)
  case 1
  then show ?case by simp
next
  case (2 deps target seen current queue)
  have "card ((set queue \<union> snd ` set deps) - set seen)
      \<le> card ((set (current # queue) \<union> snd ` set deps) - set seen)"
    by (rule card_mono) auto
  then show ?case by (auto simp: le_less)
next
  case (3 deps target seen current queue)
  then show ?case using bfs_frontier_shrinks[of current seen queue deps] by simp
qed

definition reachable :: "graph_version \<Rightarrow> node_id \<Rightarrow> node_id \<Rightarrow> bool" where
  "reachable g from_node target = bfs (dependencies g) target [] [from_node]"

definition add_dependency ::
    "graph_version \<Rightarrow> node_id \<Rightarrow> node_id \<Rightarrow> graph_error + graph_version" where
  "add_dependency g prerequisite dependent =
     (if map_of (nodes g) prerequisite = None then Inl (UnknownNode prerequisite)
      else if map_of (nodes g) dependent = None then Inl (UnknownNode dependent)
      else if prerequisite = dependent \<or> reachable g dependent prerequisite then Inl Cycle
      else Inr (g\<lparr>dependencies := bs_insert (prerequisite, dependent) (dependencies g),
                 version := version g + 1\<rparr>))"

definition update_state ::
    "graph_version \<Rightarrow> node_id \<Rightarrow> node_state \<Rightarrow> graph_error + graph_version" where
  "update_state g nid st =
     (case map_of (nodes g) nid of None \<Rightarrow> Inl (UnknownNode nid)
      | Some n \<Rightarrow> Inr (g\<lparr>nodes := bt_update nid (\<lambda>n. n\<lparr>state := st\<rparr>) (nodes g),
                        version := version g + 1\<rparr>))"

definition succeeded_node :: "graph_version \<Rightarrow> node_id \<Rightarrow> bool" where
  "succeeded_node g p =
     (case map_of (nodes g) p of None \<Rightarrow> False | Some n \<Rightarrow> state n = Succeeded)"

definition ready_nodes :: "graph_version \<Rightarrow> graph_node list" where
  "ready_nodes g =
     filter (\<lambda>n. (state n = Pending \<or> state n = Ready) \<and>
        list_all (\<lambda>(p, d). succeeded_node g p) (filter (\<lambda>(p, d). d = gn_id n) (dependencies g)))
       (map snd (nodes g))"

definition dependencies_of :: "graph_version \<Rightarrow> node_id \<Rightarrow> node_id list" where
  "dependencies_of g nid = map fst (filter (\<lambda>(p, d). d = nid) (dependencies g))"

section \<open>The search is reachability\<close>

lemma bfs_sound:
  "bfs deps target seen queue \<Longrightarrow> \<exists>q \<in> set queue. (q, target) \<in> (set deps)\<^sup>*"
proof (induction deps target seen queue rule: bfs.induct)
  case (1 deps target seen)
  then show ?case by simp
next
  case (2 deps target seen current queue)
  show ?case
  proof (cases "current = target \<or> current \<in> set seen")
    case True
    with 2 show ?thesis by (auto split: if_splits)
  next
    case False
    with 2 obtain q where q: "(q, target) \<in> (set deps)\<^sup>*"
      and "q \<in> set queue \<or> (current, q) \<in> set deps" by fastforce
    then show ?thesis by (auto intro: converse_rtrancl_into_rtrancl)
  qed
qed

definition search_closed :: "(node_id \<times> node_id) list \<Rightarrow> node_id list \<Rightarrow> node_id list \<Rightarrow> bool" where
  "search_closed deps seen queue =
     (\<forall>(p, d) \<in> set deps. p \<in> set seen \<longrightarrow> d \<in> set seen \<or> d \<in> set queue)"

lemma closed_path:
  assumes "(q, t) \<in> (set deps)\<^sup>*" and "q \<in> set seen" and "search_closed deps seen []"
  shows "t \<in> set seen"
  using assms by (induction rule: rtrancl_induct) (auto simp: search_closed_def)

lemma bfs_complete:
  "search_closed deps seen queue \<Longrightarrow> target \<notin> set seen \<Longrightarrow>
     q \<in> set seen \<union> set queue \<Longrightarrow> (q, target) \<in> (set deps)\<^sup>* \<Longrightarrow> bfs deps target seen queue"
proof (induction deps target seen queue rule: bfs.induct)
  case (1 deps target seen)
  then show ?case using closed_path by fastforce
next
  case (2 deps target seen current queue)
  show ?case
  proof (cases "current = target")
    case True
    then show ?thesis by simp
  next
    case ne: False
    show ?thesis
    proof (cases "current \<in> set seen")
      case True
      have "search_closed deps seen queue"
        using 2(3) True by (auto simp: search_closed_def)
      with 2 ne True show ?thesis by auto
    next
      case False
      have "search_closed deps (bs_insert current seen)
              (queue @ map snd (filter (\<lambda>(p, d). p = current) deps))"
        using 2(3) by (force simp: search_closed_def)
      with 2 ne False show ?thesis by auto
    qed
  qed
qed

lemma reachable_iff: "reachable g a b \<longleftrightarrow> (a, b) \<in> (set (dependencies g))\<^sup>*"
  unfolding reachable_def
  using bfs_sound[of "dependencies g" b "[]" "[a]"]
    bfs_complete[of "dependencies g" "[]" "[a]" b a]
  by (auto simp: search_closed_def)

text \<open>What the guard of \<open>add_dependency\<close> needs of the search, and what it gives.\<close>

locale path_oracle =
  fixes edges :: "'g \<Rightarrow> ('n \<times> 'n) set"
    and path :: "'g \<Rightarrow> 'n \<Rightarrow> 'n \<Rightarrow> bool"
  assumes path_iff: "path g a b \<longleftrightarrow> (a, b) \<in> (edges g)\<^sup>*"
begin

lemma guarded_insert:
  "acyclic (edges g) \<Longrightarrow> \<not> path g b a \<Longrightarrow> acyclic (insert (a, b) (edges g))"
  by (simp add: path_iff acyclic_insert)

lemma guard_exact:
  "acyclic (edges g) \<Longrightarrow> path g b a \<longleftrightarrow> \<not> acyclic (insert (a, b) (edges g))"
  by (simp add: path_iff acyclic_insert)

lemma path_refl: "path g a a"
  by (simp add: path_iff)

lemma path_trans: "path g a b \<Longrightarrow> path g b c \<Longrightarrow> path g a c"
  by (simp add: path_iff)

end

interpretation dag: path_oracle "\<lambda>g. set (dependencies g)" reachable
  by unfold_locales (rule reachable_iff)

section \<open>Well-formed graphs\<close>

definition node_ids :: "graph_version \<Rightarrow> node_id set" where
  "node_ids g = fst ` set (nodes g)"

definition graph_wf :: "graph_version \<Rightarrow> bool" where
  "graph_wf g \<longleftrightarrow>
     bt_ok (nodes g) \<and> (\<forall>(k, n) \<in> set (nodes g). gn_id n = k) \<and>
     set (dependencies g) \<subseteq> node_ids g \<times> node_ids g \<and>
     acyclic (set (dependencies g))"

lemma graph_wf_new: "graph_wf graph_new"
  by (simp add: graph_wf_def graph_new_def acyclic_def)

lemma map_of_None_keys: "map_of m k = None \<longleftrightarrow> k \<notin> fst ` set m"
  by (simp add: map_of_eq_None_iff)

lemma add_node_wf: "graph_wf g \<Longrightarrow> add_node g n = Inr g' \<Longrightarrow> graph_wf g'"
  by (auto simp: graph_wf_def add_node_def node_ids_def bt_ok_insert fst_bt_insert split: if_splits
      dest!: set_bt_insert)

lemma add_dependency_Inr:
  "add_dependency g p d = Inr g' \<Longrightarrow>
     p \<in> node_ids g \<and> d \<in> node_ids g \<and> p \<noteq> d \<and> \<not> reachable g d p \<and> nodes g' = nodes g \<and>
     set (dependencies g') = insert (p, d) (set (dependencies g))"
  by (auto simp: add_dependency_def map_of_None_keys node_ids_def split: if_splits)

lemma add_dependency_wf: "graph_wf g \<Longrightarrow> add_dependency g p d = Inr g' \<Longrightarrow> graph_wf g'"
  using dag.guarded_insert[of g d p] add_dependency_Inr[of g p d g']
  by (auto simp: graph_wf_def node_ids_def)

lemma update_state_Inr:
  "update_state g i st = Inr g' \<Longrightarrow>
     nodes g' = bt_update i (\<lambda>n. n\<lparr>state := st\<rparr>) (nodes g) \<and> dependencies g' = dependencies g"
  by (auto simp: update_state_def split: option.splits)

lemma update_state_wf: "graph_wf g \<Longrightarrow> update_state g i st = Inr g' \<Longrightarrow> graph_wf g'"
  by (drule update_state_Inr) (auto simp: graph_wf_def node_ids_def bt_ok_update dest!: set_bt_update)

datatype graph_op =
  AddNode graph_node | AddDependency node_id node_id | UpdateState node_id node_state

fun apply_graph_op :: "graph_version \<Rightarrow> graph_op \<Rightarrow> graph_error + graph_version" where
  "apply_graph_op g (AddNode n) = add_node g n"
| "apply_graph_op g (AddDependency p d) = add_dependency g p d"
| "apply_graph_op g (UpdateState i st) = update_state g i st"

inductive graph_history :: "graph_version \<Rightarrow> bool" where
  created: "graph_history graph_new"
| changed: "graph_history g \<Longrightarrow> apply_graph_op g op = Inr g' \<Longrightarrow> graph_history g'"

fun run_graph_ops :: "graph_version \<Rightarrow> graph_op list \<Rightarrow> graph_error + graph_version" where
  "run_graph_ops g [] = Inr g"
| "run_graph_ops g (op # ops) = r_bind (apply_graph_op g op) (\<lambda>g'. run_graph_ops g' ops)"

lemma run_graph_ops_history:
  "graph_history g \<Longrightarrow> run_graph_ops g ops = Inr g' \<Longrightarrow> graph_history g'"
  by (induction ops arbitrary: g) (auto simp: result_simps intro: graph_history.changed)

lemma apply_graph_op_wf: "graph_wf g \<Longrightarrow> apply_graph_op g op = Inr g' \<Longrightarrow> graph_wf g'"
  by (cases op) (auto intro: add_node_wf add_dependency_wf update_state_wf)

lemma graph_history_wf: "graph_history g \<Longrightarrow> graph_wf g"
  by (induction rule: graph_history.induct) (auto intro: graph_wf_new apply_graph_op_wf)

section \<open>Progress\<close>

lemma wf_unfinished_minimal:
  assumes ac: "acyclic (set deps)" and u: "u \<in> U" and fin: "finite U"
  shows "\<exists>m \<in> U. \<forall>p. (p, m) \<in> set deps \<longrightarrow> p \<notin> U"
proof -
  have "wf (set deps)" by (rule finite_acyclic_wf) (simp_all add: ac)
  from wfE_min[OF this u] show ?thesis by metis
qed

lemma graph_wf_lookup: "graph_wf g \<Longrightarrow> (k, n) \<in> set (nodes g) \<Longrightarrow> map_of (nodes g) k = Some n"
  by (simp add: graph_wf_def bt_ok_distinct)

lemma ready_nodes_member:
  "n \<in> set (ready_nodes g) \<longleftrightarrow>
     n \<in> snd ` set (nodes g) \<and> (state n = Pending \<or> state n = Ready) \<and>
     (\<forall>p. (p, gn_id n) \<in> set (dependencies g) \<longrightarrow> succeeded_node g p)"
  by (auto simp: ready_nodes_def list_all_iff)

section \<open>Leases\<close>

record lease =
  lease_id :: str
  lease_node :: node_id
  holder :: agent_id
  generation :: u64
  expires_at :: time

definition lease_new ::
    "time \<Rightarrow> str \<Rightarrow> node_id \<Rightarrow> agent_id \<Rightarrow> u64 \<Rightarrow> int \<Rightarrow> lease" where
  "lease_new now uuid n h g ttl =
     \<lparr>lease_id = uuid, lease_node = n, holder = h, generation = g, expires_at = now + ttl\<rparr>"

definition is_expired :: "lease \<Rightarrow> time \<Rightarrow> bool" where
  "is_expired l now = (expires_at l \<le> now)"

datatype lease_error = LeaseNotFound | LeaseExpired | LeaseFenced

record lease_table =
  leases :: "(node_id \<times> lease) list"

definition lease_acquire :: "lease_table \<Rightarrow> lease \<Rightarrow> time \<Rightarrow> lease_error + lease_table" where
  "lease_acquire t l now =
     (if (case map_of (leases t) (lease_node l) of None \<Rightarrow> False | Some old \<Rightarrow> \<not> is_expired old now)
      then Inl LeaseFenced
      else Inr (t\<lparr>leases := bt_insert (lease_node l) l (leases t)\<rparr>))"

definition lease_validate ::
    "lease_table \<Rightarrow> node_id \<Rightarrow> agent_id \<Rightarrow> u64 \<Rightarrow> time \<Rightarrow> lease_error + lease" where
  "lease_validate t n h g now =
     (case map_of (leases t) n of None \<Rightarrow> Inl LeaseNotFound
      | Some l \<Rightarrow>
          if is_expired l now then Inl LeaseExpired
          else if holder l \<noteq> h \<or> generation l \<noteq> g then Inl LeaseFenced
          else Inr l)"

definition lease_release ::
    "lease_table \<Rightarrow> node_id \<Rightarrow> agent_id \<Rightarrow> u64 \<Rightarrow> time \<Rightarrow> lease_error + lease \<times> lease_table" where
  "lease_release t n h g now =
     r_map (\<lambda>l. (l, t\<lparr>leases := bt_remove n (leases t)\<rparr>)) (lease_validate t n h g now)"

record question =
  q_id :: str
  q_from :: agent_id
  q_to :: "agent_id option"
  q_text :: str
  q_blocking :: bool
  asked_at :: time

definition question_new ::
    "time \<Rightarrow> str \<Rightarrow> agent_id \<Rightarrow> agent_id option \<Rightarrow> str \<Rightarrow> bool \<Rightarrow> question" where
  "question_new now uuid from_agent to txt blocking =
     \<lparr>q_id = uuid, q_from = from_agent, q_to = to, q_text = txt, q_blocking = blocking,
      asked_at = now\<rparr>"

lemma lease_validate_Inr [result_simps]:
  "lease_validate t n h g now = Inr l \<longleftrightarrow>
     map_of (leases t) n = Some l \<and> now < expires_at l \<and> holder l = h \<and> generation l = g"
  by (auto simp: lease_validate_def is_expired_def split: option.splits)

lemma lease_acquire_Inr [result_simps]:
  "lease_acquire t l now = Inr t' \<longleftrightarrow>
     (\<forall>old. map_of (leases t) (lease_node l) = Some old \<longrightarrow> expires_at old \<le> now) \<and>
     t' = t\<lparr>leases := bt_insert (lease_node l) l (leases t)\<rparr>"
  by (auto simp: lease_acquire_def is_expired_def split: option.splits)

lemma lease_release_Inr [result_simps]:
  "lease_release t n h g now = Inr (l, t') \<longleftrightarrow>
     lease_validate t n h g now = Inr l \<and> t' = t\<lparr>leases := bt_remove n (leases t)\<rparr>"
  by (auto simp: lease_release_def result_simps)

text \<open>
  What the scheduler needs of whoever grants leases: a grant is recorded, touches no other node,
  and is refused while an earlier one is live.
\<close>

locale lease_provider =
  fixes grant :: "'t \<Rightarrow> lease \<Rightarrow> time \<Rightarrow> 'e + 't"
    and held :: "'t \<Rightarrow> node_id \<Rightarrow> lease option"
    and refusal :: 'e
  assumes grant_held: "grant t l now = Inr t' \<Longrightarrow> held t' (lease_node l) = Some l"
    and grant_frame: "grant t l now = Inr t' \<Longrightarrow> n \<noteq> lease_node l \<Longrightarrow> held t' n = held t n"
    and grant_refused:
      "held t (lease_node l) = Some old \<Longrightarrow> now < expires_at old \<Longrightarrow> grant t l now = Inl refusal"
    and grant_free:
      "(\<And>old. held t (lease_node l) = Some old \<Longrightarrow> expires_at old \<le> now) \<Longrightarrow> is_ok (grant t l now)"
begin

lemma no_double_grant:
  "grant t l now = Inr t' \<Longrightarrow> lease_node l' = lease_node l \<Longrightarrow> now' < expires_at l \<Longrightarrow>
     grant t' l' now' = Inl refusal"
  using grant_held grant_refused by metis

lemma regrant_after_expiry:
  "grant t l now = Inr t' \<Longrightarrow> lease_node l' = lease_node l \<Longrightarrow> expires_at l \<le> now' \<Longrightarrow>
     is_ok (grant t' l' now')"
  by (rule grant_free) (metis grant_held option.inject)

lemma grant_iff:
  "is_ok (grant t l now) \<longleftrightarrow>
     (\<forall>old. held t (lease_node l) = Some old \<longrightarrow> expires_at old \<le> now)"
  by (metis grant_free grant_refused is_ok_simps(1) not_le)

end

interpretation lt: lease_provider lease_acquire "\<lambda>t. map_of (leases t)" LeaseFenced
  by unfold_locales
     (auto simp: result_simps lease_acquire_def is_expired_def split: option.splits if_splits)

text \<open>
  The history of a lease table: agents acquire, release (or try to) and time passes. A failed
  operation leaves the table as it was.
\<close>

datatype lease_event =
  TryAcquire lease | TryRelease node_id agent_id u64 | Wait nat

inductive lease_step ::
    "lease_event \<Rightarrow> lease_table \<times> time \<Rightarrow> lease_table \<times> time \<Rightarrow> bool" where
  acquired: "lease_acquire t l now = Inr t' \<Longrightarrow> lease_step (TryAcquire l) (t, now) (t', now)"
| refused: "lease_acquire t l now = Inl e \<Longrightarrow> lease_step (TryAcquire l) (t, now) (t, now)"
| released: "lease_release t n h g now = Inr (l, t') \<Longrightarrow>
     lease_step (TryRelease n h g) (t, now) (t', now)"
| not_released: "lease_release t n h g now = Inl e \<Longrightarrow>
     lease_step (TryRelease n h g) (t, now) (t, now)"
| waited: "lease_step (Wait k) (t, now) (t, now + int k)"

inductive lease_run ::
    "lease_event list \<Rightarrow> lease_table \<times> time \<Rightarrow> lease_table \<times> time \<Rightarrow> bool" where
  stop: "lease_run [] s s"
| go: "lease_step e s s' \<Longrightarrow> lease_run es s' s'' \<Longrightarrow> lease_run (e # es) s s''"

inductive_cases lease_acquireE: "lease_step (TryAcquire l) (t, now) s"
inductive_cases lease_releaseE: "lease_step (TryRelease n h g) (t, now) s"
inductive_cases lease_waitE: "lease_step (Wait k) (t, now) s"
inductive_cases lease_run_NilE: "lease_run [] s s'"
inductive_cases lease_run_ConsE: "lease_run (e # es) s s'"

lemma lease_step_time: "lease_step e (t, now) (t', now') \<Longrightarrow> now \<le> now'"
  by (induction e "(t, now)" "(t', now')" rule: lease_step.induct) auto

lemma lease_run_time: "lease_run es s s' \<Longrightarrow> snd s \<le> snd s'"
proof (induction rule: lease_run.induct)
  case (go e s s' es s'')
  then show ?case using lease_step_time[of e "fst s" "snd s" "fst s'" "snd s'"] by simp
qed simp

lemma lease_step_keeps:
  assumes "lease_step e (t, now) (t', now')" and "lease_validate t n h g now = Inr l"
    and "e \<noteq> TryRelease n h g"
  shows "map_of (leases t') n = Some l"
  using assms
  by (induction e "(t, now)" "(t', now')" rule: lease_step.induct) (auto simp: result_simps)

lemma lease_step_keeps_valid:
  assumes "lease_step e (t, now) (t', now')" and "lease_validate t n h g now = Inr l"
    and "e \<noteq> TryRelease n h g" and "now' < expires_at l"
  shows "lease_validate t' n h g now' = Inr l"
  using lease_step_keeps[OF assms(1-3)] assms(2,4) by (simp add: result_simps)

lemma lease_run_keeps_valid:
  "lease_run es s s' \<Longrightarrow> lease_validate (fst s) n h g (snd s) = Inr l \<Longrightarrow>
     TryRelease n h g \<notin> set es \<Longrightarrow> snd s' < expires_at l \<Longrightarrow>
     lease_validate (fst s') n h g (snd s') = Inr l"
proof (induction rule: lease_run.induct)
  case (stop s)
  then show ?case by simp
next
  case (go e s s' es s'')
  have "snd s' < expires_at l" using lease_run_time[OF go.hyps(2)] go.prems by simp
  then have "lease_validate (fst s') n h g (snd s') = Inr l"
    using lease_step_keeps_valid[of e "fst s" "snd s" "fst s'" "snd s'"] go.hyps(1) go.prems
    by auto
  then show ?case using go by simp
qed

section \<open>Properties\<close>

definition plain_node :: "node_id \<Rightarrow> graph_node" where
  "plain_node i = \<lparr>gn_id = i, label = i, state = Pending, assigned_to = None\<rparr>"

text \<open>C2: every graph built by any sequence of successful operations on a new graph is acyclic,
  its edges join known nodes, its node keys are distinct and agree with the nodes' own ids.\<close>

theorem graph_operations_keep_dag:
  assumes "run_graph_ops graph_new ops = Inr g"
  shows "acyclic (set (dependencies g)) \<and> set (dependencies g) \<subseteq> node_ids g \<times> node_ids g \<and>
    distinct (map fst (nodes g)) \<and> (\<forall>(k, n) \<in> set (nodes g). gn_id n = k)"
proof -
  have "graph_wf g"
    using graph_history.created assms by (blast intro: graph_history_wf run_graph_ops_history)
  then show ?thesis by (simp add: graph_wf_def bt_ok_distinct)
qed

theorem graph_operations_keep_dag_witness:
  "\<exists>g. run_graph_ops graph_new
         [AddNode (plain_node ''a''), AddNode (plain_node ''b''), AddDependency ''a'' ''b''] = Inr g \<and>
       dependencies g = [(''a'', ''b'')] \<and> acyclic (set (dependencies g))"
proof -
  let ?ops = "[AddNode (plain_node ''a''), AddNode (plain_node ''b''), AddDependency ''a'' ''b'']"
  have run: "run_graph_ops graph_new ?ops =
      Inr \<lparr>version = 3, nodes = [(''a'', plain_node ''a''), (''b'', plain_node ''b'')],
           dependencies = [(''a'', ''b'')]\<rparr>"
    by (simp add: graph_new_def add_node_def add_dependency_def plain_node_def reachable_def)
  show ?thesis using run graph_operations_keep_dag [OF run] by simp
qed

text \<open>On a well-formed graph \<open>add_dependency\<close> decides every case exactly: it names the first
  unknown endpoint, refuses with \<open>Cycle\<close> precisely the edges that would close a cycle, and
  otherwise records the edge and bumps the version; the breadth-first search it uses always ends.\<close>

theorem add_dependency_decides:
  assumes "graph_wf g"
  shows "add_dependency g p d =
    (if p \<notin> node_ids g then Inl (UnknownNode p)
     else if d \<notin> node_ids g then Inl (UnknownNode d)
     else if acyclic (insert (p, d) (set (dependencies g)))
       then Inr (g\<lparr>dependencies := bs_insert (p, d) (dependencies g), version := version g + 1\<rparr>)
       else Inl Cycle)"
  using assms dag.guard_exact[of g d p] dag.path_refl[of g p]
  by (auto simp: add_dependency_def node_ids_def map_of_None_keys graph_wf_def)

theorem add_dependency_decides_witness:
  "add_dependency \<lparr>version = 3, nodes = [(''a'', plain_node ''a''), (''b'', plain_node ''b'')],
      dependencies = [(''a'', ''b'')]\<rparr> ''b'' ''a'' = Inl Cycle"
proof -
  let ?g = "\<lparr>version = 3, nodes = [(''a'', plain_node ''a''), (''b'', plain_node ''b'')],
      dependencies = [(''a'', ''b'')]\<rparr>"
  have "acyclic {(''a'', ''b'')}"
    by (simp add: acyclic_insert) (simp add: acyclic_def)
  then have wf: "graph_wf ?g"
    by (simp add: graph_wf_def bt_ok_def node_ids_def plain_node_def)
  have "\<not> acyclic (insert (''b'', ''a'') (set (dependencies ?g)))"
    by (simp add: acyclic_insert) blast
  with add_dependency_decides [OF wf, of "''b''" "''a''"] show ?thesis
    by (simp add: node_ids_def)
qed

text \<open>C21: no deadlock: in a well-formed graph every node that has not succeeded has, among itself and the
  nodes it depends on directly or not, one whose own prerequisites have all succeeded and that is either ready to start or
  running, failed or blocked. So when no node is running, failed or blocked, pending work means that a
  node is ready.\<close>

theorem unblocked_graph_has_ready_node:
  assumes wf: "graph_wf g" and todo: "n \<in> snd ` set (nodes g)" "state n \<noteq> Succeeded"
  shows "(\<exists>m \<in> snd ` set (nodes g). (gn_id m, gn_id n) \<in> (set (dependencies g))\<^sup>* \<and>
      (\<forall>p. (p, gn_id m) \<in> set (dependencies g) \<longrightarrow> succeeded_node g p) \<and>
      (m \<in> set (ready_nodes g) \<or> state m \<in> {Running, Failed, Blocked})) \<and>
    ((\<forall>m \<in> snd ` set (nodes g). state m \<notin> {Running, Failed, Blocked}) \<longrightarrow> ready_nodes g \<noteq> [])"
proof -
  let ?U = "{i \<in> node_ids g. \<not> succeeded_node g i \<and> (i, gn_id n) \<in> (set (dependencies g))\<^sup>*}"
  have look: "map_of (nodes g) k = Some m" if "(k, m) \<in> set (nodes g)" for k m
    by (rule graph_wf_lookup[OF wf that])
  from todo obtain k where k: "(k, n) \<in> set (nodes g)" by force
  then have "gn_id n = k" using wf by (auto simp: graph_wf_def)
  then have kU: "k \<in> ?U" using todo(2) look[OF k] imageI[OF k, of fst]
    by (simp add: node_ids_def succeeded_node_def)
  have ac: "acyclic (set (dependencies g))" and fin: "finite ?U"
    using wf by (simp_all add: graph_wf_def node_ids_def)
  obtain m where m: "m \<in> ?U" and min: "\<forall>p. (p, m) \<in> set (dependencies g) \<longrightarrow> p \<notin> ?U"
    using wf_unfinished_minimal[OF ac kU fin] by blast
  then obtain nd where nd: "(m, nd) \<in> set (nodes g)" by (auto simp: node_ids_def)
  have id: "gn_id nd = m" using wf nd by (auto simp: graph_wf_def)
  have mem: "nd \<in> snd ` set (nodes g)" using nd by (metis imageI snd_conv)
  have unfinished: "state nd \<noteq> Succeeded" using m look[OF nd] by (simp add: succeeded_node_def)
  have pre: "succeeded_node g p" if "(p, m) \<in> set (dependencies g)" for p
  proof -
    have "p \<in> node_ids g" using wf that by (auto simp: graph_wf_def)
    moreover have "(p, gn_id n) \<in> (set (dependencies g))\<^sup>*"
      using that m by (auto intro: converse_rtrancl_into_rtrancl)
    ultimately show ?thesis using min that by blast
  qed
  have ready: "nd \<in> set (ready_nodes g) \<or> state nd \<in> {Running, Failed, Blocked}"
    using unfinished mem pre by (cases "state nd") (auto simp: ready_nodes_member id)
  then have some: "(\<forall>m \<in> snd ` set (nodes g). state m \<notin> {Running, Failed, Blocked}) \<longrightarrow> ready_nodes g \<noteq> []"
    using mem by auto
  from ready mem m pre have "\<exists>m \<in> snd ` set (nodes g). (gn_id m, gn_id n) \<in> (set (dependencies g))\<^sup>* \<and>
      (\<forall>p. (p, gn_id m) \<in> set (dependencies g) \<longrightarrow> succeeded_node g p) \<and>
      (m \<in> set (ready_nodes g) \<or> state m \<in> {Running, Failed, Blocked})"
    by (intro bexI[of _ nd]) (simp_all add: id)
  with some show ?thesis by blast
qed

theorem unblocked_graph_has_ready_node_witness:
  "ready_nodes \<lparr>version = 1, nodes = [(''a'', plain_node ''a''), (''b'', plain_node ''b'')],
     dependencies = [(''a'', ''b'')]\<rparr> \<noteq> []"
proof -
  let ?g = "\<lparr>version = 1, nodes = [(''a'', plain_node ''a''), (''b'', plain_node ''b'')],
     dependencies = [(''a'', ''b'')]\<rparr>"
  have "acyclic {(''a'', ''b'')}" by (simp add: acyclic_insert) (simp add: acyclic_def)
  then have wf: "graph_wf ?g" by (simp add: graph_wf_def bt_ok_def node_ids_def plain_node_def)
  have calm: "\<forall>m \<in> snd ` set (nodes ?g). state m \<notin> {Running, Failed, Blocked}"
    and todo: "plain_node ''b'' \<in> snd ` set (nodes ?g)" "state (plain_node ''b'') \<noteq> Succeeded"
    by (simp_all add: plain_node_def)
  from unblocked_graph_has_ready_node [OF wf todo] calm show ?thesis by blast
qed

text \<open>C4: fencing: once an agent holds a live lease on a node, whatever acquisitions, foreign releases
  and waiting follow, until it expires or its holder gives it back the lease stays valid, every
  other acquisition of the node is fenced and no other holder or generation can release it.\<close>

theorem live_lease_is_exclusive:
  assumes run: "lease_run es (t, now) (t', now')"
    and held: "lease_validate t n h g now = Inr l"
    and kept: "TryRelease n h g \<notin> set es"
    and live: "now' < expires_at l"
  shows "lease_validate t' n h g now' = Inr l \<and>
    (\<forall>l'. lease_node l' = n \<longrightarrow> lease_acquire t' l' now' = Inl LeaseFenced) \<and>
    (\<forall>h' g'. (h', g') \<noteq> (h, g) \<longrightarrow> lease_release t' n h' g' now' = Inl LeaseFenced)"
proof -
  have v: "lease_validate t' n h g now' = Inr l"
    using lease_run_keeps_valid[OF run, of n h g l] assms by simp
  then have m: "map_of (leases t') n = Some l" "now' < expires_at l" "holder l = h" "generation l = g"
    by (simp_all add: result_simps)
  have "lease_acquire t' l' now' = Inl LeaseFenced" if "lease_node l' = n" for l'
    using m that by (simp add: lease_acquire_def is_expired_def)
  moreover have "lease_release t' n h' g' now' = Inl LeaseFenced" if "(h', g') \<noteq> (h, g)" for h' g'
    using m that by (auto simp: lease_release_def lease_validate_def is_expired_def)
  ultimately show ?thesis using v by blast
qed

theorem live_lease_is_exclusive_witness:
  "let l = lease_new 0 ''u1'' ''n'' ''a'' 1 600; t = \<lparr>leases = [(''n'', l)]\<rparr>
   in lease_acquire t (lease_new 5 ''u2'' ''n'' ''b'' 2 600) 5 = Inl LeaseFenced"
proof -
  let ?l = "lease_new 0 ''u1'' ''n'' ''a'' 1 600"
  let ?t = "\<lparr>leases = [(''n'', ?l)]\<rparr>"
  have run: "lease_run [Wait 5] (?t, 0) (?t, 5)"
    using lease_run.go[OF lease_step.waited[of 5 ?t 0] lease_run.stop] by simp
  have held: "lease_validate ?t ''n'' ''a'' 1 0 = Inr ?l"
    by (simp add: result_simps lease_new_def)
  show ?thesis
    using live_lease_is_exclusive [OF run held] by (simp add: lease_new_def)
qed

end
