(* ===== verification/Agents.thy ===== *)
theory Agents
  imports Graph
begin

text \<open>
  The scheduler and the messages of cooperating agents (\<open>crates/minha-core/src/agent.rs\<close>). Handlers
  take the scheduler and return it updated with their result. Fresh message ids are drawn from a
  supply \<open>fresh\<close>; \<open>accept\<close> reads the wall clock (\<open>clock\<close>) for the lease's expiry and is given \<open>now\<close>
  for the admission test, as in the source. A span of time is in nanoseconds.
\<close>

datatype agent_status = Idle | Busy | Waiting | Offline

record agent =
  ag_id :: agent_id
  ag_status :: agent_status
  capacity :: u32
  ag_generation :: u64

datatype inter_agent_message =
    TaskOffer (message_id: str) (offer_from: agent_id) (offer_to: agent_id) (offer_node: node_id)
      (offer_version: u64)
  | TaskAccepted str agent_id node_id lease
  | TaskProgress str agent_id node_id str
  | TaskCompleted str agent_id node_id bool "str list"
  | QuestionMessage question
  | Answer str str agent_id str
  | Cancel str agent_id node_id str

fun inter_agent_message_id :: "inter_agent_message \<Rightarrow> str" where
  "inter_agent_message_id (TaskOffer m _ _ _ _) = m"
| "inter_agent_message_id (TaskAccepted m _ _ _) = m"
| "inter_agent_message_id (TaskProgress m _ _ _) = m"
| "inter_agent_message_id (TaskCompleted m _ _ _ _) = m"
| "inter_agent_message_id (Answer m _ _ _) = m"
| "inter_agent_message_id (Cancel m _ _ _) = m"
| "inter_agent_message_id (QuestionMessage q) = q_id q"

datatype scheduler_message =
    Tick time
  | Register agent
  | Unregister agent_id
  | Deliver inter_agent_message
  | LeaseExpiredMessage node_id u64

datatype scheduler_error =
    UnknownAgent agent_id | AtCapacity | NotReady node_id | LeaseFailed str

record scheduler =
  agents :: "(agent_id \<times> agent) list"
  sched_leases :: lease_table
  outbox :: "inter_agent_message list"

definition scheduler_default :: scheduler where
  "scheduler_default = \<lparr>agents = [], sched_leases = \<lparr>leases = []\<rparr>, outbox = []\<rparr>"

definition register :: "agent \<Rightarrow> scheduler \<Rightarrow> scheduler" where
  "register a s = s\<lparr>agents := bt_insert (ag_id a) a (agents s)\<rparr>"

definition available :: "agent \<Rightarrow> bool" where
  "available a = (ag_status a = Idle \<and> 0 < capacity a)"

definition take_up :: "agent \<Rightarrow> agent" where
  "take_up a = a\<lparr>ag_status := Busy, capacity := capacity a - 1\<rparr>"

fun schedule_loop ::
    "(nat \<Rightarrow> str) \<Rightarrow> u64 \<Rightarrow> graph_node list \<Rightarrow> (agent_id \<times> agent) list \<Rightarrow> inter_agent_message list
     \<Rightarrow> inter_agent_message list \<times> (agent_id \<times> agent) list" where
  "schedule_loop fresh v [] ags offers = (offers, ags)"
| "schedule_loop fresh v (n # ns) ags offers =
     (case List.find (\<lambda>(k, a). available a) ags of
        None \<Rightarrow> (offers, ags)
      | Some (k, a) \<Rightarrow>
          schedule_loop fresh v ns (bt_update k take_up ags)
            (offers @ [TaskOffer (fresh (length offers)) ''scheduler'' (ag_id a) (gn_id n) v]))"

definition schedule ::
    "(nat \<Rightarrow> str) \<Rightarrow> graph_version \<Rightarrow> scheduler \<Rightarrow> scheduler \<times> inter_agent_message list" where
  "schedule fresh g s =
     (let (offers, ags) = schedule_loop fresh (version g) (ready_nodes g) (agents s) []
      in (s\<lparr>agents := ags\<rparr>, offers))"

fun handle ::
    "(nat \<Rightarrow> str) \<Rightarrow> graph_version \<Rightarrow> scheduler_message \<Rightarrow> scheduler
     \<Rightarrow> scheduler \<times> (scheduler_error + inter_agent_message list)" where
  "handle fresh g (Register a) s = (register a s, Inr [])"
| "handle fresh g (Unregister i) s = (s\<lparr>agents := bt_remove i (agents s)\<rparr>, Inr [])"
| "handle fresh g (Tick at) s = (let (s', offers) = schedule fresh g s in (s', Inr offers))"
| "handle fresh g (Deliver m) s = (s\<lparr>outbox := outbox s @ [m]\<rparr>, Inr [])"
| "handle fresh g (LeaseExpiredMessage n gen) s =
     (s\<lparr>sched_leases := (sched_leases s)\<lparr>leases := bt_remove n (leases (sched_leases s))\<rparr>\<rparr>, Inr [])"

fun lease_error_text :: "lease_error \<Rightarrow> str" where
  "lease_error_text LeaseNotFound = ''lease not found''"
| "lease_error_text LeaseExpired = ''lease is expired''"
| "lease_error_text LeaseFenced = ''lease holder or generation is stale''"

definition minutes :: "int \<Rightarrow> int" where
  "minutes m = m * 60 * 1000000000"

definition accept ::
    "time \<Rightarrow> str \<Rightarrow> agent_id \<Rightarrow> node_id \<Rightarrow> u64 \<Rightarrow> time \<Rightarrow> scheduler
     \<Rightarrow> scheduler \<times> (scheduler_error + lease)" where
  "accept clock uuid i n gen now s =
     (case map_of (agents s) i of
        None \<Rightarrow> (s, Inl (UnknownAgent i))
      | Some a \<Rightarrow>
          if ag_status a \<noteq> Busy then (s, Inl AtCapacity)
          else
            (let l = lease_new clock uuid n i gen (minutes 10)
             in case lease_acquire (sched_leases s) l now of
                  Inl e \<Rightarrow> (s, Inl (LeaseFailed (lease_error_text e)))
                | Inr t \<Rightarrow> (s\<lparr>sched_leases := t\<rparr>, Inr l)))"

section \<open>One round of scheduling\<close>

definition available_ids :: "(agent_id \<times> agent) list \<Rightarrow> agent_id list" where
  "available_ids ags = map fst (filter (\<lambda>(k, a). available a) ags)"

definition agents_wf :: "(agent_id \<times> agent) list \<Rightarrow> bool" where
  "agents_wf ags = (distinct (map fst ags) \<and> (\<forall>(k, a) \<in> set ags. ag_id a = k))"

definition mark :: "agent_id set \<Rightarrow> (agent_id \<times> agent) list \<Rightarrow> (agent_id \<times> agent) list" where
  "mark T ags = map (\<lambda>(k, a). if k \<in> T then (k, take_up a) else (k, a)) ags"

lemma take_up_not_available [simp]: "\<not> available (take_up a)"
  by (simp add: available_def take_up_def)

lemma take_up_id [simp]: "ag_id (take_up a) = ag_id a"
  by (simp add: take_up_def)

lemma find_available_None: "List.find (\<lambda>(k, a). available a) ags = None \<longleftrightarrow> available_ids ags = []"
  by (auto simp: find_None_iff available_ids_def filter_empty_conv)

lemma find_available_Some:
  "List.find (\<lambda>(k, a). available a) ags = Some (k, a) \<Longrightarrow>
     available_ids ags = k # tl (available_ids ags) \<and> (k, a) \<in> set ags \<and> available a"
  by (induction ags) (auto simp: available_ids_def split: if_splits)

lemma available_ids_update:
  assumes "List.find (\<lambda>(k, a). available a) ags = Some (k, a)" and "distinct (map fst ags)"
  shows "available_ids (bt_update k take_up ags) = tl (available_ids ags)"
  using assms
proof (induction ags)
  case (Cons p ags)
  obtain j b where p: "p = (j, b)" by (cases p)
  show ?case
  proof (cases "available b")
    case True
    with Cons.prems have "k = j" "j \<notin> fst ` set ags" by (auto simp: p)
    then have "bt_update k take_up ags = ags" by (simp add: bt_update_absent)
    with True \<open>k = j\<close> show ?thesis by (simp add: p available_ids_def bt_update_def)
  next
    case False
    with Cons.prems have f: "List.find (\<lambda>(k, a). available a) ags = Some (k, a)" by (simp add: p)
    then have "k \<in> fst ` set ags" using find_available_Some by force
    with Cons.prems have "j \<noteq> k" by (auto simp: p)
    with False Cons f show ?thesis by (simp add: p available_ids_def bt_update_def)
  qed
qed simp

lemma agents_wf_update: "agents_wf ags \<Longrightarrow> agents_wf (bt_update k take_up ags)"
  by (auto simp: agents_wf_def dest!: set_bt_update)

lemma mark_update: "k \<notin> T \<Longrightarrow> mark T (bt_update k take_up ags) = mark (insert k T) ags"
  by (auto simp: mark_def bt_update_def)

lemma available_ids_distinct: "agents_wf ags \<Longrightarrow> distinct (available_ids ags)"
  by (simp add: agents_wf_def available_ids_def distinct_map_filter)

lemma schedule_loop_spec:
  assumes "agents_wf ags"
  shows "\<exists>new. schedule_loop fresh v ns ags offers =
      (offers @ new, mark (set (take (length ns) (available_ids ags))) ags) \<and>
    map offer_to new = take (length ns) (available_ids ags) \<and>
    map offer_node new = map gn_id (take (length (available_ids ags)) ns) \<and>
    (\<forall>m \<in> set new. \<exists>i t n. m = TaskOffer i ''scheduler'' t n v)"
  using assms
proof (induction ns arbitrary: ags offers)
  case Nil
  show ?case by (simp add: mark_def)
next
  case (Cons n ns)
  show ?case
  proof (cases "List.find (\<lambda>(k, a). available a) ags")
    case None
    then have "available_ids ags = []" by (simp add: find_available_None)
    with None show ?thesis by (simp add: mark_def)
  next
    case (Some p)
    then obtain k a where f: "List.find (\<lambda>(k, a). available a) ags = Some (k, a)" by (cases p) auto
    define ids where "ids = tl (available_ids ags)"
    have av: "available_ids ags = k # ids" and ka: "(k, a) \<in> set ags"
      using find_available_Some[OF f] by (auto simp: ids_def)
    have id: "ag_id a = k" using Cons.prems ka by (auto simp: agents_wf_def)
    have upd: "available_ids (bt_update k take_up ags) = ids"
      using available_ids_update[OF f] Cons.prems by (simp add: agents_wf_def ids_def)
    have k: "k \<notin> set (take (length ns) ids)"
      using available_ids_distinct[OF Cons.prems] av by (auto dest: in_set_takeD)
    show ?thesis
      using Cons.IH[OF agents_wf_update[OF Cons.prems], of k
          "offers @ [TaskOffer (fresh (length offers)) ''scheduler'' k (gn_id n) v]"]
      by (auto simp: f id av upd mark_update[OF k])
  qed
qed

section \<open>The scheduler's invariant\<close>

definition scheduler_wf :: "scheduler \<Rightarrow> bool" where
  "scheduler_wf s \<longleftrightarrow> bt_ok (agents s) \<and> agents_wf (agents s) \<and> bt_ok (leases (sched_leases s))"

lemma scheduler_wf_default: "scheduler_wf scheduler_default"
  by (simp add: scheduler_wf_def scheduler_default_def agents_wf_def)

lemma agents_wf_iff: "bt_ok ags \<Longrightarrow> agents_wf ags \<longleftrightarrow> (\<forall>(k, a) \<in> set ags. ag_id a = k)"
  by (simp add: agents_wf_def bt_ok_distinct)

lemma keys_mark [simp]: "map fst (mark T ags) = map fst ags"
  by (induction ags) (auto simp: mark_def)

lemma agents_wf_mark: "agents_wf ags \<Longrightarrow> agents_wf (mark T ags)"
  by (simp add: agents_wf_def) (auto simp: mark_def split: if_splits)

lemma schedule_agents:
  "agents_wf (agents s) \<Longrightarrow> schedule fresh g s = (s', offers) \<Longrightarrow>
     s' = s\<lparr>agents := mark (set (map offer_to offers)) (agents s)\<rparr>"
  using schedule_loop_spec[of "agents s" fresh "version g" "ready_nodes g" "[]"]
  by (auto simp: schedule_def simp flip: set_map)

lemma handle_wf: "scheduler_wf s \<Longrightarrow> handle fresh g m s = (s', r) \<Longrightarrow> scheduler_wf s'"
proof (induction fresh g m s rule: handle.induct)
  case (1 fresh g a s)
  then show ?case
    by (auto simp: scheduler_wf_def register_def bt_ok_insert agents_wf_iff dest!: set_bt_insert)
next
  case (2 fresh g i s)
  then show ?case
    by (auto simp: scheduler_wf_def bt_ok_remove agents_wf_iff) (auto simp: bt_remove_def)
next
  case (3 fresh g at s)
  then have wf: "agents_wf (agents s)" by (simp add: scheduler_wf_def)
  from 3 obtain offers where "schedule fresh g s = (s', offers)" by (auto split: prod.splits)
  from schedule_agents[OF wf this] 3 wf show ?case
    by (simp add: scheduler_wf_def bt_ok_def agents_wf_mark)
next
  case (4 fresh g m s)
  then show ?case by (auto simp: scheduler_wf_def)
next
  case (5 fresh g n gen s)
  then show ?case by (auto simp: scheduler_wf_def bt_ok_remove)
qed

fun run_handler ::
    "(nat \<Rightarrow> str) \<Rightarrow> graph_version \<Rightarrow> scheduler_message list \<Rightarrow> scheduler \<Rightarrow> scheduler" where
  "run_handler fresh g [] s = s"
| "run_handler fresh g (m # ms) s = run_handler fresh g ms (fst (handle fresh g m s))"

lemma run_handler_wf: "scheduler_wf s \<Longrightarrow> scheduler_wf (run_handler fresh g ms s)"
  by (induction ms arbitrary: s) (auto, metis handle_wf prod.collapse)

lemma accept_Inr:
  "accept clock uuid i n gen now s = (s', Inr l) \<Longrightarrow>
     l = lease_new clock uuid n i gen (minutes 10) \<and>
     lease_acquire (sched_leases s) l now = Inr (sched_leases s') \<and> agents s' = agents s"
  by (auto simp: accept_def Let_def split: option.splits if_splits sum.splits)

section \<open>Properties\<close>

text \<open>C22: one tick, run on a scheduler reached by any messages, offers the ready nodes in order to the
  available agents in key order, one node each, until either runs out; exactly the offered agents
  become busy and lose one unit of capacity, and leases and outbox are untouched.\<close>

theorem tick_matches_ready_nodes_to_idle_agents:
  assumes s: "s = run_handler fresh0 g0 ms scheduler_default"
    and tick: "handle fresh g (Tick at) s = (s', r)"
  shows "\<exists>offers. r = Inr offers \<and>
    map offer_to offers = take (length (ready_nodes g)) (available_ids (agents s)) \<and>
    map offer_node offers = map gn_id (take (length (available_ids (agents s))) (ready_nodes g)) \<and>
    distinct (map offer_to offers) \<and>
    s' = s\<lparr>agents := map (\<lambda>(k, a). if k \<in> set (map offer_to offers)
              then (k, a\<lparr>ag_status := Busy, capacity := capacity a - 1\<rparr>) else (k, a)) (agents s)\<rparr>"
proof -
  have wf: "agents_wf (agents s)"
    using run_handler_wf[OF scheduler_wf_default] s by (simp add: scheduler_wf_def)
  obtain offers where sch: "schedule fresh g s = (s', offers)" and r: "r = Inr offers"
    using tick by (auto split: prod.splits)
  have t: "map offer_to offers = take (length (ready_nodes g)) (available_ids (agents s))"
    and n: "map offer_node offers =
        map gn_id (take (length (available_ids (agents s))) (ready_nodes g))"
    using schedule_loop_spec[OF wf, of fresh "version g" "ready_nodes g" "[]"] sch
    by (auto simp: schedule_def)
  have "distinct (map offer_to offers)" using t available_ids_distinct[OF wf] by simp
  moreover have "s' = s\<lparr>agents := map (\<lambda>(k, a). if k \<in> set (map offer_to offers)
        then (k, a\<lparr>ag_status := Busy, capacity := capacity a - 1\<rparr>) else (k, a)) (agents s)\<rparr>"
    using schedule_agents[OF wf sch] unfolding mark_def take_up_def .
  ultimately show ?thesis using r t n by blast
qed

definition worker :: "agent_id \<Rightarrow> agent" where
  "worker i = \<lparr>ag_id = i, ag_status = Idle, capacity = 1, ag_generation = 1\<rparr>"

theorem tick_matches_ready_nodes_to_idle_agents_witness:
  "\<exists>offers. snd (handle (\<lambda>_. ''m'') \<lparr>version = 1, nodes = [(''n'', plain_node ''n'')], dependencies = []\<rparr>
      (Tick 0) (run_handler (\<lambda>_. ''m'') graph_new [Register (worker ''a'')] scheduler_default)) =
     Inr offers \<and> map offer_to offers = [''a'']"
proof -
  let ?s = "run_handler (\<lambda>_. ''m'') graph_new [Register (worker ''a'')] scheduler_default"
  let ?g = "\<lparr>version = 1, nodes = [(''n'', plain_node ''n'')], dependencies = []\<rparr>"
  have av: "available_ids (agents ?s) = [''a'']"
    by (simp add: scheduler_default_def register_def worker_def available_ids_def available_def)
  have rd: "length (ready_nodes ?g) = 1" by (simp add: ready_nodes_def plain_node_def)
  obtain s' r where h: "handle (\<lambda>_. ''m'') ?g (Tick 0) ?s = (s', r)" by (cases "handle (\<lambda>_. ''m'') ?g (Tick 0) ?s")
  show ?thesis
    using tick_matches_ready_nodes_to_idle_agents [OF refl h] unfolding h av rd by auto
qed

text \<open>A node accepted by one agent cannot be accepted by any other agent before the ten-minute
  lease runs out: the second acceptance fails with the fencing error and changes nothing; once it
  has run out, a busy agent's acceptance succeeds.\<close>

theorem accepted_node_is_not_accepted_twice:
  assumes first: "accept clock uuid i n gen now s = (s', Inr l)"
    and busy: "map_of (agents s') j = Some b" "ag_status b = Busy"
  shows "(now' < clock + minutes 10 \<longrightarrow> accept clock' uuid' j n gen' now' s' =
           (s', Inl (LeaseFailed ''lease holder or generation is stale''))) \<and>
    (clock + minutes 10 \<le> now' \<longrightarrow> is_ok (snd (accept clock' uuid' j n gen' now' s')))"
proof (intro conjI impI)
  let ?l' = "lease_new clock' uuid' n j gen' (minutes 10)"
  have acq: "lease_acquire (sched_leases s) l now = Inr (sched_leases s')"
    and l: "l = lease_new clock uuid n i gen (minutes 10)"
    using accept_Inr[OF first] by auto
  have same: "lease_node ?l' = lease_node l" by (simp add: l lease_new_def)
  have ex: "expires_at l = clock + minutes 10" by (simp add: l lease_new_def)
  show "accept clock' uuid' j n gen' now' s' =
      (s', Inl (LeaseFailed ''lease holder or generation is stale''))"
    if "now' < clock + minutes 10"
    using lt.no_double_grant[OF acq same, of now'] that ex busy by (simp add: accept_def Let_def)
  show "is_ok (snd (accept clock' uuid' j n gen' now' s'))" if "clock + minutes 10 \<le> now'"
    using lt.regrant_after_expiry[OF acq same, of now'] that ex busy
    by (auto simp: accept_def Let_def is_ok_iff)
qed

theorem accepted_node_is_not_accepted_twice_witness:
  "let b = (worker ''b'')\<lparr>ag_status := Busy\<rparr>; a = (worker ''a'')\<lparr>ag_status := Busy\<rparr>;
       s = scheduler_default\<lparr>agents := [(''a'', a), (''b'', b)]\<rparr>;
       s' = fst (accept 0 ''u'' ''a'' ''n'' 1 0 s)
   in accept 9 ''v'' ''b'' ''n'' 2 9 s' = (s', Inl (LeaseFailed ''lease holder or generation is stale''))"
proof -
  let ?b = "(worker ''b'')\<lparr>ag_status := Busy\<rparr>" and ?a = "(worker ''a'')\<lparr>ag_status := Busy\<rparr>"
  let ?s = "scheduler_default\<lparr>agents := [(''a'', ?a), (''b'', ?b)]\<rparr>"
  let ?l = "lease_new 0 ''u'' ''n'' ''a'' 1 (minutes 10)"
  let ?s' = "?s\<lparr>sched_leases := \<lparr>leases = [(''n'', ?l)]\<rparr>\<rparr>"
  have acc: "accept 0 ''u'' ''a'' ''n'' 1 0 ?s = (?s', Inr ?l)"
    by (simp add: accept_def scheduler_default_def lease_acquire_def lease_new_def Let_def)
  have busy: "map_of (agents ?s') ''b'' = Some ?b" "ag_status ?b = Busy" by simp_all
  have "(9::int) < 0 + minutes 10" by (simp add: minutes_def)
  then show ?thesis
    unfolding Let_def acc fst_conv
    using accepted_node_is_not_accepted_twice [OF acc busy, of 9 9 "''v''" 2] by blast
qed

end
