(* ===== verification/Tools_Policy.thy ===== *)
theory Tools_Policy
  imports Rust_Base
begin

text \<open>
  The closed tool catalogue and its authorisation (\<open>crates/minha-core/src/tools.rs\<close>). \<open>Risk\<close> derives
  \<open>Ord\<close> in the order of its constructors, so it is an instance of \<open>linorder\<close>.
\<close>

datatype role = Planner | Implementer | Reviewer | Integrator | RecoveryRole

datatype risk = Read | LocalWrite | Destructive | RemoteWrite

datatype tool = Git | Worktree | Rewind | Merge | RecoveryTool | Github

fun risk_index :: "risk \<Rightarrow> nat" where
  "risk_index Read = 0"
| "risk_index LocalWrite = 1"
| "risk_index Destructive = 2"
| "risk_index RemoteWrite = 3"

lemma risk_index_eq [simp]: "risk_index a = risk_index b \<longleftrightarrow> a = b"
  by (cases a; cases b) simp_all

instantiation risk :: linorder
begin

definition less_eq_risk :: "risk \<Rightarrow> risk \<Rightarrow> bool" where
  "a \<le> b \<longleftrightarrow> risk_index a \<le> risk_index b"

definition less_risk :: "risk \<Rightarrow> risk \<Rightarrow> bool" where
  "a < b \<longleftrightarrow> risk_index a < risk_index b"

instance
  by standard (auto simp: less_eq_risk_def less_risk_def dest: antisym)

end

record tool_spec =
  ts_tool :: tool
  ts_risk :: risk
  ts_roles :: "role list"

definition ALL_ROLES :: "role list" where
  "ALL_ROLES = [Planner, Implementer, Reviewer, Integrator, RecoveryRole]"

definition IMPLEMENT :: "role list" where
  "IMPLEMENT = [Implementer, Integrator, RecoveryRole]"

definition INTEGRATE :: "role list" where
  "INTEGRATE = [Integrator, RecoveryRole]"

definition RECOVER :: "role list" where
  "RECOVER = [RecoveryRole, Integrator]"

definition TOOL_SPECS :: "tool_spec list" where
  "TOOL_SPECS =
     [\<lparr>ts_tool = Git, ts_risk = Read, ts_roles = ALL_ROLES\<rparr>,
      \<lparr>ts_tool = Worktree, ts_risk = LocalWrite, ts_roles = IMPLEMENT\<rparr>,
      \<lparr>ts_tool = Rewind, ts_risk = Destructive, ts_roles = RECOVER\<rparr>,
      \<lparr>ts_tool = Merge, ts_risk = LocalWrite, ts_roles = INTEGRATE\<rparr>,
      \<lparr>ts_tool = RecoveryTool, ts_risk = LocalWrite, ts_roles = RECOVER\<rparr>,
      \<lparr>ts_tool = Github, ts_risk = RemoteWrite, ts_roles = INTEGRATE\<rparr>]"

record tool_request =
  tr_role :: role
  tr_tool :: tool
  acknowledged_risk :: bool

datatype authorization_error = UnknownTool | RoleDenied | RiskNotAcknowledged

definition tool_spec_of :: "tool \<Rightarrow> tool_spec option" where
  "tool_spec_of t = List.find (\<lambda>candidate. ts_tool candidate = t) TOOL_SPECS"

definition authorize :: "tool_request \<Rightarrow> authorization_error + tool_spec" where
  "authorize request =
     (case tool_spec_of (tr_tool request) of
        None \<Rightarrow> Inl UnknownTool
      | Some spec \<Rightarrow>
          if tr_role request \<notin> set (ts_roles spec) then Inl RoleDenied
          else if ts_risk spec \<ge> Destructive \<and> \<not> acknowledged_risk request
          then Inl RiskNotAcknowledged
          else Inr spec)"

record risk_runner =
  rr_role :: role
  acknowledge_risk :: bool

definition risk_runner_new :: "role \<Rightarrow> risk_runner" where
  "risk_runner_new r = \<lparr>rr_role = r, acknowledge_risk = False\<rparr>"

definition with_risk_acknowledged :: "risk_runner \<Rightarrow> risk_runner" where
  "with_risk_acknowledged r = r\<lparr>acknowledge_risk := True\<rparr>"

definition risk_runner_check :: "risk_runner \<Rightarrow> tool \<Rightarrow> authorization_error + tool_spec" where
  "risk_runner_check r t =
     authorize \<lparr>tr_role = rr_role r, tr_tool = t, acknowledged_risk = acknowledge_risk r\<rparr>"

lemma catalogue_total:
  obtains spec where "tool_spec_of t = Some spec" and "ts_tool spec = t"
    and "ts_roles spec \<in> {ALL_ROLES, IMPLEMENT, INTEGRATE, RECOVER}"
proof -
  have "\<exists>spec. tool_spec_of t = Some spec \<and> ts_tool spec = t \<and>
      ts_roles spec \<in> {ALL_ROLES, IMPLEMENT, INTEGRATE, RECOVER}"
    by (cases t) (simp_all add: tool_spec_of_def TOOL_SPECS_def)
  then show thesis using that by blast
qed

text \<open>The catalogue is closed and total, and authorisation follows it: every tool has a
  specification of its own; a request is granted exactly when the role is listed for the tool and a
  destructive or remote risk is acknowledged; a runner that was not told to acknowledge a risk never
  gets \<open>rewind\<close> or \<open>github\<close>, and planners and reviewers get nothing but \<open>git\<close>.\<close>

theorem authorize_follows_the_catalogue:
  "(\<exists>spec. tool_spec_of (tr_tool q) = Some spec \<and> ts_tool spec = tr_tool q \<and>
      (is_ok (authorize q) \<longleftrightarrow>
         tr_role q \<in> set (ts_roles spec) \<and> (ts_risk spec < Destructive \<or> acknowledged_risk q))) \<and>
   \<not> is_ok (risk_runner_check (risk_runner_new r) Rewind) \<and>
   \<not> is_ok (risk_runner_check (risk_runner_new r) Github) \<and>
   (\<forall>runner t. rr_role runner \<in> {Planner, Reviewer} \<longrightarrow>
      is_ok (risk_runner_check runner t) = (t = Git))"
proof (intro conjI)
  obtain spec where s: "tool_spec_of (tr_tool q) = Some spec" "ts_tool spec = tr_tool q"
    by (rule catalogue_total)
  then show "\<exists>spec. tool_spec_of (tr_tool q) = Some spec \<and> ts_tool spec = tr_tool q \<and>
      (is_ok (authorize q) \<longleftrightarrow>
         tr_role q \<in> set (ts_roles spec) \<and> (ts_risk spec < Destructive \<or> acknowledged_risk q))"
    by (auto simp: authorize_def)
  show "\<not> is_ok (risk_runner_check (risk_runner_new r) Rewind)"
    by (cases r) (simp_all add: risk_runner_check_def risk_runner_new_def authorize_def
        tool_spec_of_def TOOL_SPECS_def RECOVER_def)
  show "\<not> is_ok (risk_runner_check (risk_runner_new r) Github)"
    by (cases r) (simp_all add: risk_runner_check_def risk_runner_new_def authorize_def
        tool_spec_of_def TOOL_SPECS_def INTEGRATE_def less_eq_risk_def)
  show "\<forall>runner t. rr_role runner \<in> {Planner, Reviewer} \<longrightarrow>
      is_ok (risk_runner_check runner t) = (t = Git)"
  proof (intro allI impI)
    fix runner :: risk_runner and t
    assume "rr_role runner \<in> {Planner, Reviewer}"
    then show "is_ok (risk_runner_check runner t) = (t = Git)"
      by (cases t) (auto simp: risk_runner_check_def authorize_def tool_spec_of_def TOOL_SPECS_def
          ALL_ROLES_def IMPLEMENT_def INTEGRATE_def RECOVER_def less_eq_risk_def)
  qed
qed

theorem authorize_follows_the_catalogue_witness:
  "is_ok (risk_runner_check (risk_runner_new Reviewer) Git) \<and>
   \<not> is_ok (risk_runner_check (with_risk_acknowledged (risk_runner_new Reviewer)) Merge)"
  using authorize_follows_the_catalogue [of _ Reviewer]
  by (simp add: risk_runner_new_def with_risk_acknowledged_def)

end
