(* ===== verification/Models_Routing.thy ===== *)
theory Models_Routing
  imports Rust_Search
begin

text \<open>
  Model names and deterministic routing (\<open>crates/minha-core/src/models.rs\<close>). \<open>min_by_key\<close> returns the
  first of equal minima and \<open>max_by_key\<close> the last of equal maxima, as the iterator methods do.
\<close>

datatype model = Spark | Luna | Terra | Sol

definition model_all :: "model list" where
  "model_all = [Spark, Luna, Terra, Sol]"

fun model_str :: "model \<Rightarrow> str" where
  "model_str Spark = ''spark''"
| "model_str Luna = ''luna''"
| "model_str Terra = ''terra''"
| "model_str Sol = ''sol''"

fun slug :: "model \<Rightarrow> str" where
  "slug Spark = ''gpt-5.3-codex-spark''"
| "slug Luna = ''gpt-5.6-luna''"
| "slug Terra = ''gpt-5.6-terra''"
| "slug Sol = ''gpt-5.6-sol''"

fun model_priority :: "model \<Rightarrow> u8" where
  "model_priority Spark = 0"
| "model_priority Luna = 1"
| "model_priority Terra = 2"
| "model_priority Sol = 3"

datatype unknown_model = UnknownModel str

definition model_try_from :: "str \<Rightarrow> unknown_model + model" where
  "model_try_from value =
     (let name = to_ascii_lowercase (trim value) in
      if name = ''spark'' \<or> name = ''gpt-5.3-codex-spark'' then Inr Spark
      else if name = ''luna'' \<or> name = ''gpt-5.6-luna'' then Inr Luna
      else if name = ''terra'' \<or> name = ''gpt-5.6-terra'' then Inr Terra
      else if name = ''sol'' \<or> name = ''gpt-5.6-sol'' then Inr Sol
      else Inl (UnknownModel value))"

definition unknown_model_text :: "unknown_model \<Rightarrow> str" where
  "unknown_model_text e = (case e of UnknownModel v \<Rightarrow> ''unknown model: '' @ v)"

definition model_of_name :: "str \<Rightarrow> model option" where
  "model_of_name s = (case model_try_from s of Inl _ \<Rightarrow> None | Inr m \<Rightarrow> Some m)"

lemma trim_model_str: "to_ascii_lowercase (trim (model_str m)) = model_str m"
  by (cases m; simp only: model_str.simps; code_simp)

lemma trim_slug: "to_ascii_lowercase (trim (slug m)) = slug m"
  by (cases m; simp only: slug.simps; code_simp)

interpretation model_wire: wire_format model_str model_of_name "\<lambda>_. True"
proof unfold_locales
  show "model_of_name (model_str m) = Some m" for m
    unfolding model_of_name_def model_try_from_def Let_def trim_model_str by (cases m) simp_all
qed

interpretation slug_wire: wire_format slug model_of_name "\<lambda>_. True"
proof unfold_locales
  show "model_of_name (slug m) = Some m" for m
    unfolding model_of_name_def model_try_from_def Let_def trim_slug by (cases m) simp_all
qed

section \<open>Routes\<close>

datatype route_intent = Fast | Balanced | Reasoning | Quality

record route_request =
  rq_intent :: route_intent
  rq_candidates :: "model list"

definition route_request_default :: route_request where
  "route_request_default = \<lparr>rq_intent = Balanced, rq_candidates = model_all\<rparr>"

record route =
  rt_model :: model
  rt_intent :: route_intent

datatype route_error = NoCandidates

fun min_by_key :: "('a \<Rightarrow> nat) \<Rightarrow> 'a list \<Rightarrow> 'a option" where
  "min_by_key f [] = None"
| "min_by_key f (x # xs) =
     (case min_by_key f xs of None \<Rightarrow> Some x | Some y \<Rightarrow> Some (if f y < f x then y else x))"

fun max_by_key :: "('a \<Rightarrow> nat) \<Rightarrow> 'a list \<Rightarrow> 'a option" where
  "max_by_key f [] = None"
| "max_by_key f (x # xs) =
     (case max_by_key f xs of None \<Rightarrow> Some x | Some y \<Rightarrow> Some (if f x \<le> f y then y else x))"

fun preferred :: "route_intent \<Rightarrow> model" where
  "preferred Fast = Spark"
| "preferred Balanced = Luna"
| "preferred Reasoning = Terra"
| "preferred Quality = Sol"

definition route_model :: "route_request \<Rightarrow> route_error + route" where
  "route_model request =
     (let found =
            (case List.find (\<lambda>m. m = preferred (rq_intent request)) (rq_candidates request) of
               Some m \<Rightarrow> Some m
             | None \<Rightarrow>
                 (case rq_intent request of
                    Fast \<Rightarrow> min_by_key model_priority (rq_candidates request)
                  | _ \<Rightarrow> max_by_key model_priority (rq_candidates request)))
      in r_map (\<lambda>m. \<lparr>rt_model = m, rt_intent = rq_intent request\<rparr>) (ok_or found NoCandidates))"

lemma min_by_key_None: "min_by_key f xs = None \<longleftrightarrow> xs = []"
  by (cases xs) (auto split: option.splits)

lemma max_by_key_None: "max_by_key f xs = None \<longleftrightarrow> xs = []"
  by (cases xs) (auto split: option.splits)

lemma min_by_key_Some: "min_by_key f xs = Some m \<Longrightarrow> m \<in> set xs \<and> (\<forall>x \<in> set xs. f m \<le> f x)"
proof (induction xs arbitrary: m)
  case Nil
  then show ?case by simp
next
  case (Cons x xs)
  show ?case
  proof (cases "min_by_key f xs")
    case None
    with Cons.prems show ?thesis by (simp add: min_by_key_None)
  next
    case (Some y)
    from Cons.IH[OF Some] Cons.prems Some show ?thesis
      by (auto split: if_splits dest: order_trans less_imp_le)
  qed
qed

lemma max_by_key_Some: "max_by_key f xs = Some m \<Longrightarrow> m \<in> set xs \<and> (\<forall>x \<in> set xs. f x \<le> f m)"
proof (induction xs arbitrary: m)
  case Nil
  then show ?case by simp
next
  case (Cons x xs)
  show ?case
  proof (cases "max_by_key f xs")
    case None
    with Cons.prems show ?thesis by (simp add: max_by_key_None)
  next
    case (Some y)
    from Cons.IH[OF Some] Cons.prems Some show ?thesis
      by (auto split: if_splits dest: order_trans less_imp_le)
  qed
qed

lemma find_equal: "List.find (\<lambda>m. m = p) xs = (if p \<in> set xs then Some p else None)"
  by (induction xs) auto

text \<open>Routing is total and optimal for its intent: it fails exactly without candidates and
  otherwise returns a candidate: the preferred model whenever it is one, else the cheapest candidate
  for \<open>fast\<close> and the most capable one for every other intent.\<close>

theorem route_picks_the_best_candidate:
  "(is_ok (route_model q) \<longleftrightarrow> rq_candidates q \<noteq> []) \<and>
   (\<forall>r. route_model q = Inr r \<longrightarrow>
      rt_model r \<in> set (rq_candidates q) \<and> rt_intent r = rq_intent q \<and>
      (preferred (rq_intent q) \<in> set (rq_candidates q) \<longrightarrow> rt_model r = preferred (rq_intent q)) \<and>
      (preferred (rq_intent q) \<notin> set (rq_candidates q) \<longrightarrow>
         (\<forall>m \<in> set (rq_candidates q).
            if rq_intent q = Fast then model_priority (rt_model r) \<le> model_priority m
            else model_priority m \<le> model_priority (rt_model r))))"
proof (cases "preferred (rq_intent q) \<in> set (rq_candidates q)")
  case True
  then show ?thesis by (auto simp: route_model_def Let_def find_equal)
next
  case False
  show ?thesis
  proof (cases "rq_intent q = Fast")
    case True
    with False show ?thesis
      by (cases "min_by_key model_priority (rq_candidates q)")
         (auto simp: route_model_def Let_def find_equal min_by_key_None dest: min_by_key_Some)
  next
    case nf: False
    have "route_model q = r_map (\<lambda>m. \<lparr>rt_model = m, rt_intent = rq_intent q\<rparr>)
        (ok_or (max_by_key model_priority (rq_candidates q)) NoCandidates)"
      using False nf by (cases "rq_intent q") (auto simp: route_model_def Let_def find_equal)
    with False nf show ?thesis
      by (cases "max_by_key model_priority (rq_candidates q)")
         (auto simp: max_by_key_None dest: max_by_key_Some)
  qed
qed

theorem route_picks_the_best_candidate_witness:
  "route_model \<lparr>rq_intent = Reasoning, rq_candidates = [Luna, Spark]\<rparr> =
     Inr \<lparr>rt_model = Luna, rt_intent = Reasoning\<rparr>"
proof -
  let ?q = "\<lparr>rq_intent = Reasoning, rq_candidates = [Luna, Spark]\<rparr>"
  note best = route_picks_the_best_candidate [of ?q]
  then obtain r where r: "route_model ?q = Inr r" by (auto simp: is_ok_iff)
  with best have "rt_model r = Luna \<and> rt_intent r = Reasoning" by auto
  with r show ?thesis by (cases r) simp
qed

text \<open>Both printed forms of a model, its name and its provider slug, are read back, in any ASCII
  case and with white space around them; an unknown name is returned as it was given, untrimmed.\<close>

theorem model_names_are_read_back:
  "model_try_from (model_str m) = Inr m \<and> model_try_from (slug m) = Inr m \<and>
   (to_ascii_lowercase (trim s) = to_ascii_lowercase (trim t) \<longrightarrow>
      (is_ok (model_try_from s) \<longrightarrow> model_try_from t = model_try_from s)) \<and>
   (\<forall>e. model_try_from s = Inl e \<longrightarrow> e = UnknownModel s)"
proof (intro conjI)
  have wire: "model_of_name s = Some m \<longleftrightarrow> model_try_from s = Inr m" for s m
    by (auto simp: model_of_name_def split: sum.splits)
  show "model_try_from (model_str m) = Inr m" using model_wire.parse_render[of m] wire by simp
  show "model_try_from (slug m) = Inr m" using slug_wire.parse_render[of m] wire by simp
  show "to_ascii_lowercase (trim s) = to_ascii_lowercase (trim t) \<longrightarrow>
      (is_ok (model_try_from s) \<longrightarrow> model_try_from t = model_try_from s)"
    by (auto simp: model_try_from_def Let_def)
  show "\<forall>e. model_try_from s = Inl e \<longrightarrow> e = UnknownModel s"
    by (auto simp: model_try_from_def Let_def split: if_splits)
qed

theorem model_names_are_read_back_witness:
  "model_try_from ''  GPT-5.6-Sol '' = Inr Sol"
proof -
  have eq: "to_ascii_lowercase (trim (slug Sol)) = to_ascii_lowercase (trim ''  GPT-5.6-Sol '')"
    by code_simp
  have s: "model_try_from (slug Sol) = Inr Sol"
    using model_names_are_read_back [of Sol "slug Sol" "slug Sol"] by blast
  then show ?thesis
    using model_names_are_read_back [of Sol "slug Sol" "''  GPT-5.6-Sol ''"] eq by simp
qed

end
