(* ===== verification/Judge.thy ===== *)
theory Judge
  imports Graph
begin

text \<open>
  The read-only goal judge (\<open>crates/minha-core/src/judge.rs\<close>): a contract names the nodes that must
  have succeeded and the level of evidence each needs; the verdict is a function of the contract, the
  graph and the evidence alone. \<open>required_nodes\<close> is a \<open>BTreeSet\<close>.
\<close>

datatype evidence_level = Claim | Plan | Diff | Test | Review | Runtime

fun evidence_rank :: "evidence_level \<Rightarrow> u8" where
  "evidence_rank Claim = 0"
| "evidence_rank Plan = 1"
| "evidence_rank Diff = 2"
| "evidence_rank Test = 3"
| "evidence_rank Review = 4"
| "evidence_rank Runtime = 5"

record evidence =
  ev_id :: str
  ev_level :: evidence_level
  ev_statement :: str
  ev_source :: str
  ev_supports :: "str list"

record goal_contract =
  gc_goal :: str
  required_nodes :: "str list"
  minimum_evidence :: evidence_level
  read_only :: bool

definition goal_contract_new :: "str \<Rightarrow> goal_contract" where
  "goal_contract_new goal =
     \<lparr>gc_goal = goal, required_nodes = [], minimum_evidence = Test, read_only = True\<rparr>"

definition requires_node :: "goal_contract \<Rightarrow> str \<Rightarrow> goal_contract" where
  "requires_node c n = c\<lparr>required_nodes := bs_insert n (required_nodes c)\<rparr>"

definition requiring_at_least :: "goal_contract \<Rightarrow> evidence_level \<Rightarrow> goal_contract" where
  "requiring_at_least c level = c\<lparr>minimum_evidence := level\<rparr>"

datatype judgement =
  Satisfied
| Incomplete (missing_nodes: "str list") (insufficient_evidence: "str list")
| Contradicted (reasons: "str list")

record judge_report =
  jr_judgement :: judgement
  observed_graph_version :: u64
  evidence_used :: "str list"
  mutated :: bool

definition node_missing :: "graph_version \<Rightarrow> str \<Rightarrow> bool" where
  "node_missing g n =
     (case map_of (nodes g) n of None \<Rightarrow> True | Some node \<Rightarrow> state node \<noteq> Succeeded)"

definition supported :: "goal_contract \<Rightarrow> evidence list \<Rightarrow> str \<Rightarrow> bool" where
  "supported c es n =
     list_ex (\<lambda>e. list_ex (\<lambda>s. s = n) (ev_supports e) \<and>
                  evidence_rank (ev_level e) \<ge> evidence_rank (minimum_evidence c)) es"

definition contradicts :: "evidence \<Rightarrow> bool" where
  "contradicts e = contains (to_ascii_lowercase (ev_statement e)) ''contradict''"

definition evaluate :: "goal_contract \<Rightarrow> graph_version \<Rightarrow> evidence list \<Rightarrow> judge_report" where
  "evaluate c g es =
     (let missing = filter (node_missing g) (required_nodes c);
          insufficient = filter (\<lambda>n. \<not> supported c es n) (required_nodes c);
          judgement =
            (if list_ex contradicts es
             then Contradicted (map ev_statement (filter contradicts es))
             else if missing = [] \<and> insufficient = [] then Satisfied
             else Incomplete missing insufficient)
      in \<lparr>jr_judgement = judgement, observed_graph_version = version g,
          evidence_used = map ev_id es, mutated = False\<rparr>)"

lemma evaluate_Satisfied:
  "jr_judgement (evaluate c g es) = Satisfied \<longleftrightarrow>
     (\<forall>e \<in> set es. \<not> contradicts e) \<and>
     (\<forall>n \<in> set (required_nodes c). \<not> node_missing g n \<and> supported c es n)"
  by (auto simp: evaluate_def Let_def filter_empty_conv list_ex_iff)

lemma supported_mono: "set es \<subseteq> set es' \<Longrightarrow> supported c es n \<Longrightarrow> supported c es' n"
  by (auto simp: supported_def list_ex_iff)

lemma supported_iff:
  "supported c es n \<longleftrightarrow> (\<exists>e \<in> set es. n \<in> set (ev_supports e) \<and>
     evidence_rank (minimum_evidence c) \<le> evidence_rank (ev_level e))"
  by (auto simp: supported_def list_ex_iff)

lemma update_state_nodes:
  "update_state g m st = Inr g' \<Longrightarrow>
     map_of (nodes g') n = (if n = m then map_option (\<lambda>node. node\<lparr>state := st\<rparr>) (map_of (nodes g) n)
                            else map_of (nodes g) n)"
  by (auto simp: update_state_def split: option.splits)

section \<open>Properties\<close>

text \<open>The judge is satisfied exactly when no statement contradicts and every required node has
  succeeded in the graph and is supported by evidence of the required level; otherwise its report
  names exactly the nodes that are missing or unsupported, or every contradicting statement.\<close>

theorem judge_is_exact:
  "(jr_judgement (evaluate c g es) = Satisfied \<longleftrightarrow>
      (\<forall>e \<in> set es. \<not> contradicts e) \<and>
      (\<forall>n \<in> set (required_nodes c).
         (\<exists>node. map_of (nodes g) n = Some node \<and> state node = Succeeded) \<and>
         (\<exists>e \<in> set es. n \<in> set (ev_supports e) \<and>
            evidence_rank (minimum_evidence c) \<le> evidence_rank (ev_level e)))) \<and>
   (\<forall>ms is. jr_judgement (evaluate c g es) = Incomplete ms is \<longrightarrow>
      set ms = {n \<in> set (required_nodes c). node_missing g n} \<and>
      set is = {n \<in> set (required_nodes c). \<not> supported c es n} \<and> (ms \<noteq> [] \<or> is \<noteq> [])) \<and>
   (\<forall>rs. jr_judgement (evaluate c g es) = Contradicted rs \<longrightarrow>
      rs \<noteq> [] \<and> set rs = {ev_statement e | e. e \<in> set es \<and> contradicts e}) \<and>
   \<not> mutated (evaluate c g es)"
proof (intro conjI)
  have "\<not> node_missing g n \<longleftrightarrow> (\<exists>node. map_of (nodes g) n = Some node \<and> state node = Succeeded)" for n
    by (auto simp: node_missing_def split: option.splits)
  then show "jr_judgement (evaluate c g es) = Satisfied \<longleftrightarrow>
      (\<forall>e \<in> set es. \<not> contradicts e) \<and>
      (\<forall>n \<in> set (required_nodes c).
         (\<exists>node. map_of (nodes g) n = Some node \<and> state node = Succeeded) \<and>
         (\<exists>e \<in> set es. n \<in> set (ev_supports e) \<and>
            evidence_rank (minimum_evidence c) \<le> evidence_rank (ev_level e)))"
    unfolding evaluate_Satisfied supported_iff by blast
  show "\<forall>ms is. jr_judgement (evaluate c g es) = Incomplete ms is \<longrightarrow>
      set ms = {n \<in> set (required_nodes c). node_missing g n} \<and>
      set is = {n \<in> set (required_nodes c). \<not> supported c es n} \<and> (ms \<noteq> [] \<or> is \<noteq> [])"
    by (auto simp: evaluate_def Let_def split: if_splits)
  show "\<forall>rs. jr_judgement (evaluate c g es) = Contradicted rs \<longrightarrow>
      rs \<noteq> [] \<and> set rs = {ev_statement e | e. e \<in> set es \<and> contradicts e}"
    by (auto simp: evaluate_def Let_def list_ex_iff filter_empty_conv split: if_splits)
  show "\<not> mutated (evaluate c g es)" by (simp add: evaluate_def Let_def)
qed

definition sample_node :: "str \<Rightarrow> graph_node" where
  "sample_node n = (plain_node n)\<lparr>state := Succeeded\<rparr>"

definition sample_evidence :: evidence where
  "sample_evidence = \<lparr>ev_id = ''e'', ev_level = Review, ev_statement = ''ok'', ev_source = ''s'',
     ev_supports = [''n'']\<rparr>"

theorem judge_is_exact_witness:
  "jr_judgement (evaluate (requires_node (goal_contract_new ''g'') ''n'')
     \<lparr>version = 1, nodes = [(''n'', sample_node ''n'')], dependencies = []\<rparr> [sample_evidence]) = Satisfied"
  using judge_is_exact [of "requires_node (goal_contract_new ''g'') ''n''"
     "\<lparr>version = 1, nodes = [(''n'', sample_node ''n'')], dependencies = []\<rparr>" "[sample_evidence]"]
  by (simp add: requires_node_def goal_contract_new_def sample_node_def sample_evidence_def contradicts_def
      to_ascii_lowercase_def lower_char_def)

text \<open>A satisfied verdict is stable: more evidence that does not contradict keeps it, and so does
  any update of the graph that leaves the required nodes alone.\<close>

theorem satisfied_verdict_is_stable:
  assumes "jr_judgement (evaluate c g es) = Satisfied"
    and "set es \<subseteq> set es'" and "\<forall>e \<in> set es'. \<not> contradicts e"
    and "update_state g m st = Inr g'" and "m \<notin> set (required_nodes c)"
  shows "jr_judgement (evaluate c g es') = Satisfied \<and> jr_judgement (evaluate c g' es') = Satisfied"
proof -
  have "node_missing g' n = node_missing g n" if "n \<in> set (required_nodes c)" for n
    using that assms(5) update_state_nodes[OF assms(4), of n] by (auto simp: node_missing_def)
  then show ?thesis
    using assms(1-3) supported_mono[OF assms(2)] unfolding evaluate_Satisfied by blast
qed

theorem satisfied_verdict_is_stable_witness:
  "\<exists>g'. update_state \<lparr>version = 1, nodes = [(''m'', plain_node ''m''), (''n'', sample_node ''n'')],
       dependencies = []\<rparr> ''m'' Failed = Inr g' \<and>
     jr_judgement (evaluate (requires_node (goal_contract_new ''g'') ''n'') g'
       [sample_evidence, sample_evidence]) = Satisfied"
proof -
  let ?g = "\<lparr>version = 1, nodes = [(''m'', plain_node ''m''), (''n'', sample_node ''n'')], dependencies = []\<rparr>"
    and ?c = "requires_node (goal_contract_new ''g'') ''n''"
  obtain g' where g': "update_state ?g ''m'' Failed = Inr g'" by (simp add: update_state_def)
  have plain: "\<not> contradicts sample_evidence"
    by (simp add: contradicts_def sample_evidence_def to_ascii_lowercase_def lower_char_def)
  have s: "jr_judgement (evaluate ?c ?g [sample_evidence]) = Satisfied"
    unfolding evaluate_Satisfied using plain
    by (simp add: requires_node_def goal_contract_new_def node_missing_def supported_def sample_node_def)
       (simp add: sample_evidence_def)
  have "''m'' \<notin> set (required_nodes ?c)" by (simp add: requires_node_def goal_contract_new_def)
  from satisfied_verdict_is_stable [OF s _ _ g' this, of "[sample_evidence, sample_evidence]"] plain g'
  show ?thesis by simp
qed

end
