(* ===== verification/Context_Budget.thy ===== *)
theory Context_Budget
  imports Rust_Search
begin

text \<open>
  Context accounting and predictive compaction (\<open>crates/minha-core/src/context.rs\<close>). The trigger of
  \<open>predictive_compaction\<close>, \<open>(context_limit as f32 * compact_at) as usize\<close>, is an argument, so what is
  proved holds for every value the floating-point product takes.
\<close>

datatype message_role = System | User | Assistant | ToolRole

record message =
  msg_role :: message_role
  msg_content :: str

definition estimate_tokens :: "str \<Rightarrow> usize" where
  "estimate_tokens text =
     (if blank text then 0
      else
        let words = length (split_whitespace text);
            punctuation = length (filter is_ascii_punctuation text)
        in max (div_ceil (char_count text) 4) (words + punctuation div 2))"

definition estimated_tokens :: "message \<Rightarrow> usize" where
  "estimated_tokens m = estimate_tokens (msg_content m) + 4"

definition EFFECTIVE_CONTEXT_PERCENT :: u64 where "EFFECTIVE_CONTEXT_PERCENT = 95"

datatype capability_source = ProviderCatalog | FallbackTable | LegacyCeiling

record context_policy =
  advertised_limit :: u64
  effective_limit :: u64
  protected_reserve :: u64
  output_allowance :: u64
  cp_source :: capability_source

definition fallback_context_window :: "str \<Rightarrow> u64" where
  "fallback_context_window model =
     (let m = to_ascii_lowercase model in
      if contains m ''deepseek-v4'' \<or> contains m ''mimo-v2.5'' then 1048576
      else if contains m ''spark'' then 128000 else 272000)"

definition default_output_allowance :: "str \<Rightarrow> u64" where
  "default_output_allowance model =
     (if contains (to_ascii_lowercase model) ''spark'' then 8192 else 16384)"

definition context_resolve :: "str \<Rightarrow> u64 option \<Rightarrow> usize option \<Rightarrow> context_policy" where
  "context_resolve model catalog_limit legacy_ceiling =
     (let (advertised, source) =
            (case catalog_limit of Some limit \<Rightarrow> (limit, ProviderCatalog)
             | None \<Rightarrow> (fallback_context_window model, FallbackTable));
          (limit, source) =
            (case legacy_ceiling of
               Some ceiling \<Rightarrow> if ceiling < advertised then (ceiling, LegacyCeiling) else (advertised, source)
             | None \<Rightarrow> (advertised, source));
          effective = sat_mul limit EFFECTIVE_CONTEXT_PERCENT div 100
      in \<lparr>advertised_limit = advertised, effective_limit = effective,
          protected_reserve = limit - effective,
          output_allowance = min (default_output_allowance model) (effective div 4),
          cp_source = source\<rparr>)"

definition forecast_fits :: "context_policy \<Rightarrow> u64 \<Rightarrow> u64 \<Rightarrow> bool" where
  "forecast_fits p current pending =
     (sat_add (sat_add current pending) (output_allowance p) \<le> effective_limit p)"

record compaction_config =
  context_limit :: usize
  reserve_tokens :: usize

definition compaction_config_default :: compaction_config where
  "compaction_config_default = \<lparr>context_limit = 272000, reserve_tokens = 13600\<rparr>"

record compaction_plan =
  should_compact :: bool
  plan_estimated_tokens :: usize
  target_tokens :: usize
  retain_from :: usize

text \<open>The loop that drops the oldest messages until the rest fits the target.\<close>

fun drop_until :: "message list \<Rightarrow> nat \<Rightarrow> nat \<Rightarrow> nat \<Rightarrow> nat" where
  "drop_until [] retained target first = first"
| "drop_until (m # ms) retained target first =
     (if retained > target then drop_until ms (retained - estimated_tokens m) target (first + 1)
      else first)"

definition predictive_compaction ::
    "message list \<Rightarrow> usize \<Rightarrow> compaction_config \<Rightarrow> usize \<Rightarrow> compaction_plan" where
  "predictive_compaction messages next_turn_tokens config trigger =
     (let used = sum_list (map estimated_tokens messages);
          total = sat_add used next_turn_tokens;
          target = context_limit config - reserve_tokens config;
          should = total \<ge> trigger \<or> total > context_limit config
      in if \<not> should
         then \<lparr>should_compact = False, plan_estimated_tokens = total, target_tokens = target,
               retain_from = 0\<rparr>
         else \<lparr>should_compact = True, plan_estimated_tokens = total, target_tokens = target,
               retain_from = drop_until messages total target 0\<rparr>)"

section \<open>Lemmas\<close>

lemma length_split_ws: "length (split_ws gs cur) \<le> length gs + (if cur = [] then 0 else 1)"
proof (induction gs cur rule: split_ws.induct)
  case (1 cur)
  then show ?case by simp
next
  case (2 g gs cur)
  then show ?case by (cases "is_whitespace g"; cases "cur = []") (auto split: if_splits)
qed

lemma words_le_chars: "length (split_whitespace s) \<le> char_count s"
  using length_split_ws[of "chars s" "[]"] by (simp add: split_whitespace_def char_count_def)

lemma drop_until_spec:
  defines "rest \<equiv> \<lambda>ms tot k. tot - sum_list (map estimated_tokens (take k ms))"
  shows "\<exists>k. drop_until ms tot target first = first + k \<and> k \<le> length ms \<and>
    (k = length ms \<or> rest ms tot k \<le> target) \<and> (\<forall>j < k. rest ms tot j > target)"
proof (induction ms arbitrary: tot first)
  case Nil
  then show ?case by (simp add: rest_def)
next
  case (Cons m ms)
  show ?case
  proof (cases "tot > target")
    case True
    from Cons[of "tot - estimated_tokens m" "first + 1"] obtain k where
      k: "drop_until ms (tot - estimated_tokens m) target (first + 1) = first + 1 + k" "k \<le> length ms"
        "k = length ms \<or> rest ms (tot - estimated_tokens m) k \<le> target"
      and low: "\<And>j. j < k \<Longrightarrow> rest ms (tot - estimated_tokens m) j > target"
      by blast
    have step: "rest (m # ms) tot (Suc j) = rest ms (tot - estimated_tokens m) j" for j
      by (simp add: rest_def)
    have "rest (m # ms) tot j > target" if "j < Suc k" for j
      using that True low step by (cases j) (auto simp: rest_def)
    with k True step show ?thesis by (intro exI[of _ "Suc k"]) auto
  next
    case False
    then show ?thesis by (intro exI[of _ 0]) (simp add: rest_def)
  qed
qed

section \<open>Properties\<close>

text \<open>A resolved policy never promises more than 95 per cent of the window it starts from: the
  effective limit and the protected reserve add up to the advertised limit or the lower legacy
  ceiling, the output allowance is at most a quarter of the effective limit, and a forecast that fits
  leaves room for the allowance within it.\<close>

theorem context_policy_stays_inside_the_window:
  fixes model catalog ceiling
  defines "p \<equiv> context_resolve model catalog ceiling"
  shows "100 * effective_limit p \<le> 95 * (effective_limit p + protected_reserve p) \<and>
    effective_limit p + protected_reserve p =
      (case ceiling of None \<Rightarrow> advertised_limit p | Some c \<Rightarrow> min c (advertised_limit p)) \<and>
    4 * output_allowance p \<le> effective_limit p \<and>
    (cp_source p = LegacyCeiling \<longleftrightarrow> (\<exists>c. ceiling = Some c \<and> c < advertised_limit p)) \<and>
    (forecast_fits p a b \<and> effective_limit p < u64_max \<longrightarrow>
       a + b + output_allowance p \<le> effective_limit p)"
proof -
  define limit where "limit = (case ceiling of None \<Rightarrow> advertised_limit p | Some c \<Rightarrow> min c (advertised_limit p))"
  have e: "effective_limit p = sat_mul limit 95 div 100" "protected_reserve p = limit - effective_limit p"
    "output_allowance p = min (default_output_allowance model) (effective_limit p div 4)"
    unfolding p_def limit_def context_resolve_def EFFECTIVE_CONTEXT_PERCENT_def Let_def
    by (cases catalog; cases ceiling; simp)+
  have m: "100 * effective_limit p \<le> 95 * limit" unfolding e(1) sat_mul_def by simp
  then have sum: "effective_limit p + protected_reserve p = limit" using e(2) by simp
  have "cp_source p = LegacyCeiling \<longleftrightarrow> (\<exists>c. ceiling = Some c \<and> c < advertised_limit p)"
    by (auto simp: p_def context_resolve_def Let_def split: option.splits)
  moreover have "forecast_fits p a b \<and> effective_limit p < u64_max \<longrightarrow>
       a + b + output_allowance p \<le> effective_limit p"
    by (auto simp: forecast_fits_def sat_add_def)
  ultimately show ?thesis using m sum e(3) by (simp add: limit_def min_le_iff_disj)
qed

theorem context_policy_stays_inside_the_window_witness:
  "forecast_fits (context_resolve ''sol'' None (Some 100000)) 70000 8000 \<and>
   70000 + 8000 + output_allowance (context_resolve ''sol'' None (Some 100000)) \<le> (95000 :: nat)"
proof -
  have w: "fallback_context_window ''sol'' = 272000" "default_output_allowance ''sol'' = 16384"
    by (simp_all add: fallback_context_window_def default_output_allowance_def to_ascii_lowercase_def
        lower_char_def)
  let ?p = "context_resolve ''sol'' None (Some 100000)"
  have e: "effective_limit ?p = 95000" "output_allowance ?p = 16384"
    by (simp_all add: context_resolve_def w EFFECTIVE_CONTEXT_PERCENT_def sat_mul_def)
  have f: "forecast_fits ?p 70000 8000" by (simp add: forecast_fits_def e sat_add_def)
  then show ?thesis
    using context_policy_stays_inside_the_window [of "''sol''" None "Some 100000" 70000 8000] by (simp add: e)
qed

text \<open>Compaction is predicted exactly when the estimate reaches the trigger or passes the window,
  and it then summarises the shortest run of oldest messages whose removal brings the estimate to the
  target, or all of them when none does.\<close>

theorem compaction_drops_the_shortest_prefix:
  fixes ms extra config trigger
  defines "plan \<equiv> predictive_compaction ms extra config trigger"
    and "left \<equiv> \<lambda>k. plan_estimated_tokens (predictive_compaction ms extra config trigger)
                     - sum_list (map estimated_tokens (take k ms))"
  shows "(should_compact plan \<longleftrightarrow>
      trigger \<le> plan_estimated_tokens plan \<or> context_limit config < plan_estimated_tokens plan) \<and>
    (\<not> should_compact plan \<longrightarrow> retain_from plan = 0) \<and>
    (should_compact plan \<longrightarrow> retain_from plan \<le> length ms \<and>
      (retain_from plan = length ms \<or> left (retain_from plan) \<le> target_tokens plan) \<and>
      (\<forall>k < retain_from plan. target_tokens plan < left k))"
  using drop_until_spec[of ms "sat_add (sum_list (map estimated_tokens ms)) extra"
      "context_limit config - reserve_tokens config" 0]
  by (auto simp: plan_def left_def predictive_compaction_def Let_def)

definition user_msg :: "str \<Rightarrow> message" where
  "user_msg s = \<lparr>msg_role = User, msg_content = s\<rparr>"

theorem compaction_drops_the_shortest_prefix_witness:
  "\<exists>plan. plan = predictive_compaction [user_msg ''a'', user_msg ''b''] 3
       \<lparr>context_limit = 12, reserve_tokens = 3\<rparr> 13 \<and>
     should_compact plan \<and> retain_from plan \<le> 2 \<and>
     (retain_from plan = 2 \<or> plan_estimated_tokens plan \<le> target_tokens plan + 5 * retain_from plan)"
proof -
  have e: "estimated_tokens (user_msg ''a'') = 5" "estimated_tokens (user_msg ''b'') = 5" by code_simp+
  let ?plan = "predictive_compaction [user_msg ''a'', user_msg ''b''] 3 \<lparr>context_limit = 12, reserve_tokens = 3\<rparr> 13"
  have t: "plan_estimated_tokens ?plan = 13" "should_compact ?plan" "target_tokens ?plan = 9" "retain_from ?plan = 1"
    by (simp_all add: predictive_compaction_def e sat_add_def)
  from compaction_drops_the_shortest_prefix [of "[user_msg ''a'', user_msg ''b'']" 3
      "\<lparr>context_limit = 12, reserve_tokens = 3\<rparr>" 13] show ?thesis by (simp add: t)
qed

text \<open>The token estimate is zero for blank text, and otherwise at least a quarter of the scalar
  values and at most one and a half times their number.\<close>

theorem token_estimate_bounds:
  "(estimate_tokens s = 0 \<longleftrightarrow> blank s) \<and>
   (\<not> blank s \<longrightarrow> char_count s \<le> 4 * estimate_tokens s) \<and>
   estimate_tokens s \<le> char_count s + length s div 2"
proof -
  have "\<not> blank s \<Longrightarrow> 0 < char_count s" by (cases s) (auto simp: char_count_def)
  moreover have "length (filter is_ascii_punctuation s) div 2 \<le> length s div 2"
    by (intro div_le_mono length_filter_le)
  ultimately show ?thesis
    using words_le_chars[of s] by (auto simp: estimate_tokens_def Let_def div_ceil_def max_def)
qed

theorem token_estimate_bounds_witness:
  "\<not> blank ''let x = 1;'' \<and> char_count ''let x = 1;'' \<le> 4 * estimate_tokens ''let x = 1;''"
proof -
  have "\<not> blank ''let x = 1;''" by code_simp
  then show ?thesis using token_estimate_bounds [of "''let x = 1;''"] by blast
qed

end
