(* ===== verification/Rust_Utf8.thy ===== *)
theory Rust_Utf8
  imports Rust_Search
begin

text \<open>
  \<open>String::from_utf8_lossy\<close>: well-formed UTF-8 is copied, and every maximal part of an ill-formed
  sequence becomes one U+FFFD, as the standard library documents. \<open>lead\<close> gives the ranges of the
  second byte and the length a lead byte asks for. \<open>is_alphanumeric\<close> is exact on ASCII; beyond ASCII
  the Unicode table is an argument, \<open>uni\<close>.
\<close>

definition in_range :: "nat \<Rightarrow> nat \<Rightarrow> char \<Rightarrow> bool" where
  "in_range lo hi c = (lo \<le> byte c \<and> byte c \<le> hi)"

text \<open>\<open>Some (n, lo, hi)\<close>: a sequence of \<open>n\<close> bytes whose second byte lies between \<open>lo\<close> and \<open>hi\<close>.\<close>

definition lead :: "char \<Rightarrow> (nat \<times> nat \<times> nat) option" where
  "lead c =
     (if byte c < 128 then Some (1, 0, 0)
      else if in_range 194 223 c then Some (2, 128, 191)
      else if byte c = 224 then Some (3, 160, 191)
      else if byte c = 237 then Some (3, 128, 159)
      else if in_range 225 239 c then Some (3, 128, 191)
      else if byte c = 240 then Some (4, 144, 191)
      else if byte c = 244 then Some (4, 128, 143)
      else if in_range 241 243 c then Some (4, 128, 191)
      else None)"

definition replacement :: str where
  "replacement = [CHR 0xEF, CHR 0xBF, CHR 0xBD]"

text \<open>How many bytes the sequence at the front takes, and whether it is well formed.\<close>

fun utf8_step :: "str \<Rightarrow> nat \<times> bool" where
  "utf8_step [] = (0, True)"
| "utf8_step (b # bs) =
     (case lead b of
        None \<Rightarrow> (1, False)
      | Some (n, lo, hi) \<Rightarrow>
          if n = 1 then (1, True)
          else if bs = [] \<or> \<not> in_range lo hi (hd bs) then (1, False)
          else if n = 2 then (2, True)
          else if length bs < 2 \<or> \<not> is_cont (bs ! 1) then (2, False)
          else if n = 3 then (3, True)
          else if length bs < 3 \<or> \<not> is_cont (bs ! 2) then (3, False)
          else (4, True))"

lemma utf8_step_pos: "s \<noteq> [] \<Longrightarrow> 0 < fst (utf8_step s)"
  by (cases s) (auto split: option.splits)

function from_utf8_lossy :: "str \<Rightarrow> str" where
  "from_utf8_lossy s =
     (if s = [] then []
      else
        let (n, good) = utf8_step s
        in (if good then take n s else replacement) @ from_utf8_lossy (drop n s))"
  by pat_completeness auto
termination
proof (relation "measure length")
  fix s :: str and x n good
  assume s: "s \<noteq> []" and "x = utf8_step s" "(n, good) = x"
  then have "0 < n" using utf8_step_pos[OF s] by (metis fst_conv)
  then show "(drop n s, s) \<in> measure length" using s by simp
qed simp

declare from_utf8_lossy.simps [simp del]

text \<open>Well-formed strings.\<close>

function utf8_valid :: "str \<Rightarrow> bool" where
  "utf8_valid s =
     (if s = [] then True
      else let (n, good) = utf8_step s in good \<and> utf8_valid (drop n s))"
  by pat_completeness auto
termination
proof (relation "measure length")
  fix s :: str and x n good
  assume s: "s \<noteq> []" and "x = utf8_step s" "(n, good) = x"
  then have "0 < n" using utf8_step_pos[OF s] by (metis fst_conv)
  then show "(drop n s, s) \<in> measure length" using s by simp
qed simp

declare utf8_valid.simps [simp del]

lemma lossy_Nil [simp]: "from_utf8_lossy [] = []"
  by (subst from_utf8_lossy.simps) simp

lemma utf8_valid_Nil [simp]: "utf8_valid []"
  by (subst utf8_valid.simps) simp

lemma lossy_valid: "utf8_valid s \<Longrightarrow> from_utf8_lossy s = s"
proof (induction s rule: from_utf8_lossy.induct)
  case (1 s)
  show ?case
  proof (cases "s = []")
    case False
    obtain n good where step: "utf8_step s = (n, good)" by fastforce
    with "1.prems" False have "good" "utf8_valid (drop n s)"
      by (subst (asm) utf8_valid.simps, simp)+
    with "1.IH"[OF False step[symmetric] refl] step False show ?thesis
      by (subst from_utf8_lossy.simps) simp
  qed simp
qed

lemma ascii_step: "byte c < 128 \<Longrightarrow> utf8_step (c # cs) = (1, True)"
  by (simp add: lead_def)

lemma lossy_ascii_Cons: "byte c < 128 \<Longrightarrow> from_utf8_lossy (c # cs) = c # from_utf8_lossy cs"
  by (subst from_utf8_lossy.simps) (simp add: ascii_step del: utf8_step.simps)

lemma ascii_valid: "\<forall>c \<in> set s. byte c < 128 \<Longrightarrow> utf8_valid s"
proof (induction s)
  case (Cons c s)
  then show ?case
    by (subst utf8_valid.simps) (simp add: ascii_step del: utf8_step.simps)
qed simp

section \<open>Alphanumeric scalar values\<close>

definition is_alphanumeric :: "(str \<Rightarrow> bool) \<Rightarrow> str \<Rightarrow> bool" where
  "is_alphanumeric uni g =
     (case g of [c] \<Rightarrow> if byte c < 128 then is_ascii_alphanumeric c else uni g | _ \<Rightarrow> uni g)"

end
