(* ===== verification/Cache_Core.thy ===== *)
theory Cache_Core
  imports Rust_Utf8 "HOL-Library.Multiset"
begin

text \<open>
  Cache policy, input manifests, keys and secret detection (\<open>crates/minha-core/src/cache.rs\<close>).
  \<open>sha256\<close> (the \<open>sha2\<close> crate) and \<open>uni\<close> (the non-ASCII part of \<open>char::is_alphanumeric\<close>) are
  arguments. A \<open>SystemTime\<close> and a \<open>Duration\<close> are nanoseconds; \<open>checked_add\<close> fails past the largest time.
\<close>

section \<open>Policy\<close>

definition DEFAULT_MAX_BYTES :: u64 where "DEFAULT_MAX_BYTES = 512 * 1024 * 1024"

type_synonym nanos = nat

definition DEFAULT_TTL :: nanos where "DEFAULT_TTL = 30 * 24 * 60 * 60 * 1000000000"

definition SYSTEM_TIME_MAX :: nanos where
  "SYSTEM_TIME_MAX = 9223372036854775807 * 1000000000 + 999999999"

definition checked_add :: "nanos \<Rightarrow> nanos \<Rightarrow> nanos option" where
  "checked_add t d = (if t + d \<le> SYSTEM_TIME_MAX then Some (t + d) else None)"

record cache_policy =
  policy_max_bytes :: u64
  policy_ttl :: nanos

definition cache_policy_default :: cache_policy where
  "cache_policy_default = \<lparr>policy_max_bytes = DEFAULT_MAX_BYTES, policy_ttl = DEFAULT_TTL\<rparr>"

datatype cache_class = Exact | Ttl | Never

definition is_cacheable :: "cache_class \<Rightarrow> bool" where
  "is_cacheable c = (c \<noteq> Never)"

fun class_expires_at :: "cache_class \<Rightarrow> nanos \<Rightarrow> cache_policy \<Rightarrow> nanos option" where
  "class_expires_at Exact stored_at policy = None"
| "class_expires_at Ttl stored_at policy = checked_add stored_at (policy_ttl policy)"
| "class_expires_at Never stored_at policy = Some stored_at"

section \<open>Manifests and keys\<close>

definition hex_digit :: "nat \<Rightarrow> char" where
  "hex_digit n = (if n < 10 then char_of (48 + n) else char_of (87 + n))"

definition hex :: "str \<Rightarrow> str" where
  "hex bytes = concat (map (\<lambda>b. [hex_digit (byte b div 16), hex_digit (byte b mod 16)]) bytes)"

record observed_input =
  oi_name :: str
  oi_digest :: str
  oi_size :: u64

definition observed_input_new :: "(str \<Rightarrow> str) \<Rightarrow> str \<Rightarrow> str \<Rightarrow> observed_input" where
  "observed_input_new sha256 name bytes =
     \<lparr>oi_name = name, oi_digest = hex (sha256 bytes), oi_size = length bytes\<rparr>"

definition manifest_new :: "observed_input list \<Rightarrow> observed_input list" where
  "manifest_new inputs = sort_key (\<lambda>i. (oi_name i, oi_digest i)) inputs"

fun le_bytes :: "nat \<Rightarrow> nat \<Rightarrow> str" where
  "le_bytes 0 n = []"
| "le_bytes (Suc k) n = char_of (n mod 256) # le_bytes k (n div 256)"

definition write_field :: "str \<Rightarrow> str" where
  "write_field value = le_bytes 8 (length value) @ value"

definition canonical_bytes :: "observed_input list \<Rightarrow> str" where
  "canonical_bytes inputs =
     concat (map (\<lambda>i. write_field (oi_name i) @ write_field (oi_digest i) @ le_bytes 8 (oi_size i)) inputs)"

text \<open>What \<open>cache_key\<close> feeds the hasher, and the key.\<close>

definition cache_key_input :: "str \<Rightarrow> str \<Rightarrow> observed_input list \<Rightarrow> str" where
  "cache_key_input namespace request manifest =
     write_field namespace @ write_field request @ write_field (canonical_bytes manifest)"

definition cache_key :: "(str \<Rightarrow> str) \<Rightarrow> str \<Rightarrow> str \<Rightarrow> observed_input list \<Rightarrow> str" where
  "cache_key sha256 namespace request manifest = hex (sha256 (cache_key_input namespace request manifest))"

section \<open>Secrets\<close>

definition quote :: str where "quote = [CHR 0x22]"

definition trim_quotes :: "str \<Rightarrow> str" where
  "trim_quotes s = trim_matches (\<lambda>g. g = quote) s"

definition find_separator :: "str \<Rightarrow> nat option" where
  "find_separator s = find_char (\<lambda>c. c = CHR ''='' \<or> c = CHR '':'') s"

definition ends_with_any :: "str \<Rightarrow> str list \<Rightarrow> bool" where
  "ends_with_any s ps = list_ex (ends_with s) ps"

definition credential_value :: "str \<Rightarrow> bool" where
  "credential_value value =
     (let v = trim_quotes value in
      starts_with v ''sk-'' \<or> starts_with v ''ghp_'' \<or> starts_with v ''gho_'' \<or>
      contains v ''-----BEGIN'')"

definition credential_assignment :: "str \<Rightarrow> bool" where
  "credential_assignment line =
     (case find_separator line of
        None \<Rightarrow> False
      | Some separator \<Rightarrow>
          let key = map (\<lambda>c. if c = CHR ''-'' \<or> c = CHR '' '' then CHR ''_'' else c)
                      (trim_quotes (trim (take separator line)));
              value = trim (drop (separator + 1) line);
              strong_key = ends_with_any key
                [''api_key'', ''password'', ''token'', ''secret'', ''authorization'']
          in strong_key \<and> value \<noteq> [] \<or> ends_with key ''key'' \<and> credential_value value)"

definition sk_token :: "(str \<Rightarrow> bool) \<Rightarrow> str \<Rightarrow> bool" where
  "sk_token uni token =
     (length token > 3 \<and> starts_with token ''sk-'' \<and>
      list_ex (is_alphanumeric uni) (chars (drop 3 token)))"

definition secret_markers :: "str list" where
  "secret_markers =
     [''api_key='', ''api-key:'', ''authorization: bearer '', ''private key'', ''password='']"

definition secret_reason :: "(str \<Rightarrow> bool) \<Rightarrow> str \<Rightarrow> str \<Rightarrow> str option" where
  "secret_reason uni name bytes =
     (if contains_any (to_ascii_lowercase name)
           [''.env'', ''.pem'', ''.key'', ''credentials'', ''secrets'', ''token'']
      then Some ''secret-like filename''
      else
        let text = to_ascii_lowercase (from_utf8_lossy bytes) in
        if list_ex credential_assignment (lines text)
        then Some ''contains a credential assignment''
        else if list_ex (\<lambda>line. starts_with (trim_start line) ''bearer '') (lines text)
        then Some ''contains a bearer credential''
        else if list_ex (sk_token uni) (split_whitespace text)
        then Some ''contains a sk- prefixed credential''
        else map_option (\<lambda>marker. ''contains '' @ marker) (List.find (contains text) secret_markers))"

definition contains_secret :: "(str \<Rightarrow> bool) \<Rightarrow> str \<Rightarrow> str \<Rightarrow> bool" where
  "contains_secret uni name bytes = (secret_reason uni name bytes \<noteq> None)"

record secret_input =
  si_name :: str
  si_reason :: str

fun observe_all ::
    "(str \<Rightarrow> str) \<Rightarrow> (str \<Rightarrow> bool) \<Rightarrow> (str \<times> str) list \<Rightarrow> secret_input + observed_input list" where
  "observe_all sha256 uni [] = Inr []"
| "observe_all sha256 uni ((name, bytes) # rest) =
     (case secret_reason uni name bytes of
        Some reason \<Rightarrow> Inl \<lparr>si_name = name, si_reason = reason\<rparr>
      | None \<Rightarrow> r_map (\<lambda>os. observed_input_new sha256 name bytes # os) (observe_all sha256 uni rest))"

definition observe ::
    "(str \<Rightarrow> str) \<Rightarrow> (str \<Rightarrow> bool) \<Rightarrow> (str \<times> str) list \<Rightarrow> secret_input + observed_input list" where
  "observe sha256 uni inputs = r_map manifest_new (observe_all sha256 uni inputs)"

section \<open>Redaction\<close>

definition REDACTED :: str where "REDACTED = ''<REDACTED>''"

fun replace_first :: "str \<Rightarrow> str \<Rightarrow> str \<Rightarrow> str" where
  "replace_first [] from to = (if from = [] then to else [])"
| "replace_first (c # cs) from to =
     (if starts_with (c # cs) from then to @ drop (length from) (c # cs)
      else c # replace_first cs from to)"

definition redact_line :: "str \<Rightarrow> str" where
  "redact_line line =
     (let lower = to_ascii_lowercase line;
          assignment =
            (case find_separator line of
               None \<Rightarrow> None
             | Some separator \<Rightarrow>
                 let key = trim_quotes (trim (take separator lower));
                     value = trim (drop (separator + 1) line);
                     strong_key = ends_with_any key
                       [''api_key'', ''api-key'', ''password'', ''token'', ''secret'', ''authorization''];
                     credential = starts_with (to_ascii_lowercase (trim_quotes value)) ''sk-''
                 in if strong_key \<or> ends_with key ''key'' \<and> credential
                    then Some (take (separator + 1) line @ REDACTED) else None)
      in case assignment of
           Some redacted \<Rightarrow> redacted
         | None \<Rightarrow>
             (case (if starts_with (trim_start lower) ''bearer '' then find_str lower ''bearer '' else None) of
                Some marker \<Rightarrow> take (marker + length ''bearer '') line @ REDACTED
              | None \<Rightarrow>
                  (case List.find (\<lambda>token. length token > 3 \<and> starts_with token ''sk-'')
                          (split_whitespace line) of
                     Some token \<Rightarrow> replace_first line token (''sk-'' @ REDACTED)
                   | None \<Rightarrow> line)))"

definition redact_secrets :: "str \<Rightarrow> str" where
  "redact_secrets input = join [CHR 0x0A] (map redact_line (lines input))"

section \<open>Lemmas on keys\<close>

lemma length_le_bytes [simp]: "length (le_bytes k n) = k"
  by (induction k n rule: le_bytes.induct) auto

lemma le_bytes_Nil_iff [simp]: "le_bytes k n = [] \<longleftrightarrow> k = 0"
  by (cases k) simp_all

lemma le_bytes_inj: "m < 256 ^ k \<Longrightarrow> n < 256 ^ k \<Longrightarrow> le_bytes k m = le_bytes k n \<Longrightarrow> m = n"
proof (induction k arbitrary: m n)
  case 0
  then show ?case by simp
next
  case (Suc k)
  from Suc.prems(3) have "m mod 256 = n mod 256" and rest: "le_bytes k (m div 256) = le_bytes k (n div 256)"
    by (auto dest: arg_cong[of "char_of _" _ of_char])
  moreover have "m div 256 < 256 ^ k" "n div 256 < 256 ^ k"
    using Suc.prems(1,2) by (simp_all add: less_mult_imp_div_less mult.commute)
  then have "m div 256 = n div 256" using Suc.IH rest by blast
  ultimately show ?case by (metis div_mult_mod_eq)
qed

lemma write_field_inj:
  assumes "length a \<le> u64_max" and "length b \<le> u64_max"
    and "write_field a @ s = write_field b @ t"
  shows "a = b \<and> s = t"
proof -
  from assms(3) have "le_bytes 8 (length a) = le_bytes 8 (length b)" and ab: "a @ s = b @ t"
    by (auto simp: write_field_def append_eq_append_conv)
  then have "length a = length b"
    using assms(1,2) le_bytes_inj[of "length a" 8 "length b"] by simp
  with ab show ?thesis by simp
qed

definition input_fits :: "observed_input \<Rightarrow> bool" where
  "input_fits i = (length (oi_name i) \<le> u64_max \<and> length (oi_digest i) \<le> u64_max \<and> oi_size i \<le> u64_max)"

lemma canonical_bytes_Nil_iff [simp]: "canonical_bytes xs = [] \<longleftrightarrow> xs = []"
  by (cases xs) (simp_all add: canonical_bytes_def write_field_def)

lemma canonical_bytes_Nil [simp]: "canonical_bytes [] = []"
  by simp

lemma canonical_bytes_inj:
  assumes "\<forall>i \<in> set xs. input_fits i" and "\<forall>i \<in> set ys. input_fits i"
    and "canonical_bytes xs = canonical_bytes ys"
  shows "xs = ys"
  using assms
proof (induction xs arbitrary: ys)
  case Nil
  then show ?case by (metis canonical_bytes_Nil_iff)
next
  case (Cons x xs)
  then have "ys \<noteq> []" by (metis canonical_bytes_Nil_iff list.distinct(1))
  then obtain y ys' where ys: "ys = y # ys'" by (cases ys) auto
  have eq: "write_field (oi_name x) @ write_field (oi_digest x) @ le_bytes 8 (oi_size x) @ canonical_bytes xs =
      write_field (oi_name y) @ write_field (oi_digest y) @ le_bytes 8 (oi_size y) @ canonical_bytes ys'"
    using Cons.prems(3) by (simp add: ys canonical_bytes_def)
  have fits: "input_fits x" "input_fits y" using Cons.prems by (simp_all add: ys)
  from write_field_inj[OF _ _ eq] fits have n: "oi_name x = oi_name y"
    and eq2: "write_field (oi_digest x) @ le_bytes 8 (oi_size x) @ canonical_bytes xs =
      write_field (oi_digest y) @ le_bytes 8 (oi_size y) @ canonical_bytes ys'"
    by (auto simp: input_fits_def)
  from write_field_inj[OF _ _ eq2] fits have d: "oi_digest x = oi_digest y"
    and "le_bytes 8 (oi_size x) = le_bytes 8 (oi_size y)" and rest: "canonical_bytes xs = canonical_bytes ys'"
    by (auto simp: input_fits_def append_eq_append_conv)
  then have "oi_size x = oi_size y"
    using fits le_bytes_inj[of "oi_size x" 8 "oi_size y"] by (simp add: input_fits_def)
  with n d have "x = y" by simp
  moreover have "xs = ys'" using Cons.IH[OF _ _ rest] Cons.prems(1,2) ys by simp
  ultimately show ?case by (simp add: ys)
qed

lemma hex_digit_inj: "m < 16 \<Longrightarrow> n < 16 \<Longrightarrow> hex_digit m = hex_digit n \<Longrightarrow> m = n"
  by (auto simp: hex_digit_def dest: arg_cong[of _ _ of_char] split: if_splits)

lemma hex_inj: "hex a = hex b \<Longrightarrow> a = b"
proof (induction a arbitrary: b)
  case Nil
  then show ?case by (cases b) (auto simp: hex_def)
next
  case (Cons x a)
  then obtain y b' where b: "b = y # b'" by (cases b) (auto simp: hex_def)
  with Cons.prems have d: "hex_digit (byte x div 16) = hex_digit (byte y div 16)"
    "hex_digit (byte x mod 16) = hex_digit (byte y mod 16)" and rest: "hex a = hex b'"
    by (auto simp: hex_def)
  have lt: "byte x < 256" "byte y < 256" by simp_all
  from d lt have "byte x div 16 = byte y div 16" "byte x mod 16 = byte y mod 16"
    using hex_digit_inj[OF _ _ d(1)] hex_digit_inj[OF _ _ d(2)]
    by (simp_all add: div_less_iff_less_mult)
  then have "byte x = byte y" by (metis div_mult_mod_eq)
  then have "x = y" by simp
  with Cons.IH[OF rest] b show ?case by simp
qed

section \<open>Lemmas on manifests and redaction\<close>

lemma observe_all_Inr:
  "observe_all sha256 uni inputs = Inr os \<longleftrightarrow>
     (\<forall>(name, bytes) \<in> set inputs. \<not> contains_secret uni name bytes) \<and>
     os = map (\<lambda>(name, bytes). observed_input_new sha256 name bytes) inputs"
proof (induction inputs arbitrary: os)
  case Nil
  then show ?case by auto
next
  case (Cons p inputs)
  then show ?case
    by (cases p) (auto simp: contains_secret_def r_map_Inr split: option.splits)
qed

lemma observe_all_Inl:
  "observe_all sha256 uni inputs = Inl e \<Longrightarrow>
     \<exists>xs name bytes ys. inputs = xs @ (name, bytes) # ys \<and> si_name e = name \<and>
       secret_reason uni name bytes = Some (si_reason e) \<and>
       (\<forall>(n, b) \<in> set xs. \<not> contains_secret uni n b)"
proof (induction inputs)
  case Nil
  then show ?case by simp
next
  case (Cons p inputs)
  obtain name bytes where p: "p = (name, bytes)" by (cases p)
  show ?case
  proof (cases "secret_reason uni name bytes")
    case None
    with Cons.prems p have "observe_all sha256 uni inputs = Inl e" by (simp add: r_map_Inl)
    from Cons.IH[OF this] obtain xs n b ys where "inputs = xs @ (n, b) # ys" "si_name e = n"
      "secret_reason uni n b = Some (si_reason e)" "\<forall>(n, b) \<in> set xs. \<not> contains_secret uni n b" by blast
    with None p show ?thesis
      by (intro exI[of _ "p # xs"] exI[of _ n] exI[of _ b] exI[of _ ys]) (simp add: contains_secret_def)
  next
    case (Some reason)
    with Cons.prems p show ?thesis
      by (intro exI[of _ "[]"] exI[of _ name] exI[of _ bytes] exI[of _ inputs]) auto
  qed
qed

lemma manifest_new_mset: "mset (manifest_new inputs) = mset inputs"
  by (simp add: manifest_new_def)

lemma manifest_new_perm:
  assumes "mset xs = mset ys" and "inj_on (\<lambda>i. (oi_name i, oi_digest i)) (set xs)"
  shows "manifest_new xs = manifest_new ys"
proof -
  let ?f = "\<lambda>i :: observed_input. (oi_name i, oi_digest i)"
  have set: "set (manifest_new xs) = set xs" "set (manifest_new ys) = set xs"
    using mset_eq_setD[OF assms(1)] by (simp_all add: manifest_new_def)
  have "sort (map ?f xs) = map ?f (manifest_new xs)"
    by (rule properties_for_sort) (simp_all add: manifest_new_def)
  moreover have "sort (map ?f xs) = map ?f (manifest_new ys)"
    by (rule properties_for_sort) (use assms(1) in \<open>simp_all add: manifest_new_def\<close>)
  ultimately have "map ?f (manifest_new xs) = map ?f (manifest_new ys)" by simp
  moreover have "inj_on ?f (set (manifest_new xs) \<union> set (manifest_new ys))"
    using assms(2) by (simp add: set)
  ultimately show ?thesis by (rule map_inj_on)
qed

lemma find_separator_append:
  assumes "\<forall>c \<in> set k. c \<noteq> CHR ''='' \<and> c \<noteq> CHR '':''" and "d = CHR ''='' \<or> d = CHR '':''"
  shows "find_separator (k @ d # v) = Some (length k)"
proof -
  have "takeWhile (\<lambda>c. \<not> (c = CHR ''='' \<or> c = CHR '':'')) (k @ d # v) = k"
    using assms by (subst takeWhile_append2) auto
  then show ?thesis using assms(2) by (simp add: find_separator_def find_char_def list_ex_iff)
qed

definition strong_key :: "str \<Rightarrow> bool" where
  "strong_key k = ends_with_any (trim_quotes (trim (to_ascii_lowercase k)))
     [''api_key'', ''api-key'', ''password'', ''token'', ''secret'', ''authorization'']"

lemma redact_strong_key:
  assumes "\<forall>c \<in> set k. c \<noteq> CHR ''='' \<and> c \<noteq> CHR '':''" and "d = CHR ''='' \<or> d = CHR '':''"
    and "strong_key k"
  shows "redact_line (k @ d # v) = k @ d # REDACTED"
proof -
  have "take (length k) (to_ascii_lowercase (k @ d # v)) = to_ascii_lowercase k"
    by (simp add: to_ascii_lowercase_def)
  then show ?thesis
    using assms(3) by (simp add: redact_line_def Let_def find_separator_append[OF assms(1,2)] strong_key_def)
qed

section \<open>Properties\<close>

text \<open>C23: what is hashed into a cache key determines the namespace, the request and every input of the
  manifest (lengths within \<open>u64\<close>), the key determines the digest, and a manifest does not depend on
  the order of its inputs: two requests share a key only if they agree or \<open>SHA-256\<close> collides.\<close>

theorem cache_key_separates_inputs:
  assumes "length ns \<le> u64_max" and "length ns' \<le> u64_max"
    and "length req \<le> u64_max" and "length req' \<le> u64_max"
    and "length (canonical_bytes m) \<le> u64_max" and "length (canonical_bytes m') \<le> u64_max"
    and "\<forall>i \<in> set m. input_fits i" and "\<forall>i \<in> set m'. input_fits i"
  shows "(cache_key_input ns req m = cache_key_input ns' req' m' \<longleftrightarrow> ns = ns' \<and> req = req' \<and> m = m') \<and>
    (cache_key sha256 ns req m = cache_key sha256 ns' req' m' \<longleftrightarrow>
       sha256 (cache_key_input ns req m) = sha256 (cache_key_input ns' req' m')) \<and>
    (mset xs = mset ys \<and> inj_on (\<lambda>i. (oi_name i, oi_digest i)) (set xs) \<longrightarrow>
       cache_key sha256 ns req (manifest_new xs) = cache_key sha256 ns req (manifest_new ys))"
proof (intro conjI)
  show "cache_key_input ns req m = cache_key_input ns' req' m' \<longleftrightarrow> ns = ns' \<and> req = req' \<and> m = m'"
  proof
    assume eq: "cache_key_input ns req m = cache_key_input ns' req' m'"
    then have e1: "write_field ns @ (write_field req @ write_field (canonical_bytes m)) =
        write_field ns' @ (write_field req' @ write_field (canonical_bytes m'))"
      by (simp add: cache_key_input_def)
    note w1 = write_field_inj[OF assms(1,2) e1]
    then have e2: "write_field req @ write_field (canonical_bytes m) =
        write_field req' @ write_field (canonical_bytes m')" by blast
    note w2 = write_field_inj[OF assms(3,4) e2]
    then have "write_field (canonical_bytes m) @ [] = write_field (canonical_bytes m') @ []" by simp
    from write_field_inj[OF assms(5,6) this] have "m = m'"
      using canonical_bytes_inj[OF assms(7,8)] by blast
    with w1 w2 show "ns = ns' \<and> req = req' \<and> m = m'" by blast
  qed simp
  show "cache_key sha256 ns req m = cache_key sha256 ns' req' m' \<longleftrightarrow>
       sha256 (cache_key_input ns req m) = sha256 (cache_key_input ns' req' m')"
    by (auto simp: cache_key_def dest: hex_inj)
  show "mset xs = mset ys \<and> inj_on (\<lambda>i. (oi_name i, oi_digest i)) (set xs) \<longrightarrow>
       cache_key sha256 ns req (manifest_new xs) = cache_key sha256 ns req (manifest_new ys)"
    using manifest_new_perm by metis
qed

theorem cache_key_separates_inputs_witness:
  "cache_key (\<lambda>s. s) ''ab'' ''c'' [] \<noteq> cache_key (\<lambda>s. s) ''a'' ''bc'' []"
  using cache_key_separates_inputs [of "''ab''" "''a''" "''c''" "''bc''" "[]" "[]" "\<lambda>s. s" "[]" "[]"]
  by simp

text \<open>Nothing that looks secret is digested: \<open>observe\<close> succeeds exactly when no input is refused,
  and then the manifest holds one entry per input; otherwise the error names the first refused input
  and why.\<close>

theorem observe_refuses_secrets:
  "(is_ok (observe sha256 uni inputs) \<longleftrightarrow> (\<forall>(name, bytes) \<in> set inputs. \<not> contains_secret uni name bytes)) \<and>
   (\<forall>m. observe sha256 uni inputs = Inr m \<longrightarrow>
      mset m = mset (map (\<lambda>(name, bytes). observed_input_new sha256 name bytes) inputs)) \<and>
   (\<forall>e. observe sha256 uni inputs = Inl e \<longrightarrow>
      (\<exists>xs bytes ys. inputs = xs @ (si_name e, bytes) # ys \<and>
         secret_reason uni (si_name e) bytes = Some (si_reason e) \<and>
         (\<forall>(n, b) \<in> set xs. \<not> contains_secret uni n b)))"
proof (intro conjI)
  show "is_ok (observe sha256 uni inputs) \<longleftrightarrow> (\<forall>(name, bytes) \<in> set inputs. \<not> contains_secret uni name bytes)"
    unfolding observe_def is_ok_iff by (auto simp: r_map_Inr observe_all_Inr)
  show "\<forall>m. observe sha256 uni inputs = Inr m \<longrightarrow>
      mset m = mset (map (\<lambda>(name, bytes). observed_input_new sha256 name bytes) inputs)"
    by (auto simp: observe_def r_map_Inr observe_all_Inr manifest_new_mset)
  show "\<forall>e. observe sha256 uni inputs = Inl e \<longrightarrow>
      (\<exists>xs bytes ys. inputs = xs @ (si_name e, bytes) # ys \<and>
         secret_reason uni (si_name e) bytes = Some (si_reason e) \<and>
         (\<forall>(n, b) \<in> set xs. \<not> contains_secret uni n b))"
    unfolding observe_def r_map_Inl by (metis observe_all_Inl)
qed

theorem observe_refuses_secrets_witness:
  "\<not> is_ok (observe (\<lambda>s. s) (\<lambda>_. False) [(''readme'', ''ordinary text''), (''notes'', ''Bearer abc'')])"
proof -
  have "contains_secret (\<lambda>_. False) ''notes'' ''Bearer abc''" by code_simp
  then show ?thesis
    using observe_refuses_secrets [of "\<lambda>s. s" "\<lambda>_. False" "[(''readme'', ''ordinary text''), (''notes'', ''Bearer abc'')]"]
    by simp
qed

text \<open>Redacting an assignment to a strong key reveals nothing of the value: the line becomes its key,
  its separator and the mark, whatever the value was.\<close>

theorem redaction_hides_assigned_values:
  assumes "\<forall>c \<in> set k. c \<noteq> CHR ''='' \<and> c \<noteq> CHR '':''" and "d = CHR ''='' \<or> d = CHR '':''"
    and "strong_key k"
  shows "redact_line (k @ d # v) = k @ d # REDACTED \<and> redact_line (k @ d # v) = redact_line (k @ d # v')"
  using redact_strong_key[OF assms] by simp

theorem redaction_hides_assigned_values_witness:
  "redact_line ''  Api_Key : hunter2'' = ''  Api_Key :<REDACTED>''"
proof -
  have s: "strong_key ''  Api_Key ''" by code_simp
  show ?thesis
    using redaction_hides_assigned_values [of "''  Api_Key ''" "CHR '':''" "'' hunter2''"] s
    by (simp add: REDACTED_def)
qed

text \<open>Redaction is not complete: only the first \<open>sk-\<close> token of a line is replaced, so a second one
  stays readable and the result still contains what the detector calls a secret.\<close>

theorem redaction_leaves_a_second_token:
  "redact_secrets ''use sk-aaaa or sk-bbbb'' = ''use sk-<REDACTED> or sk-bbbb'' \<and>
   contains_secret (\<lambda>_. False) ''log'' (redact_secrets ''use sk-aaaa or sk-bbbb'')"
  by code_simp

text \<open>The check for a PEM header never fires: it looks for upper case in text already put in lower
  case, so a key assignment whose value is a PEM header is not a secret.\<close>

theorem pem_header_check_is_dead:
  "\<not> contains (trim_quotes (to_ascii_lowercase s)) ''-----BEGIN'' \<and>
   \<not> contains_secret (\<lambda>_. False) ''notes'' ''ssh_key: -----BEGIN OPENSSH'' \<and>
   contains_secret (\<lambda>_. False) ''notes'' ''ssh_key: sk-x''"
proof (intro conjI)
  show "\<not> contains (trim_quotes (to_ascii_lowercase s)) ''-----BEGIN''"
  proof
    assume "contains (trim_quotes (to_ascii_lowercase s)) ''-----BEGIN''"
    then have "CHR ''B'' \<in> set (trim_quotes (to_ascii_lowercase s))" using contains_set by fastforce
    then have "CHR ''B'' \<in> set (to_ascii_lowercase s)"
      unfolding trim_quotes_def using trim_matches_subset by blast
    then show False using lowercase_no_upper by (fastforce simp: is_ascii_upper_def)
  qed
  show "\<not> contains_secret (\<lambda>_. False) ''notes'' ''ssh_key: -----BEGIN OPENSSH''" by code_simp
  show "contains_secret (\<lambda>_. False) ''notes'' ''ssh_key: sk-x''" by code_simp
qed

text \<open>Secret screening has two gaps: redaction replaces only the first \<open>sk-\<close> token of a line, so a
  second token stays readable and the result still counts as a secret, and the check that should refuse a
  key assigned to a PEM header looks for upper case in text already put in lower case and never fires.\<close>

theorem secret_screening_has_gaps:
  "redact_secrets ''use sk-aaaa or sk-bbbb'' = ''use sk-<REDACTED> or sk-bbbb'' \<and>
   contains_secret (\<lambda>_. False) ''log'' (redact_secrets ''use sk-aaaa or sk-bbbb'') \<and>
   \<not> contains (trim_quotes (to_ascii_lowercase s)) ''-----BEGIN'' \<and>
   \<not> contains_secret (\<lambda>_. False) ''notes'' ''ssh_key: -----BEGIN OPENSSH''"
  using redaction_leaves_a_second_token pem_header_check_is_dead by blast

end
