(* ===== verification/Hot_Cache.thy ===== *)
theory Hot_Cache
  imports Cache_Core "HOL-Library.Product_Lexorder"
begin

text \<open>
  The in-memory cache (\<open>HotCache\<close> of \<open>crates/minha-core/src/cache.rs\<close>): entries in a \<open>HashMap\<close>, a
  queue of keys in the order of use, and a byte count. The eviction loop is a recursion that ends
  because every round takes a key from the queue.
\<close>

record cache_entry =
  ce_key :: str
  ce_class :: cache_class
  ce_bytes :: str
  stored_at :: nanos
  last_used_at :: nanos
  ce_hits :: u64
  pinned :: bool

definition entry_size :: "cache_entry \<Rightarrow> u64" where
  "entry_size e = length (ce_bytes e)"

definition is_fresh :: "cache_entry \<Rightarrow> nanos \<Rightarrow> cache_policy \<Rightarrow> bool" where
  "is_fresh e now policy =
     (is_cacheable (ce_class e) \<and>
      (case class_expires_at (ce_class e) (stored_at e) policy of None \<Rightarrow> True | Some at \<Rightarrow> now < at))"

record cache_metrics =
  cm_entries :: usize
  cm_bytes :: u64
  cm_hits :: u64
  cm_misses :: u64
  cm_evictions :: u64

datatype lookup_mode = AllowStale | FreshOnly | Bypass

record hot_cache =
  hc_entries :: "(str \<times> cache_entry) list"
  hc_order :: "str list"
  hc_bytes :: u64
  hc_metrics :: cache_metrics
  hc_max_entries :: usize
  hc_capacity :: u64

definition with_limits :: "usize \<Rightarrow> u64 \<Rightarrow> hot_cache" where
  "with_limits max_entries max_bytes =
     \<lparr>hc_entries = [], hc_order = [], hc_bytes = 0,
      hc_metrics = \<lparr>cm_entries = 0, cm_bytes = 0, cm_hits = 0, cm_misses = 0, cm_evictions = 0\<rparr>,
      hc_max_entries = max_entries, hc_capacity = max_bytes\<rparr>"

definition hot_cache_new :: "u64 \<Rightarrow> hot_cache" where
  "hot_cache_new capacity = with_limits u64_max capacity"

definition order_remove :: "str list \<Rightarrow> str \<Rightarrow> str list" where
  "order_remove order key = remove1 key order"

definition touch :: "str list \<Rightarrow> str \<Rightarrow> str list" where
  "touch order key = order_remove order key @ [key]"

definition count_miss :: "hot_cache \<Rightarrow> hot_cache" where
  "count_miss c = c\<lparr>hc_metrics := (hc_metrics c)\<lparr>cm_misses := cm_misses (hc_metrics c) + 1\<rparr>\<rparr>"

definition cache_get ::
    "hot_cache \<Rightarrow> str \<Rightarrow> nanos \<Rightarrow> cache_policy \<Rightarrow> lookup_mode \<Rightarrow> str option \<times> hot_cache" where
  "cache_get c key now policy mode =
     (if mode = Bypass then (None, c)
      else
        (case map_of (hc_entries c) key of
           None \<Rightarrow> (None, count_miss c)
         | Some e \<Rightarrow>
             if \<not> is_fresh e now policy \<and> mode = FreshOnly then (None, count_miss c)
             else
               (Some (ce_bytes e),
                c\<lparr>hc_metrics := (hc_metrics c)\<lparr>cm_hits := cm_hits (hc_metrics c) + 1\<rparr>,
                  hc_entries := AList.update key (e\<lparr>ce_hits := ce_hits e + 1, last_used_at := now\<rparr>)
                                  (hc_entries c),
                  hc_order := touch (hc_order c) key\<rparr>)))"

definition sync_metrics :: "hot_cache \<Rightarrow> hot_cache" where
  "sync_metrics c =
     c\<lparr>hc_metrics := (hc_metrics c)\<lparr>cm_entries := length (hc_entries c), cm_bytes := hc_bytes c\<rparr>\<rparr>"

definition evictable :: "hot_cache \<Rightarrow> str \<Rightarrow> bool" where
  "evictable c key = (case map_of (hc_entries c) key of None \<Rightarrow> False | Some e \<Rightarrow> \<not> pinned e)"

definition evict_one_lru :: "hot_cache \<Rightarrow> hot_cache option" where
  "evict_one_lru c =
     (case List.find (evictable c) (hc_order c) of
        None \<Rightarrow> None
      | Some key \<Rightarrow>
          (case map_of (hc_entries c) key of
             None \<Rightarrow> None
           | Some e \<Rightarrow>
               Some (c\<lparr>hc_order := order_remove (hc_order c) key,
                       hc_entries := AList.delete key (hc_entries c),
                       hc_bytes := hc_bytes c - entry_size e,
                       hc_metrics := (hc_metrics c)\<lparr>cm_evictions := cm_evictions (hc_metrics c) + 1\<rparr>\<rparr>)))"

lemma find_Some_mem: "List.find P xs = Some x \<Longrightarrow> x \<in> set xs \<and> P x"
  by (auto simp: find_Some_iff)

lemma evict_one_shrinks:
  assumes "evict_one_lru c = Some c'"
  shows "length (hc_order c') < length (hc_order c)"
proof -
  from assms obtain key where k: "List.find (evictable c) (hc_order c) = Some key"
    and c': "hc_order c' = remove1 key (hc_order c)"
    by (auto simp: evict_one_lru_def order_remove_def split: option.splits)
  then have "key \<in> set (hc_order c)" using find_Some_mem by metis
  then show ?thesis using length_pos_if_in_set by (fastforce simp: c' length_remove1)
qed

definition over_limit :: "hot_cache \<Rightarrow> u64 \<Rightarrow> bool" where
  "over_limit c target = (hc_bytes c > target \<or> length (hc_entries c) > hc_max_entries c)"

function evict_loop :: "hot_cache \<Rightarrow> u64 \<Rightarrow> hot_cache" where
  "evict_loop c target =
     (if over_limit c target
      then (case evict_one_lru c of None \<Rightarrow> c | Some c' \<Rightarrow> evict_loop c' target)
      else c)"
  by pat_completeness auto
termination
  by (relation "measure (\<lambda>(c, _). length (hc_order c))") (auto dest: evict_one_shrinks)

declare evict_loop.simps [simp del]

definition evict_to :: "hot_cache \<Rightarrow> u64 \<Rightarrow> hot_cache" where
  "evict_to c target = sync_metrics (evict_loop c target)"

definition cache_insert :: "hot_cache \<Rightarrow> cache_entry \<Rightarrow> bool \<times> hot_cache" where
  "cache_insert c entry =
     (if ce_class entry = Never \<or> entry_size entry > hc_capacity c \<or> hc_max_entries c = 0
      then (False, c)
      else
        let c1 = (case map_of (hc_entries c) (ce_key entry) of
                    None \<Rightarrow> c
                  | Some old \<Rightarrow>
                      c\<lparr>hc_entries := AList.delete (ce_key entry) (hc_entries c),
                        hc_bytes := hc_bytes c - entry_size old,
                        hc_order := order_remove (hc_order c) (ce_key entry)\<rparr>);
            entry = entry\<lparr>ce_hits := 0\<rparr>;
            c2 = c1\<lparr>hc_bytes := hc_bytes c1 + entry_size entry,
                    hc_order := hc_order c1 @ [ce_key entry],
                    hc_entries := AList.update (ce_key entry) entry (hc_entries c1)\<rparr>
        in (True, evict_to c2 (hc_capacity c2)))"

definition cache_remove :: "hot_cache \<Rightarrow> str \<Rightarrow> cache_entry option \<times> hot_cache" where
  "cache_remove c key =
     (case map_of (hc_entries c) key of
        None \<Rightarrow> (None, c)
      | Some e \<Rightarrow>
          (Some e, sync_metrics (c\<lparr>hc_entries := AList.delete key (hc_entries c),
                                   hc_bytes := hc_bytes c - entry_size e,
                                   hc_order := order_remove (hc_order c) key\<rparr>)))"

fun take_over :: "u64 \<Rightarrow> u64 \<Rightarrow> cache_entry list \<Rightarrow> cache_entry list" where
  "take_over bytes target [] = []"
| "take_over bytes target (e # es) =
     (if bytes > target then e # take_over (bytes - entry_size e) target es else [])"

definition prune_order :: "nanos \<Rightarrow> cache_policy \<Rightarrow> cache_entry \<Rightarrow> bool \<times> nat \<times> str" where
  "prune_order now policy e = (\<not> is_fresh e now policy, last_used_at e, ce_key e)"

definition prune_selection :: "hot_cache \<Rightarrow> nanos \<Rightarrow> cache_policy \<Rightarrow> u64 \<Rightarrow> str list" where
  "prune_selection c now policy target =
     (let candidates = filter (\<lambda>e. \<not> pinned e) (map snd (hc_entries c))
      in map ce_key (take_over (hc_bytes c) target (sort_key (prune_order now policy) candidates)))"

section \<open>The invariant\<close>

definition total_size :: "(str \<times> cache_entry) list \<Rightarrow> nat" where
  "total_size es = (\<Sum>(_, e) \<leftarrow> es. entry_size e)"

definition cache_ok :: "hot_cache \<Rightarrow> bool" where
  "cache_ok c \<longleftrightarrow>
     distinct (map fst (hc_entries c)) \<and> distinct (hc_order c) \<and>
     set (hc_order c) = fst ` set (hc_entries c) \<and>
     hc_bytes c = total_size (hc_entries c) \<and>
     (\<forall>(k, e) \<in> set (hc_entries c). ce_key e = k \<and> ce_class e \<noteq> Never)"

lemma total_size_delete:
  "distinct (map fst es) \<Longrightarrow> map_of es k = Some e \<Longrightarrow>
     total_size (AList.delete k es) = total_size es - entry_size e \<and> entry_size e \<le> total_size es"
proof (induction es)
  case Nil
  then show ?case by simp
next
  case (Cons p es)
  show ?case
  proof (cases "fst p = k")
    case True
    then have "k \<notin> fst ` set es" using Cons.prems by auto
    then show ?thesis using True Cons.prems by (cases p) (simp add: total_size_def delete_notin_dom)
  next
    case False
    with Cons show ?thesis by (cases p) (auto simp: total_size_def)
  qed
qed

lemma total_size_fresh: "k \<notin> fst ` set es \<Longrightarrow> total_size (AList.update k e es) = total_size es + entry_size e"
  by (induction es) (auto simp: total_size_def)

lemma total_size_same:
  "distinct (map fst es) \<Longrightarrow> map_of es k = Some e \<Longrightarrow> entry_size e' = entry_size e \<Longrightarrow>
     total_size (AList.update k e' es) = total_size es"
  by (induction es) (auto simp: total_size_def split: if_splits)

lemma set_delete: "p \<in> set (AList.delete k es) \<longleftrightarrow> p \<in> set es \<and> fst p \<noteq> k"
  by (auto simp: AList.delete_eq)

lemma set_update_entry:
  "distinct (map fst es) \<Longrightarrow>
     p \<in> set (AList.update k e es) \<longleftrightarrow> p = (k, e) \<or> p \<in> set es \<and> fst p \<noteq> k"
  by (induction es) (auto simp: rev_image_eqI)

lemma keys_update: "fst ` set (AList.update k e es) = insert k (fst ` set es)"
  by (induction es) auto

lemma keys_delete: "fst ` set (AList.delete k es) = fst ` set es - {k}"
  by (auto simp: AList.delete_eq)

lemma cache_ok_entry:
  assumes "cache_ok c" and "map_of (hc_entries c) k = Some e"
  shows "ce_key e = k" and "ce_class e \<noteq> Never" and "(k, e) \<in> set (hc_entries c)"
  using assms by (auto simp: cache_ok_def dest: map_of_SomeD)

lemma cache_ok_drop:
  assumes ok: "cache_ok c" and e: "map_of (hc_entries c) k = Some e"
  shows "cache_ok (c\<lparr>hc_entries := AList.delete k (hc_entries c), hc_bytes := hc_bytes c - entry_size e,
            hc_order := order_remove (hc_order c) k\<rparr>)"
  using ok total_size_delete[OF _ e]
  by (auto simp: cache_ok_def order_remove_def distinct_delete keys_delete set_delete)

lemma cache_ok_metrics [simp]: "cache_ok (c\<lparr>hc_metrics := m\<rparr>) = cache_ok c"
  by (simp add: cache_ok_def)

lemma cache_ok_sync [simp]: "cache_ok (sync_metrics c) = cache_ok c"
  by (simp add: sync_metrics_def)

lemma cache_ok_evict_one:
  assumes ok: "cache_ok c" and "evict_one_lru c = Some c'"
  shows "cache_ok c'"
proof -
  from assms(2) obtain k e where e: "map_of (hc_entries c) k = Some e"
    and c': "c' = (c\<lparr>hc_entries := AList.delete k (hc_entries c), hc_bytes := hc_bytes c - entry_size e,
        hc_order := order_remove (hc_order c) k\<rparr>)
        \<lparr>hc_metrics := (hc_metrics c)\<lparr>cm_evictions := cm_evictions (hc_metrics c) + 1\<rparr>\<rparr>"
    by (auto simp: evict_one_lru_def split: option.splits)
  show ?thesis unfolding c' using cache_ok_drop[OF ok e] by simp
qed

lemma cache_ok_evict_loop: "cache_ok c \<Longrightarrow> cache_ok (evict_loop c target)"
proof (induction c target rule: evict_loop.induct)
  case (1 c target)
  show ?case
  proof (cases "evict_one_lru c")
    case None
    with 1 show ?thesis by (subst evict_loop.simps) simp
  next
    case (Some c')
    with 1 cache_ok_evict_one show ?thesis by (subst evict_loop.simps) auto
  qed
qed

lemma cache_ok_get:
  assumes ok: "cache_ok c"
  shows "cache_ok (snd (cache_get c key now policy mode))"
proof (cases "map_of (hc_entries c) key")
  case None
  then show ?thesis using ok by (simp add: cache_get_def count_miss_def)
next
  case (Some e)
  let ?e = "e\<lparr>ce_hits := ce_hits e + 1, last_used_at := now\<rparr>"
  have d: "distinct (map fst (hc_entries c))" using ok by (simp add: cache_ok_def)
  have "entry_size ?e = entry_size e" by (simp add: entry_size_def)
  note size = total_size_same[OF d Some this]
  have mem: "key \<in> fst ` set (hc_entries c)" using cache_ok_entry(3)[OF ok Some] by force
  have "cache_ok (c\<lparr>hc_entries := AList.update key ?e (hc_entries c), hc_order := touch (hc_order c) key\<rparr>)"
    using ok size mem cache_ok_entry[OF ok Some] d
    by (auto simp: cache_ok_def touch_def order_remove_def distinct_update keys_update set_update_entry)
  then have "cache_ok (c\<lparr>hc_metrics := m, hc_entries := AList.update key ?e (hc_entries c),
      hc_order := touch (hc_order c) key\<rparr>)" for m
    by (simp add: cache_ok_def)
  then show ?thesis using ok by (simp add: cache_get_def Some count_miss_def)
qed

lemma cache_ok_remove:
  assumes "cache_ok c"
  shows "cache_ok (snd (cache_remove c key))"
  using assms cache_ok_drop[OF assms]
  by (auto simp: cache_remove_def split: option.splits)

definition admit_entry :: "hot_cache \<Rightarrow> cache_entry \<Rightarrow> hot_cache" where
  "admit_entry c entry = c\<lparr>hc_bytes := hc_bytes c + entry_size entry,
     hc_order := hc_order c @ [ce_key entry],
     hc_entries := AList.update (ce_key entry) (entry\<lparr>ce_hits := 0\<rparr>) (hc_entries c)\<rparr>"

definition forget_entry :: "hot_cache \<Rightarrow> str \<Rightarrow> hot_cache" where
  "forget_entry c key =
     (case map_of (hc_entries c) key of None \<Rightarrow> c
      | Some old \<Rightarrow> c\<lparr>hc_entries := AList.delete key (hc_entries c),
                      hc_bytes := hc_bytes c - entry_size old,
                      hc_order := order_remove (hc_order c) key\<rparr>)"

lemma cache_insert_eq:
  "cache_insert c entry =
     (if ce_class entry = Never \<or> entry_size entry > hc_capacity c \<or> hc_max_entries c = 0
      then (False, c)
      else (True, evict_to (admit_entry (forget_entry c (ce_key entry)) entry)
                    (hc_capacity (admit_entry (forget_entry c (ce_key entry)) entry))))"
  by (simp add: cache_insert_def admit_entry_def forget_entry_def Let_def entry_size_def)

lemma forget_entry_ok:
  assumes ok: "cache_ok c"
  shows "cache_ok (forget_entry c key) \<and> key \<notin> fst ` set (hc_entries (forget_entry c key))"
proof (cases "map_of (hc_entries c) key")
  case None
  then have "key \<notin> fst ` set (hc_entries c)" by (simp add: map_of_eq_None_iff)
  with None ok show ?thesis unfolding forget_entry_def by simp
next
  case (Some e)
  then show ?thesis using cache_ok_drop[OF ok Some] by (simp add: forget_entry_def keys_delete)
qed

lemma admit_entry_ok:
  assumes "cache_ok c" and "ce_key entry \<notin> fst ` set (hc_entries c)" and "ce_class entry \<noteq> Never"
  shows "cache_ok (admit_entry c entry)"
proof -
  have "total_size (AList.update (ce_key entry) (entry\<lparr>ce_hits := 0\<rparr>) (hc_entries c)) =
      total_size (hc_entries c) + entry_size entry"
    using total_size_fresh[OF assms(2), of "entry\<lparr>ce_hits := 0\<rparr>"] by (simp add: entry_size_def)
  then show ?thesis
    using assms by (auto simp: cache_ok_def admit_entry_def distinct_update keys_update set_update_entry)
qed

lemma cache_ok_insert:
  assumes ok: "cache_ok c"
  shows "cache_ok (snd (cache_insert c entry))"
proof -
  have "ce_class entry \<noteq> Never \<Longrightarrow> cache_ok (admit_entry (forget_entry c (ce_key entry)) entry)"
    using forget_entry_ok[OF ok] admit_entry_ok by blast
  then show ?thesis using ok by (simp add: cache_insert_eq evict_to_def cache_ok_evict_loop)
qed

inductive cache_history :: "hot_cache \<Rightarrow> bool" where
  opened: "cache_history (with_limits n b)"
| inserted: "cache_history c \<Longrightarrow> cache_insert c e = (r, c') \<Longrightarrow> cache_history c'"
| looked_up: "cache_history c \<Longrightarrow> cache_get c key now policy mode = (r, c') \<Longrightarrow> cache_history c'"
| removed: "cache_history c \<Longrightarrow> cache_remove c key = (r, c') \<Longrightarrow> cache_history c'"
| evicted: "cache_history c \<Longrightarrow> cache_history (evict_to c target)"

lemma cache_history_ok: "cache_history c \<Longrightarrow> cache_ok c"
proof (induction rule: cache_history.induct)
  case (opened n b)
  then show ?case by (simp add: cache_ok_def with_limits_def total_size_def)
next
  case (inserted c e r c')
  then show ?case using cache_ok_insert[of c e] by simp
next
  case (looked_up c key now policy mode r c')
  then show ?case using cache_ok_get[of c key now policy mode] by simp
next
  case (removed c key r c')
  then show ?case using cache_ok_remove[of c key] by simp
next
  case (evicted c target)
  then show ?case by (simp add: evict_to_def cache_ok_evict_loop)
qed

section \<open>What an eviction does\<close>

definition live_order :: "hot_cache \<Rightarrow> str list" where
  "live_order c = filter (evictable c) (hc_order c)"

text \<open>Evicting keeps the pinned entries and takes a prefix of the unpinned ones, oldest use first.\<close>

definition evicts :: "hot_cache \<Rightarrow> hot_cache \<Rightarrow> str list \<Rightarrow> bool" where
  "evicts c c' gone \<longleftrightarrow>
     live_order c = gone @ live_order c' \<and>
     map_of (hc_entries c') = (map_of (hc_entries c)) |` (- set gone) \<and>
     hc_max_entries c' = hc_max_entries c \<and> hc_capacity c' = hc_capacity c"

lemma live_order_find:
  "List.find P xs = Some x \<Longrightarrow> filter P xs = x # filter P (remove1 x xs)"
  by (induction xs) (auto split: if_splits dest: find_Some_mem)

lemma evict_one_evicts:
  assumes ok: "cache_ok c" and e1: "evict_one_lru c = Some c'"
  shows "\<exists>k. evicts c c' [k] \<and> evictable c k"
proof -
  from e1 obtain k e where k: "List.find (evictable c) (hc_order c) = Some k"
    and e: "map_of (hc_entries c) k = Some e"
    and c': "hc_order c' = remove1 k (hc_order c)" "hc_entries c' = AList.delete k (hc_entries c)"
      "hc_max_entries c' = hc_max_entries c" "hc_capacity c' = hc_capacity c"
    by (auto simp: evict_one_lru_def order_remove_def split: option.splits)
  have m: "map_of (hc_entries c') = (map_of (hc_entries c)) |` (- {k})"
    by (auto simp: c' delete_conv' restrict_map_def fun_eq_iff)
  have gone: "k \<notin> set (remove1 k (hc_order c))" using ok by (simp add: cache_ok_def)
  have "evictable c' x = evictable c x" if "x \<in> set (remove1 k (hc_order c))" for x
  proof -
    have "x \<noteq> k" using gone that by metis
    then show ?thesis by (simp add: evictable_def m restrict_map_def)
  qed
  then have "filter (evictable c') (remove1 k (hc_order c)) = filter (evictable c) (remove1 k (hc_order c))"
    by (intro filter_cong) simp_all
  then have "live_order c = [k] @ live_order c'"
    using live_order_find[OF k] by (simp add: live_order_def c')
  with m c' find_Some_mem[OF k] show ?thesis by (auto simp: evicts_def)
qed

lemma evicts_refl: "evicts c c []"
  by (simp add: evicts_def restrict_map_def)

lemma evicts_trans: "evicts c c1 xs \<Longrightarrow> evicts c1 c2 ys \<Longrightarrow> evicts c c2 (xs @ ys)"
  by (auto simp: evicts_def restrict_restrict Compl_Un)

lemma evict_loop_evicts:
  "cache_ok c \<Longrightarrow> \<exists>gone. evicts c (evict_loop c target) gone \<and>
     (over_limit (evict_loop c target) target \<longrightarrow> live_order (evict_loop c target) = [])"
proof (induction c target rule: evict_loop.induct)
  case (1 c target)
  show ?case
  proof (cases "over_limit c target")
    case False
    then show ?thesis using evicts_refl by (subst (1 2 3) evict_loop.simps) auto
  next
    case over: True
    show ?thesis
    proof (cases "evict_one_lru c")
      case None
      then have "live_order c = []"
        using 1(2) unfolding evict_one_lru_def live_order_def
        by (auto simp: find_None_iff filter_empty_conv evictable_def split: option.splits dest!: find_Some_mem)
      with None over evicts_refl[of c] show ?thesis by (subst (1 2 3) evict_loop.simps) auto
    next
      case (Some c')
      from evict_one_evicts[OF 1(2) Some] obtain k where k: "evicts c c' [k]" by blast
      from 1(1)[OF over Some cache_ok_evict_one[OF 1(2) Some]] obtain gone where
        "evicts c' (evict_loop c' target) gone"
        "over_limit (evict_loop c' target) target \<longrightarrow> live_order (evict_loop c' target) = []" by blast
      moreover have "evict_loop c target = evict_loop c' target"
        using over Some by (subst evict_loop.simps) simp
      ultimately show ?thesis using evicts_trans[OF k] by auto
    qed
  qed
qed

section \<open>What a prune selects\<close>

lemma take_over_prefix:
  "\<exists>n. take_over bytes target es = take n es \<and>
     (n \<ge> length es \<or> bytes - sum_list (map entry_size (take n es)) \<le> target)"
proof (induction bytes target es rule: take_over.induct)
  case (1 bytes target)
  then show ?case by simp
next
  case (2 bytes target e es)
  show ?case
  proof (cases "bytes > target")
    case True
    with 2 obtain n where n: "take_over (bytes - entry_size e) target es = take n es"
      "n \<ge> length es \<or> bytes - entry_size e - sum_list (map entry_size (take n es)) \<le> target" by blast
    with True show ?thesis by (intro exI[of _ "Suc n"]) auto
  next
    case False
    then show ?thesis by (intro exI[of _ 0]) simp
  qed
qed

lemma sorted_take_drop:
  assumes "sorted (map f xs)" and "x \<in> set (take n xs)" and "y \<in> set (drop n xs)"
  shows "f x \<le> f y"
proof -
  have "sorted (map f (take n xs) @ map f (drop n xs))"
    using assms(1) by (metis append_take_drop_id map_append)
  then show ?thesis using assms(2,3) by (auto simp: sorted_append)
qed

definition prune_entries :: "hot_cache \<Rightarrow> nanos \<Rightarrow> cache_policy \<Rightarrow> u64 \<Rightarrow> cache_entry list" where
  "prune_entries c now policy target =
     take_over (hc_bytes c) target
       (sort_key (prune_order now policy) (filter (\<lambda>e. \<not> pinned e) (map snd (hc_entries c))))"

lemma prune_selection_eq: "prune_selection c now policy target = map ce_key (prune_entries c now policy target)"
  by (simp add: prune_selection_def prune_entries_def Let_def)

lemma prune_entries_spec:
  shows "set (prune_entries c now policy target) \<subseteq> {e \<in> snd ` set (hc_entries c). \<not> pinned e}"
    and "e \<in> set (prune_entries c now policy target) \<Longrightarrow> e' \<in> snd ` set (hc_entries c) \<Longrightarrow> \<not> pinned e' \<Longrightarrow>
      prune_order now policy e' < prune_order now policy e \<Longrightarrow> e' \<in> set (prune_entries c now policy target)"
    and "target < hc_bytes c - sum_list (map entry_size (prune_entries c now policy target)) \<Longrightarrow>
      set (prune_entries c now policy target) = {e \<in> snd ` set (hc_entries c). \<not> pinned e}"
proof -
  define xs where "xs = sort_key (prune_order now policy) (filter (\<lambda>e. \<not> pinned e) (map snd (hc_entries c)))"
  have set: "set xs = {e \<in> snd ` set (hc_entries c). \<not> pinned e}" by (auto simp: xs_def)
  have sorted: "sorted (map (prune_order now policy) xs)" by (simp add: xs_def)
  obtain n where n: "prune_entries c now policy target = take n xs"
    "n \<ge> length xs \<or> hc_bytes c - sum_list (map entry_size (take n xs)) \<le> target"
    using take_over_prefix[of "hc_bytes c" target xs] by (auto simp: prune_entries_def xs_def)
  have "take n xs @ drop n xs = xs" by simp
  then have split: "set xs = set (take n xs) \<union> set (drop n xs)" by (metis set_append)
  show "set (prune_entries c now policy target) \<subseteq> {e \<in> snd ` set (hc_entries c). \<not> pinned e}"
    unfolding n(1) using set set_take_subset by metis
  show "e' \<in> set (prune_entries c now policy target)"
    if "e \<in> set (prune_entries c now policy target)" "e' \<in> snd ` set (hc_entries c)" "\<not> pinned e'"
      "prune_order now policy e' < prune_order now policy e"
  proof (rule ccontr)
    assume "e' \<notin> set (prune_entries c now policy target)"
    moreover have "e' \<in> set xs" using that by (simp add: set)
    ultimately have "e' \<in> set (drop n xs)" using split n(1) by simp
    from sorted_take_drop[OF sorted _ this] that n(1) show False by fastforce
  qed
  show "set (prune_entries c now policy target) = {e \<in> snd ` set (hc_entries c). \<not> pinned e}"
    if "target < hc_bytes c - sum_list (map entry_size (prune_entries c now policy target))"
    using that n set by auto
qed

section \<open>The limits\<close>

lemma evicts_smaller:
  assumes "cache_ok c" and "cache_ok c'" and "evicts c c' gone"
  shows "set (hc_entries c') \<subseteq> set (hc_entries c)"
    and "hc_bytes c' \<le> hc_bytes c" and "length (hc_entries c') \<le> length (hc_entries c)"
proof -
  have d: "distinct (map fst (hc_entries c))" "distinct (map fst (hc_entries c'))"
    using assms by (simp_all add: cache_ok_def)
  have m: "map_of (hc_entries c') = (map_of (hc_entries c)) |` (- set gone)"
    using assms(3) by (simp add: evicts_def)
  show sub: "set (hc_entries c') \<subseteq> set (hc_entries c)"
  proof (clarify)
    fix k e assume "(k, e) \<in> set (hc_entries c')"
    then have "map_of (hc_entries c') k = Some e" using d by simp
    then have "map_of (hc_entries c) k = Some e" by (simp add: m restrict_map_def split: if_splits)
    then show "(k, e) \<in> set (hc_entries c)" by (rule map_of_SomeD)
  qed
  have dd: "distinct (hc_entries c)" "distinct (hc_entries c')" using d by (simp_all add: distinct_map)
  have sum: "total_size es = (\<Sum>p \<in> set es. entry_size (snd p))" if "distinct es" for es
    using that by (simp add: total_size_def sum_list_distinct_conv_sum_set case_prod_beta)
  show "hc_bytes c' \<le> hc_bytes c"
    using assms(1,2) sum[OF dd(1)] sum[OF dd(2)] sum_mono2[OF _ sub, of "\<lambda>p. entry_size (snd p)"]
    by (simp add: cache_ok_def)
  show "length (hc_entries c') \<le> length (hc_entries c)"
    using card_mono[OF _ sub] distinct_card[OF dd(1)] distinct_card[OF dd(2)]
    by simp
qed

text \<open>The limits of a cache: they hold unless all that is left is pinned.\<close>

definition cache_bounded :: "hot_cache \<Rightarrow> bool" where
  "cache_bounded c \<longleftrightarrow>
     hc_bytes c \<le> hc_capacity c \<and> length (hc_entries c) \<le> hc_max_entries c \<or>
     (\<forall>(k, e) \<in> set (hc_entries c). pinned e)"

lemma nothing_evictable:
  assumes "cache_ok c" and "live_order c = []" and "(k, e) \<in> set (hc_entries c)"
  shows "pinned e"
proof -
  have "k \<in> set (hc_order c)" using assms(1) imageI[OF assms(3), of fst] by (simp add: cache_ok_def)
  then have "\<not> evictable c k" using assms(2) by (simp add: live_order_def filter_empty_conv)
  moreover have "map_of (hc_entries c) k = Some e" using assms(1,3) by (simp add: cache_ok_def)
  ultimately show ?thesis by (simp add: evictable_def)
qed

lemma cache_bounded_sync [simp]: "cache_bounded (sync_metrics c) = cache_bounded c"
  by (simp add: cache_bounded_def sync_metrics_def)

lemma cache_bounded_evict_capacity:
  assumes ok: "cache_ok c"
  shows "cache_bounded (evict_to c (hc_capacity c))"
proof -
  let ?c = "evict_loop c (hc_capacity c)"
  obtain gone where "evicts c ?c gone"
    and over: "over_limit ?c (hc_capacity c) \<longrightarrow> live_order ?c = []"
    using evict_loop_evicts[OF ok] by blast
  then have "hc_capacity ?c = hc_capacity c" by (simp add: evicts_def)
  moreover have "pinned e" if "live_order ?c = []" "(k, e) \<in> set (hc_entries ?c)" for k e
    using nothing_evictable[OF cache_ok_evict_loop[OF ok] that] .
  ultimately have "cache_bounded ?c" using over unfolding cache_bounded_def over_limit_def by fastforce
  then show ?thesis by (simp add: evict_to_def)
qed

lemma cache_bounded_evict:
  assumes ok: "cache_ok c" and b: "cache_bounded c"
  shows "cache_bounded (evict_to c target)"
proof -
  let ?c = "evict_loop c target"
  obtain gone where e: "evicts c ?c gone" using evict_loop_evicts[OF ok] by blast
  then have "hc_capacity ?c = hc_capacity c" "hc_max_entries ?c = hc_max_entries c"
    by (simp_all add: evicts_def)
  with evicts_smaller[OF ok cache_ok_evict_loop[OF ok] e] b have "cache_bounded ?c"
    unfolding cache_bounded_def by fastforce
  then show ?thesis by (simp add: evict_to_def)
qed

lemma cache_bounded_insert:
  assumes ok: "cache_ok c" and b: "cache_bounded c"
  shows "cache_bounded (snd (cache_insert c e))"
proof -
  have "ce_class e \<noteq> Never \<Longrightarrow> cache_ok (admit_entry (forget_entry c (ce_key e)) e)"
    using forget_entry_ok[OF ok] admit_entry_ok by blast
  then show ?thesis using b cache_bounded_evict_capacity by (simp add: cache_insert_eq)
qed

lemma update_length: "k \<in> fst ` set es \<Longrightarrow> length (AList.update k e es) = length es"
  by (induction es) auto

lemma cache_bounded_get:
  assumes ok: "cache_ok c" and b: "cache_bounded c"
  shows "cache_bounded (snd (cache_get c key now policy mode))"
proof (cases "map_of (hc_entries c) key")
  case None
  then show ?thesis using b by (simp add: cache_get_def count_miss_def cache_bounded_def)
next
  case (Some e)
  let ?e = "e\<lparr>ce_hits := ce_hits e + 1, last_used_at := now\<rparr>"
  have mem: "(key, e) \<in> set (hc_entries c)" by (rule map_of_SomeD[OF Some])
  then have "key \<in> fst ` set (hc_entries c)" by force
  note size = update_length[OF this, of ?e]
  have d: "distinct (map fst (hc_entries c))" using ok by (simp add: cache_ok_def)
  have pins: "\<forall>(k, x) \<in> set (AList.update key ?e (hc_entries c)). pinned x"
    if all: "\<forall>(k, x) \<in> set (hc_entries c). pinned x"
  proof (clarify)
    fix k x assume "(k, x) \<in> set (AList.update key ?e (hc_entries c))"
    then have "(k, x) = (key, ?e) \<or> (k, x) \<in> set (hc_entries c)"
      unfolding set_update_entry[OF d] by blast
    moreover have "pinned e" using all mem by blast
    ultimately show "pinned x" using all by auto
  qed
  have "cache_bounded (c\<lparr>hc_metrics := m, hc_entries := AList.update key ?e (hc_entries c),
      hc_order := touch (hc_order c) key\<rparr>)" for m
  proof (cases "\<forall>(k, x) \<in> set (hc_entries c). pinned x")
    case True
    then show ?thesis using pins by (simp add: cache_bounded_def)
  next
    case False
    then have "hc_bytes c \<le> hc_capacity c \<and> length (hc_entries c) \<le> hc_max_entries c"
      using b unfolding cache_bounded_def by blast
    with size show ?thesis by (simp add: cache_bounded_def)
  qed
  moreover have "cache_bounded (count_miss c)" using b by (simp add: cache_bounded_def count_miss_def)
  ultimately show ?thesis using b by (simp add: cache_get_def Some)
qed

lemma cache_bounded_remove:
  assumes b: "cache_bounded c"
  shows "cache_bounded (snd (cache_remove c key))"
proof (cases "map_of (hc_entries c) key")
  case None
  then show ?thesis using b by (simp add: cache_remove_def)
next
  case (Some e)
  have "length (AList.delete key (hc_entries c)) \<le> length (hc_entries c)"
    by (simp add: AList.delete_eq)
  moreover have "set (AList.delete key (hc_entries c)) \<subseteq> set (hc_entries c)" by (auto simp: set_delete)
  ultimately have "cache_bounded (c\<lparr>hc_entries := AList.delete key (hc_entries c),
      hc_bytes := hc_bytes c - entry_size e, hc_order := order_remove (hc_order c) key\<rparr>)"
    using b unfolding cache_bounded_def by fastforce
  then show ?thesis by (simp add: cache_remove_def Some)
qed

lemma cache_history_bounded: "cache_history c \<Longrightarrow> cache_bounded c"
proof (induction rule: cache_history.induct)
  case (opened n b)
  then show ?case by (simp add: cache_bounded_def with_limits_def)
next
  case (inserted c e r c')
  then show ?case using cache_bounded_insert[OF cache_history_ok, of c e] by simp
next
  case (looked_up c key now policy mode r c')
  then show ?case using cache_bounded_get[OF cache_history_ok, of c key now policy mode] by simp
next
  case (removed c key r c')
  then show ?case using cache_bounded_remove[of c key] by simp
next
  case (evicted c target)
  then show ?case using cache_bounded_evict cache_history_ok by blast
qed

section \<open>Properties\<close>

text \<open>C5: in every history the cache's books agree: the byte count is the sum of the stored sizes (so the
  subtractions never wrap), the queue lists every stored key once, each entry is stored under its own
  key and none has class \<open>never\<close>. And the limits hold: the stored bytes fit the capacity and the entries
  their maximum, unless every entry left is pinned, since an eviction passes over pinned entries.\<close>

theorem hot_cache_books_agree:
  assumes "cache_history c"
  shows "hc_bytes c = total_size (hc_entries c) \<and> distinct (hc_order c) \<and>
    set (hc_order c) = fst ` set (hc_entries c) \<and> length (hc_order c) = length (hc_entries c) \<and>
    (\<forall>(k, e) \<in> set (hc_entries c). ce_key e = k \<and> ce_class e \<noteq> Never) \<and>
    (hc_bytes c \<le> hc_capacity c \<and> length (hc_entries c) \<le> hc_max_entries c \<or>
     (\<forall>(k, e) \<in> set (hc_entries c). pinned e))"
proof -
  have ok: "cache_ok c" using cache_history_ok[OF assms] .
  have "length (hc_order c) = card (fst ` set (hc_entries c))"
    using ok by (metis cache_ok_def distinct_card)
  also have "\<dots> = length (hc_entries c)"
    using ok by (metis cache_ok_def distinct_card length_map list.set_map)
  finally show ?thesis
    using ok cache_history_bounded[OF assms] unfolding cache_ok_def cache_bounded_def by blast
qed

definition blob :: "str \<Rightarrow> nat \<Rightarrow> cache_entry" where
  "blob key n = \<lparr>ce_key = key, ce_class = Exact, ce_bytes = replicate n CHR ''x'', stored_at = 5,
     last_used_at = 5, ce_hits = 0, pinned = False\<rparr>"

theorem hot_cache_books_agree_witness:
  "\<exists>c. cache_history c \<and> hc_bytes c = 3 \<and> total_size (hc_entries c) = 3"
proof -
  let ?c = "snd (cache_insert (hot_cache_new 5) (blob ''a'' 3))"
  have h: "cache_history ?c"
    using cache_history.inserted[OF cache_history.opened, of u64_max 5 "blob ''a'' 3"]
    by (metis hot_cache_new_def prod.collapse)
  have b: "hc_bytes ?c = 3"
    by (simp add: cache_insert_def hot_cache_new_def with_limits_def blob_def entry_size_def evict_to_def
        evict_loop.simps over_limit_def sync_metrics_def)
  from hot_cache_books_agree [OF h] h b show ?thesis by auto
qed

text \<open>C30: An accepted insertion leaves the cache within both limits unless every entry left is pinned; it
  evicts no pinned entry, and what it evicts is exactly a run of the least recently used unpinned
  entries, so everything kept was used more recently than anything dropped.\<close>

theorem insert_evicts_least_recently_used:
  assumes h: "cache_history c" and ins: "cache_insert c e = (True, c')"
  shows "(hc_bytes c' \<le> hc_capacity c \<and> length (hc_entries c') \<le> hc_max_entries c \<or>
      (\<forall>(k, x) \<in> set (hc_entries c'). pinned x)) \<and>
    (\<exists>gone. live_order (admit_entry (forget_entry c (ce_key e)) e) = gone @ live_order c' \<and>
      (\<forall>k. map_of (hc_entries c') k =
         (if k \<in> set gone then None
          else if k = ce_key e then Some (e\<lparr>ce_hits := 0\<rparr>) else map_of (hc_entries c) k)))"
proof -
  define c2 where "c2 = admit_entry (forget_entry c (ce_key e)) e"
  have ok: "cache_ok c" by (rule cache_history_ok[OF h])
  have "ce_class e \<noteq> Never" and c': "c' = evict_to c2 (hc_capacity c2)"
    using ins by (auto simp: cache_insert_eq c2_def split: if_splits)
  then have ok2: "cache_ok c2" unfolding c2_def using forget_entry_ok[OF ok] admit_entry_ok by blast
  obtain gone where gone: "evicts c2 (evict_loop c2 (hc_capacity c2)) gone"
    using evict_loop_evicts[OF ok2] by blast
  have same: "hc_entries c' = hc_entries (evict_loop c2 (hc_capacity c2))"
    "hc_bytes c' = hc_bytes (evict_loop c2 (hc_capacity c2))"
    "hc_order c' = hc_order (evict_loop c2 (hc_capacity c2))"
    by (simp_all add: c' evict_to_def sync_metrics_def)
  have lim: "hc_capacity c2 = hc_capacity c" "hc_max_entries c2 = hc_max_entries c"
    by (auto simp: c2_def admit_entry_def forget_entry_def split: option.splits)
  have live: "live_order c' = live_order (evict_loop c2 (hc_capacity c2))"
  proof -
    have "evictable c' = evictable (evict_loop c2 (hc_capacity c2))"
      by (simp add: evictable_def same fun_eq_iff)
    then show ?thesis by (simp add: live_order_def same)
  qed
  have "hc_capacity c' = hc_capacity c" "hc_max_entries c' = hc_max_entries c"
    using gone by (simp_all add: c' lim[symmetric] evict_to_def sync_metrics_def evicts_def)
  moreover have "cache_bounded c'" unfolding c' by (rule cache_bounded_evict_capacity[OF ok2])
  ultimately have "hc_bytes c' \<le> hc_capacity c \<and> length (hc_entries c') \<le> hc_max_entries c \<or>
      (\<forall>(k, x) \<in> set (hc_entries c'). pinned x)"
    unfolding cache_bounded_def by metis
  moreover have "map_of (hc_entries c2) k =
      (if k = ce_key e then Some (e\<lparr>ce_hits := 0\<rparr>) else map_of (hc_entries c) k)" for k
    by (auto simp: c2_def admit_entry_def forget_entry_def update_conv' delete_conv' split: option.splits)
  ultimately show ?thesis
    using gone live by (auto simp: evicts_def same c2_def restrict_map_def)
qed

theorem insert_evicts_least_recently_used_witness:
  "\<exists>c'. cache_insert (snd (cache_insert (hot_cache_new 5) (blob ''a'' 3))) (blob ''b'' 4) = (True, c') \<and>
     (hc_bytes c' \<le> 5 \<or> (\<forall>(k, x) \<in> set (hc_entries c'). pinned x))"
proof -
  define c where "c = snd (cache_insert (hot_cache_new 5) (blob ''a'' 3))"
  have h: "cache_history c"
    using cache_history.inserted[OF cache_history.opened, of u64_max 5 "blob ''a'' 3"]
    by (metis hot_cache_new_def prod.collapse c_def)
  have lim: "hc_capacity c = 5" "hc_max_entries c = u64_max"
    by (simp_all add: c_def cache_insert_def hot_cache_new_def with_limits_def blob_def entry_size_def
        evict_to_def evict_loop.simps over_limit_def sync_metrics_def)
  have "fst (cache_insert c (blob ''b'' 4))"
    unfolding cache_insert_eq lim by (simp add: blob_def entry_size_def)
  then obtain c' where c': "cache_insert c (blob ''b'' 4) = (True, c')" by (metis prod.collapse)
  from insert_evicts_least_recently_used [OF h c'] show ?thesis using c' lim by (auto simp: c_def)
qed

text \<open>A lookup never returns what it must not: a bypass returns nothing and changes nothing, a
  fresh-only lookup returns only entries that have not expired, a hit returns the stored bytes, counts
  once and makes its key the most recently used, and a miss counts once and changes nothing else.\<close>

theorem lookup_returns_only_what_it_may:
  "cache_get c key now policy Bypass = (None, c) \<and>
   (\<forall>bytes c'. cache_get c key now policy mode = (Some bytes, c') \<longrightarrow>
      (\<exists>e. map_of (hc_entries c) key = Some e \<and> bytes = ce_bytes e \<and>
         (mode = FreshOnly \<longrightarrow> is_fresh e now policy) \<and>
         map_of (hc_entries c') key = Some (e\<lparr>ce_hits := ce_hits e + 1, last_used_at := now\<rparr>)) \<and>
      last (hc_order c') = key \<and> cm_hits (hc_metrics c') = cm_hits (hc_metrics c) + 1) \<and>
   (\<forall>c'. cache_get c key now policy mode = (None, c') \<and> mode \<noteq> Bypass \<longrightarrow>
      hc_entries c' = hc_entries c \<and> hc_order c' = hc_order c \<and>
      cm_misses (hc_metrics c') = cm_misses (hc_metrics c) + 1)"
  by (auto simp: cache_get_def count_miss_def touch_def update_conv' split: option.splits if_splits)

theorem lookup_returns_only_what_it_may_witness:
  "fst (cache_get ((hot_cache_new 5)\<lparr>hc_entries := [(''a'', blob ''a'' 1)], hc_order := [''a'']\<rparr>)
     ''a'' 9 cache_policy_default FreshOnly) = Some ''x''"
proof -
  let ?c = "(hot_cache_new 5)\<lparr>hc_entries := [(''a'', blob ''a'' 1)], hc_order := [''a'']\<rparr>"
  have "is_fresh (blob ''a'' 1) 9 cache_policy_default" by (simp add: is_fresh_def blob_def is_cacheable_def)
  then obtain bytes c' where g: "cache_get ?c ''a'' 9 cache_policy_default FreshOnly = (Some bytes, c')"
    by (simp add: cache_get_def)
  then have "bytes = ''x''"
    using lookup_returns_only_what_it_may [of ?c "''a''" 9 cache_policy_default FreshOnly]
    by (auto simp: blob_def)
  with g show ?thesis by simp
qed

text \<open>A prune selects no pinned entry and, unless it selects every unpinned one, enough bytes to reach
  its target; but it selects fresh entries before stale ones: whenever an expired entry is selected,
  every fresh unpinned entry is selected too.\<close>

theorem prune_selects_fresh_before_stale:
  fixes c now policy target
  assumes h: "cache_history c"
  defines "selected \<equiv> \<lambda>e. e \<in> set (prune_entries c now policy target)"
  shows "prune_selection c now policy target = map ce_key (prune_entries c now policy target) \<and>
    (\<forall>e. selected e \<longrightarrow> map_of (hc_entries c) (ce_key e) = Some e \<and> \<not> pinned e) \<and>
    (hc_bytes c - sum_list (map entry_size (prune_entries c now policy target)) \<le> target \<or>
      (\<forall>(k, e) \<in> set (hc_entries c). selected e \<or> pinned e)) \<and>
    (\<forall>stale fresh. selected stale \<and> \<not> is_fresh stale now policy \<and>
       fresh \<in> snd ` set (hc_entries c) \<and> is_fresh fresh now policy \<and> \<not> pinned fresh \<longrightarrow> selected fresh)"
proof (intro conjI)
  have ok: "cache_ok c" by (rule cache_history_ok[OF h])
  show "prune_selection c now policy target = map ce_key (prune_entries c now policy target)"
    by (rule prune_selection_eq)
  show "\<forall>e. selected e \<longrightarrow> map_of (hc_entries c) (ce_key e) = Some e \<and> \<not> pinned e"
  proof (intro allI impI)
    fix e assume "selected e"
    then have e: "e \<in> snd ` set (hc_entries c)" "\<not> pinned e"
      using prune_entries_spec(1) unfolding selected_def by blast+
    from e(1) obtain k where k: "(k, e) \<in> set (hc_entries c)" by force
    then have "ce_key e = k" using ok by (auto simp: cache_ok_def)
    with k e ok show "map_of (hc_entries c) (ce_key e) = Some e \<and> \<not> pinned e" by (simp add: cache_ok_def)
  qed
  show "hc_bytes c - sum_list (map entry_size (prune_entries c now policy target)) \<le> target \<or>
      (\<forall>(k, e) \<in> set (hc_entries c). selected e \<or> pinned e)"
    using prune_entries_spec(3)[of target c now policy] unfolding selected_def by force
  show "\<forall>stale fresh. selected stale \<and> \<not> is_fresh stale now policy \<and>
       fresh \<in> snd ` set (hc_entries c) \<and> is_fresh fresh now policy \<and> \<not> pinned fresh \<longrightarrow> selected fresh"
    using prune_entries_spec(2)[of _ c now policy target]
    unfolding selected_def by (auto simp: prune_order_def)
qed

definition stale_blob :: "str \<Rightarrow> cache_entry" where
  "stale_blob key = (blob key 2)\<lparr>ce_class := Ttl\<rparr>"

theorem prune_selects_fresh_before_stale_witness:
  "\<exists>c. cache_history c \<and> prune_selection c (DEFAULT_TTL + 9) cache_policy_default 2 = [''new''] \<and>
     \<not> is_fresh (stale_blob ''old'') (DEFAULT_TTL + 9) cache_policy_default"
proof -
  define c1 where "c1 = snd (cache_insert (hot_cache_new 9) (stale_blob ''old''))"
  define c where "c = snd (cache_insert c1 (blob ''new'' 2))"
  have h1: "cache_history c1"
    using cache_history.inserted[OF cache_history.opened, of u64_max 9 "stale_blob ''old''"]
    by (metis hot_cache_new_def prod.collapse c1_def)
  then have h: "cache_history c"
    using cache_history.inserted[OF h1, of "blob ''new'' 2"] by (metis prod.collapse c_def)
  have stale: "\<not> is_fresh (stale_blob ''old'') (DEFAULT_TTL + 9) cache_policy_default"
    by (simp add: is_fresh_def stale_blob_def blob_def cache_policy_default_def checked_add_def
        DEFAULT_TTL_def SYSTEM_TIME_MAX_def)
  have fresh: "is_fresh (blob ''new'' 2) (DEFAULT_TTL + 9) cache_policy_default"
    by (simp add: is_fresh_def blob_def is_cacheable_def)
  have "hc_entries c1 = [(''old'', stale_blob ''old'')]" "hc_bytes c1 = 2" "hc_order c1 = [''old'']"
    "hc_capacity c1 = 9" "hc_max_entries c1 = u64_max"
    by (simp_all add: c1_def cache_insert_def hot_cache_new_def with_limits_def stale_blob_def blob_def
        entry_size_def evict_to_def evict_loop.simps over_limit_def sync_metrics_def)
  then have e: "hc_entries c = [(''old'', stale_blob ''old''), (''new'', blob ''new'' 2)]" "hc_bytes c = 4"
    by (simp_all add: c_def cache_insert_def blob_def entry_size_def evict_to_def evict_loop.simps
        over_limit_def sync_metrics_def)
  have o: "prune_order (DEFAULT_TTL + 9) cache_policy_default (stale_blob ''old'') = (True, 5, ''old'')"
    "prune_order (DEFAULT_TTL + 9) cache_policy_default (blob ''new'' 2) = (False, 5, ''new'')"
    using stale fresh by (simp_all add: prune_order_def) (simp_all add: stale_blob_def blob_def)
  have "prune_entries c (DEFAULT_TTL + 9) cache_policy_default 2 = [blob ''new'' 2]"
    unfolding prune_entries_def e by (simp add: o) (simp add: stale_blob_def blob_def entry_size_def)
  then show ?thesis
    using prune_selects_fresh_before_stale [OF h, of "DEFAULT_TTL + 9" cache_policy_default 2] h stale
    by (auto simp: blob_def)
qed

end
