(* ===== verification/Usage.thy ===== *)
theory Usage
  imports Rust_Search "HOL-Library.Multiset"
begin

text \<open>
  Token accounting (\<open>crates/minha-core/src/usage.rs\<close> and \<open>add_usage\<close> of \<open>runtime.rs\<close>): usage records,
  limits, and the ledger that reserves an estimate before a call and settles it after. The plain
  additions of \<open>reserve\<close> are written as additions of naturals, and the invariant shows they never
  leave the \<open>u64\<close> range. \<open>reserve_reached\<close>, a comparison of floating-point percentages, is not here.
\<close>

datatype usage_kind = ModelTurn | Compaction | KindLegacyUnverified

fun usage_kind_str :: "usage_kind \<Rightarrow> str" where
  "usage_kind_str ModelTurn = ''model_turn''"
| "usage_kind_str Compaction = ''compaction''"
| "usage_kind_str KindLegacyUnverified = ''legacy_unverified''"

datatype usage_state = Settled | StateLegacyUnverified

fun usage_state_str :: "usage_state \<Rightarrow> str" where
  "usage_state_str Settled = ''settled''"
| "usage_state_str StateLegacyUnverified = ''legacy_unverified''"

record token_usage =
  tu_input :: u64
  tu_output :: u64
  tu_cached_input :: u64
  tu_cache_write :: u64
  tu_reasoning_output :: u64

record usage_ledger_entry =
  ule_schema_version :: u16
  ule_entry_key :: str
  ule_run_id :: str
  ule_kind :: usage_kind
  ule_state :: usage_state
  ule_provider :: str
  ule_model :: str
  ule_agent_id :: "str option"
  ule_provider_response_id :: "str option"
  ule_usage :: token_usage
  ule_context_tokens :: "u64 option"

definition usage_zero :: token_usage where
  "usage_zero = \<lparr>tu_input = 0, tu_output = 0, tu_cached_input = 0, tu_cache_write = 0,
                 tu_reasoning_output = 0\<rparr>"

definition usage_total :: "token_usage \<Rightarrow> u64" where
  "usage_total u = sat_add (tu_input u) (tu_output u)"

definition add_usage :: "token_usage \<Rightarrow> token_usage \<Rightarrow> token_usage" where
  "add_usage a b =
     \<lparr>tu_input = sat_add (tu_input a) (tu_input b),
      tu_output = sat_add (tu_output a) (tu_output b),
      tu_cached_input = sat_add (tu_cached_input a) (tu_cached_input b),
      tu_cache_write = sat_add (tu_cache_write a) (tu_cache_write b),
      tu_reasoning_output = sat_add (tu_reasoning_output a) (tu_reasoning_output b)\<rparr>"

record usage_limit =
  lim_input :: u64
  lim_output :: u64
  lim_total :: u64

definition unlimited :: usage_limit where
  "unlimited = \<lparr>lim_input = u64_max, lim_output = u64_max, lim_total = u64_max\<rparr>"

record usage_snapshot =
  used :: token_usage
  reserved :: token_usage
  us_limit :: usage_limit

definition remaining :: "usage_snapshot \<Rightarrow> token_usage" where
  "remaining s =
     \<lparr>tu_input = lim_input (us_limit s) - tu_input (used s) - tu_input (reserved s),
      tu_output = lim_output (us_limit s) - tu_output (used s) - tu_output (reserved s),
      tu_cached_input = 0, tu_cache_write = 0, tu_reasoning_output = 0\<rparr>"

datatype reserve_decision = Allowed token_usage | Denied token_usage

fun reserve_decision_text :: "reserve_decision \<Rightarrow> str" where
  "reserve_decision_text (Allowed _) = ''allowed''"
| "reserve_decision_text (Denied _) = ''denied''"

definition ledger_new :: "usage_limit \<Rightarrow> usage_snapshot" where
  "ledger_new l = \<lparr>used = usage_zero, reserved = usage_zero, us_limit = l\<rparr>"

definition reserve :: "token_usage \<Rightarrow> usage_snapshot \<Rightarrow> usage_snapshot \<times> reserve_decision" where
  "reserve e s =
     (let rem = remaining s in
      if tu_input e \<le> tu_input rem \<and> tu_output e \<le> tu_output rem \<and>
         usage_total e \<le> lim_total (us_limit s) - usage_total (used s) - usage_total (reserved s)
      then
        (let s' = s\<lparr>reserved := (reserved s)\<lparr>tu_input := tu_input (reserved s) + tu_input e,
                                            tu_output := tu_output (reserved s) + tu_output e\<rparr>\<rparr>
         in (s', Allowed (remaining s')))
      else (s, Denied rem))"

definition release :: "token_usage \<Rightarrow> usage_snapshot \<Rightarrow> usage_snapshot" where
  "release r s =
     s\<lparr>reserved := (reserved s)\<lparr>tu_input := tu_input (reserved s) - tu_input r,
                               tu_output := tu_output (reserved s) - tu_output r\<rparr>\<rparr>"

definition commit :: "token_usage \<Rightarrow> token_usage \<Rightarrow> usage_snapshot \<Rightarrow> usage_snapshot" where
  "commit r a s =
     s\<lparr>reserved := (reserved s)\<lparr>tu_input := tu_input (reserved s) - tu_input r,
                               tu_output := tu_output (reserved s) - tu_output r\<rparr>,
       used := \<lparr>tu_input = sat_add (tu_input (used s)) (tu_input a),
                tu_output = sat_add (tu_output (used s)) (tu_output a),
                tu_cached_input = sat_add (tu_cached_input (used s)) (tu_cached_input a),
                tu_cache_write = sat_add (tu_cache_write (used s)) (tu_cache_write a),
                tu_reasoning_output = sat_add (tu_reasoning_output (used s)) (tu_reasoning_output a)\<rparr>\<rparr>"

text \<open>An \<open>f64\<close> is its 64 bits; it is finite when its exponent field is not all ones.\<close>

definition f64_is_finite :: "u64 \<Rightarrow> bool" where
  "f64_is_finite b = (b div 4503599627370496 mod 2048 \<noteq> 2047)"

record rate_limit_window =
  used_percent :: u64
  window_minutes :: "int option"
  resets_at :: "int option"

record credits_snapshot =
  has_credits :: bool
  credits_unlimited :: bool
  balance :: "str option"

section \<open>Sessions\<close>

text \<open>
  A session is a run of the ledger by callers that settle or give back what they reserved: the
  outstanding reservations are a multiset, the settled calls a list of pairs of an estimate and the
  usage the call reported. \<open>commit\<close> does not compare the two, so a report may pass its estimate; the
  overrun of a counter is what the reports of a session add up to beyond their estimates.
\<close>

inductive ledger_session ::
    "usage_limit \<Rightarrow> usage_snapshot \<Rightarrow> token_usage multiset \<Rightarrow> (token_usage \<times> token_usage) list \<Rightarrow> bool"
  for l where
  opened: "ledger_session l (ledger_new l) {#} []"
| allowed: "ledger_session l s out past \<Longrightarrow> reserve e s = (s', Allowed rem) \<Longrightarrow>
     ledger_session l s' (add_mset e out) past"
| denied: "ledger_session l s out past \<Longrightarrow> reserve e s = (s', Denied rem) \<Longrightarrow>
     ledger_session l s' out past"
| settled: "ledger_session l s (add_mset r out) past \<Longrightarrow>
     ledger_session l (commit r a s) out ((r, a) # past)"
| given_back: "ledger_session l s (add_mset r out) past \<Longrightarrow> ledger_session l (release r s) out past"

definition reported :: "(token_usage \<Rightarrow> nat) \<Rightarrow> (token_usage \<times> token_usage) list \<Rightarrow> nat" where
  "reported f settlements = (\<Sum>(r, a) \<leftarrow> settlements. f a)"

definition overrun :: "(token_usage \<Rightarrow> nat) \<Rightarrow> (token_usage \<times> token_usage) list \<Rightarrow> nat" where
  "overrun f settlements = (\<Sum>(r, a) \<leftarrow> settlements. f a - f r)"

lemma reported_simps [simp]:
  "reported f [] = 0" "reported f ((r, a) # ps) = f a + reported f ps"
  by (simp_all add: reported_def)

lemma overrun_simps [simp]:
  "overrun f [] = 0" "overrun f ((r, a) # ps) = f a - f r + overrun f ps"
  by (simp_all add: overrun_def)

definition limits_ok :: "usage_limit \<Rightarrow> bool" where
  "limits_ok l = (lim_input l \<le> u64_max \<and> lim_output l \<le> u64_max \<and> lim_total l \<le> u64_max)"

text \<open>
  A total saturates, so the invariant counts the saturated totals of the outstanding reservations;
  as long as they fit the limit their sum is the saturated total of the counters.
\<close>

definition reservations_ok :: "usage_limit \<Rightarrow> usage_snapshot \<Rightarrow> token_usage multiset \<Rightarrow> bool" where
  "reservations_ok l s out \<longleftrightarrow>
     us_limit s = l \<and>
     tu_input (reserved s) = (\<Sum>r \<in># out. tu_input r) \<and>
     tu_output (reserved s) = (\<Sum>r \<in># out. tu_output r) \<and>
     tu_input (reserved s) \<le> lim_input l \<and>
     tu_output (reserved s) \<le> lim_output l \<and>
     (\<Sum>r \<in># out. usage_total r) \<le> lim_total l"

definition use_ok ::
    "usage_limit \<Rightarrow> usage_snapshot \<Rightarrow> token_usage multiset \<Rightarrow> (token_usage \<times> token_usage) list \<Rightarrow> bool" where
  "use_ok l s out settlements \<longleftrightarrow>
     tu_input (used s) = min u64_max (reported tu_input settlements) \<and>
     tu_output (used s) = min u64_max (reported tu_output settlements) \<and>
     tu_input (used s) + tu_input (reserved s) \<le> lim_input l + overrun tu_input settlements \<and>
     tu_output (used s) + tu_output (reserved s) \<le> lim_output l + overrun tu_output settlements \<and>
     usage_total (used s) + (\<Sum>r \<in># out. usage_total r) \<le> lim_total l + overrun usage_total settlements"

text \<open>A ledger is within its limits when what is used and reserved fits them.\<close>

definition ledger_ok :: "usage_limit \<Rightarrow> usage_snapshot \<Rightarrow> token_usage multiset \<Rightarrow> bool" where
  "ledger_ok l s out \<longleftrightarrow>
     reservations_ok l s out \<and>
     tu_input (used s) + tu_input (reserved s) \<le> lim_input l \<and>
     tu_output (used s) + tu_output (reserved s) \<le> lim_output l \<and>
     usage_total (used s) + (\<Sum>r \<in># out. usage_total r) \<le> lim_total l"

lemma sum_usage_total:
  "(\<Sum>r \<in># out. usage_total r) \<le> u64_max \<Longrightarrow>
     sat_add (\<Sum>r \<in># out. tu_input r) (\<Sum>r \<in># out. tu_output r) = (\<Sum>r \<in># out. usage_total r)"
proof (induction out)
  case empty
  then show ?case by (simp add: sat_add_def)
next
  case (add r out)
  then have "sat_add (\<Sum>r \<in># out. tu_input r) (\<Sum>r \<in># out. tu_output r) =
      (\<Sum>r \<in># out. usage_total r)"
    by simp
  with add.prems show ?case
    by (simp add: usage_total_def sat_add_def min_def split: if_splits)
qed

lemma reservations_total:
  assumes "reservations_ok l s out" and "limits_ok l"
  shows "usage_total (reserved s) = (\<Sum>r \<in># out. usage_total r)"
  using assms sum_usage_total[of out]
  by (simp add: reservations_ok_def limits_ok_def usage_total_def[of "reserved s"])

lemma reserve_Allowed:
  "reserve e s = (s', Allowed rem) \<Longrightarrow>
     tu_input e \<le> lim_input (us_limit s) - tu_input (used s) - tu_input (reserved s) \<and>
     tu_output e \<le> lim_output (us_limit s) - tu_output (used s) - tu_output (reserved s) \<and>
     usage_total e \<le> lim_total (us_limit s) - usage_total (used s) - usage_total (reserved s) \<and>
     s' = s\<lparr>reserved := (reserved s)\<lparr>tu_input := tu_input (reserved s) + tu_input e,
                                    tu_output := tu_output (reserved s) + tu_output e\<rparr>\<rparr>"
  by (auto simp: reserve_def Let_def remaining_def split: if_splits)

lemma reserve_Denied: "reserve e s = (s', Denied rem) \<Longrightarrow> s' = s \<and> rem = remaining s"
  by (auto simp: reserve_def Let_def split: if_splits)

lemma ledger_ok_new: "ledger_ok l (ledger_new l) {#}"
  by (simp add: ledger_ok_def reservations_ok_def ledger_new_def usage_zero_def usage_total_def sat_add_def)

lemma reservations_ok_reserve:
  assumes lo: "limits_ok l" and ok: "reservations_ok l s out" and r: "reserve e s = (s', Allowed rem)"
  shows "reservations_ok l s' (add_mset e out)"
  using ok reserve_Allowed[OF r] reservations_total[OF ok lo] by (auto simp: reservations_ok_def)

lemma reservations_ok_release:
  "reservations_ok l s (add_mset r out) \<Longrightarrow> reservations_ok l (release r s) out"
  by (auto simp: reservations_ok_def release_def)

lemma reservations_ok_commit:
  "reservations_ok l s (add_mset r out) \<Longrightarrow> reservations_ok l (commit r a s) out"
  by (auto simp: reservations_ok_def commit_def)

lemma reserve_bound:
  fixes u :: nat
  shows "u + r \<le> l + x \<Longrightarrow> e \<le> l - (u + r) \<Longrightarrow> u + (r + e) \<le> l + x"
  by linarith

lemma use_ok_reserve:
  assumes lo: "limits_ok l" and ok: "reservations_ok l s out" and use: "use_ok l s out past"
    and r: "reserve e s = (s', Allowed rem)"
  shows "use_ok l s' (add_mset e out) past"
  using ok use reserve_Allowed[OF r] reservations_total[OF ok lo]
  by (auto simp: reservations_ok_def use_ok_def intro: reserve_bound)

lemma use_ok_release: "reservations_ok l s (add_mset r out) \<Longrightarrow> use_ok l s (add_mset r out) past \<Longrightarrow>
    use_ok l (release r s) out past"
  by (auto simp: reservations_ok_def use_ok_def release_def)

lemma sat_add_report: "sat_add (min u64_max n) k = min u64_max (k + n)"
  by (simp add: sat_add_def min_def)

lemma usage_total_commit: "usage_total (used (commit r a s)) \<le> usage_total (used s) + usage_total a"
  by (simp add: commit_def usage_total_def sat_add_def min_def)

lemma settle_bound:
  fixes u :: nat
  shows "u + (r + rest) \<le> l + x \<Longrightarrow> u' \<le> u + a \<Longrightarrow> u' + rest \<le> l + (a - r + x)"
  by linarith

lemma commit_counters:
  assumes "reservations_ok l s (add_mset r out)"
  shows "tu_input (used (commit r a s)) = sat_add (tu_input (used s)) (tu_input a)"
    and "tu_output (used (commit r a s)) = sat_add (tu_output (used s)) (tu_output a)"
    and "tu_input (reserved (commit r a s)) = (\<Sum>r \<in># out. tu_input r)"
    and "tu_output (reserved (commit r a s)) = (\<Sum>r \<in># out. tu_output r)"
  using assms by (simp_all add: commit_def reservations_ok_def)

lemma use_ok_commit:
  assumes ok: "reservations_ok l s (add_mset r out)" and use: "use_ok l s (add_mset r out) past"
  shows "use_ok l (commit r a s) out ((r, a) # past)"
proof -
  have sat: "sat_add x y \<le> x + y" for x y by (simp add: sat_add_def)
  have sums: "tu_input (reserved s) = tu_input r + (\<Sum>r \<in># out. tu_input r)"
    "tu_output (reserved s) = tu_output r + (\<Sum>r \<in># out. tu_output r)"
    using ok by (simp_all add: reservations_ok_def)
  show ?thesis
    using use unfolding use_ok_def commit_counters[OF ok] sums overrun_simps reported_simps
    by (auto simp: sat_add_report intro: settle_bound[OF _ sat, unfolded sat_add_report]
        settle_bound[OF _ usage_total_commit] dest: settle_bound[OF _ sat])
qed

lemma ledger_session_ok:
  "ledger_session l s out past \<Longrightarrow> limits_ok l \<Longrightarrow> reservations_ok l s out \<and> use_ok l s out past"
proof (induction rule: ledger_session.induct)
  case opened
  then show ?case using ledger_ok_new[of l]
    by (simp add: ledger_ok_def use_ok_def ledger_new_def usage_zero_def usage_total_def sat_add_def)
next
  case (denied s out past e s' rem)
  then show ?case by (auto dest: reserve_Denied)
qed (auto intro: reservations_ok_reserve reservations_ok_release reservations_ok_commit
       use_ok_reserve use_ok_release use_ok_commit)

text \<open>When every settled call stayed within its estimate, the ledger is within its limits.\<close>

definition within :: "token_usage \<Rightarrow> token_usage \<Rightarrow> bool" where
  "within a r = (tu_input a \<le> tu_input r \<and> tu_output a \<le> tu_output r)"

lemma overrun_within: "\<forall>(r, a) \<in> set past. f a \<le> f r \<Longrightarrow> overrun f past = 0"
  by (induction past) (auto simp: overrun_def)

lemma usage_total_within: "within a r \<Longrightarrow> usage_total a \<le> usage_total r"
  by (auto simp: within_def usage_total_def sat_add_def min_def)

lemma ledger_session_within:
  assumes "ledger_session l s out past" and "limits_ok l" and "\<forall>(r, a) \<in> set past. within a r"
  shows "ledger_ok l s out"
proof -
  have "overrun tu_input past = 0" "overrun tu_output past = 0" "overrun usage_total past = 0"
    using assms(3) usage_total_within by (intro overrun_within; fastforce simp: within_def)+
  with ledger_session_ok[OF assms(1,2)] show ?thesis by (simp add: ledger_ok_def use_ok_def)
qed

section \<open>Properties\<close>

text \<open>C8: in every session, whatever usage the settled calls report, the reserved counters are exactly
  the sum of the outstanding reservations and never pass the limits, and the used counters are the
  (saturated) sums of the reports. Use and reservations together pass a limit by at most the overrun,
  what the reports add up to beyond their estimates; when every settled call stayed within its estimate
  that is 0 and none of the three limits is passed. \<open>commit\<close> itself does not bound a report.\<close>

theorem ledger_never_overcommits:
  assumes "ledger_session l s out past" and "limits_ok l"
  shows "tu_input (reserved s) = (\<Sum>r \<in># out. tu_input r) \<and>
    tu_output (reserved s) = (\<Sum>r \<in># out. tu_output r) \<and>
    tu_input (reserved s) \<le> lim_input l \<and> tu_output (reserved s) \<le> lim_output l \<and>
    usage_total (reserved s) \<le> lim_total l \<and>
    tu_input (used s) = min u64_max (reported tu_input past) \<and>
    tu_output (used s) = min u64_max (reported tu_output past) \<and>
    tu_input (used s) + tu_input (reserved s) \<le> lim_input l + overrun tu_input past \<and>
    tu_output (used s) + tu_output (reserved s) \<le> lim_output l + overrun tu_output past \<and>
    usage_total (used s) + usage_total (reserved s) \<le> lim_total l + overrun usage_total past"
proof -
  from ledger_session_ok[OF assms] have ok: "reservations_ok l s out" and use: "use_ok l s out past" by auto
  from reservations_total[OF ok assms(2)] show ?thesis
    using ok use by (auto simp: reservations_ok_def use_ok_def)
qed

definition tokens :: "u64 \<Rightarrow> u64 \<Rightarrow> token_usage" where
  "tokens i out = usage_zero\<lparr>tu_input := i, tu_output := out\<rparr>"

theorem ledger_never_overcommits_witness:
  "\<exists>s. ledger_session \<lparr>lim_input = 10, lim_output = 10, lim_total = 12\<rparr> s {#} [(tokens 6 3, tokens 8 3)] \<and>
     tu_input (used s) = 8 \<and> tu_input (reserved s) = 0"
proof -
  let ?l = "\<lparr>lim_input = 10, lim_output = 10, lim_total = 12\<rparr>"
  let ?s = "(ledger_new ?l)\<lparr>reserved := tokens 6 3\<rparr>"
  have r: "reserve (tokens 6 3) (ledger_new ?l) = (?s, Allowed (remaining ?s))"
    by (simp add: reserve_def ledger_new_def remaining_def tokens_def usage_zero_def usage_total_def
        sat_add_def Let_def)
  have s: "ledger_session ?l (commit (tokens 6 3) (tokens 8 3) ?s) {#} [(tokens 6 3, tokens 8 3)]"
    using ledger_session.settled[OF ledger_session.allowed[OF ledger_session.opened r]] by simp
  have ok: "limits_ok ?l" by (simp add: limits_ok_def)
  from ledger_never_overcommits [OF s ok] show ?thesis using s by (auto simp: tokens_def)
qed

text \<open>A reservation is refused exactly when it would pass a limit: on a ledger within its limits,
  \<open>reserve\<close> allows an estimate if and only if input, output and total still fit with what is used and
  reserved, a refusal changes nothing and reports what remains, and \<open>release\<close> undoes an allowed
  reservation.\<close>

theorem reserve_is_exact_and_reversible:
  assumes ok: "ledger_ok l s out" and lim: "limits_ok l"
  shows "((\<exists>s' rem. reserve e s = (s', Allowed rem)) \<longleftrightarrow>
      tu_input (used s) + tu_input (reserved s) + tu_input e \<le> lim_input l \<and>
      tu_output (used s) + tu_output (reserved s) + tu_output e \<le> lim_output l \<and>
      usage_total (used s) + usage_total (reserved s) + usage_total e \<le> lim_total l) \<and>
    (\<forall>s' rem. reserve e s = (s', Denied rem) \<longrightarrow> s' = s \<and> rem = remaining s) \<and>
    (\<forall>s' rem. reserve e s = (s', Allowed rem) \<longrightarrow> release e s' = s)"
proof (intro conjI)
  show "(\<exists>s' rem. reserve e s = (s', Allowed rem)) \<longleftrightarrow>
      tu_input (used s) + tu_input (reserved s) + tu_input e \<le> lim_input l \<and>
      tu_output (used s) + tu_output (reserved s) + tu_output e \<le> lim_output l \<and>
      usage_total (used s) + usage_total (reserved s) + usage_total e \<le> lim_total l"
    using ok reservations_total[of l s out] lim
    by (auto simp: reserve_def remaining_def Let_def ledger_ok_def reservations_ok_def limits_ok_def)
  show "\<forall>s' rem. reserve e s = (s', Denied rem) \<longrightarrow> s' = s \<and> rem = remaining s"
    by (auto dest: reserve_Denied)
  show "\<forall>s' rem. reserve e s = (s', Allowed rem) \<longrightarrow> release e s' = s"
    by (auto dest!: reserve_Allowed simp: release_def)
qed

theorem reserve_is_exact_and_reversible_witness:
  "\<not> (\<exists>s' rem. reserve (tokens 6 7) (ledger_new \<lparr>lim_input = 10, lim_output = 10, lim_total = 12\<rparr>)
        = (s', Allowed rem))"
proof -
  let ?l = "\<lparr>lim_input = 10, lim_output = 10, lim_total = 12\<rparr>"
  show ?thesis
    using reserve_is_exact_and_reversible [OF ledger_ok_new[of ?l], of "tokens 6 7"]
    by (simp add: limits_ok_def ledger_new_def tokens_def usage_zero_def usage_total_def sat_add_def)
qed

end
