(* ===== verification/Fairness.thy ===== *)
theory Fairness
  imports Graph Usage
begin

text \<open>
  Provider-neutral routing fairness (\<open>crates/minha-core/src/fairness.rs\<close>): normalised work, the
  exponential cooldown, the route key and its persisted state, provider health, and the equal-weight
  weighted deficit round robin choice. \<open>FairnessKeyV1\<close> and \<open>FairnessCandidateV1\<close> derive \<open>Ord\<close>, so
  they are instances of \<open>linorder\<close>. A \<open>DateTime\<close> is a \<open>time\<close>, one unit of which is a second.
\<close>

definition FAIRNESS_SCHEMA_VERSION :: u16 where "FAIRNESS_SCHEMA_VERSION = 1"
definition PROVIDER_HEALTH_SCHEMA_VERSION :: u16 where "PROVIDER_HEALTH_SCHEMA_VERSION = 1"
definition WDRR_QUANTUM :: u64 where "WDRR_QUANTUM = 100000"
definition INITIAL_PROVIDER_COOLDOWN_SECONDS :: i64 where "INITIAL_PROVIDER_COOLDOWN_SECONDS = 15"
definition MAX_PROVIDER_COOLDOWN_SECONDS :: i64 where "MAX_PROVIDER_COOLDOWN_SECONDS = 5 * 60"

definition normalized_token_work :: "token_usage \<Rightarrow> u64" where
  "normalized_token_work u =
     sat_add (sat_add (sat_add (tu_input u) (tu_cached_input u div 4)) (sat_mul (tu_output u) 4))
       (sat_mul (tu_reasoning_output u) 4)"

definition exponential_cooldown_seconds :: "u32 \<Rightarrow> i64" where
  "exponential_cooldown_seconds consecutive_failures =
     (let exponent = min (consecutive_failures - 1) 5;
          multiplier = 2 ^ exponent
      in min (sat_i64 (INITIAL_PROVIDER_COOLDOWN_SECONDS * multiplier)) MAX_PROVIDER_COOLDOWN_SECONDS)"

section \<open>Keys and candidates\<close>

datatype fairness_key =
  FairnessKey (fk_workspace: str) (fk_role: str) (fk_provider: str) (fk_model: str)

datatype fairness_candidate = FairnessCandidate (fc_provider: str) (fc_model: str)

fun fairness_key_fields :: "fairness_key \<Rightarrow> str \<times> str \<times> str \<times> str" where
  "fairness_key_fields (FairnessKey w r p m) = (w, r, p, m)"

fun fairness_candidate_fields :: "fairness_candidate \<Rightarrow> str \<times> str" where
  "fairness_candidate_fields (FairnessCandidate p m) = (p, m)"

lemma fairness_key_fields_eq [simp]: "fairness_key_fields a = fairness_key_fields b \<longleftrightarrow> a = b"
  by (cases a; cases b) simp

lemma fairness_candidate_fields_eq [simp]:
  "fairness_candidate_fields a = fairness_candidate_fields b \<longleftrightarrow> a = b"
  by (cases a; cases b) simp

instantiation fairness_key :: linorder
begin

definition less_eq_fairness_key :: "fairness_key \<Rightarrow> fairness_key \<Rightarrow> bool" where
  "a \<le> b \<longleftrightarrow> fairness_key_fields a \<le> fairness_key_fields b"

definition less_fairness_key :: "fairness_key \<Rightarrow> fairness_key \<Rightarrow> bool" where
  "a < b \<longleftrightarrow> fairness_key_fields a < fairness_key_fields b"

instance
  by standard (auto simp: less_eq_fairness_key_def less_fairness_key_def dest: antisym)

end

instantiation fairness_candidate :: linorder
begin

definition less_eq_fairness_candidate :: "fairness_candidate \<Rightarrow> fairness_candidate \<Rightarrow> bool" where
  "a \<le> b \<longleftrightarrow> fairness_candidate_fields a \<le> fairness_candidate_fields b"

definition less_fairness_candidate :: "fairness_candidate \<Rightarrow> fairness_candidate \<Rightarrow> bool" where
  "a < b \<longleftrightarrow> fairness_candidate_fields a < fairness_candidate_fields b"

instance
  by standard (auto simp: less_eq_fairness_candidate_def less_fairness_candidate_def dest: antisym)

end

record fairness_state =
  fst_schema_version :: u16
  fst_key :: fairness_key
  fst_deficit :: i64
  fst_dispatched :: u64
  fst_settled_work :: u64
  fst_updated_at :: time

record fairness_selection =
  sel_schema_version :: u16
  sel_key :: fairness_key
  sel_quantum :: u64
  sel_estimated_work :: u64
  sel_deficit_before :: i64
  sel_deficit_after :: i64

section \<open>Provider health\<close>

datatype provider_health_status =
  HealthUnknown | Healthy | CoolingDown | Unsupported | AuthenticationRequired

fun provider_health_status_str :: "provider_health_status \<Rightarrow> str" where
  "provider_health_status_str HealthUnknown = ''unknown''"
| "provider_health_status_str Healthy = ''healthy''"
| "provider_health_status_str CoolingDown = ''cooling_down''"
| "provider_health_status_str Unsupported = ''unsupported''"
| "provider_health_status_str AuthenticationRequired = ''authentication_required''"

definition provider_health_status_parse :: "str \<Rightarrow> provider_health_status option" where
  "provider_health_status_parse value =
     (if value = ''unknown'' then Some HealthUnknown
      else if value = ''healthy'' then Some Healthy
      else if value = ''cooling_down'' then Some CoolingDown
      else if value = ''unsupported'' then Some Unsupported
      else if value = ''authentication_required'' then Some AuthenticationRequired
      else None)"

interpretation health_wire:
  strict_wire_format provider_health_status_str provider_health_status_parse "\<lambda>_. True"
proof unfold_locales
  show "provider_health_status_parse (provider_health_status_str x) = Some x" for x
    by (cases x) (simp_all add: provider_health_status_parse_def)
  show "provider_health_status_str x = w \<and> True" if "provider_health_status_parse w = Some x" for w x
    using that by (auto simp: provider_health_status_parse_def split: if_splits)
qed

record provider_health =
  ph_schema_version :: u16
  ph_workspace_id :: str
  ph_provider :: str
  ph_status :: provider_health_status
  ph_cooldown_until :: "time option"
  ph_consecutive_failures :: u32
  ph_detail :: str
  ph_updated_at :: time

definition provider_health_unknown :: "time \<Rightarrow> str \<Rightarrow> str \<Rightarrow> provider_health" where
  "provider_health_unknown now workspace_id provider =
     \<lparr>ph_schema_version = PROVIDER_HEALTH_SCHEMA_VERSION, ph_workspace_id = workspace_id,
      ph_provider = provider, ph_status = HealthUnknown, ph_cooldown_until = None,
      ph_consecutive_failures = 0, ph_detail = ''no provider telemetry has been observed'',
      ph_updated_at = now\<rparr>"

definition cooldown_active_at :: "provider_health \<Rightarrow> time \<Rightarrow> bool" where
  "cooldown_active_at h now =
     (ph_status h = CoolingDown \<and>
      (case ph_cooldown_until h of None \<Rightarrow> False | Some until \<Rightarrow> until > now))"

section \<open>The choice\<close>

record ranked_candidate =
  rc_key :: fairness_key
  rc_deficit_before :: i64
  rc_credited_deficit :: i64

text \<open>\<open>credit\<close> is \<open>deficit.saturating_add(WDRR_QUANTUM.min(i64::MAX as u64) as i64)\<close>, which the store
  writes again; \<open>signed_work\<close> is the clamp \<open>value.min(i64::MAX as u64) as i64\<close>.\<close>

definition signed_work :: "u64 \<Rightarrow> i64" where
  "signed_work value = min (int value) i64_max"

definition credit :: "i64 \<Rightarrow> i64" where
  "credit deficit = sat_i64 (deficit + signed_work WDRR_QUANTUM)"

definition rank_candidate :: "str \<Rightarrow> str \<Rightarrow> fairness_candidate \<times> i64 \<Rightarrow> ranked_candidate" where
  "rank_candidate workspace_id role c =
     \<lparr>rc_key = FairnessKey workspace_id role (fc_provider (fst c)) (fc_model (fst c)),
      rc_deficit_before = snd c, rc_credited_deficit = credit (snd c)\<rparr>"

text \<open>The comparison of \<open>sort_by\<close> is the order of these triples: credited deficit descending, then
  provider, then model.\<close>

definition rank_order :: "ranked_candidate \<Rightarrow> int \<times> str \<times> str" where
  "rank_order r = (- rc_credited_deficit r, fk_provider (rc_key r), fk_model (rc_key r))"

definition choose_equal_weight_wdrr ::
    "str \<Rightarrow> str \<Rightarrow> (fairness_candidate \<times> i64) list \<Rightarrow> u64 \<Rightarrow> fairness_selection option" where
  "choose_equal_weight_wdrr workspace_id role candidates estimated_work =
     (case sort_key rank_order (map (rank_candidate workspace_id role) candidates) of
        [] \<Rightarrow> None
      | selected # _ \<Rightarrow>
          Some \<lparr>sel_schema_version = FAIRNESS_SCHEMA_VERSION,
                sel_key = rc_key selected,
                sel_quantum = WDRR_QUANTUM,
                sel_estimated_work = min estimated_work (nat i64_max),
                sel_deficit_before = rc_deficit_before selected,
                sel_deficit_after =
                  sat_i64 (rc_credited_deficit selected - signed_work estimated_work)\<rparr>)"

lemma hd_sort_key:
  assumes "sort_key f xs = y # ys"
  shows "y \<in> set xs" and "x \<in> set xs \<Longrightarrow> f y \<le> f x"
proof -
  have "set (sort_key f xs) = set xs" and s: "sorted (map f (sort_key f xs))" by simp_all
  then show "y \<in> set xs" and "x \<in> set xs \<Longrightarrow> f y \<le> f x"
    using assms by (metis list.set_intros(1), auto simp: assms)
qed

lemma credit_mono: "a \<le> b \<Longrightarrow> credit a \<le> credit b"
  by (simp add: credit_def sat_i64_mono)

lemma choose_None: "choose_equal_weight_wdrr w r cs e = None \<longleftrightarrow> cs = []"
proof -
  have "sort_key rank_order (map (rank_candidate w r) cs) = [] \<longleftrightarrow> cs = []"
    by (metis length_0_conv length_map length_sort)
  then show ?thesis by (auto simp: choose_equal_weight_wdrr_def split: list.splits)
qed

lemma choose_Some:
  assumes "choose_equal_weight_wdrr w r cs e = Some sel"
  obtains c d where "(c, d) \<in> set cs"
    and "sel_key sel = FairnessKey w r (fc_provider c) (fc_model c)"
    and "sel_deficit_before sel = d"
    and "sel_deficit_after sel = sat_i64 (credit d - signed_work e)"
    and "sel_estimated_work sel = min e (nat i64_max)"
    and "\<forall>(c', d') \<in> set cs. credit d' \<le> credit d \<and>
           (credit d' = credit d \<longrightarrow> fairness_candidate_fields c \<le> fairness_candidate_fields c')"
proof -
  let ?xs = "map (rank_candidate w r) cs"
  from assms obtain y ys where y: "sort_key rank_order ?xs = y # ys"
    and sel: "sel_key sel = rc_key y" "sel_deficit_before sel = rc_deficit_before y"
      "sel_deficit_after sel = sat_i64 (rc_credited_deficit y - signed_work e)"
      "sel_estimated_work sel = min e (nat i64_max)"
    by (auto simp: choose_equal_weight_wdrr_def split: list.splits)
  from hd_sort_key(1)[OF y] obtain c d where cd: "(c, d) \<in> set cs" "y = rank_candidate w r (c, d)"
    by auto
  have "credit d' \<le> credit d \<and>
      (credit d' = credit d \<longrightarrow> fairness_candidate_fields c \<le> fairness_candidate_fields c')"
    if "(c', d') \<in> set cs" for c' d'
  proof -
    have "rank_order y \<le> rank_order (rank_candidate w r (c', d'))"
      using hd_sort_key(2)[OF y] that by auto
    then show ?thesis
      by (cases c; cases c') (auto simp: cd(2) rank_order_def rank_candidate_def less_eq_prod_def)
  qed
  with sel cd show thesis by (intro that[of c d]) (auto simp: rank_candidate_def)
qed

lemma choose_fields:
  assumes "choose_equal_weight_wdrr w r cs e = Some sel"
  shows "sel_schema_version sel = FAIRNESS_SCHEMA_VERSION" and "sel_quantum sel = WDRR_QUANTUM"
    and "nat (signed_work (sel_estimated_work sel)) = sel_estimated_work sel"
  using assms by (auto simp: choose_equal_weight_wdrr_def signed_work_def split: list.splits)

lemma cooldown_cases:
  "exponential_cooldown_seconds n =
     (if n \<le> 1 then 15 else if n = 2 then 30 else if n = 3 then 60 else if n = 4 then 120
      else if n = 5 then 240 else 300)"
proof -
  consider "n \<le> 1" | "n = 2" | "n = 3" | "n = 4" | "n = 5" | "6 \<le> n" by linarith
  moreover have "6 \<le> n \<Longrightarrow> min (n - 1) 5 = 5" by simp
  ultimately show ?thesis
    by cases (simp_all add: exponential_cooldown_seconds_def Let_def sat_i64_def
        INITIAL_PROVIDER_COOLDOWN_SECONDS_def MAX_PROVIDER_COOLDOWN_SECONDS_def)
qed

section \<open>Properties\<close>

text \<open>The choice is exact: there is none only without candidates, and otherwise the chosen route
  is a candidate no other candidate beats after the credit, ties going to the least provider and then
  model, charged with the clamped estimate.\<close>

theorem wdrr_choice_is_the_largest_deficit:
  "(choose_equal_weight_wdrr w r cs e = None \<longleftrightarrow> cs = []) \<and>
   (\<forall>sel. choose_equal_weight_wdrr w r cs e = Some sel \<longrightarrow>
      (\<exists>c d. (c, d) \<in> set cs \<and>
        sel_key sel = FairnessKey w r (fc_provider c) (fc_model c) \<and>
        sel_deficit_before sel = d \<and>
        sel_deficit_after sel = sat_i64 (credit d - signed_work e) \<and>
        (\<forall>(c', d') \<in> set cs. credit d' \<le> credit d \<and> (credit d' = credit d \<longrightarrow> c \<le> c'))))"
  using choose_None by (auto elim!: choose_Some simp: less_eq_fairness_candidate_def)

text \<open>The inferred cooldown starts at fifteen seconds, doubles with every further failure until it
  reaches five minutes and stays there; it never shrinks when failures grow.\<close>

theorem cooldown_doubles_to_five_minutes:
  "exponential_cooldown_seconds 1 = INITIAL_PROVIDER_COOLDOWN_SECONDS \<and>
   exponential_cooldown_seconds (Suc (Suc n)) =
     min (2 * exponential_cooldown_seconds (Suc n)) MAX_PROVIDER_COOLDOWN_SECONDS \<and>
   exponential_cooldown_seconds n \<le> exponential_cooldown_seconds (n + k)"
  by (auto simp: cooldown_cases INITIAL_PROVIDER_COOLDOWN_SECONDS_def MAX_PROVIDER_COOLDOWN_SECONDS_def)

end
