(* ===== verification/Json.thy ===== *)
theory Json
  imports Rust_Search
begin

text \<open>
  \<open>serde_json::Value\<close> as the sources use it: an object is a \<open>Map\<close>, which is a \<open>BTreeMap\<close>; an integer
  number is kept as the \<open>u64\<close> or negative \<open>i64\<close> it was read as, and a floating-point number by its 64
  bits. Parsing text into a value is the crate's, so a parser is an argument where it is used.
\<close>

datatype json_number = PosInt u64 | NegInt int | Float nat

datatype json =
  JNull
| JBool bool
| JNumber json_number
| JString str
| JArray "json list"
| JObject "(str \<times> json) list"

fun json_get :: "json \<Rightarrow> str \<Rightarrow> json option" where
  "json_get (JObject m) k = map_of m k"
| "json_get _ k = None"

fun as_str :: "json \<Rightarrow> str option" where
  "as_str (JString s) = Some s"
| "as_str _ = None"

fun as_bool :: "json \<Rightarrow> bool option" where
  "as_bool (JBool b) = Some b"
| "as_bool _ = None"

fun as_u64 :: "json \<Rightarrow> u64 option" where
  "as_u64 (JNumber (PosInt n)) = Some n"
| "as_u64 _ = None"

fun as_array :: "json \<Rightarrow> json list option" where
  "as_array (JArray xs) = Some xs"
| "as_array _ = None"

fun as_object :: "json \<Rightarrow> (str \<times> json) list option" where
  "as_object (JObject m) = Some m"
| "as_object _ = None"

text \<open>\<open>pointer\<close> on a path of member names that are not array indices.\<close>

fun json_pointer :: "json \<Rightarrow> str list \<Rightarrow> json option" where
  "json_pointer v [] = Some v"
| "json_pointer v (k # ks) = (case json_get v k of None \<Rightarrow> None | Some w \<Rightarrow> json_pointer w ks)"

definition or_else :: "'a option \<Rightarrow> 'a option \<Rightarrow> 'a option" where
  "or_else a b = (case a of None \<Rightarrow> b | Some x \<Rightarrow> Some x)"

definition unwrap_or :: "'a option \<Rightarrow> 'a \<Rightarrow> 'a" where
  "unwrap_or a d = (case a of None \<Rightarrow> d | Some x \<Rightarrow> x)"

definition get_str :: "json \<Rightarrow> str \<Rightarrow> str option" where
  "get_str v k = Option.bind (json_get v k) as_str"

definition get_u64 :: "json \<Rightarrow> str \<Rightarrow> u64 option" where
  "get_u64 v k = Option.bind (json_get v k) as_u64"

definition get_array :: "json \<Rightarrow> str \<Rightarrow> json list option" where
  "get_array v k = Option.bind (json_get v k) as_array"

definition get_bool :: "json \<Rightarrow> str \<Rightarrow> bool option" where
  "get_bool v k = Option.bind (json_get v k) as_bool"

lemma or_else_simps [simp]: "or_else None b = b" "or_else (Some x) b = Some x"
  by (simp_all add: or_else_def)

lemma unwrap_or_simps [simp]: "unwrap_or None d = d" "unwrap_or (Some x) d = x"
  by (simp_all add: unwrap_or_def)

end
