(* ===== verification/Protocol.thy ===== *)
theory Protocol
  imports Fairness Json
begin

text \<open>
  The protocol the harness, the store, the command line and the terminal interface share
  (\<open>crates/minha-core/src/protocol.rs\<close>): states and their names, plan tasks and microtask contracts,
  dispatch receipts in both versions, clarification, incidents and the runtime events with their
  envelope. An identifier (\<open>RunId\<close>, \<open>EventAgentId\<close> and the others) is a UUID; it is kept as the text
  it prints to, which is what the store keys its rows by. An instant is a \<open>time\<close>. The derived
  serialisation is serde's; where code decodes, the derived decoder is an argument.
\<close>

type_synonym run_id = str
type_synonym turn_id = str
type_synonym event_agent_id = str
type_synonym item_id = str
type_synonym request_id = str

definition PROTOCOL_VERSION :: u16 where "PROTOCOL_VERSION = 1"
definition MIN_TYPED_PROTOCOL_VERSION :: u16 where "MIN_TYPED_PROTOCOL_VERSION = 1"

section \<open>States\<close>

datatype mode = Interactive | Batch | ReviewMode

fun mode_display :: "mode \<Rightarrow> str" where
  "mode_display Interactive = ''interactive''"
| "mode_display Batch = ''batch''"
| "mode_display ReviewMode = ''review''"

definition mode_from_str :: "str \<Rightarrow> str + mode" where
  "mode_from_str value =
     (if value = ''interactive'' then Inr Interactive
      else if value = ''batch'' then Inr Batch
      else if value = ''review'' then Inr ReviewMode
      else Inl (''unknown mode: '' @ value))"

datatype exit_state =
  ExitPending | ExitRunning | ExitSucceeded | ExitFailed | ExitCancelled | ExitBlocked
| ExitInconclusive | ExitNeedsInput | ExitUsagePaused | ExitApprovalRequired | ExitAuthUnavailable
| ExitModelUnavailable

datatype agent_state =
  AgentStarting | AgentInspecting | AgentPlanning | AgentWorking | AgentWaiting | AgentIntegrating
| AgentVerifying | AgentCompleted | AgentFailed | AgentCancelled

datatype plan_task_state = TaskPending | TaskRunning | TaskCompleted | TaskBlocked | TaskFailed

datatype todo_state = TodoPending | TodoInProgress | TodoCompleted | TodoBlocked | TodoDropped

datatype run_phase =
  Queued | Preflight | Clarifying | Routing | PhasePlanning | Scheduling | PhaseWorking | Compacting
| Retrying | PhaseIntegrating | Judging | PhaseWaiting | Recovering | PhaseComplete

datatype termination_reason =
  ReasonCompleted | BudgetTarget | ContextBoundary | ToolLimit | TurnLimit | ProviderReserve
| SafetyPolicy | Interrupted | UserPaused | ReasonBlocked | RetryScheduled | Forked
| RecoveryRequired | InvalidEmptyResponse | ProviderFailure

section \<open>Plans and contracts\<close>

record plan_task =
  pt_id :: str
  pt_objective :: str
  pt_paths :: "str list"
  pt_dependencies :: "str list"
  pt_state :: plan_task_state
  pt_agent_id :: "event_agent_id option"

definition MICROTASK_CONTRACT_SCHEMA_VERSION :: u16 where "MICROTASK_CONTRACT_SCHEMA_VERSION = 1"

record microtask_contract =
  mc_schema_version :: u16
  mc_task_id :: str
  mc_goal :: str
  mc_lease_resources :: "str list"
  mc_acceptance_check :: str

record todo_item =
  ti_id :: str
  ti_objective :: str
  ti_state :: todo_state
  ti_order :: u32
  ti_blocker :: "str option"
  ti_evidence :: "str list"
  ti_revision :: u64
section \<open>Dispatch receipts\<close>

record routing_candidate_v1 =
  rc1_provider :: str
  rc1_model :: str
  rc1_eligible :: bool
  rc1_reason :: str

record routing_candidate =
  rc_provider :: str
  rc_model :: str
  rc_eligible :: bool
  rc_reason :: str
  rc_health :: provider_health_status
  rc_cooldown_until :: "time option"
  rc_reserve :: str
  rc_pinned :: bool

definition candidate_v2 :: "routing_candidate_v1 \<Rightarrow> routing_candidate" where
  "candidate_v2 c =
     \<lparr>rc_provider = rc1_provider c, rc_model = rc1_model c, rc_eligible = rc1_eligible c,
      rc_reason = rc1_reason c, rc_health = HealthUnknown, rc_cooldown_until = None, rc_reserve = [],
      rc_pinned = False\<rparr>"

definition candidate_v1 :: "routing_candidate \<Rightarrow> routing_candidate_v1" where
  "candidate_v1 c =
     \<lparr>rc1_provider = rc_provider c, rc1_model = rc_model c, rc1_eligible = rc_eligible c,
      rc1_reason = rc_reason c\<rparr>"

record dispatch_routing =
  dr_schema_version :: u16
  dr_policy :: str
  dr_quantum :: u64
  dr_estimated_work :: u64
  dr_deficit_before :: i64
  dr_deficit_after :: i64
  dr_user_pin :: bool
  dr_reserve_override :: "bool option"
  dr_cooldown_override :: "bool option"
  dr_health :: provider_health_status

definition dispatch_routing_default :: dispatch_routing where
  "dispatch_routing_default =
     \<lparr>dr_schema_version = 1, dr_policy = ''legacy_untracked'', dr_quantum = 0, dr_estimated_work = 0,
      dr_deficit_before = 0, dr_deficit_after = 0, dr_user_pin = False, dr_reserve_override = None,
      dr_cooldown_override = None, dr_health = HealthUnknown\<rparr>"

definition equal_weight :: "fairness_selection \<Rightarrow> dispatch_routing" where
  "equal_weight selection = dispatch_routing_default
     \<lparr>dr_schema_version := 1, dr_policy := ''equal_weight_wdrr'', dr_quantum := sel_quantum selection,
      dr_estimated_work := sel_estimated_work selection,
      dr_deficit_before := sel_deficit_before selection,
      dr_deficit_after := sel_deficit_after selection\<rparr>"

definition DISPATCH_RECEIPT_SCHEMA_VERSION :: u16 where "DISPATCH_RECEIPT_SCHEMA_VERSION = 1"
definition DISPATCH_RECEIPT_V2_SCHEMA_VERSION :: u16 where "DISPATCH_RECEIPT_V2_SCHEMA_VERSION = 2"

record dispatch_receipt_v1 =
  r1_schema_version :: u16
  r1_receipt_id :: str
  r1_task_id :: str
  r1_generation :: u64
  r1_agent_id :: event_agent_id
  r1_role :: str
  r1_provider :: str
  r1_model :: str
  r1_candidates :: "routing_candidate_v1 list"
  r1_lease_resources :: "str list"
  r1_acceptance_check :: str
  r1_estimated_input_tokens :: u64
  r1_session_used_tokens :: u64
  r1_session_target_tokens :: u64
  r1_budget_pressure :: str
  r1_parallelism_reason :: str
  r1_book_sources :: "str list"
  r1_issued_at :: time

record dispatch_receipt =
  r2_schema_version :: u16
  r2_receipt_id :: str
  r2_task_id :: str
  r2_generation :: u64
  r2_agent_id :: event_agent_id
  r2_role :: str
  r2_provider :: str
  r2_model :: str
  r2_candidates :: "routing_candidate list"
  r2_lease_resources :: "str list"
  r2_acceptance_check :: str
  r2_estimated_input_tokens :: u64
  r2_session_used_tokens :: u64
  r2_session_target_tokens :: u64
  r2_budget_pressure :: str
  r2_parallelism_reason :: str
  r2_book_sources :: "str list"
  r2_issued_at :: time
  r2_routing :: dispatch_routing

definition receipt_from_v1 :: "dispatch_receipt_v1 \<Rightarrow> dispatch_receipt" where
  "receipt_from_v1 r =
     \<lparr>r2_schema_version = DISPATCH_RECEIPT_V2_SCHEMA_VERSION, r2_receipt_id = r1_receipt_id r,
      r2_task_id = r1_task_id r, r2_generation = r1_generation r, r2_agent_id = r1_agent_id r,
      r2_role = r1_role r, r2_provider = r1_provider r, r2_model = r1_model r,
      r2_candidates = map candidate_v2 (r1_candidates r),
      r2_lease_resources = r1_lease_resources r, r2_acceptance_check = r1_acceptance_check r,
      r2_estimated_input_tokens = r1_estimated_input_tokens r,
      r2_session_used_tokens = r1_session_used_tokens r,
      r2_session_target_tokens = r1_session_target_tokens r,
      r2_budget_pressure = r1_budget_pressure r, r2_parallelism_reason = r1_parallelism_reason r,
      r2_book_sources = r1_book_sources r, r2_issued_at = r1_issued_at r,
      r2_routing = dispatch_routing_default\<rparr>"

definition receipt_to_v1 :: "dispatch_receipt \<Rightarrow> dispatch_receipt_v1" where
  "receipt_to_v1 r =
     \<lparr>r1_schema_version = DISPATCH_RECEIPT_SCHEMA_VERSION, r1_receipt_id = r2_receipt_id r,
      r1_task_id = r2_task_id r, r1_generation = r2_generation r, r1_agent_id = r2_agent_id r,
      r1_role = r2_role r, r1_provider = r2_provider r, r1_model = r2_model r,
      r1_candidates = map candidate_v1 (r2_candidates r),
      r1_lease_resources = r2_lease_resources r, r1_acceptance_check = r2_acceptance_check r,
      r1_estimated_input_tokens = r2_estimated_input_tokens r,
      r1_session_used_tokens = r2_session_used_tokens r,
      r1_session_target_tokens = r2_session_target_tokens r,
      r1_budget_pressure = r2_budget_pressure r, r1_parallelism_reason = r2_parallelism_reason r,
      r1_book_sources = r2_book_sources r, r1_issued_at = r2_issued_at r\<rparr>"

text \<open>
  The decoder of a stored receipt reads the version first and hands the value to the derived decoder
  of that version (\<open>v1\<close>, and \<open>v2\<close> for the wire type, which has the fields of the receipt).
\<close>

definition deserialize_receipt ::
    "(json \<Rightarrow> str + dispatch_receipt_v1) \<Rightarrow> (json \<Rightarrow> str + dispatch_receipt) \<Rightarrow> json \<Rightarrow> str + dispatch_receipt"
    where
  "deserialize_receipt v1 v2 value =
     (case Option.bind (json_get value ''schema_version'') as_u64 of
        None \<Rightarrow> Inl ''dispatch receipt schema_version is required''
      | Some ver \<Rightarrow>
          if ver = 1 then r_map receipt_from_v1 (v1 value)
          else if ver = 2 then v2 value
          else Inl (''unsupported dispatch receipt schema '' @ show_nat ver))"

lemma candidate_v1_v2 [simp]: "candidate_v1 (candidate_v2 c) = c"
  by (simp add: candidate_v1_def candidate_v2_def)

text \<open>The projection shown to events and the interface forgets nothing a version 1 receipt had.\<close>

lemma receipt_to_from_v1:
  "receipt_to_v1 (receipt_from_v1 r) = r\<lparr>r1_schema_version := DISPATCH_RECEIPT_SCHEMA_VERSION\<rparr>"
  by (simp add: receipt_to_v1_def receipt_from_v1_def o_def)

section \<open>Clarification and incidents\<close>

datatype issue_kind = Defect | Feature | Audit | ReviewIssue | QuestionIssue | UnknownIssue

datatype clarification_status = Collecting | Reviewing | Confirmed | ClarificationCancelled

datatype dimension_status =
  DimUnknown | DimPartial | DimInferred | DimDelegated | DimConfirmed | DimNotApplicable

record ambiguity_dimension =
  dim_id :: str
  dim_label :: str
  dim_weight :: u8
  dim_status :: dimension_status
  dim_detail :: str

record ambiguity_meter =
  am_overall :: u8
  am_dimensions :: "ambiguity_dimension list"

record clarification_option =
  co_value :: str
  co_label :: str
  co_description :: str
  co_recommended :: bool

record clarification_question =
  cq_id :: str
  cq_dimension :: str
  cq_header :: str
  cq_question :: str
  cq_options :: "clarification_option list"
  cq_allow_free_text :: bool
  cq_allow_not_sure :: bool

record clarification_batch =
  cb_round :: u32
  cb_questions :: "clarification_question list"
  cb_actions :: "str list"

record issue_brief =
  ib_issue_kind :: issue_kind
  ib_observed :: str
  ib_expected :: str
  ib_reproduction :: "str list"
  ib_evidence :: "str list"
  ib_scope :: "str list"
  ib_constraints :: "str list"
  ib_success_criteria :: "str list"
  ib_assumptions :: "str list"
  ib_recommended_workflow :: str
  ib_meter :: ambiguity_meter

record issue_clarification_view =
  icv_schema_version :: u16
  icv_status :: clarification_status
  icv_issue_kind :: issue_kind
  icv_round :: u32
  icv_meter :: ambiguity_meter
  icv_pending_batch :: "clarification_batch option"
  icv_brief :: "issue_brief option"

datatype incident_severity = Info | Warning | ErrorSeverity | Critical

record incident_view =
  iv_code :: str
  iv_severity :: incident_severity
  iv_category :: str
  iv_summary :: str
  iv_retryable :: bool
  iv_correlation_id :: str
  iv_actions :: "str list"

record catalog_model =
  cm_provider :: str
  cm_slug :: str
  cm_context_window :: "u64 option"
  cm_maximum_output :: "u64 option"
  cm_reasoning_levels :: "str list"
  cm_supports_tools :: bool
  cm_supports_parallel_tool_calls :: bool
  cm_capability_source :: str
  cm_pricing :: "json option"
  cm_capability_fetched_at :: "time option"

record board_entry_view =
  bv_id :: str
  bv_scope :: str
  bv_kind :: str
  bv_subject :: str
  bv_body :: str
  bv_task_id :: "str option"
  bv_author_agent_id :: "event_agent_id option"
  bv_confidence :: u8
  bv_status :: str

section \<open>Runtime events\<close>

text \<open>
  One constructor per variant, its fields in the order of the source. The 57 variants are grouped by
  the part of the system they report on, so that each datatype stays small; \<open>Legacy\<close> stands apart as
  the source has it. The reserve of a balance is a floating-point number, kept by its bits.
\<close>

datatype session_event =
  EvSessionStarted str str
| EvSessionResumed
| EvSessionForked run_id
| EvSessionRenamed str
| EvSessionArchived
| EvSessionState exit_state
| EvSessionFinished exit_state "str option" str usize
| EvRunPhase run_phase str
| EvRunStopped termination_reason str
| EvTurnInterrupted str

datatype agent_event =
  EvUserMessage str bool
| EvAgentStarted event_agent_id str str "event_agent_id option"
| EvAgentState event_agent_id agent_state str
| EvTextDelta event_agent_id item_id str
| EvAssistantMessage event_agent_id item_id str str str
| EvAgentRetry str u32 str
| EvSteeringQueued str
| EvSteeringApplied event_agent_id str
| EvSequentialFallback str

datatype plan_event =
  EvPlanCreated str "plan_task list"
| EvPlanTaskChanged str plan_task_state "event_agent_id option"
| EvTodoChanged event_agent_id todo_item
| EvTodoRollupChanged u64 u64 u64 u64 "str list" "str list" "str list"
| EvLeaseChanged str event_agent_id u64 "str list" bool
| EvDispatchReceipt dispatch_receipt_v1
| EvBoardChanged board_entry_view
| EvActivityStarted str "event_agent_id option" str str
| EvActivityUpdated str str
| EvActivityFinished str str bool u64

datatype work_event =
  EvToolStarted event_agent_id str str json
| EvToolOutput event_agent_id str str str str "int option" bool
| EvFileChange "event_agent_id option" "str option" str
| EvQuestion request_id event_agent_id str "str list" bool
| EvApproval request_id event_agent_id str "str list option"
| EvRequestResolved request_id str "bool option"
| EvClarificationStarted issue_clarification_view
| EvClarificationUpdated issue_clarification_view
| EvClarificationConfirmed issue_brief

datatype account_event =
  EvRoutingDecision str str str "str option"
| EvModelCatalog "catalog_model list" time bool
| EvProviderState str bool "bool option" str
| EvProviderBalance str bool str str str str "nat option"
| EvUsage "event_agent_id option" str u64 u64 u64 u64 u64
| EvContextUsage event_agent_id str u64 u64 u64 u64 u64 u64 str
| EvAccountUsage json
| EvCache bool str str u64 u64
| EvCompacted str usize

datatype office_event =
  EvOfficeHealth u64 u64 u64 u64
| EvOfficeRoomChanged str str str str
| EvOfficeMessageChanged str str str str str str bool
| EvBookCatalog u64 u64 u64
| EvMemoryChanged str str str
| EvMemoryRetrieved event_agent_id "str list" u64
| EvIncident incident_view
| EvWarning str
| EvError exit_state str

datatype runtime_event =
  Session session_event
| AgentEvent agent_event
| PlanEvent plan_event
| WorkEvent work_event
| AccountEvent account_event
| OfficeEvent office_event
| EvLegacy str json

fun session_kind :: "session_event \<Rightarrow> str" where
  "session_kind (EvSessionStarted _ _) = ''session.started''"
| "session_kind EvSessionResumed = ''session.resumed''"
| "session_kind (EvSessionForked _) = ''session.forked''"
| "session_kind (EvSessionRenamed _) = ''session.renamed''"
| "session_kind EvSessionArchived = ''session.archived''"
| "session_kind (EvSessionState _) = ''session.state''"
| "session_kind (EvSessionFinished _ _ _ _) = ''session.finished''"
| "session_kind (EvRunPhase _ _) = ''run.phase''"
| "session_kind (EvRunStopped _ _) = ''run.stopped''"
| "session_kind (EvTurnInterrupted _) = ''turn.interrupted''"

fun agent_kind :: "agent_event \<Rightarrow> str" where
  "agent_kind (EvUserMessage _ _) = ''message.user''"
| "agent_kind (EvAgentStarted _ _ _ _) = ''agent.started''"
| "agent_kind (EvAgentState _ _ _) = ''agent.state''"
| "agent_kind (EvTextDelta _ _ _) = ''message.delta''"
| "agent_kind (EvAssistantMessage _ _ _ _ _) = ''message.assistant''"
| "agent_kind (EvAgentRetry _ _ _) = ''agent.retry''"
| "agent_kind (EvSteeringQueued _) = ''steering.queued''"
| "agent_kind (EvSteeringApplied _ _) = ''steering.applied''"
| "agent_kind (EvSequentialFallback _) = ''swarm.sequential_fallback''"

fun plan_kind :: "plan_event \<Rightarrow> str" where
  "plan_kind (EvPlanCreated _ _) = ''plan.created''"
| "plan_kind (EvPlanTaskChanged _ _ _) = ''plan.task_changed''"
| "plan_kind (EvTodoChanged _ _) = ''todo.changed''"
| "plan_kind (EvTodoRollupChanged _ _ _ _ _ _ _) = ''todo.rollup_changed''"
| "plan_kind (EvLeaseChanged _ _ _ _ _) = ''lease.changed''"
| "plan_kind (EvDispatchReceipt _) = ''dispatch.receipt''"
| "plan_kind (EvBoardChanged _) = ''board.changed''"
| "plan_kind (EvActivityStarted _ _ _ _) = ''activity.started''"
| "plan_kind (EvActivityUpdated _ _) = ''activity.updated''"
| "plan_kind (EvActivityFinished _ _ _ _) = ''activity.finished''"

fun work_kind :: "work_event \<Rightarrow> str" where
  "work_kind (EvToolStarted _ _ _ _) = ''tool.started''"
| "work_kind (EvToolOutput _ _ _ _ _ _ _) = ''tool.output''"
| "work_kind (EvFileChange _ _ _) = ''file.change''"
| "work_kind (EvQuestion _ _ _ _ _) = ''request.question''"
| "work_kind (EvApproval _ _ _ _) = ''request.approval''"
| "work_kind (EvRequestResolved _ _ _) = ''request.resolved''"
| "work_kind (EvClarificationStarted _) = ''clarification.started''"
| "work_kind (EvClarificationUpdated _) = ''clarification.updated''"
| "work_kind (EvClarificationConfirmed _) = ''clarification.confirmed''"

fun account_kind :: "account_event \<Rightarrow> str" where
  "account_kind (EvRoutingDecision _ _ _ _) = ''routing.decision''"
| "account_kind (EvModelCatalog _ _ _) = ''model.catalog''"
| "account_kind (EvProviderState _ _ _ _) = ''provider.state''"
| "account_kind (EvProviderBalance _ _ _ _ _ _ _) = ''provider.balance''"
| "account_kind (EvUsage _ _ _ _ _ _ _) = ''usage.turn''"
| "account_kind (EvContextUsage _ _ _ _ _ _ _ _ _) = ''usage.context''"
| "account_kind (EvAccountUsage _) = ''usage.account''"
| "account_kind (EvCache _ _ _ _ _) = ''cache.lookup''"
| "account_kind (EvCompacted _ _) = ''context.compacted''"

fun office_kind :: "office_event \<Rightarrow> str" where
  "office_kind (EvOfficeHealth _ _ _ _) = ''office.health''"
| "office_kind (EvOfficeRoomChanged _ _ _ _) = ''office.room_changed''"
| "office_kind (EvOfficeMessageChanged _ _ _ _ _ _ _) = ''office.message_changed''"
| "office_kind (EvBookCatalog _ _ _) = ''books.catalog''"
| "office_kind (EvMemoryChanged _ _ _) = ''memory.changed''"
| "office_kind (EvMemoryRetrieved _ _ _) = ''memory.retrieved''"
| "office_kind (EvIncident _) = ''incident''"
| "office_kind (EvWarning _) = ''warning''"
| "office_kind (EvError _ _) = ''error''"

fun event_kind :: "runtime_event \<Rightarrow> str" where
  "event_kind (Session e) = session_kind e"
| "event_kind (AgentEvent e) = agent_kind e"
| "event_kind (PlanEvent e) = plan_kind e"
| "event_kind (WorkEvent e) = work_kind e"
| "event_kind (AccountEvent e) = account_kind e"
| "event_kind (OfficeEvent e) = office_kind e"
| "event_kind (EvLegacy _ _) = ''legacy''"

section \<open>Envelopes\<close>

record event_envelope =
  env_protocol_version :: u16
  env_run_id :: run_id
  env_turn_id :: "turn_id option"
  env_sequence :: u64
  env_event :: runtime_event
  env_occurred_at :: time

definition envelope_new :: "time \<Rightarrow> run_id \<Rightarrow> u64 \<Rightarrow> runtime_event \<Rightarrow> event_envelope" where
  "envelope_new now rid seq e =
     \<lparr>env_protocol_version = PROTOCOL_VERSION, env_run_id = rid, env_turn_id = None,
      env_sequence = seq, env_event = e, env_occurred_at = now\<rparr>"

definition envelope_kind :: "event_envelope \<Rightarrow> str" where
  "envelope_kind env = (case env_event env of EvLegacy kind _ \<Rightarrow> kind | e \<Rightarrow> event_kind e)"

text \<open>\<open>to_value\<close> stands for \<open>serde_json::to_value\<close> of an event.\<close>

definition envelope_payload :: "(runtime_event \<Rightarrow> json option) \<Rightarrow> event_envelope \<Rightarrow> json" where
  "envelope_payload to_value env =
     (case env_event env of EvLegacy _ payload \<Rightarrow> payload
      | e \<Rightarrow> (case to_value e of None \<Rightarrow> JNull | Some v \<Rightarrow> v))"

datatype runtime_command =
  StartTurn str str
| QueueSteering run_id str
| InterruptRun run_id
| Answer run_id "request_id option" str
| ResolveApproval run_id request_id bool
| Resume run_id
| Fork run_id
| Rename run_id str
| Archive run_id
| Shutdown

end
