(* ===== verification/Facts.thy ===== *)
theory Facts
  imports Cache_Core Protocol
begin

text \<open>
  Durable facts, board entries and memory records (\<open>crates/minha-core/src/facts.rs\<close>, \<open>memory.rs\<close>).
  The fact store is a \<open>HashMap\<close> keyed by the fact's own id, here an association list whose order is
  the unspecified iteration order; \<open>lower\<close> is \<open>str::to_lowercase\<close>, the Unicode mapping, an argument.
  \<open>sort_by\<close> with its three comparisons is the stable sort by one key.
\<close>

datatype fact_type = Preference | Decision | Constraint | Observation | Identity | OtherFact

fun fact_type_str :: "fact_type \<Rightarrow> str" where
  "fact_type_str Preference = ''preference''"
| "fact_type_str Decision = ''decision''"
| "fact_type_str Constraint = ''constraint''"
| "fact_type_str Observation = ''observation''"
| "fact_type_str Identity = ''identity''"
| "fact_type_str OtherFact = ''other''"

datatype board_scope = SessionScope | ProjectScope

fun board_scope_str :: "board_scope \<Rightarrow> str" where
  "board_scope_str SessionScope = ''session''"
| "board_scope_str ProjectScope = ''project''"

datatype board_kind = BDecision | BConstraint | BFinding | BBlocker | BArtifact | BProgress

fun board_kind_str :: "board_kind \<Rightarrow> str" where
  "board_kind_str BDecision = ''decision''"
| "board_kind_str BConstraint = ''constraint''"
| "board_kind_str BFinding = ''finding''"
| "board_kind_str BBlocker = ''blocker''"
| "board_kind_str BArtifact = ''artifact''"
| "board_kind_str BProgress = ''progress''"

datatype board_status = Open | Resolved | Superseded

fun board_status_str :: "board_status \<Rightarrow> str" where
  "board_status_str Open = ''open''"
| "board_status_str Resolved = ''resolved''"
| "board_status_str Superseded = ''superseded''"

record board_entry =
  be_id :: str
  be_workspace_id :: str
  be_run_id :: "str option"
  be_scope :: board_scope
  be_kind :: board_kind
  be_subject :: str
  be_body :: str
  be_task_id :: "str option"
  be_author_agent_id :: "str option"
  be_confidence :: u8
  be_status :: board_status
  be_supersedes_id :: "str option"
  be_evidence :: "str list"
  be_created_at :: time
  be_updated_at :: time

definition board_entry_session ::
    "time \<Rightarrow> str \<Rightarrow> str \<Rightarrow> str \<Rightarrow> board_kind \<Rightarrow> str \<Rightarrow> str \<Rightarrow> board_entry" where
  "board_entry_session now uuid workspace_id run_id kind subject body =
     \<lparr>be_id = uuid, be_workspace_id = workspace_id, be_run_id = Some run_id, be_scope = SessionScope,
      be_kind = kind, be_subject = subject, be_body = body, be_task_id = None,
      be_author_agent_id = None, be_confidence = 100, be_status = Open, be_supersedes_id = None,
      be_evidence = [], be_created_at = now, be_updated_at = now\<rparr>"

definition board_view :: "board_entry \<Rightarrow> board_entry_view" where
  "board_view e =
     \<lparr>bv_id = be_id e, bv_scope = board_scope_str (be_scope e), bv_kind = board_kind_str (be_kind e),
      bv_subject = be_subject e, bv_body = be_body e, bv_task_id = be_task_id e,
      bv_author_agent_id = be_author_agent_id e, bv_confidence = be_confidence e,
      bv_status = board_status_str (be_status e)\<rparr>"

section \<open>The fact store\<close>

record fact =
  fact_id :: str
  fact_kind :: fact_type
  fact_subject :: str
  fact_value :: str
  confidence :: u8
  tombstone :: bool

definition fact_new :: "str \<Rightarrow> fact_type \<Rightarrow> str \<Rightarrow> str \<Rightarrow> fact" where
  "fact_new i kind subject val =
     \<lparr>fact_id = i, fact_kind = kind, fact_subject = subject, fact_value = val, confidence = 100,
      tombstone = False\<rparr>"

definition with_tombstone :: "fact \<Rightarrow> fact" where
  "with_tombstone f = f\<lparr>tombstone := True\<rparr>"

definition with_confidence :: "fact \<Rightarrow> u8 \<Rightarrow> fact" where
  "with_confidence f c = f\<lparr>confidence := c\<rparr>"

definition fact_tombstone :: "str \<Rightarrow> fact" where
  "fact_tombstone i = with_tombstone (fact_new i OtherFact [] [])"

type_synonym fact_store = "(str \<times> fact) list"

definition fact_upsert :: "fact \<Rightarrow> fact_store \<Rightarrow> fact_store" where
  "fact_upsert f s = AList.update (fact_id f) f s"

definition fact_remove :: "str \<Rightarrow> fact_store \<Rightarrow> fact_store" where
  "fact_remove i s = AList.update i (fact_tombstone i) s"

definition fact_get :: "fact_store \<Rightarrow> str \<Rightarrow> fact option" where
  "fact_get s i =
     (case map_of s i of None \<Rightarrow> None | Some f \<Rightarrow> if \<not> tombstone f then Some f else None)"

definition fact_all :: "fact_store \<Rightarrow> fact list" where
  "fact_all s = filter (\<lambda>f. \<not> tombstone f) (map snd s)"

definition fact_score :: "(str \<Rightarrow> str) \<Rightarrow> str list \<Rightarrow> fact \<Rightarrow> nat" where
  "fact_score lower terms f =
     (let hay = lower (fact_subject f @ '' '' @ fact_value f)
      in length (filter (contains hay) terms))"

definition fact_rank :: "nat \<times> fact \<Rightarrow> int \<times> int \<times> str" where
  "fact_rank sf = (- int (fst sf), - int (confidence (snd sf)), fact_id (snd sf))"

definition retrieve :: "(str \<Rightarrow> str) \<Rightarrow> fact_store \<Rightarrow> str \<Rightarrow> usize \<Rightarrow> fact list" where
  "retrieve lower s query limit =
     (let terms = split_whitespace (lower query);
          ranked = filter (\<lambda>sf. fst sf > 0) (map (\<lambda>f. (fact_score lower terms f, f)) (fact_all s))
      in map snd (take limit (sort_key fact_rank ranked)))"

section \<open>Memory records\<close>

datatype memory_scope = UserMemory | ProjectMemory | RunMemory

fun memory_scope_str :: "memory_scope \<Rightarrow> str" where
  "memory_scope_str UserMemory = ''user''"
| "memory_scope_str ProjectMemory = ''project''"
| "memory_scope_str RunMemory = ''run''"

record memory_record =
  mr_id :: str
  mr_workspace_id :: "str option"
  mr_run_id :: "str option"
  mr_scope :: memory_scope
  mr_kind :: str
  mr_subject :: str
  mr_body :: str
  mr_confidence :: u8
  mr_salience :: u8
  mr_provenance :: "str list"
  mr_entities :: "str list"
  mr_valid_from :: time
  mr_valid_until :: "time option"
  mr_access_count :: u64
  mr_pinned :: bool
  mr_supersedes_id :: "str option"
  mr_tombstone :: bool
  mr_created_at :: time
  mr_updated_at :: time

definition memory_candidate ::
    "time \<Rightarrow> str \<Rightarrow> memory_scope \<Rightarrow> str \<Rightarrow> str \<Rightarrow> str \<Rightarrow> memory_record" where
  "memory_candidate now uuid scope kind subject body =
     \<lparr>mr_id = uuid, mr_workspace_id = None, mr_run_id = None, mr_scope = scope, mr_kind = kind,
      mr_subject = subject, mr_body = body, mr_confidence = 80, mr_salience = 50, mr_provenance = [],
      mr_entities = [], mr_valid_from = now, mr_valid_until = None, mr_access_count = 0,
      mr_pinned = False, mr_supersedes_id = None, mr_tombstone = False, mr_created_at = now,
      mr_updated_at = now\<rparr>"

definition memory_is_safe :: "(str \<Rightarrow> bool) \<Rightarrow> memory_record \<Rightarrow> bool" where
  "memory_is_safe uni m =
     (\<not> blank (mr_subject m) \<and> \<not> blank (mr_body m) \<and>
      \<not> contains_secret uni ''memory'' (mr_subject m) \<and> \<not> contains_secret uni ''memory'' (mr_body m) \<and>
      list_all (\<lambda>v. \<not> contains_secret uni ''memory'' v) (mr_provenance m))"

record memory_settings =
  ms_enabled :: bool
  ms_use_memory :: bool
  ms_generate :: bool

definition memory_settings_default :: memory_settings where
  "memory_settings_default = \<lparr>ms_enabled = True, ms_use_memory = True, ms_generate = True\<rparr>"

section \<open>Lemmas\<close>

definition facts_ok :: "fact_store \<Rightarrow> bool" where
  "facts_ok s \<longleftrightarrow> distinct (map fst s) \<and> (\<forall>(i, f) \<in> set s. fact_id f = i)"

lemma facts_ok_update:
  assumes "facts_ok s" and "fact_id f = i"
  shows "facts_ok (AList.update i f s)"
proof -
  have "set (AList.update i f s) \<subseteq> insert (i, f) (set s)" by (induction s) auto
  then show ?thesis using assms by (auto simp: facts_ok_def distinct_update)
qed

lemma fact_all_mem:
  assumes "facts_ok s"
  shows "f \<in> set (fact_all s) \<longleftrightarrow> fact_get s (fact_id f) = Some f"
proof
  assume "f \<in> set (fact_all s)"
  then obtain i where i: "(i, f) \<in> set s" "\<not> tombstone f" by (auto simp: fact_all_def)
  then have "fact_id f = i" using assms by (auto simp: facts_ok_def)
  with i assms show "fact_get s (fact_id f) = Some f" by (simp add: fact_get_def facts_ok_def)
next
  assume "fact_get s (fact_id f) = Some f"
  then have "map_of s (fact_id f) = Some f" "\<not> tombstone f"
    by (auto simp: fact_get_def split: option.splits if_splits)
  then show "f \<in> set (fact_all s)" using map_of_SomeD by (force simp: fact_all_def)
qed

lemma facts_ok_ids: "facts_ok s \<Longrightarrow> inj_on fact_id (set (fact_all s))"
  by (intro inj_onI) (simp add: fact_all_mem)

lemma fact_all_distinct:
  assumes "facts_ok s"
  shows "distinct (fact_all s)"
proof -
  have "map fact_id (map snd s) = map fst s" using assms by (auto simp: facts_ok_def)
  then have "distinct (map snd s)" using assms by (metis distinct_map facts_ok_def)
  then show ?thesis by (simp add: fact_all_def)
qed

inductive fact_history :: "fact_store \<Rightarrow> bool" where
  no_facts: "fact_history []"
| upserted: "fact_history s \<Longrightarrow> fact_history (fact_upsert f s)"
| removed: "fact_history s \<Longrightarrow> fact_history (fact_remove i s)"

lemma fact_history_ok: "fact_history s \<Longrightarrow> facts_ok s"
proof (induction rule: fact_history.induct)
  case no_facts
  then show ?case by (simp add: facts_ok_def)
next
  case (upserted s f)
  then show ?case by (simp add: fact_upsert_def facts_ok_update)
next
  case (removed s i)
  then show ?case
    by (simp add: fact_remove_def facts_ok_update fact_tombstone_def fact_new_def with_tombstone_def)
qed

text \<open>What is ranked, before the limit.\<close>

definition ranked :: "(str \<Rightarrow> str) \<Rightarrow> fact_store \<Rightarrow> str \<Rightarrow> (nat \<times> fact) list" where
  "ranked lower s query =
     sort_key fact_rank (filter (\<lambda>sf. fst sf > 0)
       (map (\<lambda>f. (fact_score lower (split_whitespace (lower query)) f, f)) (fact_all s)))"

lemma retrieve_ranked: "retrieve lower s query limit = map snd (take limit (ranked lower s query))"
  by (simp add: retrieve_def ranked_def Let_def)

lemma set_ranked:
  "(n, f) \<in> set (ranked lower s query) \<longleftrightarrow>
     f \<in> set (fact_all s) \<and> n = fact_score lower (split_whitespace (lower query)) f \<and> 0 < n"
  by (auto simp: ranked_def)

lemma fact_rank_inj: "facts_ok s \<Longrightarrow> inj_on fact_rank (set (ranked lower s query))"
  by (rule inj_onI) (auto simp: fact_rank_def set_ranked dest: facts_ok_ids[THEN inj_onD])

lemma ranked_unique:
  assumes "facts_ok s" and "facts_ok t" and "fact_get s = fact_get t"
  shows "ranked lower s query = ranked lower t query"
proof -
  have set: "set (fact_all s) = set (fact_all t)"
    using assms by (auto simp: fact_all_mem)
  have same: "set (ranked lower s query) = set (ranked lower t query)"
    by (auto simp: set_ranked set)
  have d: "distinct (ranked lower u query)" if "facts_ok u" for u
    using fact_all_distinct[OF that] by (simp add: ranked_def distinct_map inj_on_def)
  have "sorted (map fact_rank (ranked lower u query)) \<and> distinct (map fact_rank (ranked lower u query))"
    if "facts_ok u" for u
    using fact_rank_inj[OF that] d[OF that] by (simp add: distinct_map) (simp add: ranked_def)
  then have "map fact_rank (ranked lower s query) = map fact_rank (ranked lower t query)"
    using assms same by (intro sorted_distinct_set_unique) auto
  then show ?thesis
    using fact_rank_inj[OF assms(1)] same by (metis inj_on_Un_image_eq_iff map_inj_on sup.idem)
qed

lemma fact_get_update:
  assumes "facts_ok s"
  shows "fact_get (AList.update i f s) =
    (fact_get s)(i := if tombstone f then None else Some f)"
proof
  fix j
  have d: "distinct (map fst s)" using assms by (simp add: facts_ok_def)
  show "fact_get (AList.update i f s) j = ((fact_get s)(i := if tombstone f then None else Some f)) j"
    using hm.get_put_same[OF d, of i f] hm.get_put_other[OF d, of j i f] by (cases "j = i") (simp_all add: fact_get_def)
qed

section \<open>Properties\<close>

text \<open>Replacement and tombstones are exact: upserting a fact makes it the one found under its id (or
  hides the id when the fact is a tombstone), removing hides the id until it is upserted again, other
  ids are untouched, and what is listed is exactly what can be found.\<close>

theorem fact_store_replaces_and_hides:
  assumes "fact_history s"
  shows "fact_get (fact_upsert f s) = (fact_get s)(fact_id f := if tombstone f then None else Some f) \<and>
    fact_get (fact_remove i s) = (fact_get s)(i := None) \<and>
    fact_get (fact_upsert f (fact_remove (fact_id f) s)) = fact_get (fact_upsert f s) \<and>
    (g \<in> set (fact_all s) \<longleftrightarrow> fact_get s (fact_id g) = Some g) \<and> distinct (fact_all s)"
proof -
  have ok: "facts_ok s" by (rule fact_history_ok[OF assms])
  have ok': "facts_ok (fact_remove i s)" for i by (rule fact_history_ok[OF fact_history.removed[OF assms]])
  have u: "fact_get (fact_upsert f s) = (fact_get s)(fact_id f := if tombstone f then None else Some f)"
    unfolding fact_upsert_def by (rule fact_get_update[OF ok])
  have r: "fact_get (fact_remove i s) = (fact_get s)(i := None)" for i
    unfolding fact_remove_def fact_get_update[OF ok] by (simp add: fact_tombstone_def with_tombstone_def)
  have "fact_get (fact_upsert f (fact_remove (fact_id f) s)) = fact_get (fact_upsert f s)"
    unfolding fact_upsert_def[of f "fact_remove (fact_id f) s"] fact_get_update[OF ok'] r u by simp
  with u r fact_all_mem[OF ok] fact_all_distinct[OF ok] show ?thesis by blast
qed

theorem fact_store_replaces_and_hides_witness:
  "fact_get (fact_remove ''a'' (fact_upsert (fact_new ''a'' Decision ''s'' ''v'') [])) ''a'' = None"
  using fact_store_replaces_and_hides [OF fact_history.upserted[OF fact_history.no_facts],
      of "fact_new ''a'' Decision ''s'' ''v''" _ "''a''"] by simp

text \<open>Retrieval is deterministic and complete: it depends only on which facts can be found (not on the
  order the hash map yields them), returns live facts that share a term with the query, at most
  \<open>limit\<close> of them, best first by score, confidence and id, and leaves out only facts that rank after
  everything returned.\<close>

theorem retrieve_is_deterministic_and_complete:
  assumes "fact_history s" and "fact_history t" and "fact_get s = fact_get t"
  shows "retrieve lower s query limit = retrieve lower t query limit \<and>
    (\<exists>ranking. sorted (map fact_rank ranking) \<and>
       retrieve lower s query limit = map snd (take limit ranking) \<and>
       snd ` set ranking =
         {f. fact_get s (fact_id f) = Some f \<and>
             (\<exists>term \<in> set (split_whitespace (lower query)).
                contains (lower (fact_subject f @ '' '' @ fact_value f)) term)}) \<and>
    length (retrieve lower s query limit) \<le> limit"
proof (intro conjI exI)
  have ok: "facts_ok s" "facts_ok t" using fact_history_ok assms by blast+
  show "retrieve lower s query limit = retrieve lower t query limit"
    by (simp add: retrieve_ranked ranked_unique[OF ok assms(3)])
  have pos: "0 < fact_score lower ts f \<longleftrightarrow>
      (\<exists>term \<in> set ts. contains (lower (fact_subject f @ '' '' @ fact_value f)) term)" for ts f
    by (auto simp: fact_score_def Let_def filter_empty_conv)
  show "sorted (map fact_rank (ranked lower s query))" by (simp add: ranked_def)
  show "retrieve lower s query limit = map snd (take limit (ranked lower s query))"
    by (rule retrieve_ranked)
  have "f \<in> snd ` set (ranked lower s query) \<longleftrightarrow> (\<exists>n. (n, f) \<in> set (ranked lower s query))" for f
    by force
  then show "snd ` set (ranked lower s query) =
         {f. fact_get s (fact_id f) = Some f \<and>
             (\<exists>term \<in> set (split_whitespace (lower query)).
                contains (lower (fact_subject f @ '' '' @ fact_value f)) term)}"
    by (auto simp: set_ranked pos fact_all_mem[OF ok(1)])
  show "length (retrieve lower s query limit) \<le> limit" by (simp add: retrieve_ranked)
qed

theorem retrieve_is_deterministic_and_complete_witness:
  "\<exists>s t. s \<noteq> t \<and> fact_history s \<and>
     retrieve to_ascii_lowercase s ''Alpha'' 1 = retrieve to_ascii_lowercase t ''Alpha'' 1"
proof -
  let ?a = "fact_new ''a'' Decision ''alpha'' ''v''" and ?b = "fact_new ''b'' Decision ''beta'' ''alpha''"
  have s: "fact_history (fact_upsert ?b (fact_upsert ?a []))" and t: "fact_history (fact_upsert ?a (fact_upsert ?b []))"
    by (intro fact_history.intros)+
  have "fact_get (fact_upsert ?b (fact_upsert ?a [])) = fact_get (fact_upsert ?a (fact_upsert ?b []))"
    by (auto simp: fact_upsert_def fact_new_def fact_get_def)
  from retrieve_is_deterministic_and_complete [OF s t this, of to_ascii_lowercase "''Alpha''" 1] s
  have "fact_upsert ?b (fact_upsert ?a []) \<noteq> fact_upsert ?a (fact_upsert ?b [])"
    and "retrieve to_ascii_lowercase (fact_upsert ?b (fact_upsert ?a [])) ''Alpha'' 1 =
      retrieve to_ascii_lowercase (fact_upsert ?a (fact_upsert ?b [])) ''Alpha'' 1"
    by (auto simp: fact_upsert_def fact_new_def)
  with s show ?thesis by blast
qed

end
