(* ===== verification/Provider_Models.thy ===== *)
theory Provider_Models
  imports Json Rust_Utf8 Usage
begin

text \<open>
  Provider identities, model references and capabilities, the request body and the redaction of
  diagnostics (\<open>crates/minha-core/src/provider.rs\<close>). The loop that replaces the value after a marker
  need not end, so it is a \<open>partial_function\<close> into \<open>option\<close>: \<open>None\<close> is not returning.
\<close>

section \<open>Providers and model references\<close>

datatype provider_id = ChatGptCodex | DeepSeek | XiaomiMiMo

fun provider_key :: "provider_id \<Rightarrow> str" where
  "provider_key ChatGptCodex = ''chatgpt_codex''"
| "provider_key DeepSeek = ''deepseek''"
| "provider_key XiaomiMiMo = ''xiaomi_mimo''"

definition provider_all :: "provider_id list" where
  "provider_all = [ChatGptCodex, DeepSeek, XiaomiMiMo]"

datatype unknown_model_error = UnknownModelError str

record model_ref =
  mref_provider :: provider_id
  mref_slug :: str

definition match_provider :: "str \<Rightarrow> (provider_id \<times> str) option" where
  "match_provider v =
     (case strip_prefix v ''deepseek/'' of Some slug \<Rightarrow> Some (DeepSeek, slug)
      | None \<Rightarrow>
          (case strip_prefix v ''xiaomi/'' of Some slug \<Rightarrow> Some (XiaomiMiMo, slug)
           | None \<Rightarrow>
               (case strip_prefix v ''chatgpt/'' of Some slug \<Rightarrow> Some (ChatGptCodex, slug)
                | None \<Rightarrow> if starts_with v ''deepseek-'' then Some (DeepSeek, v) else None)))"

definition model_ref_parse :: "str \<Rightarrow> unknown_model_error + model_ref" where
  "model_ref_parse raw =
     (let v = trim raw in
      case match_provider v of
        Some (provider, slug) \<Rightarrow>
          if slug \<noteq> [] then Inr \<lparr>mref_provider = provider, mref_slug = slug\<rparr>
          else Inl (UnknownModelError v)
      | None \<Rightarrow> Inl (UnknownModelError v))"

definition parse_or_legacy_chatgpt :: "str \<Rightarrow> model_ref" where
  "parse_or_legacy_chatgpt raw =
     (let v = trim raw in
      case model_ref_parse v of
        Inr r \<Rightarrow> r
      | Inl _ \<Rightarrow> \<lparr>mref_provider = ChatGptCodex, mref_slug = v\<rparr>)"

record model_capabilities =
  context_window :: "u64 option"
  maximum_output :: "u64 option"
  minimal_client_version :: "str option"
  supports_parallel_tool_calls :: bool
  supports_verbosity :: bool
  reasoning_efforts :: "str list"
  supports_tools :: bool
  supports_streaming :: bool
  supports_cache_telemetry :: bool

definition fallback_capabilities :: "model_ref \<Rightarrow> model_capabilities" where
  "fallback_capabilities model =
     (let deepseek = (mref_provider model = DeepSeek); mimo = (mref_provider model = XiaomiMiMo) in
      \<lparr>context_window =
         Some (if deepseek \<or> mimo then 1048576
               else if contains (mref_slug model) ''spark'' then 128000 else 272000),
       maximum_output = (if deepseek then Some 393216 else if mimo then Some 131072 else None),
       minimal_client_version = None, supports_parallel_tool_calls = True,
       supports_verbosity = (mref_provider model = ChatGptCodex),
       reasoning_efforts = (if deepseek then [''high'', ''max''] else []),
       supports_tools = True, supports_streaming = True, supports_cache_telemetry = True\<rparr>)"

record model_descriptor =
  md_slug :: str
  md_metadata :: "(str \<times> json) list"

definition descriptor_capabilities :: "model_descriptor \<Rightarrow> model_capabilities" where
  "descriptor_capabilities d =
     (let meta = JObject (md_metadata d) in
      \<lparr>context_window = get_u64 meta ''context_window'',
       maximum_output = get_u64 meta ''max_output_tokens'',
       minimal_client_version = get_str meta ''minimal_client_version'',
       supports_parallel_tool_calls = unwrap_or (get_bool meta ''supports_parallel_tool_calls'') False,
       supports_verbosity = unwrap_or (get_bool meta ''support_verbosity'') False,
       reasoning_efforts =
         List.map_filter (\<lambda>level. get_str level ''effort'')
           (unwrap_or (get_array meta ''supported_reasoning_levels'') []),
       supports_tools = unwrap_or (get_bool meta ''supports_tool_calls'') True,
       supports_streaming = True, supports_cache_telemetry = True\<rparr>)"

text \<open>The payloads of \<open>reqwest\<close> and \<open>serde_json\<close> errors are their texts; \<open>Http\<close> carries the status, the
  redacted detail and the seconds of a \<open>Retry-After\<close> header.\<close>

datatype provider_error =
  RequestError str
| Http u16 str "u64 option"
| JsonError str
| SseError str
| InvalidResponse str
| IncompleteStream
| HeaderError
| RemoteError str

definition parse_model_entry :: "json \<Rightarrow> provider_error + model_descriptor" where
  "parse_model_entry entry =
     (case entry of
        JString slug \<Rightarrow> Inr \<lparr>md_slug = slug, md_metadata = []\<rparr>
      | JObject m \<Rightarrow>
          (case Option.bind (or_else (map_of m ''slug'') (map_of m ''id'')) as_str of
             None \<Rightarrow> Inl (InvalidResponse ''model is missing slug'')
           | Some slug \<Rightarrow> Inr \<lparr>md_slug = slug, md_metadata = bt_remove ''slug'' m\<rparr>)
      | _ \<Rightarrow> Inl (InvalidResponse ''model must be an object or string''))"

definition parse_models :: "json \<Rightarrow> provider_error + model_descriptor list" where
  "parse_models raw =
     (let models = unwrap_or (or_else (json_get raw ''models'') (json_get raw ''data'')) raw in
      r_bind (ok_or (as_array models) (InvalidResponse ''models must be an array''))
        (r_mapm parse_model_entry))"

record turn_request =
  trq_model :: str
  trq_instructions :: str
  trq_input :: "json list"
  trq_tools :: "json list"
  trq_parallel_tool_calls :: bool
  trq_reasoning_effort :: "str option"
  trq_prompt_cache_key :: "str option"
  trq_subagent_label :: "str option"
  trq_response_format :: "json option"

definition build_request :: "turn_request \<Rightarrow> model_capabilities option \<Rightarrow> json" where
  "build_request request capabilities =
     (let parallel =
            (case capabilities of None \<Rightarrow> trq_parallel_tool_calls request
             | Some c \<Rightarrow> trq_parallel_tool_calls request \<and> supports_parallel_tool_calls c);
          obj =
            bt_insert ''include'' (JArray [JString ''reasoning.encrypted_content''])
            (bt_insert ''stream'' (JBool True)
            (bt_insert ''store'' (JBool False)
            (bt_insert ''parallel_tool_calls'' (JBool parallel)
            (bt_insert ''tool_choice'' (JString ''auto'')
            (bt_insert ''tools'' (JArray (trq_tools request))
            (bt_insert ''input'' (JArray (trq_input request))
            (bt_insert ''instructions'' (JString (trq_instructions request))
            (bt_insert ''model'' (JString (trq_model request)) []))))))));
          obj =
            (if (case capabilities of None \<Rightarrow> True | Some c \<Rightarrow> supports_verbosity c)
             then bt_insert ''text'' (JObject [(''verbosity'', JString ''low'')]) obj else obj);
          obj =
            (case trq_reasoning_effort request of
               None \<Rightarrow> obj
             | Some effort \<Rightarrow>
                 if (case capabilities of None \<Rightarrow> True
                     | Some c \<Rightarrow> reasoning_efforts c = [] \<or> effort \<in> set (reasoning_efforts c))
                 then bt_insert ''reasoning'' (JObject [(''effort'', JString effort)]) obj else obj);
          obj =
            (case trq_prompt_cache_key request of
               None \<Rightarrow> obj | Some key \<Rightarrow> bt_insert ''prompt_cache_key'' (JString key) obj)
      in JObject obj)"

section \<open>Diagnostics\<close>

definition sensitive_fields :: "str list" where
  "sensitive_fields =
     [''access_token'', ''refresh_token'', ''authorization'', ''cookie'', ''account_id'',
      ''account-id'', ''email'', ''api_key'', ''api-key'', ''api key'', ''sk-'']"

definition redaction_markers :: "str list" where
  "redaction_markers =
     [''Bearer '', ''access_token='', ''refresh_token='', ''api_key='', ''api-key='', ''api key='', ''sk-'']"

definition ends_value :: "str \<Rightarrow> bool" where
  "ends_value g =
     (is_whitespace g \<or>
      g \<in> set [[CHR ''&''], [CHR 0x22], [CHR 0x27], [CHR '',''], [CHR '')''], [CHR ''}''], [CHR '']''], [CHR ''>'']])"

text \<open>One round: the value after the first marker is replaced.\<close>

definition redact_once :: "str \<Rightarrow> str \<Rightarrow> nat \<Rightarrow> str" where
  "redact_once marker s start =
     (let value_start = start + length marker;
          rest = drop value_start s;
          value_end = value_start + length (concat (takeWhile (\<lambda>g. \<not> ends_value g) (chars rest)))
      in take value_start s @ ''[REDACTED]'' @ drop value_end s)"

partial_function (option) redact_marker :: "str \<Rightarrow> str \<Rightarrow> str option" where
  "redact_marker marker s =
     (case find_str s marker of
        None \<Rightarrow> Some s
      | Some start \<Rightarrow> redact_marker marker (redact_once marker s start))"

definition ellipsis :: str where "ellipsis = [CHR 0xE2, CHR 0x80, CHR 0xA6]"

text \<open>The last character boundary at or below \<open>n\<close>.\<close>

fun floor_boundary :: "str \<Rightarrow> nat \<Rightarrow> nat" where
  "floor_boundary s 0 = 0"
| "floor_boundary s (Suc n) = (if is_char_boundary s (Suc n) then Suc n else floor_boundary s n)"

definition truncate_detail :: "str \<Rightarrow> str" where
  "truncate_detail s = (if length s > 1000 then take (floor_boundary s 1000) s @ ellipsis else s)"

fun redact_markers :: "str list \<Rightarrow> str \<Rightarrow> str option" where
  "redact_markers [] s = Some s"
| "redact_markers (m # ms) s = Option.bind (redact_marker m s) (redact_markers ms)"

definition one_line :: "str \<Rightarrow> str" where
  "one_line s = join '' '' (split_whitespace s)"

definition redact_provider_detail :: "str \<Rightarrow> str option" where
  "redact_provider_detail detail =
     (let line = one_line detail in
      if contains_any (to_ascii_lowercase line) sensitive_fields
      then Some ''provider diagnostic contained sensitive fields and was redacted''
      else map_option truncate_detail (redact_markers redaction_markers line))"

section \<open>Lemmas\<close>

lemma redact_once_keeps_marker:
  assumes "find_str s marker = Some start"
  shows "contains (redact_once marker s start) marker"
proof -
  from find_str_Some[OF assms] obtain t where t: "drop start s = marker @ t" and le: "start \<le> length s"
    by (auto simp: starts_with_iff)
  then have "take (start + length marker) s = take start s @ marker"
    by (simp add: take_add)
  then show ?thesis
    unfolding redact_once_def Let_def contains_iff by (metis append.assoc)
qed

lemma redact_marker_diverges:
  assumes "redact_marker marker s = Some t"
  shows "\<not> contains s marker \<and> t = s"
proof (rule redact_marker.raw_induct[where P = "\<lambda>m s t. \<not> contains s m \<and> t = s", OF _ assms])
  fix again :: "str \<Rightarrow> str \<Rightarrow> str option" and m s t
  assume IH: "\<And>m s t. again m s = Some t \<Longrightarrow> \<not> contains s m \<and> t = s"
    and step: "(case find_str s m of None \<Rightarrow> Some s | Some start \<Rightarrow> again m (redact_once m s start)) = Some t"
  show "\<not> contains s m \<and> t = s"
  proof (cases "find_str s m")
    case None
    with step show ?thesis by (simp add: find_str_None)
  next
    case (Some start)
    with step have "again m (redact_once m s start) = Some t" by simp
    from IH[OF this] redact_once_keeps_marker[OF Some] show ?thesis by simp
  qed
qed

lemma redact_marker_eq: "redact_marker marker s = (if contains s marker then None else Some s)"
proof (cases "contains s marker")
  case True
  then show ?thesis using redact_marker_diverges[of marker s] by (cases "redact_marker marker s") auto
next
  case False
  then have "find_str s marker = None" by (simp add: find_str_None)
  then show ?thesis using False by (subst redact_marker.simps) simp
qed

lemma redact_markers_eq:
  "redact_markers ms s = (if contains_any s ms then None else Some s)"
  by (induction ms) (auto simp: redact_marker_eq contains_any_def)

lemma contains_lower: "contains s p \<Longrightarrow> contains (to_ascii_lowercase s) (to_ascii_lowercase p)"
  unfolding contains_iff to_ascii_lowercase_def by (metis map_append)

lemma markers_are_sensitive:
  assumes "m \<in> set redaction_markers" and "m \<noteq> ''Bearer ''" and "contains s m"
  shows "contains_any (to_ascii_lowercase s) sensitive_fields"
proof -
  have "list_all (\<lambda>m. m = ''Bearer '' \<or> contains_any (to_ascii_lowercase m) sensitive_fields) redaction_markers"
    by code_simp
  then have "contains_any (to_ascii_lowercase m) sensitive_fields"
    using assms(1,2) by (auto simp: list_all_iff)
  then show ?thesis
    using contains_lower[OF assms(3)] contains_trans unfolding contains_any_def list_ex_iff by blast
qed

lemma bearer_only:
  "\<not> contains_any (to_ascii_lowercase s) sensitive_fields \<Longrightarrow>
     contains_any s redaction_markers \<longleftrightarrow> contains s ''Bearer ''"
  using markers_are_sensitive[of _ s] unfolding contains_any_def list_ex_iff
  by (auto simp: redaction_markers_def)

lemma redact_provider_detail_eq:
  "redact_provider_detail d =
     (if contains_any (to_ascii_lowercase (one_line d)) sensitive_fields
      then Some ''provider diagnostic contained sensitive fields and was redacted''
      else if contains (one_line d) ''Bearer '' then None
      else Some (truncate_detail (one_line d)))"
proof (cases "contains_any (to_ascii_lowercase (one_line d)) sensitive_fields")
  case True
  then show ?thesis by (simp add: redact_provider_detail_def Let_def)
next
  case False
  with bearer_only[OF False] show ?thesis by (simp add: redact_provider_detail_def Let_def redact_markers_eq)
qed

lemma floor_boundary: "floor_boundary s n \<le> n \<and> is_char_boundary s (floor_boundary s n)"
  by (induction n) (auto simp: is_char_boundary_def le_SucI)

lemma truncate_detail_length: "length (truncate_detail s) \<le> 1003"
  using floor_boundary[of s 1000] by (simp add: truncate_detail_def ellipsis_def)

lemma redacted_detail_length:
  assumes "redact_provider_detail d = Some t"
  shows "length t \<le> 1003"
  using assms truncate_detail_length by (auto simp: redact_provider_detail_eq split: if_splits)

lemma match_provider_Some:
  "match_provider v = Some (p, slug) \<longleftrightarrow>
     p = DeepSeek \<and> (v = ''deepseek/'' @ slug \<or> v = slug \<and> starts_with slug ''deepseek-'') \<or>
     p = XiaomiMiMo \<and> v = ''xiaomi/'' @ slug \<or> p = ChatGptCodex \<and> v = ''chatgpt/'' @ slug"
proof -
  consider (d) t where "v = ''deepseek/'' @ t" | (x) t where "v = ''xiaomi/'' @ t"
    | (c) t where "v = ''chatgpt/'' @ t"
    | (n) "\<not> starts_with v ''deepseek/''" "\<not> starts_with v ''xiaomi/''" "\<not> starts_with v ''chatgpt/''"
    by (auto simp: starts_with_iff)
  then show ?thesis
  proof cases
    case d
    then show ?thesis by (auto simp: match_provider_def strip_prefix_def)
  next
    case x
    then show ?thesis by (auto simp: match_provider_def strip_prefix_def)
  next
    case c
    then show ?thesis by (auto simp: match_provider_def strip_prefix_def)
  next
    case n
    have "v \<noteq> ''deepseek/'' @ slug" "v \<noteq> ''xiaomi/'' @ slug" "v \<noteq> ''chatgpt/'' @ slug"
      using n starts_with_append by metis+
    then show ?thesis using n by (auto simp: match_provider_def strip_prefix_def)
  qed
qed

section \<open>Properties\<close>

text \<open>C29: redaction does not return on a bearer token that comes without a sensitive field name: it
  runs forever exactly when the text names none of the listed fields (\<open>authorization\<close> is one) and holds
  \<open>Bearer\<close> and a space, because the marker stays in front of the value it replaces. A text that
  names a listed field is replaced by a fixed notice first, token or not.\<close>

theorem redaction_loops_on_a_bearer_token:
  "redact_provider_detail d = None \<longleftrightarrow>
     \<not> contains_any (to_ascii_lowercase (one_line d)) sensitive_fields \<and> contains (one_line d) ''Bearer ''"
  by (simp add: redact_provider_detail_eq)

text \<open>Whenever it returns, a redacted diagnostic is at most 1003 bytes, cut at a character boundary,
  and unless it is the fixed notice it is the text on one line, free of every sensitive field name.\<close>

theorem redacted_detail_is_bounded_and_clean:
  assumes "redact_provider_detail d = Some t"
  shows "length t \<le> 1003 \<and>
    (t = ''provider diagnostic contained sensitive fields and was redacted'' \<or>
     (\<exists>n. is_char_boundary (one_line d) n \<and> (t = one_line d \<or> t = take n (one_line d) @ ellipsis)) \<and>
     \<not> contains_any (to_ascii_lowercase (one_line d)) sensitive_fields \<and>
     \<not> contains_any (one_line d) redaction_markers)"
proof (cases "contains_any (to_ascii_lowercase (one_line d)) sensitive_fields")
  case True
  with assms show ?thesis by (auto simp: redact_provider_detail_eq)
next
  case False
  with assms have t: "t = truncate_detail (one_line d)" and b: "\<not> contains (one_line d) ''Bearer ''"
    by (auto simp: redact_provider_detail_eq split: if_splits)
  have "\<not> contains_any (one_line d) redaction_markers" using b bearer_only[OF False] by simp
  moreover have "\<exists>n. is_char_boundary (one_line d) n \<and> (t = one_line d \<or> t = take n (one_line d) @ ellipsis)"
    using floor_boundary[of "one_line d" 1000] by (auto simp: t truncate_detail_def)
  moreover have "length t \<le> 1003" unfolding t by (rule truncate_detail_length)
  ultimately show ?thesis using False by blast
qed

theorem redacted_detail_is_bounded_and_clean_witness:
  "redact_provider_detail '' model  is unavailable'' = Some ''model is unavailable'' \<and>
   length ''model is unavailable'' \<le> (1003 :: nat)"
proof -
  have l: "one_line '' model  is unavailable'' = ''model is unavailable''" by code_simp
  have n: "\<not> contains_any (to_ascii_lowercase ''model is unavailable'') sensitive_fields"
    "\<not> contains ''model is unavailable'' ''Bearer ''" by code_simp+
  have r: "redact_provider_detail '' model  is unavailable'' = Some ''model is unavailable''"
    unfolding redact_provider_detail_eq l by (simp add: n truncate_detail_def)
  from redacted_detail_is_bounded_and_clean [OF r] r show ?thesis by blast
qed

text \<open>A model reference names exactly one provider: a qualified reference to a nonempty slug parses
  to that provider and slug (with white space around it ignored), anything else but a bare
  \<open>deepseek-\<close> slug is an error carrying the trimmed text, and the legacy reading never fails and
  differs only on those errors, which it gives to ChatGPT.\<close>

theorem model_references_are_strict:
  "(model_ref_parse s = Inr \<lparr>mref_provider = p, mref_slug = slug\<rparr> \<longleftrightarrow>
      slug \<noteq> [] \<and>
      (p = DeepSeek \<and> (trim s = ''deepseek/'' @ slug \<or> trim s = slug \<and> starts_with slug ''deepseek-'') \<or>
       p = XiaomiMiMo \<and> trim s = ''xiaomi/'' @ slug \<or>
       p = ChatGptCodex \<and> trim s = ''chatgpt/'' @ slug)) \<and>
   (\<forall>e. model_ref_parse s = Inl e \<longrightarrow> e = UnknownModelError (trim s)) \<and>
   parse_or_legacy_chatgpt s =
     (case model_ref_parse s of Inr r \<Rightarrow> r | Inl _ \<Rightarrow> \<lparr>mref_provider = ChatGptCodex, mref_slug = trim s\<rparr>)"
proof (intro conjI)
  show "model_ref_parse s = Inr \<lparr>mref_provider = p, mref_slug = slug\<rparr> \<longleftrightarrow>
      slug \<noteq> [] \<and>
      (p = DeepSeek \<and> (trim s = ''deepseek/'' @ slug \<or> trim s = slug \<and> starts_with slug ''deepseek-'') \<or>
       p = XiaomiMiMo \<and> trim s = ''xiaomi/'' @ slug \<or>
       p = ChatGptCodex \<and> trim s = ''chatgpt/'' @ slug)"
    unfolding match_provider_Some[symmetric]
    by (auto simp: model_ref_parse_def Let_def split: option.splits if_splits)
  show "\<forall>e. model_ref_parse s = Inl e \<longrightarrow> e = UnknownModelError (trim s)"
    by (auto simp: model_ref_parse_def Let_def split: option.splits if_splits)
  show "parse_or_legacy_chatgpt s =
     (case model_ref_parse s of Inr r \<Rightarrow> r | Inl _ \<Rightarrow> \<lparr>mref_provider = ChatGptCodex, mref_slug = trim s\<rparr>)"
    unfolding parse_or_legacy_chatgpt_def model_ref_parse_def Let_def trim_idem ..
qed

theorem model_references_are_strict_witness:
  "model_ref_parse ''gpt-5'' = Inl (UnknownModelError ''gpt-5'') \<and>
   parse_or_legacy_chatgpt ''gpt-5'' = \<lparr>mref_provider = ChatGptCodex, mref_slug = ''gpt-5''\<rparr>"
proof -
  have t: "trim ''gpt-5'' = ''gpt-5''" by code_simp
  have "\<not> (\<exists>r. model_ref_parse ''gpt-5'' = Inr r)"
  proof
    assume "\<exists>r. model_ref_parse ''gpt-5'' = Inr r"
    then obtain p slug where "model_ref_parse ''gpt-5'' = Inr \<lparr>mref_provider = p, mref_slug = slug\<rparr>"
      by (metis model_ref.cases)
    then show False using model_references_are_strict [of "''gpt-5''" p slug] by (auto simp: t)
  qed
  then obtain e where "model_ref_parse ''gpt-5'' = Inl e" by (cases "model_ref_parse ''gpt-5''") auto
  with model_references_are_strict [of "''gpt-5''"] show ?thesis by (simp add: t)
qed

end
