(* ===== verification/Config.thy ===== *)
theory Config
  imports Complex_Main Provider_Models Protocol
begin

text \<open>
  Configuration (\<open>crates/minha-core/src/config.rs\<close>): the configuration records with their defaults, the
  execution profiles, the provider reserves and routing pins, validation, and the layering of the
  default, user and project files. The \<open>toml\<close> crate's decoding and the conversion of a default
  configuration into a table are arguments, and so is what reading a file gives. A path is its text, on
  a Unix system. A float is a rational number, an infinity or \<open>NaN\<close>.
\<close>

section \<open>Providers as keys\<close>

fun provider_index :: "provider_id \<Rightarrow> nat" where
  "provider_index ChatGptCodex = 0"
| "provider_index DeepSeek = 1"
| "provider_index XiaomiMiMo = 2"

lemma provider_index_eq [simp]: "provider_index a = provider_index b \<longleftrightarrow> a = b"
  by (cases a; cases b) simp_all

instantiation provider_id :: linorder
begin

definition less_eq_provider_id :: "provider_id \<Rightarrow> provider_id \<Rightarrow> bool" where
  "a \<le> b \<longleftrightarrow> provider_index a \<le> provider_index b"

definition less_provider_id :: "provider_id \<Rightarrow> provider_id \<Rightarrow> bool" where
  "a < b \<longleftrightarrow> provider_index a < provider_index b"

instance
  by standard (auto simp: less_eq_provider_id_def less_provider_id_def dest: antisym)

end

section \<open>Floats\<close>

datatype float = NaN | NegInf | Finite rat | PosInf

fun float_le :: "float \<Rightarrow> float \<Rightarrow> bool" where
  "float_le NaN _ = False"
| "float_le _ NaN = False"
| "float_le NegInf _ = True"
| "float_le _ PosInf = True"
| "float_le (Finite a) (Finite b) = (a \<le> b)"
| "float_le _ _ = False"

definition in_closed_range :: "rat \<Rightarrow> rat \<Rightarrow> float \<Rightarrow> bool" where
  "in_closed_range lo hi x = (float_le (Finite lo) x \<and> float_le x (Finite hi))"

section \<open>Records\<close>

datatype question_policy = AgentDiscretion | OnlyBlocking | NeverAsk

datatype execution_profile = Economy | BalancedProfile | Turbo

datatype permission_level = Deny | Ask | Allow

record model_config =
  mcf_planner :: str
  mcf_worker_fast :: str
  mcf_lead :: str
  mcf_complex_lead :: str
  mcf_manager :: str
  mcf_worker_medium :: str
  mcf_worker_deep :: str
  mcf_consult_ambiguous :: str
  mcf_consult_high_risk :: str
  mcf_reasoning_effort :: str

record scheduler_config =
  max_agents :: usize
  hard_max_agents :: usize
  usage_reserve_percent :: float
  question_policy_of :: question_policy
  integration_approval :: bool

record context_config =
  ctx_limit :: "usize option"
  fact_limit :: usize
  recent_turns :: usize

record permission_config =
  remote_writes :: permission_level
  destructive :: permission_level

record cache_config =
  cache_enabled :: bool
  cache_max_bytes :: u64
  cache_max_age_days :: u32
  cache_hot_entries :: usize

record memory_config =
  mem_enabled :: bool
  mem_use :: bool
  mem_generate :: bool
  mem_retrieval_limit :: usize

record reserve_policy =
  soft_percent :: float
  hard_percent :: float

record budget_config =
  default_profile :: execution_profile
  provider_reserves :: "(provider_id \<times> reserve_policy) list"
  deepseek_soft_reserve_percent :: "float option"
  deepseek_hard_reserve_percent :: "float option"

record routing_override =
  ov_reserve :: "bool option"
  ov_cooldown :: "bool option"

record routing_config =
  pins :: "(str \<times> str) list"
  provider_overrides :: "(provider_id \<times> routing_override) list"

record tui_config =
  mouse :: bool
  tool_detail :: str
  theme_name :: str
  surface_renderer :: str
  reduced_motion :: bool

record config =
  database_path :: str
  cfg_mode :: mode
  models_of :: model_config
  scheduler_of :: scheduler_config
  context_of :: context_config
  permissions_of :: permission_config
  cache_of :: cache_config
  memory_of :: memory_config
  budgets_of :: budget_config
  routing_of :: routing_config
  books_enabled :: bool
  tui_of :: tui_config

datatype config_error =
  ReadError str str | ParseError str | EncodeError str | EmptyDatabasePath | AgentCount | UsageReserve
| ProviderReserve | RoutingPolicy | ContextWindow | ContextRetention | CachePolicyError | MemoryPolicyError
| EmptyModel | ToolDetail | ThemeError | SurfaceRenderer

section \<open>Profiles\<close>

record run_policy =
  rp_schema_version :: u16
  rp_max_agents :: usize
  minimum_speedup_percent :: u8
  maximum_coordination_percent :: u8
  local_yolo :: bool
  prefer_strongest_allowed :: bool

fun soft_token_target :: "execution_profile \<Rightarrow> u64" where
  "soft_token_target Economy = 25000"
| "soft_token_target BalancedProfile = 100000"
| "soft_token_target Turbo = 1000000"

fun profile_policy :: "execution_profile \<Rightarrow> run_policy" where
  "profile_policy Economy =
     \<lparr>rp_schema_version = 1, rp_max_agents = 1, minimum_speedup_percent = 100,
      maximum_coordination_percent = 0, local_yolo = False, prefer_strongest_allowed = False\<rparr>"
| "profile_policy BalancedProfile =
     \<lparr>rp_schema_version = 1, rp_max_agents = 4, minimum_speedup_percent = 25,
      maximum_coordination_percent = 15, local_yolo = False, prefer_strongest_allowed = False\<rparr>"
| "profile_policy Turbo =
     \<lparr>rp_schema_version = 1, rp_max_agents = 8, minimum_speedup_percent = 1,
      maximum_coordination_percent = 100, local_yolo = True, prefer_strongest_allowed = True\<rparr>"

section \<open>Defaults\<close>

definition model_config_default :: model_config where
  "model_config_default =
     \<lparr>mcf_planner = ''gpt-5.6-luna'', mcf_worker_fast = ''gpt-5.3-codex-spark'', mcf_lead = ''gpt-5.6-luna'',
      mcf_complex_lead = ''gpt-5.6-terra'', mcf_manager = ''gpt-5.4-mini'', mcf_worker_medium = ''gpt-5.4-mini'',
      mcf_worker_deep = ''gpt-5.6-luna'', mcf_consult_ambiguous = ''gpt-5.6-terra'',
      mcf_consult_high_risk = ''gpt-5.6-sol'', mcf_reasoning_effort = ''medium''\<rparr>"

definition scheduler_config_default :: scheduler_config where
  "scheduler_config_default =
     \<lparr>max_agents = 4, hard_max_agents = 8, usage_reserve_percent = Finite 12,
      question_policy_of = OnlyBlocking, integration_approval = False\<rparr>"

definition context_config_default :: context_config where
  "context_config_default = \<lparr>ctx_limit = None, fact_limit = 24, recent_turns = 8\<rparr>"

definition permission_config_default :: permission_config where
  "permission_config_default = \<lparr>remote_writes = Ask, destructive = Ask\<rparr>"

definition cache_config_default :: cache_config where
  "cache_config_default =
     \<lparr>cache_enabled = True, cache_max_bytes = 512 * 1024 * 1024, cache_max_age_days = 30,
      cache_hot_entries = 128\<rparr>"

definition memory_config_default :: memory_config where
  "memory_config_default =
     \<lparr>mem_enabled = True, mem_use = True, mem_generate = True, mem_retrieval_limit = 5\<rparr>"

definition reserve_policy_default :: reserve_policy where
  "reserve_policy_default = \<lparr>soft_percent = Finite 10, hard_percent = Finite 2\<rparr>"

definition budget_config_default :: budget_config where
  "budget_config_default =
     \<lparr>default_profile = BalancedProfile,
      provider_reserves = map (\<lambda>p. (p, reserve_policy_default)) provider_all,
      deepseek_soft_reserve_percent = None, deepseek_hard_reserve_percent = None\<rparr>"

definition routing_override_default :: routing_override where
  "routing_override_default = \<lparr>ov_reserve = None, ov_cooldown = None\<rparr>"

definition routing_config_default :: routing_config where
  "routing_config_default = \<lparr>pins = [], provider_overrides = []\<rparr>"

definition tui_config_default :: tui_config where
  "tui_config_default =
     \<lparr>mouse = True, tool_detail = ''compact'', theme_name = ''dark'', surface_renderer = ''auto'',
      reduced_motion = False\<rparr>"

definition config_default :: config where
  "config_default =
     \<lparr>database_path = ''.minha/minha.sqlite3'', cfg_mode = Interactive, models_of = model_config_default,
      scheduler_of = scheduler_config_default, context_of = context_config_default,
      permissions_of = permission_config_default, cache_of = cache_config_default,
      memory_of = memory_config_default, budgets_of = budget_config_default,
      routing_of = routing_config_default, books_enabled = True, tui_of = tui_config_default\<rparr>"

fun mode_name :: "mode \<Rightarrow> str" where
  "mode_name Interactive = ''interactive''"
| "mode_name Batch = ''batch''"
| "mode_name ReviewMode = ''review''"

section \<open>Reserves, pins and overrides\<close>

definition or_default :: "'k::linorder \<Rightarrow> 'v \<Rightarrow> ('k \<times> 'v) list \<Rightarrow> ('k \<times> 'v) list" where
  "or_default k v m = (case map_of m k of None \<Rightarrow> bt_insert k v m | Some _ \<Rightarrow> m)"

definition set_reserves :: "float option \<Rightarrow> float option \<Rightarrow> reserve_policy \<Rightarrow> reserve_policy" where
  "set_reserves soft hard p =
     p\<lparr>soft_percent := unwrap_or soft (soft_percent p), hard_percent := unwrap_or hard (hard_percent p)\<rparr>"

definition budgets_normalize :: "budget_config \<Rightarrow> budget_config" where
  "budgets_normalize b =
     (let soft = deepseek_soft_reserve_percent b;
          hard = deepseek_hard_reserve_percent b;
          m = (if soft \<noteq> None \<or> hard \<noteq> None
               then bt_update DeepSeek (set_reserves soft hard)
                      (or_default DeepSeek reserve_policy_default (provider_reserves b))
               else provider_reserves b)
      in b\<lparr>deepseek_soft_reserve_percent := None, deepseek_hard_reserve_percent := None,
           provider_reserves := foldl (\<lambda>m p. or_default p reserve_policy_default m) m provider_all\<rparr>)"

definition reserve_for :: "budget_config \<Rightarrow> provider_id \<Rightarrow> reserve_policy" where
  "reserve_for b p = unwrap_or (map_of (provider_reserves b) p) reserve_policy_default"

definition role_family :: "str \<Rightarrow> str option" where
  "role_family role =
     (let role = to_ascii_lowercase role in
      if contains role ''worker'' \<or> contains role ''audit'' \<or> contains role ''auditor'' then Some ''worker''
      else if contains role ''lead'' \<or> contains role ''mina'' \<or> contains role ''planner'' then Some ''lead''
      else None)"

definition pin_for_role :: "routing_config \<Rightarrow> str \<Rightarrow> str option" where
  "pin_for_role r role =
     or_else (map_of (pins r) role)
       (or_else (Option.bind (role_family role) (map_of (pins r))) (map_of (pins r) ''default''))"

definition provider_override :: "routing_config \<Rightarrow> provider_id \<Rightarrow> routing_override" where
  "provider_override r p = unwrap_or (map_of (provider_overrides r) p) routing_override_default"

section \<open>Validation\<close>

definition reserve_invalid :: "reserve_policy \<Rightarrow> bool" where
  "reserve_invalid p =
     (\<not> in_closed_range 0 100 (soft_percent p) \<or> \<not> in_closed_range 0 100 (hard_percent p) \<or>
      float_le (soft_percent p) (hard_percent p))"

definition model_slugs :: "model_config \<Rightarrow> str list" where
  "model_slugs m =
     [mcf_planner m, mcf_worker_fast m, mcf_lead m, mcf_complex_lead m, mcf_manager m, mcf_worker_medium m,
      mcf_worker_deep m, mcf_consult_ambiguous m, mcf_consult_high_risk m, mcf_reasoning_effort m]"

definition validate :: "config \<Rightarrow> config_error + unit" where
  "validate c =
     (if database_path c = [] then Inl EmptyDatabasePath
      else if \<not> (1 \<le> max_agents (scheduler_of c) \<and> max_agents (scheduler_of c) \<le> 8) then Inl AgentCount
      else if hard_max_agents (scheduler_of c) < max_agents (scheduler_of c) \<or> 8 < hard_max_agents (scheduler_of c)
      then Inl AgentCount
      else if \<not> in_closed_range 0 50 (usage_reserve_percent (scheduler_of c)) then Inl UsageReserve
      else if list_ex (\<lambda>(_, p). reserve_invalid p) (provider_reserves (budgets_of c)) then Inl ProviderReserve
      else if list_ex (\<lambda>(role, model). blank role \<or> blank model) (pins (routing_of c)) then Inl RoutingPolicy
      else if ctx_limit (context_of c) = Some 0 then Inl ContextWindow
      else if fact_limit (context_of c) = 0 \<or> recent_turns (context_of c) = 0 then Inl ContextRetention
      else if cache_max_bytes (cache_of c) = 0 \<or> i64_max < int (cache_max_bytes (cache_of c)) \<or>
              cache_max_age_days (cache_of c) = 0 \<or> cache_hot_entries (cache_of c) = 0
      then Inl CachePolicyError
      else if mem_retrieval_limit (memory_of c) = 0 \<or> 20 < mem_retrieval_limit (memory_of c)
      then Inl MemoryPolicyError
      else if list_ex (\<lambda>m. blank m) (model_slugs (models_of c)) then Inl EmptyModel
      else if tool_detail (tui_of c) \<notin> {''compact'', ''expanded''} then Inl ToolDetail
      else if theme_name (tui_of c) \<notin> {''auto'', ''dark'', ''light'', ''ansi16'', ''high_contrast'', ''no_color''}
      then Inl ThemeError
      else if surface_renderer (tui_of c) \<notin> {''auto'', ''kitty'', ''quadrant'', ''square''}
      then Inl SurfaceRenderer
      else Inr ())"

section \<open>Layers\<close>

text \<open>A \<open>toml::Value\<close>: a table is a \<open>BTreeMap\<close>, and every other value is a leaf of type \<open>'l\<close>.\<close>

datatype 'l toml = Leaf 'l | Table "(str \<times> 'l toml) list"

fun merge_toml :: "'l toml \<Rightarrow> 'l toml \<Rightarrow> 'l toml"
  and merge_entries :: "(str \<times> 'l toml) list \<Rightarrow> (str \<times> 'l toml) list \<Rightarrow> (str \<times> 'l toml) list" where
  "merge_toml (Table b) (Table over) = Table (merge_entries b over)"
| "merge_toml (Table b) (Leaf x) = Leaf x"
| "merge_toml (Leaf y) over = over"
| "merge_entries b [] = b"
| "merge_entries b ((k, v) # over) =
     merge_entries
       (case map_of b k of
          None \<Rightarrow> bt_insert k v b
        | Some current \<Rightarrow> bt_insert k (merge_toml current v) b) over"

fun toml_get :: "'l toml \<Rightarrow> str \<Rightarrow> 'l toml option" where
  "toml_get (Table m) k = map_of m k"
| "toml_get (Leaf _) k = None"

definition finish_config :: "config \<Rightarrow> config_error + config" where
  "finish_config c =
     (let c = c\<lparr>budgets_of := budgets_normalize (budgets_of c)\<rparr> in r_bind (validate c) (\<lambda>_. Inr c))"

definition from_toml :: "(str \<Rightarrow> config_error + config) \<Rightarrow> str \<Rightarrow> config_error + config" where
  "from_toml decode input = r_bind (decode input) finish_config"

definition load :: "(str \<Rightarrow> config_error + config) \<Rightarrow> str \<Rightarrow> str + str \<Rightarrow> config_error + config" where
  "load decode path content =
     (case content of Inl e \<Rightarrow> Inl (ReadError path e) | Inr text \<Rightarrow> from_toml decode text)"

definition is_relative :: "str \<Rightarrow> bool" where
  "is_relative p = (\<not> starts_with p ''/'')"

definition path_join :: "str \<Rightarrow> str \<Rightarrow> str" where
  "path_join base p =
     (if \<not> is_relative p then p
      else if base = [] \<or> ends_with base ''/'' then base @ p else base @ ''/'' @ p)"

text \<open>A configuration file: what reading it gives; \<open>parse\<close> is \<open>toml::from_str\<close>.\<close>

definition read_layer ::
    "(str \<Rightarrow> config_error + 'l toml) \<Rightarrow> str \<Rightarrow> str + str \<Rightarrow> config_error + 'l toml" where
  "read_layer parse path content =
     (case content of Inl e \<Rightarrow> Inl (ReadError path e) | Inr text \<Rightarrow> parse text)"

text \<open>\<open>merged\<close> and \<open>database_origin\<close> after a layer found at \<open>path\<close>; a layer that is not a file is skipped.\<close>

definition add_layer ::
    "(str \<Rightarrow> config_error + 'l toml) \<Rightarrow> str option \<Rightarrow> str \<Rightarrow> (str + str) option \<Rightarrow> 'l toml \<times> str option \<Rightarrow>
     config_error + 'l toml \<times> str option" where
  "add_layer parse origin path content acc =
     (case content of
        None \<Rightarrow> Inr acc
      | Some text \<Rightarrow>
          r_bind (read_layer parse path text) (\<lambda>parsed.
            Inr (merge_toml (fst acc) parsed,
                 if toml_get parsed ''database_path'' \<noteq> None then origin else snd acc)))"

definition discover_with_user ::
    "(config \<Rightarrow> config_error + 'l toml) \<Rightarrow> (str \<Rightarrow> config_error + 'l toml) \<Rightarrow> ('l toml \<Rightarrow> config_error + config) \<Rightarrow>
     (str \<Rightarrow> str option) \<Rightarrow> str \<Rightarrow> (str \<times> (str + str)) option \<Rightarrow> (str + str) option \<Rightarrow> config_error + config" where
  "discover_with_user encode parse decode parent project_root user project =
     r_bind (encode config_default) (\<lambda>base.
     r_bind (case user of None \<Rightarrow> Inr (base, None)
             | Some (path, text) \<Rightarrow> add_layer parse (parent path) path (Some text) (base, None)) (\<lambda>acc.
     r_bind (add_layer parse (Some project_root) (path_join project_root ''minha.toml'') project acc) (\<lambda>acc.
     r_bind (decode (fst acc)) (\<lambda>c.
       finish_config
         (if is_relative (database_path c)
          then c\<lparr>database_path := path_join (unwrap_or (snd acc) project_root) (database_path c)\<rparr>
          else c)))))"

section \<open>Lemmas\<close>

lemma in_closed_range_Finite: "in_closed_range lo hi x \<longleftrightarrow> (\<exists>r. x = Finite r \<and> lo \<le> r \<and> r \<le> hi)"
  by (cases x) (auto simp: in_closed_range_def)

lemma reserve_valid:
  "\<not> reserve_invalid p \<longleftrightarrow>
     (\<exists>s h. soft_percent p = Finite s \<and> hard_percent p = Finite h \<and> 0 \<le> h \<and> h < s \<and> s \<le> 100)"
  by (auto simp: reserve_invalid_def in_closed_range_Finite)

lemma map_of_or_default [simp]:
  "map_of (or_default k v m) q = (if q = k \<and> map_of m k = None then Some v else map_of m q)"
  by (auto simp: or_default_def split: option.split)

lemma normalize_total: "map_of (provider_reserves (budgets_normalize b)) p \<noteq> None"
  by (cases p) (auto simp: budgets_normalize_def Let_def provider_all_def)

lemma validate_reserves:
  assumes "validate c = Inr ()" and "(p, pol) \<in> set (provider_reserves (budgets_of c))"
  shows "\<not> reserve_invalid pol"
proof -
  have "\<not> list_ex (\<lambda>(_, p). reserve_invalid p) (provider_reserves (budgets_of c))"
    using assms(1) by (simp add: validate_def split: if_splits)
  then show ?thesis using assms(2) by (auto simp: list_ex_iff)
qed

lemma finish_config_Inr:
  "finish_config c = Inr c' \<longleftrightarrow>
     c' = c\<lparr>budgets_of := budgets_normalize (budgets_of c)\<rparr> \<and> validate c' = Inr ()"
  by (auto simp: finish_config_def Let_def result_simps)

lemma discover_Inr:
  assumes "discover_with_user encode parse decode parent dir user project = Inr c"
  obtains c0 where "finish_config c0 = Inr c"
  using assms by (auto simp: discover_with_user_def result_simps split: if_splits)

fun toml_ok :: "'l toml \<Rightarrow> bool"
  and entries_ok :: "(str \<times> 'l toml) list \<Rightarrow> bool" where
  "toml_ok (Leaf _) = True"
| "toml_ok (Table m) = entries_ok m"
| "entries_ok [] = True"
| "entries_ok ((k, v) # m) = (k \<notin> fst ` set m \<and> toml_ok v \<and> entries_ok m)"

fun toml_at :: "'l toml \<Rightarrow> str list \<Rightarrow> 'l toml option" where
  "toml_at v [] = Some v"
| "toml_at v (k # ks) = (case toml_get v k of None \<Rightarrow> None | Some w \<Rightarrow> toml_at w ks)"

text \<open>An overlay leaves a path alone when it stops being a table of the path's keys on the way.\<close>

fun leaves_alone :: "'l toml \<Rightarrow> str list \<Rightarrow> bool" where
  "leaves_alone over [] = False"
| "leaves_alone (Leaf _) (k # ks) = False"
| "leaves_alone (Table m) (k # ks) = (case map_of m k of None \<Rightarrow> True | Some w \<Rightarrow> leaves_alone w ks)"

lemma entries_ok_member: "entries_ok m \<Longrightarrow> map_of m k = Some v \<Longrightarrow> toml_ok v"
  by (induction m) (auto split: if_splits)

lemma map_of_merge_entries:
  "entries_ok over \<Longrightarrow> map_of (merge_entries b over) k =
     (case map_of over k of
        None \<Rightarrow> map_of b k
      | Some v \<Rightarrow> Some (case map_of b k of None \<Rightarrow> v | Some current \<Rightarrow> merge_toml current v))"
proof (induction over arbitrary: b)
  case Nil
  then show ?case by simp
next
  case (Cons x over)
  obtain q v where x: "x = (q, v)" by (cases x)
  have n: "map_of over q = None" using Cons.prems x by (auto simp: map_of_eq_None_iff)
  show ?case
    using Cons x n by (cases "map_of b q") (auto split: option.splits)
qed

lemma merge_keeps_path:
  "toml_ok over \<Longrightarrow> leaves_alone over ks \<Longrightarrow> toml_ok base \<Longrightarrow> (\<exists>m. base = Table m) \<Longrightarrow>
     toml_at base ks \<noteq> None \<Longrightarrow> toml_at (merge_toml base over) ks = toml_at base ks"
proof (induction over ks arbitrary: base rule: leaves_alone.induct)
  case (3 m k ks)
  obtain b where b: "base = Table b" using "3.prems" by blast
  obtain w where w: "map_of b k = Some w" using "3.prems" b by (auto split: option.splits)
  show ?case
  proof (cases "map_of m k")
    case None
    then show ?thesis using "3.prems" b by (simp add: map_of_merge_entries)
  next
    case (Some v)
    then have v: "leaves_alone v ks" "toml_ok v" using "3.prems" entries_ok_member[of m k v] by auto
    have "ks \<noteq> []" using v(1) by (cases ks) auto
    then have "\<exists>t. w = Table t" using "3.prems"(5) b w by (cases ks; cases w) auto
    moreover have "toml_ok w" "toml_at w ks \<noteq> None"
      using "3.prems" b w entries_ok_member[of b k w] by auto
    ultimately have "toml_at (merge_toml w v) ks = toml_at w ks"
      using "3.IH"[OF Some v(2,1)] by blast
    then show ?thesis using Some b w "3.prems"(1) by (simp add: map_of_merge_entries)
  qed
qed auto

lemma merge_takes_leaf:
  "toml_ok over \<Longrightarrow> toml_at over ks = Some (Leaf x) \<Longrightarrow> toml_at (merge_toml base over) ks = Some (Leaf x)"
proof (induction ks arbitrary: base over)
  case Nil
  then show ?case by (cases base) auto
next
  case (Cons k ks)
  obtain m where m: "over = Table m" using Cons.prems(2) by (cases over) auto
  obtain v where v: "map_of m k = Some v" "toml_at v ks = Some (Leaf x)"
    using Cons.prems(2) m by (auto split: option.splits)
  have ok: "toml_ok v" using Cons.prems(1) m entries_ok_member[OF _ v(1)] by simp
  show ?case
  proof (cases base)
    case (Leaf y)
    then show ?thesis using m v by simp
  next
    case (Table b)
    then show ?thesis using m v Cons.prems(1) Cons.IH[OF ok v(2)]
      by (simp add: map_of_merge_entries split: option.split)
  qed
qed

section \<open>Properties\<close>

text \<open>C20: every configuration that loads has, for each known provider, reserves that routing can compare:
  finite percentages with the hard one below the soft one, and the deprecated keys folded away; this
  holds for a single file and for the layered discovery alike, whatever the decoders return.\<close>

theorem loaded_reserves_are_ordered:
  assumes "from_toml decode input = Inr c \<or> discover_with_user encode parse decode' parent dir user project = Inr c"
  shows "(\<exists>s h. soft_percent (reserve_for (budgets_of c) p) = Finite s \<and>
      hard_percent (reserve_for (budgets_of c) p) = Finite h \<and> 0 \<le> h \<and> h < s \<and> s \<le> 100) \<and>
    deepseek_soft_reserve_percent (budgets_of c) = None \<and> deepseek_hard_reserve_percent (budgets_of c) = None"
proof -
  obtain c0 where "finish_config c0 = Inr c"
    using assms discover_Inr by (metis from_toml_def r_bind_Inr)
  then have c: "c = c0\<lparr>budgets_of := budgets_normalize (budgets_of c0)\<rparr>" "validate c = Inr ()"
    by (auto simp: finish_config_Inr)
  obtain pol where pol: "map_of (provider_reserves (budgets_of c)) p = Some pol"
    using normalize_total[of "budgets_of c0" p] c(1) by auto
  then have "\<not> reserve_invalid pol" using validate_reserves[OF c(2)] map_of_SomeD by metis
  then have "\<exists>s h. soft_percent (reserve_for (budgets_of c) p) = Finite s \<and>
      hard_percent (reserve_for (budgets_of c) p) = Finite h \<and> 0 \<le> h \<and> h < s \<and> s \<le> 100"
    using pol by (simp add: reserve_for_def reserve_valid)
  then show ?thesis using c(1) by (simp add: budgets_normalize_def Let_def)
qed

lemma default_models_named: "\<not> list_ex (\<lambda>m. blank m) (model_slugs model_config_default)"
  by code_simp

lemma config_default_valid: "validate config_default = Inr ()"
proof -
  have "\<not> reserve_invalid reserve_policy_default"
    by (simp add: reserve_valid reserve_policy_default_def)
  then show ?thesis using default_models_named
    by (simp add: validate_def config_default_def scheduler_config_default_def budget_config_default_def
        provider_all_def routing_config_default_def context_config_default_def cache_config_default_def
        memory_config_default_def tui_config_default_def in_closed_range_Finite)
qed

lemma default_normalized: "budgets_normalize budget_config_default = budget_config_default"
  by (simp add: budgets_normalize_def Let_def budget_config_default_def provider_all_def or_default_def)

lemma default_loads: "finish_config config_default = Inr config_default"
  using config_default_valid default_normalized
  by (simp add: finish_config_Inr config_default_def)

theorem loaded_reserves_are_ordered_witness:
  "\<exists>c. from_toml (\<lambda>_. Inr config_default) ''mode'' = Inr c \<and>
     (\<exists>s. soft_percent (reserve_for (budgets_of c) XiaomiMiMo) = Finite s \<and> s \<le> 100)"
proof -
  have f: "from_toml (\<lambda>_. Inr config_default) ''mode'' = Inr config_default"
    by (simp add: from_toml_def default_loads)
  from loaded_reserves_are_ordered [OF disjI1, OF f, of XiaomiMiMo] f show ?thesis by blast
qed

text \<open>Layering is recursive: a leaf an overlay sets is the leaf of the merged table, and a path the
  overlay does not reach keeps what it had, so a small project file does not erase unrelated settings.\<close>

theorem layers_merge_recursively:
  assumes "toml_ok over" and "toml_ok (Table base)"
  shows "(toml_at over ks = Some (Leaf x) \<longrightarrow> toml_at (merge_toml (Table base) over) ks = Some (Leaf x)) \<and>
    (leaves_alone over ks \<and> toml_at (Table base) ks \<noteq> None \<longrightarrow>
       toml_at (merge_toml (Table base) over) ks = toml_at (Table base) ks)"
  using merge_takes_leaf[OF assms(1)] merge_keeps_path[OF assms(1) _ assms(2)] by blast

theorem layers_merge_recursively_witness:
  "toml_at (merge_toml (Table [(''models'', Table [(''lead'', Leaf (1::nat)), (''planner'', Leaf 2)])])
      (Table [(''models'', Table [(''lead'', Leaf 3)])])) [''models'', ''planner''] = Some (Leaf 2)"
  using layers_merge_recursively [of "Table [(''models'', Table [(''lead'', Leaf (3::nat))])]"
      "[(''models'', Table [(''lead'', Leaf 1), (''planner'', Leaf 2)])]" "[''models'', ''planner'']"]
  by simp

text \<open>Discovery accepts an empty database path: validation refuses one, but discovery joins a relative
  path, the empty one too, with the directory of its layer before it validates, so a configuration that
  is valid otherwise loads with the directory itself as its database.\<close>

theorem discovery_accepts_empty_database_path:
  assumes "encode config_default = Inr base" and "decode base = Inr (c\<lparr>database_path := []\<rparr>)"
    and "finish_config c = Inr c'" and "dir \<noteq> []" and "\<not> ends_with dir ''/''"
  shows "finish_config (c\<lparr>database_path := []\<rparr>) = Inl EmptyDatabasePath \<and>
    discover_with_user encode parse decode parent dir None None = Inr (c'\<lparr>database_path := dir @ ''/''\<rparr>)"
proof -
  have v: "validate (x\<lparr>database_path := q\<rparr>) = validate x" if "q \<noteq> []" "database_path x \<noteq> []" for x q
    using that by (simp add: validate_def)
  have c': "c' = c\<lparr>budgets_of := budgets_normalize (budgets_of c)\<rparr>" "validate c' = Inr ()"
    using assms(3) by (auto simp: finish_config_Inr)
  then have "database_path c' \<noteq> []" by (auto simp: validate_def split: if_splits)
  then have "finish_config (c\<lparr>database_path := dir @ ''/''\<rparr>) = Inr (c'\<lparr>database_path := dir @ ''/''\<rparr>)"
    using c' v[of "dir @ ''/''" c'] by (simp add: finish_config_Inr)
  then have "discover_with_user encode parse decode parent dir None None = Inr (c'\<lparr>database_path := dir @ ''/''\<rparr>)"
    using assms(1,2,4,5) by (simp add: discover_with_user_def add_layer_def is_relative_def path_join_def)
  moreover have "finish_config (c\<lparr>database_path := []\<rparr>) = Inl EmptyDatabasePath"
    by (simp add: finish_config_def Let_def validate_def)
  ultimately show ?thesis by blast
qed

theorem discovery_accepts_empty_database_path_witness:
  "discover_with_user (\<lambda>_. Inr (Leaf ())) (\<lambda>_. Inl EmptyModel) (\<lambda>_. Inr (config_default\<lparr>database_path := []\<rparr>))
      (\<lambda>_. None) ''/work'' None None = Inr (config_default\<lparr>database_path := ''/work/''\<rparr>)"
proof -
  have "\<not> ends_with ''/work'' ''/''" by (simp add: ends_with_def)
  from discovery_accepts_empty_database_path [where encode = "\<lambda>_. Inr (Leaf ())" and parse = "\<lambda>_. Inl EmptyModel"
      and decode = "\<lambda>_. Inr (config_default\<lparr>database_path := []\<rparr>)" and parent = "\<lambda>_. None",
      OF refl refl default_loads _ this]
  show ?thesis by simp
qed

end
