(* ===== verification/Fair_Store.thy ===== *)
theory Fair_Store
  imports Fairness
begin

text \<open>
  Durable admission of fair routes (\<open>crates/minha-core/src/store.rs\<close>): the tables
  \<open>routing_fairness_states\<close>, \<open>routing_admissions\<close>, \<open>routing_admission_candidates\<close> and
  \<open>routing_usage_entries\<close>, and the three transactions over them. A table is a \<open>BTreeMap\<close> from its
  primary key to its row; a transaction is a function that returns an error, and then the database is
  the old one, or the result and the new database. Constraints the schema declares (\<open>UNIQUE\<close>,
  \<open>FOREIGN KEY\<close>, \<open>PRIMARY KEY\<close>) are checked where a row is inserted. Only the set of run identifiers
  is kept of the table \<open>runs\<close>, and the row counter \<open>dispatched\<close> is not bounded.
\<close>

datatype store_error =
  Sqlite str | StoreJson str | FutureSchema int int | StoreRunId str | StoreTimestamp str | StoreMode str
| StoreState str | StoreIo str | LeaseConflict str | Coordination str | RoomAccessDenied str str
| MemoryError str

section \<open>Tables\<close>

record routing_state_row =
  rs_schema_version :: i64
  rs_deficit :: i64
  rs_dispatched :: i64
  rs_settled_work :: i64
  rs_updated_at :: time

record admission_row =
  ad_run_id :: str
  ad_agent_id :: str
  ad_key :: fairness_key
  ad_estimated_work :: i64
  ad_deficit_before :: i64
  ad_deficit_after :: i64
  ad_settlement_started :: bool
  ad_settled_work :: i64
  ad_cancelled :: bool
  ad_created_at :: time
  ad_updated_at :: time

record usage_entry_row =
  ue_receipt_id :: str
  ue_normalized_work :: i64
  ue_occurred_at :: time

record routing_db =
  db_runs :: "str list"
  db_states :: "(fairness_key \<times> routing_state_row) list"
  db_admissions :: "(str \<times> admission_row) list"
  db_candidates :: "(str \<times> fairness_candidate) list"
  db_usage :: "(str \<times> usage_entry_row) list"

definition routing_db_empty :: routing_db where
  "routing_db_empty =
     \<lparr>db_runs = [], db_states = [], db_admissions = [], db_candidates = [], db_usage = []\<rparr>"

definition route_key :: "str \<Rightarrow> str \<Rightarrow> fairness_candidate \<Rightarrow> fairness_key" where
  "route_key workspace_id role c = FairnessKey workspace_id role (fc_provider c) (fc_model c)"

text \<open>A counter of a row, zero for a row not there, as \<open>unwrap_or(0)\<close> reads it.\<close>

definition column ::
    "(routing_state_row \<Rightarrow> i64) \<Rightarrow> (fairness_key \<times> routing_state_row) list \<Rightarrow> fairness_key \<Rightarrow> i64" where
  "column f states k = (case map_of states k of None \<Rightarrow> 0 | Some row \<Rightarrow> f row)"

definition deficit_of :: "routing_db \<Rightarrow> fairness_key \<Rightarrow> i64" where
  "deficit_of db k = column rs_deficit (db_states db) k"

definition dispatched_of :: "routing_db \<Rightarrow> fairness_key \<Rightarrow> i64" where
  "dispatched_of db k = column rs_dispatched (db_states db) k"

definition settled_of :: "routing_db \<Rightarrow> fairness_key \<Rightarrow> i64" where
  "settled_of db k = column rs_settled_work (db_states db) k"

section \<open>Admission\<close>

definition admission_selection :: "admission_row \<Rightarrow> fairness_selection" where
  "admission_selection a =
     \<lparr>sel_schema_version = FAIRNESS_SCHEMA_VERSION, sel_key = ad_key a, sel_quantum = WDRR_QUANTUM,
      sel_estimated_work = nat (max (ad_estimated_work a) 0),
      sel_deficit_before = ad_deficit_before a, sel_deficit_after = ad_deficit_after a\<rparr>"

text \<open>The upsert of a credited state: an existing row keeps its counters.\<close>

definition credit_state ::
    "time \<Rightarrow> str \<Rightarrow> str \<Rightarrow> fairness_candidate \<times> i64 \<Rightarrow>
     (fairness_key \<times> routing_state_row) list \<Rightarrow> (fairness_key \<times> routing_state_row) list" where
  "credit_state now workspace_id role c states =
     (let k = route_key workspace_id role (fst c) in
      case map_of states k of
        None \<Rightarrow> bt_insert k
          \<lparr>rs_schema_version = int FAIRNESS_SCHEMA_VERSION, rs_deficit = credit (snd c),
           rs_dispatched = 0, rs_settled_work = 0, rs_updated_at = now\<rparr> states
      | Some _ \<Rightarrow> bt_update k
          (\<lambda>row. row\<lparr>rs_schema_version := int FAIRNESS_SCHEMA_VERSION,
                     rs_deficit := credit (snd c), rs_updated_at := now\<rparr>) states)"

definition admit_insert ::
    "time \<Rightarrow> str \<Rightarrow> str \<Rightarrow> str \<Rightarrow> str \<Rightarrow> str \<Rightarrow> fairness_candidate list \<Rightarrow> fairness_selection \<Rightarrow>
     routing_db \<Rightarrow> routing_db" where
  "admit_insert now workspace_id role run_id agent_id receipt_id candidates sel db =
     (let deficits = map (\<lambda>c. (c, deficit_of db (route_key workspace_id role c))) candidates;
          credited = foldl (\<lambda>m c. credit_state now workspace_id role c m) (db_states db) deficits;
          dispatched = bt_update (sel_key sel)
            (\<lambda>row. row\<lparr>rs_deficit := sel_deficit_after sel, rs_dispatched := rs_dispatched row + 1,
                       rs_updated_at := now\<rparr>) credited;
          row = \<lparr>ad_run_id = run_id, ad_agent_id = agent_id, ad_key = sel_key sel,
                 ad_estimated_work = signed_work (sel_estimated_work sel),
                 ad_deficit_before = sel_deficit_before sel,
                 ad_deficit_after = sel_deficit_after sel, ad_settlement_started = False,
                 ad_settled_work = 0, ad_cancelled = False, ad_created_at = now, ad_updated_at = now\<rparr>
      in db\<lparr>db_states := dispatched,
            db_admissions := bt_insert receipt_id row (db_admissions db),
            db_candidates :=
              foldl (\<lambda>s c. bs_insert (receipt_id, c) s) (db_candidates db) candidates\<rparr>)"

definition admit_equal_weight_route ::
    "time \<Rightarrow> str \<Rightarrow> str \<Rightarrow> str \<Rightarrow> str \<Rightarrow> str \<Rightarrow> fairness_candidate list \<Rightarrow> u64 \<Rightarrow> routing_db \<Rightarrow>
     store_error + fairness_selection \<times> routing_db" where
  "admit_equal_weight_route now workspace_id role run_id agent_id receipt_id cs estimated_work db =
     (if blank workspace_id \<or> blank role \<or> blank receipt_id
      then Inl (Coordination ''fair routing requires workspace, role, and receipt identities'')
      else
        let candidates = sort_dedup cs in
        if candidates = [] \<or> list_ex (\<lambda>c. blank (fc_provider c) \<or> blank (fc_model c)) candidates
        then Inl (Coordination ''fair routing requires at least one provider/model candidate'')
        else
          (case map_of (db_admissions db) receipt_id of
             Some existing \<Rightarrow> Inr (admission_selection existing, db)
           | None \<Rightarrow>
               let deficits = map (\<lambda>c. (c, deficit_of db (route_key workspace_id role c))) candidates in
               (case choose_equal_weight_wdrr workspace_id role deficits estimated_work of
                  None \<Rightarrow> Inl (Coordination ''no eligible fair route'')
                | Some sel \<Rightarrow>
                    if run_id \<notin> set (db_runs db)
                    then Inl (Sqlite ''FOREIGN KEY constraint failed'')
                    else if list_ex (\<lambda>(_, a). ad_run_id a = run_id \<and> ad_agent_id a = agent_id)
                              (db_admissions db)
                      \<or> list_ex (\<lambda>c. (receipt_id, c) \<in> set (db_candidates db)) candidates
                    then Inl (Sqlite ''UNIQUE constraint failed'')
                    else Inr (sel, admit_insert now workspace_id role run_id agent_id receipt_id
                                     candidates sel db))))"

section \<open>Settlement and cancellation\<close>

definition admission_of :: "routing_db \<Rightarrow> str \<Rightarrow> str \<Rightarrow> (str \<times> admission_row) option" where
  "admission_of db run_id agent_id =
     List.find (\<lambda>(_, a). ad_run_id a = run_id \<and> ad_agent_id a = agent_id) (db_admissions db)"

definition settle_fair_route_usage ::
    "time \<Rightarrow> str \<Rightarrow> str \<Rightarrow> str \<Rightarrow> token_usage \<Rightarrow> routing_db \<Rightarrow> store_error + bool \<times> routing_db" where
  "settle_fair_route_usage now run_id agent_id entry_key usage db =
     (let actual_work = normalized_token_work usage in
      if actual_work = 0 then Inr (False, db)
      else
        (case admission_of db run_id agent_id of
           None \<Rightarrow> Inr (False, db)
         | Some (receipt_id, a) \<Rightarrow>
             if ad_cancelled a then Inr (False, db)
             else if map_of (db_usage db) entry_key \<noteq> None then Inr (False, db)
             else
               (case map_of (db_states db) (ad_key a) of
                  None \<Rightarrow> Inl (Sqlite ''query returned no rows'')
                | Some row \<Rightarrow>
                    let corrected =
                          (if \<not> ad_settlement_started a
                           then sat_i64 (rs_deficit row + max (ad_estimated_work a) 0)
                           else rs_deficit row);
                        new_deficit = sat_i64 (corrected - signed_work actual_work);
                        new_total = sat_i64 (rs_settled_work row + signed_work actual_work);
                        new_admission_work =
                          sat_i64 (max (ad_settled_work a) 0 + signed_work actual_work)
                    in Inr (True,
                         db\<lparr>db_usage := bt_insert entry_key
                              \<lparr>ue_receipt_id = receipt_id,
                               ue_normalized_work = signed_work actual_work, ue_occurred_at = now\<rparr>
                              (db_usage db),
                            db_states := bt_update (ad_key a)
                              (\<lambda>row. row\<lparr>rs_deficit := new_deficit, rs_settled_work := new_total,
                                         rs_updated_at := now\<rparr>) (db_states db),
                            db_admissions := bt_update receipt_id
                              (\<lambda>a. a\<lparr>ad_settlement_started := True,
                                     ad_settled_work := new_admission_work, ad_updated_at := now\<rparr>)
                              (db_admissions db)\<rparr>))))"

definition uncredit_row :: "time \<Rightarrow> bool \<Rightarrow> i64 \<Rightarrow> routing_state_row \<Rightarrow> routing_state_row" where
  "uncredit_row now selected estimated_work row =
     (let deficit = sat_i64 (rs_deficit row - int WDRR_QUANTUM);
          deficit = (if selected then sat_i64 (deficit + max estimated_work 0) else deficit);
          dispatched = (if selected then max (sat_i64 (rs_dispatched row - 1)) 0
                        else rs_dispatched row)
      in row\<lparr>rs_deficit := deficit, rs_dispatched := dispatched, rs_updated_at := now\<rparr>)"

fun cancel_round ::
    "time \<Rightarrow> admission_row \<Rightarrow> fairness_candidate list \<Rightarrow> (fairness_key \<times> routing_state_row) list \<Rightarrow>
     store_error + (fairness_key \<times> routing_state_row) list" where
  "cancel_round now a [] states = Inr states"
| "cancel_round now a (c # cs) states =
     (let k = route_key (fk_workspace (ad_key a)) (fk_role (ad_key a)) c in
      case map_of states k of
        None \<Rightarrow> Inl (Sqlite ''query returned no rows'')
      | Some _ \<Rightarrow>
          let selected = (fc_provider c = fk_provider (ad_key a) \<and> fc_model c = fk_model (ad_key a))
          in cancel_round now a cs
               (bt_update k (uncredit_row now selected (ad_estimated_work a)) states))"

definition receipt_candidates :: "routing_db \<Rightarrow> str \<Rightarrow> fairness_candidate list" where
  "receipt_candidates db receipt_id =
     map snd (filter (\<lambda>(r, _). r = receipt_id) (db_candidates db))"

definition cancel_fair_route_admission ::
    "time \<Rightarrow> str \<Rightarrow> str \<Rightarrow> routing_db \<Rightarrow> store_error + bool \<times> routing_db" where
  "cancel_fair_route_admission now run_id agent_id db =
     (case admission_of db run_id agent_id of
        None \<Rightarrow> Inr (False, db)
      | Some (receipt_id, a) \<Rightarrow>
          if ad_settlement_started a \<or> ad_cancelled a then Inr (False, db)
          else
            let stored = receipt_candidates db receipt_id;
                candidates =
                  (if stored = []
                   then [FairnessCandidate (fk_provider (ad_key a)) (fk_model (ad_key a))] else stored)
            in r_map (\<lambda>states.
                 (True, db\<lparr>db_states := states,
                           db_admissions := bt_update receipt_id
                             (\<lambda>a. a\<lparr>ad_cancelled := True, ad_updated_at := now\<rparr>) (db_admissions db)\<rparr>))
               (cancel_round now a candidates (db_states db)))"

section \<open>Reading back\<close>

definition fairness_state_of_row ::
    "fairness_key \<times> routing_state_row \<Rightarrow> store_error + fairness_state" where
  "fairness_state_of_row kr =
     (let row = snd kr in
      if rs_schema_version row \<noteq> int FAIRNESS_SCHEMA_VERSION
      then Inl (Coordination (''unsupported fairness schema '' @ show_int (rs_schema_version row)))
      else Inr \<lparr>fst_schema_version = FAIRNESS_SCHEMA_VERSION, fst_key = fst kr,
                fst_deficit = rs_deficit row, fst_dispatched = nat (max (rs_dispatched row) 0),
                fst_settled_work = nat (max (rs_settled_work row) 0),
                fst_updated_at = rs_updated_at row\<rparr>)"

definition fairness_states ::
    "routing_db \<Rightarrow> str \<Rightarrow> str option \<Rightarrow> store_error + fairness_state list" where
  "fairness_states db workspace_id role =
     r_mapm fairness_state_of_row
       (filter (\<lambda>(k, _). fk_workspace k = workspace_id \<and>
                 (case role of None \<Rightarrow> True | Some r \<Rightarrow> fk_role k = r)) (db_states db))"

end
