(* ===== verification/Sse.thy ===== *)
theory Sse
  imports Provider_Models "HOL-Library.Sublist"
begin

text \<open>
  The server-sent event parser of \<open>crates/minha-core/src/provider.rs\<close> (\<open>SseParser\<close>): it buffers bytes, cuts
  them into frames at the first blank line, reads the \<open>data:\<close> lines of a frame as JSON and folds the
  events into a \<open>TurnResult\<close>. \<open>serde_json::from_str\<close> is the argument \<open>parse\<close>. Both \<open>&mut\<close> arguments are
  returned with the result, in the error case too, and an outer \<open>None\<close> is a call that does not return
  (\<open>redact_provider_detail\<close> may loop).
\<close>

section \<open>Data\<close>

definition MAX_MALFORMED_FRAMES :: u8 where "MAX_MALFORMED_FRAMES = 8"

record tool_call =
  tc_call_id :: str
  tc_name :: str
  tc_arguments :: str

record rate_limit_snapshot =
  limit_id :: str
  limit_name :: "str option"
  rl_primary :: "rate_limit_window option"
  rl_secondary :: "rate_limit_window option"
  rl_credits :: "credits_snapshot option"

record turn_result =
  output_text :: str
  reasoning_text :: str
  output_items :: "json list"
  tool_calls :: "tool_call list"
  tr_usage :: token_usage
  response_id :: "str option"
  server_model :: "str option"
  finish_reason :: "str option"
  rate_limits :: "rate_limit_snapshot list"

definition turn_result_default :: turn_result where
  "turn_result_default =
     \<lparr>output_text = [], reasoning_text = [], output_items = [], tool_calls = [], tr_usage = usage_zero,
      response_id = None, server_model = None, finish_reason = None, rate_limits = []\<rparr>"

datatype stream_event = TextDelta str | ReasoningDelta str | OutputItem json | Completed

record sse_parser =
  sse_buffer :: str
  sse_completed :: bool
  sse_malformed :: u8

definition sse_parser_default :: sse_parser where
  "sse_parser_default = \<lparr>sse_buffer = [], sse_completed = False, sse_malformed = 0\<rparr>"

type_synonym 'a sse_outcome = "((provider_error + 'a) \<times> sse_parser \<times> turn_result) option"

section \<open>Frames\<close>

definition lf :: str where "lf = [CHR 0x0A]"

definition crlf :: str where "crlf = [CHR 0x0D, CHR 0x0A]"

definition frame_end :: "str \<Rightarrow> usize option" where
  "frame_end buffer =
     (let a = map_option (\<lambda>i. i + 4) (find_str buffer (crlf @ crlf));
          b = map_option (\<lambda>i. i + 2) (find_str buffer (lf @ lf))
      in case a of
           None \<Rightarrow> b
         | Some x \<Rightarrow> (case b of None \<Rightarrow> Some x | Some y \<Rightarrow> Some (min x y)))"

definition sse_data :: "str \<Rightarrow> str option" where
  "sse_data frame =
     (let data = List.map_filter
            (\<lambda>line. map_option (\<lambda>v. unwrap_or (strip_prefix v '' '') v) (strip_prefix line ''data:''))
            (lines frame)
      in if data = [] then None else Some (join lf data))"

section \<open>Events\<close>

definition is_function_call :: "json \<Rightarrow> bool" where
  "is_function_call item = (get_str item ''type'' = Some ''function_call'')"

definition string_member :: "json \<Rightarrow> str \<Rightarrow> str" where
  "string_member v k = unwrap_or (get_str v k) []"

definition duplicate_item :: "json \<Rightarrow> json \<Rightarrow> bool" where
  "duplicate_item item existing =
     ((json_get item ''id'' \<noteq> None \<and> json_get item ''id'' = json_get existing ''id'') \<or>
      (json_get item ''call_id'' \<noteq> None \<and> json_get item ''call_id'' = json_get existing ''call_id'' \<and>
       json_get item ''type'' = json_get existing ''type''))"

definition capture_usage :: "json \<Rightarrow> token_usage \<Rightarrow> token_usage" where
  "capture_usage usage u =
     \<lparr>tu_input = unwrap_or (get_u64 usage ''input_tokens'') (tu_input u),
      tu_output = unwrap_or (get_u64 usage ''output_tokens'') (tu_output u),
      tu_cached_input =
        unwrap_or (Option.bind (json_pointer usage [''input_tokens_details'', ''cached_tokens'']) as_u64)
          (tu_cached_input u),
      tu_cache_write =
        unwrap_or (Option.bind (or_else (json_get usage ''cache_write_tokens'')
            (json_pointer usage [''input_tokens_details'', ''cache_write_tokens''])) as_u64)
          (tu_cache_write u),
      tu_reasoning_output =
        unwrap_or (Option.bind (json_pointer usage [''output_tokens_details'', ''reasoning_tokens'']) as_u64)
          (tu_reasoning_output u)\<rparr>"

definition capture_call :: "json \<Rightarrow> tool_call list \<Rightarrow> tool_call list" where
  "capture_call item calls =
     (case (if is_function_call item then get_str item ''call_id'' else None) of
        None \<Rightarrow> calls
      | Some call_id \<Rightarrow>
          if list_ex (\<lambda>c. tc_call_id c = call_id) calls then calls
          else calls @ [\<lparr>tc_call_id = call_id, tc_name = string_member item ''name'',
                         tc_arguments = string_member item ''arguments''\<rparr>])"

definition capture_item :: "json \<Rightarrow> turn_result \<Rightarrow> turn_result" where
  "capture_item item r =
     r\<lparr>output_items :=
         (if list_ex (duplicate_item item) (output_items r) then output_items r
          else output_items r @ [item]),
       tool_calls := capture_call item (tool_calls r)\<rparr>"

definition capture_response :: "json \<Rightarrow> turn_result \<Rightarrow> turn_result" where
  "capture_response event r =
     (let response = unwrap_or (json_get event ''response'') event;
          r = r\<lparr>response_id := or_else (get_str response ''id'') (response_id r),
                server_model := or_else (get_str response ''model'') (server_model r),
                tr_usage := (case json_get response ''usage'' of
                    None \<Rightarrow> tr_usage r
                  | Some usage \<Rightarrow> capture_usage usage (tr_usage r))\<rparr>
      in case get_array response ''output'' of
           None \<Rightarrow> r
         | Some items \<Rightarrow> foldl (\<lambda>r item. capture_item item r) r items)"

definition error_detail :: "json \<Rightarrow> str option" where
  "error_detail v =
     (case Option.bind
        (or_else (json_pointer v [''error'', ''message''])
          (or_else (json_pointer v [''response'', ''error'', ''message'']) (json_get v ''message''))) as_str of
        None \<Rightarrow> Some ''provider returned an unspecified stream error''
      | Some text \<Rightarrow> redact_provider_detail text)"

definition on_text_delta :: "json \<Rightarrow> turn_result \<Rightarrow> stream_event option \<times> turn_result" where
  "on_text_delta v r =
     (case get_str v ''delta'' of
        None \<Rightarrow> (None, r)
      | Some d \<Rightarrow> (Some (TextDelta d), r\<lparr>output_text := output_text r @ d\<rparr>))"

definition on_output_item :: "json \<Rightarrow> turn_result \<Rightarrow> stream_event option \<times> turn_result" where
  "on_output_item v r =
     (case json_get v ''item'' of
        None \<Rightarrow> (None, r)
      | Some item \<Rightarrow>
          (Some (OutputItem item),
           r\<lparr>output_items := output_items r @ [item],
             tool_calls := (if is_function_call item
               then tool_calls r @ [\<lparr>tc_call_id = string_member item ''call_id'',
                                     tc_name = string_member item ''name'',
                                     tc_arguments = string_member item ''arguments''\<rparr>]
               else tool_calls r)\<rparr>))"

definition dispatch_event :: "json \<Rightarrow> sse_parser \<Rightarrow> turn_result \<Rightarrow> stream_event option sse_outcome" where
  "dispatch_event v p r =
     (let kind = string_member v ''type'' in
      if kind = ''response.output_text.delta'' then
        (case on_text_delta v r of (e, r') \<Rightarrow> Some (Inr e, p, r'))
      else if kind = ''response.output_item.done'' then
        (case on_output_item v r of (e, r') \<Rightarrow> Some (Inr e, p, r'))
      else if kind \<in> {''response.created'', ''response.in_progress''} then
        Some (Inr None, p, capture_response v r)
      else if kind \<in> {''response.completed'', ''response.done''} then
        Some (Inr (Some Completed), p\<lparr>sse_completed := True\<rparr>, capture_response v r)
      else if kind \<in> {''error'', ''response.error'', ''response.failed''} then
        map_option (\<lambda>d. (Inl (RemoteError d), p, capture_response v r)) (error_detail v)
      else Some (Inr None, p, r))"

definition sse_event ::
    "(str \<Rightarrow> str + json) \<Rightarrow> str \<Rightarrow> sse_parser \<Rightarrow> turn_result \<Rightarrow> stream_event option sse_outcome" where
  "sse_event parse data p r =
     (if trim data = ''[DONE]'' then Some (Inr None, p\<lparr>sse_completed := True\<rparr>, r)
      else case parse data of
             Inl err \<Rightarrow>
               (let n = min (sse_malformed p + 1) 255;
                    p = p\<lparr>sse_malformed := n\<rparr>
                in if n > MAX_MALFORMED_FRAMES then Some (Inl (SseError err), p, r)
                   else Some (Inr None, p, r))
           | Inr v \<Rightarrow> dispatch_event v p r)"

definition option_list :: "'a option \<Rightarrow> 'a list" where
  "option_list x = (case x of None \<Rightarrow> [] | Some y \<Rightarrow> [y])"

text \<open>What is done with one frame, cut off the buffer by \<open>push\<close> or left in it by \<open>finish\<close>.\<close>

definition sse_frame ::
    "(str \<Rightarrow> str + json) \<Rightarrow> str \<Rightarrow> stream_event list \<Rightarrow> sse_parser \<Rightarrow> turn_result \<Rightarrow> stream_event list sse_outcome" where
  "sse_frame parse frame events p r =
     (case sse_data (from_utf8_lossy frame) of
        None \<Rightarrow> Some (Inr events, p, r)
      | Some data \<Rightarrow>
          (case sse_event parse data p r of
             None \<Rightarrow> None
           | Some (Inl e, p', r') \<Rightarrow> Some (Inl e, p', r')
           | Some (Inr ev, p', r') \<Rightarrow> Some (Inr (events @ option_list ev), p', r')))"

lemma frame_end_bounds:
  assumes "frame_end b = Some n"
  shows "0 < n \<and> n \<le> length b"
proof -
  have a: "find_str b (crlf @ crlf) = Some i \<Longrightarrow> i + 4 \<le> length b" for i
    using find_str_Some[of b "crlf @ crlf" i] by (simp add: crlf_def)
  have c: "find_str b (lf @ lf) = Some i \<Longrightarrow> i + 2 \<le> length b" for i
    using find_str_Some[of b "lf @ lf" i] by (simp add: lf_def)
  show ?thesis using assms a c by (auto simp: frame_end_def Let_def split: option.splits)
qed

lemma sse_event_buffer:
  assumes "sse_event parse d p r = Some (x, p', r')"
  shows "sse_buffer p' = sse_buffer p"
  using assms
  by (auto simp: sse_event_def dispatch_event_def Let_def split: sum.splits if_splits prod.splits)

lemma sse_frame_buffer:
  assumes "sse_frame parse f es p r = Some (x, p', r')"
  shows "sse_buffer p' = sse_buffer p"
  using assms sse_event_buffer
  by (fastforce simp: sse_frame_def split: option.splits sum.splits)

function sse_loop ::
    "(str \<Rightarrow> str + json) \<Rightarrow> stream_event list \<Rightarrow> sse_parser \<Rightarrow> turn_result \<Rightarrow> stream_event list sse_outcome" where
  "sse_loop parse events p r =
     (case frame_end (sse_buffer p) of
        None \<Rightarrow> Some (Inr events, p, r)
      | Some n \<Rightarrow>
          (case sse_frame parse (take n (sse_buffer p)) events
                  (p\<lparr>sse_buffer := drop n (sse_buffer p)\<rparr>) r of
             None \<Rightarrow> None
           | Some (Inl e, p', r') \<Rightarrow> Some (Inl e, p', r')
           | Some (Inr events', p', r') \<Rightarrow> sse_loop parse events' p' r'))"
  by pat_completeness auto
termination
  by (relation "measure (\<lambda>(parse, es, p, r). length (sse_buffer p))")
    (auto dest!: sse_frame_buffer frame_end_bounds)

declare sse_loop.simps [simp del]

definition sse_push ::
    "(str \<Rightarrow> str + json) \<Rightarrow> str \<Rightarrow> sse_parser \<Rightarrow> turn_result \<Rightarrow> stream_event list sse_outcome" where
  "sse_push parse bytes p r = sse_loop parse [] (p\<lparr>sse_buffer := sse_buffer p @ bytes\<rparr>) r"

definition is_ascii_whitespace :: "char \<Rightarrow> bool" where
  "is_ascii_whitespace c = (byte c \<in> {9, 10, 12, 13, 32})"

definition sse_finish ::
    "(str \<Rightarrow> str + json) \<Rightarrow> sse_parser \<Rightarrow> turn_result \<Rightarrow> stream_event list sse_outcome" where
  "sse_finish parse p r =
     (if list_all is_ascii_whitespace (sse_buffer p) then Some (Inr [], p, r)
      else sse_frame parse (sse_buffer p) [] p r)"

definition output_text_from_items :: "json list \<Rightarrow> str" where
  "output_text_from_items items =
     join [] (List.map_filter (\<lambda>c. get_str c ''text'')
       (filter (\<lambda>c. get_str c ''type'' = Some ''output_text'')
         (concat (List.map_filter (\<lambda>i. get_array i ''content'')
           (filter (\<lambda>i. get_str i ''type'' = Some ''message'') items)))))"

section \<open>A streamed turn\<close>

text \<open>
  What the transport hands to \<open>turn_stream\<close> one after the other: a chunk of the body, a transport error
  or silence past the idle timeout; the list ends when the body does. The result is the sequence of
  events given to \<open>on_event\<close> and what the call returns.
\<close>

datatype stream_item = Chunk str | StreamFailed str | IdleTimeout

definition close_turn :: "sse_parser \<Rightarrow> turn_result \<Rightarrow> provider_error + turn_result" where
  "close_turn p r =
     (if sse_completed p
      then Inr (if output_text r = [] then r\<lparr>output_text := output_text_from_items (output_items r)\<rparr> else r)
      else Inl IncompleteStream)"

fun stream_loop ::
    "(str \<Rightarrow> str + json) \<Rightarrow> stream_item list \<Rightarrow> stream_event list \<Rightarrow> sse_parser \<Rightarrow> turn_result \<Rightarrow>
     (stream_event list \<times> (provider_error + turn_result)) option" where
  "stream_loop parse [] heard p r =
     (case sse_finish parse p r of
        None \<Rightarrow> None
      | Some (Inl e, p', r') \<Rightarrow> Some (heard, Inl e)
      | Some (Inr es, p', r') \<Rightarrow> Some (heard @ es, close_turn p' r'))"
| "stream_loop parse (Chunk c # items) heard p r =
     (case sse_push parse c p r of
        None \<Rightarrow> None
      | Some (Inl e, p', r') \<Rightarrow> Some (heard, Inl e)
      | Some (Inr es, p', r') \<Rightarrow> stream_loop parse items (heard @ es) p' r')"
| "stream_loop parse (StreamFailed err # items) heard p r = Some (heard, Inl (RequestError err))"
| "stream_loop parse (IdleTimeout # items) heard p r =
     Some (heard, Inl (InvalidResponse ''provider stream exceeded the idle timeout''))"

section \<open>Frames do not depend on the bytes after them\<close>

lemma starts_with_more: "starts_with s p \<Longrightarrow> starts_with (s @ t) p"
  by (auto simp: starts_with_iff)

lemma starts_with_cut: "starts_with (s @ t) p \<Longrightarrow> length p \<le> length s \<Longrightarrow> starts_with s p"
  by (metis append_eq_append_conv_if append_take_drop_id starts_with_iff)

lemma find_str_more: "find_str s p = Some i \<Longrightarrow> find_str (s @ t) p = Some i"
proof (induction s p arbitrary: i rule: find_str.induct)
  case (1 p)
  then show ?case by (cases t) (auto split: if_splits)
next
  case (2 c cs p)
  have cut: "starts_with (c # cs) p" if "starts_with (c # cs @ t) p" "find_str cs p = Some j" for j
    using that find_str_Some[of cs p j] starts_with_cut[of "c # cs" t p] by auto
  show ?case using 2 cut starts_with_more[of "c # cs" p t]
    by (auto split: if_splits)
qed

lemma find_str_fresh:
  assumes "find_str s p = None" and "find_str (s @ t) p = Some i"
  shows "length s < i + length p"
proof (rule ccontr)
  assume le: "\<not> length s < i + length p"
  then have "starts_with (drop i s @ t) p"
    using find_str_Some[OF assms(2)] by (simp add: drop_append)
  then have "starts_with (drop i s) p" using starts_with_cut[of "drop i s" t p] le by simp
  then have "contains s p"
    by (metis append_Nil2 append_take_drop_id contains_append starts_with_contains)
  then show False using assms(1) find_str_None[of s p] by simp
qed

lemma frame_end_more:
  assumes "frame_end b = Some n"
  shows "frame_end (b @ t) = Some n"
proof -
  let ?c = "crlf @ crlf" and ?l = "lf @ lf"
  have lens: "length ?c = 4" "length ?l = 2" by (simp_all add: crlf_def lf_def)
  have in_c: "find_str b ?c = Some i \<Longrightarrow> i + 4 \<le> length b" for i
    using find_str_Some[of b ?c i] by (simp add: crlf_def)
  have in_l: "find_str b ?l = Some i \<Longrightarrow> i + 2 \<le> length b" for i
    using find_str_Some[of b ?l i] by (simp add: lf_def)
  have new_c: "find_str b ?c = None \<Longrightarrow> find_str (b @ t) ?c = Some i \<Longrightarrow> length b < i + 4" for i
    using find_str_fresh[of b ?c t i] lens by simp
  have new_l: "find_str b ?l = None \<Longrightarrow> find_str (b @ t) ?l = Some i \<Longrightarrow> length b < i + 2" for i
    using find_str_fresh[of b ?l t i] lens by simp
  show ?thesis
  proof (cases "find_str b ?c")
    case None
    then obtain j where j: "find_str b ?l = Some j" "n = j + 2"
      using assms by (auto simp: frame_end_def)
    then show ?thesis
      using None new_c in_l[OF j(1)] find_str_more[OF j(1), of t]
      by (cases "find_str (b @ t) ?c") (fastforce simp: frame_end_def)+
  next
    case (Some i)
    then show ?thesis
      using assms find_str_more[OF Some, of t] in_c[OF Some] new_l find_str_more[of b ?l _ t]
      by (cases "find_str b ?l"; cases "find_str (b @ t) ?l") (fastforce simp: frame_end_def)+
  qed
qed

section \<open>The loop and the bytes after it\<close>

definition set_buffer :: "str \<Rightarrow> 'a \<times> sse_parser \<times> turn_result \<Rightarrow> 'a \<times> sse_parser \<times> turn_result" where
  "set_buffer b x = (case x of (a, p, r) \<Rightarrow> (a, p\<lparr>sse_buffer := b\<rparr>, r))"

definition more_bytes :: "str \<Rightarrow> 'a \<times> sse_parser \<times> turn_result \<Rightarrow> 'a \<times> sse_parser \<times> turn_result" where
  "more_bytes t x = (case x of (a, p, r) \<Rightarrow> (a, p\<lparr>sse_buffer := sse_buffer p @ t\<rparr>, r))"

lemma dispatch_event_any_buffer:
  "dispatch_event v (p\<lparr>sse_buffer := b\<rparr>) r = map_option (set_buffer b) (dispatch_event v p r)"
  unfolding dispatch_event_def Let_def set_buffer_def
  by (cases p) (simp only: if_distrib[of "map_option _"] option.map prod.case option.map_comp comp_def
      split_beta fst_conv snd_conv sse_parser.update_convs)

lemma sse_event_any_buffer:
  "sse_event parse d (p\<lparr>sse_buffer := b\<rparr>) r = map_option (set_buffer b) (sse_event parse d p r)"
  by (cases "parse d") (simp_all add: sse_event_def dispatch_event_any_buffer Let_def set_buffer_def)

lemma sse_frame_any_buffer:
  "sse_frame parse f es (p\<lparr>sse_buffer := b\<rparr>) r = map_option (set_buffer b) (sse_frame parse f es p r)"
  by (auto simp: sse_frame_def sse_event_any_buffer set_buffer_def split: option.splits sum.splits prod.splits)

lemma sse_frame_more_bytes:
  "sse_frame parse f es (p\<lparr>sse_buffer := sse_buffer p @ t\<rparr>) r =
     map_option (more_bytes t) (sse_frame parse f es p r)"
proof (cases "sse_frame parse f es p r")
  case None
  then show ?thesis by (simp only: sse_frame_any_buffer option.map)
next
  case (Some x)
  obtain y p' r' where x: "x = (y, p', r')" by (cases x)
  then have "sse_buffer p' = sse_buffer p" using Some sse_frame_buffer by blast
  then show ?thesis by (simp only: sse_frame_any_buffer Some x option.map set_buffer_def more_bytes_def prod.case)
qed

lemma sse_frame_events:
  "sse_frame parse f (es @ fs) p r =
     map_option (\<lambda>(x, s). (case x of Inl e \<Rightarrow> Inl e | Inr gs \<Rightarrow> Inr (es @ gs), s)) (sse_frame parse f fs p r)"
  by (auto simp: sse_frame_def split: option.splits sum.splits prod.splits)

text \<open>Looping over a longer buffer is looping over its front, and over the rest when that went well.\<close>

lemma sse_loop_more_bytes:
  "sse_loop parse es (p\<lparr>sse_buffer := sse_buffer p @ t\<rparr>) r =
     (case sse_loop parse es p r of
        None \<Rightarrow> None
      | Some (Inl e, p', r') \<Rightarrow> Some (Inl e, p'\<lparr>sse_buffer := sse_buffer p' @ t\<rparr>, r')
      | Some (Inr fs, p', r') \<Rightarrow> sse_loop parse fs (p'\<lparr>sse_buffer := sse_buffer p' @ t\<rparr>) r')"
proof (induction parse es p r rule: sse_loop.induct)
  case (1 parse es p r)
  show ?case
  proof (cases "frame_end (sse_buffer p)")
    case None
    then show ?thesis by (subst sse_loop.simps[of parse es p r]) simp
  next
    case (Some n)
    let ?q = "p\<lparr>sse_buffer := drop n (sse_buffer p)\<rparr>"
    let ?f = "take n (sse_buffer p)"
    have n: "n \<le> length (sse_buffer p)" using frame_end_bounds[OF Some] by simp
    have step: "sse_loop parse es (p\<lparr>sse_buffer := sse_buffer p @ t\<rparr>) r =
        (case map_option (more_bytes t) (sse_frame parse ?f es ?q r) of
           None \<Rightarrow> None | Some (Inl e, p', r') \<Rightarrow> Some (Inl e, p', r')
         | Some (Inr fs, p', r') \<Rightarrow> sse_loop parse fs p' r')"
      using frame_end_more[OF Some, of t] n sse_frame_more_bytes[of parse ?f es ?q t r]
      by (subst sse_loop.simps) simp
    show ?thesis
      using 1[OF Some] unfolding step sse_loop.simps[of parse es p r]
      by (auto simp: Some more_bytes_def split: option.splits sum.splits prod.splits)
  qed
qed

lemma sse_loop_events:
  "sse_loop parse (es @ fs) p r =
     map_option (\<lambda>(x, s). (case x of Inl e \<Rightarrow> Inl e | Inr gs \<Rightarrow> Inr (es @ gs), s)) (sse_loop parse fs p r)"
proof (induction parse fs p r arbitrary: es rule: sse_loop.induct)
  case (1 parse fs p r)
  show ?case
  proof (cases "frame_end (sse_buffer p)")
    case None
    then show ?thesis by (simp add: sse_loop.simps)
  next
    case (Some n)
    then show ?thesis
      using 1[OF Some]
      by (simp add: sse_loop.simps[of parse "es @ fs" p r] sse_loop.simps[of parse fs p r] sse_frame_events
          split: option.splits sum.splits prod.splits)
  qed
qed

lemma sse_loop_stops:
  "sse_loop parse es p r = Some (Inr fs, p', r') \<Longrightarrow> frame_end (sse_buffer p') = None"
proof (induction parse es p r rule: sse_loop.induct)
  case (1 parse es p r)
  show ?case
  proof (cases "frame_end (sse_buffer p)")
    case None
    then show ?thesis using "1.prems" by (simp add: sse_loop.simps)
  next
    case (Some n)
    then show ?thesis
      using "1.IH"[OF Some] "1.prems"
      by (simp add: sse_loop.simps[of parse es p r] split: option.splits sum.splits prod.splits)
  qed
qed

lemma sse_push_append:
  "sse_push parse (a @ b) p r =
     (case sse_push parse a p r of
        None \<Rightarrow> None
      | Some (Inl e, p', r') \<Rightarrow> Some (Inl e, p'\<lparr>sse_buffer := sse_buffer p' @ b\<rparr>, r')
      | Some (Inr es, p', r') \<Rightarrow>
          map_option (\<lambda>(x, s). (case x of Inl e \<Rightarrow> Inl e | Inr fs \<Rightarrow> Inr (es @ fs), s))
            (sse_push parse b p' r'))"
proof -
  have front: "sse_push parse (a @ b) p r =
     (case sse_push parse a p r of
        None \<Rightarrow> None
      | Some (Inl e, p', r') \<Rightarrow> Some (Inl e, p'\<lparr>sse_buffer := sse_buffer p' @ b\<rparr>, r')
      | Some (Inr es, p', r') \<Rightarrow> sse_loop parse es (p'\<lparr>sse_buffer := sse_buffer p' @ b\<rparr>) r')"
    using sse_loop_more_bytes[of parse "[]" "p\<lparr>sse_buffer := sse_buffer p @ a\<rparr>" b r]
    by (simp add: sse_push_def)
  have rear: "sse_loop parse es (p'\<lparr>sse_buffer := sse_buffer p' @ b\<rparr>) r' =
      map_option (\<lambda>(x, s). (case x of Inl e \<Rightarrow> Inl e | Inr fs \<Rightarrow> Inr (es @ fs), s)) (sse_push parse b p' r')"
    for es p' r'
    unfolding sse_push_def by (subst sse_loop_events[of parse es "[]", simplified]) (rule refl)
  show ?thesis unfolding front rear by (rule refl)
qed

section \<open>What is heard and what is returned\<close>

definition agrees ::
    "(stream_event list \<times> (provider_error + turn_result)) option \<Rightarrow>
     (stream_event list \<times> (provider_error + turn_result)) option \<Rightarrow> bool" where
  "agrees x y = (map_option snd x = map_option snd y \<and> (\<forall>heard res. x = Some (heard, Inr res) \<longrightarrow> y = x))"

lemma agrees_refl [simp]: "agrees x x"
  by (simp add: agrees_def)

lemma agrees_trans: "agrees x y \<Longrightarrow> agrees y z \<Longrightarrow> agrees x z"
  unfolding agrees_def by metis

lemma agrees_sym: "agrees x y \<Longrightarrow> agrees y x"
  unfolding agrees_def by (cases x; cases y) fastforce+

lemma push_nothing:
  "frame_end (sse_buffer p) = None \<Longrightarrow> sse_push parse [] p r = Some (Inr [], p, r)"
  by (simp add: sse_push_def sse_loop.simps)

lemma push_stops: "sse_push parse b p r = Some (Inr es, p', r') \<Longrightarrow> frame_end (sse_buffer p') = None"
  unfolding sse_push_def by (rule sse_loop_stops)

lemma one_chunk:
  assumes "sse_push parse c p r = Some (Inr es, p', r')"
  shows "agrees (stream_loop parse [Chunk d] (heard @ es) p' r') (stream_loop parse [Chunk (c @ d)] heard p r)"
  using assms by (auto simp: agrees_def sse_push_append split: option.splits sum.splits prod.splits)

lemma stream_chunks:
  "frame_end (sse_buffer p) = None \<Longrightarrow>
     agrees (stream_loop parse (map Chunk cs) heard p r) (stream_loop parse [Chunk (concat cs)] heard p r)"
proof (induction cs arbitrary: heard p r)
  case Nil
  then show ?case by (simp add: push_nothing)
next
  case (Cons c cs)
  show ?case
  proof (cases "sse_push parse c p r")
    case None
    then show ?thesis by (simp add: sse_push_append)
  next
    case (Some x)
    obtain y p' r' where x: "x = (y, p', r')" by (cases x)
    show ?thesis
    proof (cases y)
      case (Inl e)
      then show ?thesis using Some x by (simp add: sse_push_append)
    next
      case (Inr es)
      then have c: "sse_push parse c p r = Some (Inr es, p', r')" using Some x by simp
      have "stream_loop parse (map Chunk (c # cs)) heard p r =
          stream_loop parse (map Chunk cs) (heard @ es) p' r'" by (simp add: c)
      then show ?thesis
        using agrees_trans[OF Cons.IH[OF push_stops[OF c], of "heard @ es" r'] one_chunk[OF c, of "concat cs" heard]]
        by simp
    qed
  qed
qed

definition texts :: "stream_event list \<Rightarrow> str" where
  "texts es = concat (List.map_filter (\<lambda>e. case e of TextDelta t \<Rightarrow> Some t | _ \<Rightarrow> None) es)"

definition items :: "stream_event list \<Rightarrow> json list" where
  "items es = List.map_filter (\<lambda>e. case e of OutputItem i \<Rightarrow> Some i | _ \<Rightarrow> None) es"

definition accounted :: "stream_event list \<Rightarrow> sse_parser \<Rightarrow> turn_result \<Rightarrow> sse_parser \<Rightarrow> turn_result \<Rightarrow> bool" where
  "accounted es p r p' r' =
     (output_text r' = output_text r @ texts es \<and>
      (\<exists>ext. output_items r' = output_items r @ ext \<and> subseq (items es) ext) \<and>
      (sse_completed p \<or> Completed \<in> set es \<longrightarrow> sse_completed p') \<and>
      (sse_malformed p \<le> MAX_MALFORMED_FRAMES \<longrightarrow> sse_malformed p' \<le> MAX_MALFORMED_FRAMES))"

lemma map_filter_append: "List.map_filter f (xs @ ys) = List.map_filter f xs @ List.map_filter f ys"
  by (simp add: List.map_filter_def)

lemma texts_simps [simp]:
  "texts [] = []" "texts (es @ fs) = texts es @ texts fs" "texts (option_list None) = []"
  "texts [TextDelta t] = t" "texts [OutputItem i] = []" "texts [Completed] = []"
  by (simp_all add: texts_def map_filter_append List.map_filter_simps option_list_def)

lemma items_simps [simp]:
  "items [] = []" "items (es @ fs) = items es @ items fs" "items (option_list None) = []"
  "items [TextDelta t] = []" "items [OutputItem i] = [i]" "items [Completed] = []"
  by (simp_all add: items_def map_filter_append List.map_filter_simps option_list_def)

lemma accounted_refl: "accounted [] p r p r"
  by (simp add: accounted_def)

lemma accounted_trans:
  assumes "accounted es p r p' r'" and "accounted fs p' r' p'' r''"
  shows "accounted (es @ fs) p r p'' r''"
proof -
  obtain x y where "output_items r' = output_items r @ x" "subseq (items es) x"
    and "output_items r'' = output_items r' @ y" "subseq (items fs) y"
    using assms unfolding accounted_def by blast
  then have "\<exists>ext. output_items r'' = output_items r @ ext \<and> subseq (items (es @ fs)) ext"
    by (intro exI[of _ "x @ y"]) (simp add: list_emb_append_mono)
  then show ?thesis using assms unfolding accounted_def by auto
qed

lemma accounted_buffer [simp]: "accounted es (p\<lparr>sse_buffer := b\<rparr>) r p' r' = accounted es p r p' r'"
  by (simp add: accounted_def)

lemma captured_shape:
  "\<exists>xs r0. capture_response v r = foldl (\<lambda>r item. capture_item item r) r0 xs \<and>
     output_items r0 = output_items r \<and> output_text r0 = output_text r"
proof -
  define response where "response = unwrap_or (json_get v ''response'') v"
  define r0 where "r0 = r\<lparr>response_id := or_else (get_str response ''id'') (response_id r),
      server_model := or_else (get_str response ''model'') (server_model r),
      tr_usage := (case json_get response ''usage'' of None \<Rightarrow> tr_usage r
                   | Some usage \<Rightarrow> capture_usage usage (tr_usage r))\<rparr>"
  have "capture_response v r = foldl (\<lambda>r item. capture_item item r) r0 (unwrap_or (get_array response ''output'') [])"
    by (simp add: capture_response_def Let_def response_def[symmetric] r0_def[symmetric] split: option.split)
  moreover have "output_items r0 = output_items r" "output_text r0 = output_text r" by (simp_all add: r0_def)
  ultimately show ?thesis by blast
qed

lemma captured_output: "output_text (capture_response v r) = output_text r"
proof -
  have "output_text (foldl (\<lambda>r item. capture_item item r) r xs) = output_text r" for xs r
    by (induction xs arbitrary: r) (simp_all add: capture_item_def)
  then show ?thesis using captured_shape[of v r] by metis
qed

lemma captured_items: "\<exists>ext. output_items (capture_response v r) = output_items r @ ext"
proof -
  have "\<exists>ext. output_items (foldl (\<lambda>r item. capture_item item r) r xs) = output_items r @ ext" for xs r
  proof (induction xs arbitrary: r)
    case Nil
    then show ?case by simp
  next
    case (Cons x xs)
    obtain ext where e: "output_items (foldl (\<lambda>r item. capture_item item r) (capture_item x r) xs) =
        output_items (capture_item x r) @ ext"
      using Cons.IH by blast
    then show ?case by (auto simp: capture_item_def)
  qed
  then show ?thesis using captured_shape[of v r] by metis
qed

lemma dispatch_accounted:
  assumes "dispatch_event v p r = Some (Inr ev, p', r')"
  shows "accounted (option_list ev) p r p' r'"
proof -
  define k where "k = string_member v ''type''"
  note d = assms[unfolded dispatch_event_def Let_def k_def[symmetric]]
  from d consider
    (delta) "on_text_delta v r = (ev, r')" "p' = p"
  | (item) "on_output_item v r = (ev, r')" "p' = p"
  | (created) "ev = None" "p' = p" "r' = capture_response v r"
  | (completed) "ev = Some Completed" "p' = p\<lparr>sse_completed := True\<rparr>" "r' = capture_response v r"
  | (other) "ev = None" "p' = p" "r' = r"
    by (simp split: if_split_asm prod.split_asm)
  then show ?thesis
  proof cases
    case delta
    then show ?thesis by (auto simp: on_text_delta_def accounted_def option_list_def split: option.splits)
  next
    case item
    then show ?thesis by (auto simp: on_output_item_def accounted_def option_list_def split: option.splits)
  next
    case created
    then show ?thesis using captured_output captured_items by (simp add: accounted_def option_list_def)
  next
    case completed
    then show ?thesis using captured_output captured_items by (simp add: accounted_def option_list_def)
  next
    case other
    then show ?thesis by (simp add: accounted_def option_list_def)
  qed
qed

lemma event_accounted:
  assumes "sse_event parse d p r = Some (Inr ev, p', r')"
  shows "accounted (option_list ev) p r p' r'"
proof (cases "trim d = ''[DONE]''")
  case True
  then show ?thesis using assms by (auto simp: sse_event_def accounted_def option_list_def)
next
  case False
  show ?thesis
  proof (cases "parse d")
    case (Inl e)
    then show ?thesis using assms False
      by (auto simp: sse_event_def accounted_def option_list_def Let_def split: if_splits)
  next
    case (Inr v)
    then show ?thesis using assms False dispatch_accounted by (simp add: sse_event_def)
  qed
qed

lemma frame_accounted:
  assumes "sse_frame parse f es p r = Some (Inr fs, p', r')"
  shows "\<exists>gs. fs = es @ gs \<and> accounted gs p r p' r'"
  using assms event_accounted accounted_refl
  by (fastforce simp: sse_frame_def split: option.splits sum.splits prod.splits)

lemma loop_accounted:
  "sse_loop parse es p r = Some (Inr fs, p', r') \<Longrightarrow> \<exists>gs. fs = es @ gs \<and> accounted gs p r p' r'"
proof (induction parse es p r rule: sse_loop.induct)
  case (1 parse es p r)
  show ?case
  proof (cases "frame_end (sse_buffer p)")
    case None
    then show ?thesis using "1.prems" accounted_refl by (simp add: sse_loop.simps)
  next
    case (Some n)
    let ?q = "p\<lparr>sse_buffer := drop n (sse_buffer p)\<rparr>"
    from "1.prems" Some obtain hs q s where f: "sse_frame parse (take n (sse_buffer p)) es ?q r = Some (Inr hs, q, s)"
      and l: "sse_loop parse hs q s = Some (Inr fs, p', r')"
      by (simp add: sse_loop.simps[of parse es p r] split: option.splits sum.splits prod.splits)
    obtain gs where "hs = es @ gs" "accounted gs p r q s"
      using frame_accounted[OF f] by auto
    moreover obtain gs' where "fs = hs @ gs'" "accounted gs' q s p' r'"
      using "1.IH"[OF Some f refl refl refl l] by blast
    ultimately show ?thesis using accounted_trans by fastforce
  qed
qed

lemma push_accounted:
  "sse_push parse b p r = Some (Inr es, p', r') \<Longrightarrow> accounted es p r p' r'"
  unfolding sse_push_def by (drule loop_accounted) simp

lemma finish_accounted:
  "sse_finish parse p r = Some (Inr es, p', r') \<Longrightarrow> accounted es p r p' r'"
  using frame_accounted[of parse "sse_buffer p" "[]" p r es p' r'] accounted_refl
  by (auto simp: sse_finish_def split: if_splits)

definition bad_frame :: "(str \<Rightarrow> str + json) \<Rightarrow> str \<Rightarrow> str \<Rightarrow> bool" where
  "bad_frame parse f err =
     (frame_end f = Some (length f) \<and>
      (case sse_data (from_utf8_lossy f) of
         None \<Rightarrow> False | Some d \<Rightarrow> trim d \<noteq> ''[DONE]'' \<and> parse d = Inl err))"

lemma push_bad_frame:
  assumes "bad_frame parse f err" and "sse_buffer p = []" and n: "sse_malformed p \<le> MAX_MALFORMED_FRAMES"
  shows "sse_push parse f p r =
     (let p' = p\<lparr>sse_malformed := sse_malformed p + 1\<rparr> in
      Some (if sse_malformed p < MAX_MALFORMED_FRAMES then Inr [] else Inl (SseError err), p', r))"
proof -
  obtain d where f: "frame_end f = Some (length f)" "sse_data (from_utf8_lossy f) = Some d"
    "trim d \<noteq> ''[DONE]''" "parse d = Inl err"
    using assms(1) by (auto simp: bad_frame_def split: option.splits)
  have e: "frame_end [] = None" by (simp add: frame_end_def crlf_def lf_def)
  have m: "min (sse_malformed p + 1) 255 = sse_malformed p + 1" using n by (simp add: MAX_MALFORMED_FRAMES_def)
  have b: "p\<lparr>sse_buffer := []\<rparr> = p" using assms(2) by (cases p) simp
  show ?thesis
    using assms(2) m
    by (auto simp: sse_push_def sse_loop.simps f e sse_frame_def sse_event_def Let_def option_list_def b)
qed

lemma stream_bad_frames:
  "list_all2 (bad_frame parse) fs errs \<Longrightarrow> sse_buffer p = [] \<Longrightarrow> sse_malformed p \<le> MAX_MALFORMED_FRAMES \<Longrightarrow>
     stream_loop parse (map Chunk fs @ rest) heard p r =
       (if sse_malformed p + length fs \<le> MAX_MALFORMED_FRAMES
        then stream_loop parse rest heard (p\<lparr>sse_malformed := sse_malformed p + length fs\<rparr>) r
        else Some (heard, Inl (SseError (errs ! (MAX_MALFORMED_FRAMES - sse_malformed p)))))"
proof (induction fs errs arbitrary: p rule: list_all2_induct)
  case Nil
  then show ?case by simp
next
  case (Cons f fs err errs)
  show ?case
  proof (cases "sse_malformed p < MAX_MALFORMED_FRAMES")
    case True
    then have "MAX_MALFORMED_FRAMES - sse_malformed p = Suc (MAX_MALFORMED_FRAMES - Suc (sse_malformed p))"
      by simp
    then show ?thesis
      using True Cons.IH[of "p\<lparr>sse_malformed := sse_malformed p + 1\<rparr>"] Cons.prems Cons.hyps
      by (simp add: push_bad_frame)
  next
    case False
    then show ?thesis using Cons.prems Cons.hyps by (simp add: push_bad_frame)
  qed
qed

definition item_settled :: "json \<Rightarrow> turn_result \<Rightarrow> bool" where
  "item_settled item r = (capture_item item r = r)"

lemma capture_call_settled: "capture_call item (capture_call item calls) = capture_call item calls"
  by (auto simp: capture_call_def split: option.split)

lemma capture_call_mono:
  "capture_call item calls = calls \<Longrightarrow> capture_call item (calls @ new) = calls @ new"
  by (auto simp: capture_call_def split: option.splits if_splits)

lemma capture_call_grows: "\<exists>new. capture_call item calls = calls @ new"
  by (auto simp: capture_call_def split: option.split)

lemma item_settled_iff:
  "item_settled item r \<longleftrightarrow>
     list_ex (duplicate_item item) (output_items r) \<and> capture_call item (tool_calls r) = tool_calls r"
  by (cases r) (auto simp: item_settled_def capture_item_def)

lemma item_settled_now:
  "json_get item ''id'' \<noteq> None \<or> json_get item ''call_id'' \<noteq> None \<Longrightarrow> item_settled item (capture_item item r)"
  by (auto simp: item_settled_iff capture_item_def capture_call_settled duplicate_item_def)

lemma item_settled_later: "item_settled item r \<Longrightarrow> item_settled item (capture_item other r)"
  using capture_call_grows[of other "tool_calls r"]
  by (auto simp: item_settled_iff capture_item_def capture_call_mono)

lemma fold_settles:
  assumes "\<forall>i \<in> set xs. json_get i ''id'' \<noteq> None \<or> json_get i ''call_id'' \<noteq> None"
  shows "\<forall>i \<in> set xs. item_settled i (foldl (\<lambda>r item. capture_item item r) r xs)"
proof -
  have keep: "item_settled i r \<Longrightarrow> item_settled i (foldl (\<lambda>r item. capture_item item r) r ys)" for i r ys
    by (induction ys arbitrary: r) (auto intro: item_settled_later)
  show ?thesis using assms
    by (induction xs arbitrary: r) (auto intro: keep item_settled_now)
qed

lemma fold_settled:
  "\<forall>i \<in> set xs. item_settled i r \<Longrightarrow> foldl (\<lambda>r item. capture_item item r) r xs = r"
  by (induction xs) (auto simp: item_settled_def)

lemma capture_usage_again: "capture_usage u (capture_usage u t) = capture_usage u t"
proof -
  have "unwrap_or x (unwrap_or x y) = unwrap_or x y" for x :: "u64 option" and y
    by (cases x) simp_all
  then show ?thesis by (simp add: capture_usage_def)
qed

lemma fold_fields:
  "response_id (foldl (\<lambda>r item. capture_item item r) r xs) = response_id r \<and>
   server_model (foldl (\<lambda>r item. capture_item item r) r xs) = server_model r \<and>
   tr_usage (foldl (\<lambda>r item. capture_item item r) r xs) = tr_usage r"
  by (induction xs arbitrary: r) (simp_all add: capture_item_def)

text \<open>The result so far tells what was heard so far.\<close>

definition told :: "stream_event list \<Rightarrow> sse_parser \<Rightarrow> turn_result \<Rightarrow> bool" where
  "told heard p r =
     (output_text r = texts heard \<and> subseq (items heard) (output_items r) \<and>
      (Completed \<in> set heard \<longrightarrow> sse_completed p))"

lemma told_accounted:
  assumes "told heard p r" and "accounted es p r p' r'"
  shows "told (heard @ es) p' r'"
  using assms by (auto simp: told_def accounted_def intro: list_emb_append_mono)

lemma told_closed:
  assumes "told heard p r"
  shows "(case close_turn p r of
       Inl e \<Rightarrow> e = IncompleteStream \<longrightarrow> Completed \<notin> set heard
     | Inr t \<Rightarrow> subseq (items heard) (output_items t) \<and>
         output_text t = (if texts heard = [] then output_text_from_items (output_items t) else texts heard))"
  using assms by (auto simp: told_def close_turn_def)

lemma event_error: "sse_event parse d p r = Some (Inl e, p', r') \<Longrightarrow> e \<noteq> IncompleteStream"
  unfolding sse_event_def dispatch_event_def Let_def
  by (simp split: if_split_asm sum.split_asm prod.split_asm) auto

lemma frame_error: "sse_frame parse f es p r = Some (Inl e, p', r') \<Longrightarrow> e \<noteq> IncompleteStream"
  using event_error by (fastforce simp: sse_frame_def split: option.splits sum.splits prod.splits)

lemma loop_error: "sse_loop parse es p r = Some (Inl e, p', r') \<Longrightarrow> e \<noteq> IncompleteStream"
proof (induction parse es p r rule: sse_loop.induct)
  case (1 parse es p r)
  show ?case
  proof (cases "frame_end (sse_buffer p)")
    case None
    then show ?thesis using "1.prems" by (simp add: sse_loop.simps)
  next
    case (Some n)
    then show ?thesis using "1.prems" "1.IH"[OF Some] frame_error
      by (simp add: sse_loop.simps[of parse es p r] split: option.splits sum.splits prod.splits)
  qed
qed

lemma push_error: "sse_push parse b p r = Some (Inl e, p', r') \<Longrightarrow> e \<noteq> IncompleteStream"
  unfolding sse_push_def by (rule loop_error)

lemma finish_error: "sse_finish parse p r = Some (Inl e, p', r') \<Longrightarrow> e \<noteq> IncompleteStream"
  unfolding sse_finish_def by (auto split: if_splits dest: frame_error)

lemma stream_tells:
  "told heard p r \<Longrightarrow> stream_loop parse inputs heard p r = Some (heard', res) \<Longrightarrow>
     (case res of
       Inl e \<Rightarrow> e = IncompleteStream \<longrightarrow> Completed \<notin> set heard'
     | Inr t \<Rightarrow> subseq (items heard') (output_items t) \<and>
         output_text t = (if texts heard' = [] then output_text_from_items (output_items t) else texts heard'))"
proof (induction parse inputs heard p r rule: stream_loop.induct)
  case (1 parse heard p r)
  show ?case
  proof (cases "\<exists>es p' r'. sse_finish parse p r = Some (Inr es, p', r')")
    case True
    then obtain es p' r' where e: "sse_finish parse p r = Some (Inr es, p', r')" by blast
    then have t: "told (heard @ es) p' r'" using told_accounted[OF "1.prems"(1)] finish_accounted by blast
    have "heard' = heard @ es" "res = close_turn p' r'" using "1.prems"(2) e by auto
    then show ?thesis by (simp only: told_closed[OF t])
  next
    case False
    then show ?thesis using "1.prems"(2)
      by (auto split: option.splits sum.splits prod.splits dest: finish_error)
  qed
next
  case (2 parse c rest heard p r)
  show ?case
  proof (cases "\<exists>es p' r'. sse_push parse c p r = Some (Inr es, p', r')")
    case True
    then obtain es p' r' where e: "sse_push parse c p r = Some (Inr es, p', r')" by blast
    then have "told (heard @ es) p' r'" using told_accounted[OF "2.prems"(1)] push_accounted by blast
    then show ?thesis using "2.prems"(2) e by (intro "2.IH"[OF e refl refl refl]) simp_all
  next
    case False
    then show ?thesis using "2.prems"(2)
      by (auto split: option.splits sum.splits prod.splits dest: push_error)
  qed
qed auto

section \<open>Properties\<close>

text \<open>C7: a streamed turn depends on the bytes of the body and not on how the transport cut them: two ways of
  cutting the same bytes return the same result or the same error, run on together, and on success the
  listener hears the same events.\<close>

theorem stream_result_ignores_chunking:
  assumes "concat cs = concat ds"
  shows "map_option snd (stream_loop parse (map Chunk cs) [] sse_parser_default r) =
       map_option snd (stream_loop parse (map Chunk ds) [] sse_parser_default r) \<and>
     (\<forall>heard res. stream_loop parse (map Chunk cs) [] sse_parser_default r = Some (heard, Inr res) \<longrightarrow>
        stream_loop parse (map Chunk ds) [] sse_parser_default r = Some (heard, Inr res))"
proof -
  have e: "frame_end (sse_buffer sse_parser_default) = None"
    by (simp add: sse_parser_default_def frame_end_def crlf_def lf_def)
  have "agrees (stream_loop parse (map Chunk cs) [] sse_parser_default r)
      (stream_loop parse (map Chunk ds) [] sse_parser_default r)"
    by (rule agrees_trans[OF stream_chunks[OF e, of parse cs]])
      (unfold assms, rule agrees_sym[OF stream_chunks[OF e]])
  then show ?thesis by (auto simp: agrees_def)
qed

theorem stream_result_ignores_chunking_witness:
  "map_option snd (stream_loop (\<lambda>_. Inl ''bad'') (map Chunk [''da'', ''ta: [DONE]'']) [] sse_parser_default
       turn_result_default) =
   map_option snd (stream_loop (\<lambda>_. Inl ''bad'') (map Chunk [''data:'', '' [DO'', ''NE]'']) [] sse_parser_default
       turn_result_default)"
  by (rule conjunct1[OF stream_result_ignores_chunking]) simp

text \<open>C17: what a turn returns is what was heard: the output text is the concatenation of the text deltas
  (or, when there was none, the text of the message items), every item that was heard is in the result,
  in order, and a turn whose completion was heard does not fail as incomplete.\<close>

theorem turn_reports_what_was_heard:
  assumes "stream_loop parse inputs [] sse_parser_default r = Some (heard, res)"
    and "output_text r = []" and "output_items r = []"
  shows "(case res of
       Inl e \<Rightarrow> e = IncompleteStream \<longrightarrow> Completed \<notin> set heard
     | Inr t \<Rightarrow> subseq (items heard) (output_items t) \<and>
         output_text t = (if texts heard = [] then output_text_from_items (output_items t) else texts heard))"
  using assms by (intro stream_tells[of "[]" sse_parser_default r parse inputs heard res]) (simp_all add: told_def)

definition sample_parse :: "str \<Rightarrow> str + json" where
  "sample_parse d = Inr (JObject [(''delta'', JString ''hi''), (''type'', JString ''response.output_text.delta'')])"

lemma sample_stream:
  "stream_loop sample_parse [Chunk (''data: x'' @ lf), Chunk (lf @ ''data: [DONE]'')] [] sse_parser_default
     turn_result_default = Some ([TextDelta ''hi''], Inr (turn_result_default\<lparr>output_text := ''hi''\<rparr>))"
  by code_simp

theorem turn_reports_what_was_heard_witness:
  "\<exists>t. stream_loop sample_parse [Chunk (''data: x'' @ lf), Chunk (lf @ ''data: [DONE]'')] [] sse_parser_default
      turn_result_default = Some ([TextDelta ''hi''], Inr t) \<and> output_text t = ''hi''"
proof -
  have "output_text turn_result_default = []" "output_items turn_result_default = []"
    by (simp_all add: turn_result_default_def)
  from turn_reports_what_was_heard [OF sample_stream this] sample_stream show ?thesis by simp
qed

text \<open>Corrupted frames are skipped up to the budget: after \<open>n\<close> frames whose data is not JSON a stream
  goes on as if they had not been there when \<open>n\<close> is at most eight, and otherwise it fails with the error
  of the ninth frame.\<close>

theorem malformed_frames_are_budgeted:
  assumes "list_all2 (bad_frame parse) fs errs"
  shows "stream_loop parse (map Chunk fs @ rest) heard sse_parser_default r =
     (if length fs \<le> 8
      then stream_loop parse rest heard (sse_parser_default\<lparr>sse_malformed := length fs\<rparr>) r
      else Some (heard, Inl (SseError (errs ! 8))))"
  using stream_bad_frames[OF assms, of sse_parser_default rest heard r]
  by (simp add: sse_parser_default_def MAX_MALFORMED_FRAMES_def)

theorem malformed_frames_are_budgeted_witness:
  "stream_loop (\<lambda>_. Inl ''eof'') (map Chunk (replicate 9 (''data:{'' @ lf @ lf)) @ []) [] sse_parser_default
     turn_result_default = Some ([], Inl (SseError ''eof''))"
proof -
  have b: "bad_frame (\<lambda>_. Inl ''eof'') (''data:{'' @ lf @ lf) ''eof''" by code_simp
  have "list_all2 (bad_frame (\<lambda>_. Inl ''eof'')) (replicate 9 (''data:{'' @ lf @ lf)) (replicate 9 ''eof'')"
    using b by (auto simp: list_all2_conv_all_nth)
  from malformed_frames_are_budgeted [OF this, of "[]" "[]" turn_result_default] show ?thesis by simp
qed

text \<open>A response object that is received twice, as when a stream sends both \<open>response.completed\<close> and
  \<open>response.done\<close>, is counted once: when each of its output items has an id or a call id, capturing it
  again changes nothing.\<close>

theorem captured_response_is_idempotent:
  assumes "\<forall>i \<in> set (unwrap_or (get_array (unwrap_or (json_get v ''response'') v) ''output'') []).
      json_get i ''id'' \<noteq> None \<or> json_get i ''call_id'' \<noteq> None"
  shows "capture_response v (capture_response v r) = capture_response v r"
proof -
  define response where "response = unwrap_or (json_get v ''response'') v"
  define xs where "xs = unwrap_or (get_array response ''output'') []"
  define base where "base = (\<lambda>r. r\<lparr>response_id := or_else (get_str response ''id'') (response_id r),
      server_model := or_else (get_str response ''model'') (server_model r),
      tr_usage := (case json_get response ''usage'' of None \<Rightarrow> tr_usage r
                   | Some usage \<Rightarrow> capture_usage usage (tr_usage r))\<rparr> :: turn_result)"
  let ?fold = "foldl (\<lambda>r item. capture_item item r)"
  have c: "capture_response v r = ?fold (base r) xs" for r
    by (simp add: capture_response_def Let_def response_def[symmetric] base_def xs_def split: option.split)
  have settled: "\<forall>i \<in> set xs. item_settled i (?fold (base r) xs)"
    using fold_settles[of xs "base r"] assms by (simp add: xs_def response_def)
  have "or_else x (or_else x y) = or_else x y" for x y :: "str option" by (cases x) simp_all
  then have "base (?fold (base r) xs) = ?fold (base r) xs"
    using fold_fields[of "base r" xs]
    by (cases "?fold (base r) xs") (simp add: base_def capture_usage_again split: option.split)
  then show ?thesis using fold_settled[OF settled] by (simp add: c)
qed

theorem captured_response_is_idempotent_witness:
  "capture_response (JObject [(''output'', JArray [JObject [(''id'', JString ''i1'')]])])
     (capture_response (JObject [(''output'', JArray [JObject [(''id'', JString ''i1'')]])]) turn_result_default) =
   capture_response (JObject [(''output'', JArray [JObject [(''id'', JString ''i1'')]])]) turn_result_default"
  by (rule captured_response_is_idempotent) (simp add: get_array_def)

end
