(* ===== verification/Provider_Http.thy ===== *)
theory Provider_Http
  imports Sse Graph "HOL-Library.AList"
begin

text \<open>
  The HTTP side of \<open>crates/minha-core/src/provider.rs\<close>: \<open>Retry-After\<close>, the rate-limit headers, error
  responses, GET requests with retries, the model catalogue and a whole streamed turn. A header map is
  the list of its entries in iteration order, each value as \<open>to_str\<close> reads it (\<open>None\<close>: not visible
  ASCII). Date parsers, the \<open>f64\<close> parser and the JSON parser are arguments; so is what the transport
  answers to the requests it is given.
\<close>

type_synonym header_map = "(str \<times> str option) list"

definition header_get :: "header_map \<Rightarrow> str \<Rightarrow> str option" where
  "header_get headers name = Option.bind (map_of headers name) id"

section \<open>Retry-After\<close>

definition retry_after_from_headers :: "(str \<Rightarrow> time option) \<Rightarrow> time \<Rightarrow> header_map \<Rightarrow> u64 option" where
  "retry_after_from_headers rfc2822 now headers =
     Option.bind (header_get headers ''retry-after'') (\<lambda>raw.
       let value = trim raw in
       case parse_unsigned u64_max value of
         Some seconds \<Rightarrow> Some seconds
       | None \<Rightarrow> map_option (\<lambda>date. nat (max (date - now) 0)) (rfc2822 value))"

definition retry_after_delay :: "(str \<Rightarrow> time option) \<Rightarrow> time \<Rightarrow> header_map \<Rightarrow> u64 option" where
  "retry_after_delay rfc2822 now headers =
     map_option (\<lambda>d. min d 30) (retry_after_from_headers rfc2822 now headers)"

text \<open>In milliseconds; \<open>jitter\<close> is the random number from 0 to 100.\<close>

definition retry_delay :: "nat \<Rightarrow> nat \<Rightarrow> nat" where
  "retry_delay jitter attempt = sat_mul 150 (2 ^ min attempt 4) + jitter"

section \<open>Rate-limit headers\<close>

definition header_str :: "header_map \<Rightarrow> str \<Rightarrow> str option" where
  "header_str headers name =
     (case map_option trim (header_get headers name) of
        None \<Rightarrow> None | Some v \<Rightarrow> if v = [] then None else Some v)"

definition header_str_list :: "header_map \<Rightarrow> str \<Rightarrow> str option" where
  "header_str_list headers name =
     (let values = filter (\<lambda>v. v \<noteq> []) (map trim (List.map_filter snd
                     (filter (\<lambda>e. fst e = name) headers)));
          joined = join '', '' values
      in if joined = [] then None else Some joined)"

definition header_bool :: "header_map \<Rightarrow> str \<Rightarrow> bool option" where
  "header_bool headers name =
     (case map_option to_ascii_lowercase (header_str headers name) of
        None \<Rightarrow> None
      | Some v \<Rightarrow> if v \<in> {''true'', ''1''} then Some True
                  else if v \<in> {''false'', ''0''} then Some False else None)"

definition parse_unix_or_iso :: "(str \<Rightarrow> i64 option) \<Rightarrow> str \<Rightarrow> i64 option" where
  "parse_unix_or_iso rfc3339 value =
     (case parse_i64 value of Some seconds \<Rightarrow> Some seconds | None \<Rightarrow> rfc3339 value)"

definition trim_end_percent :: "str \<Rightarrow> str" where
  "trim_end_percent s = rev (dropWhile (\<lambda>c. c = CHR ''%'') (rev s))"

definition parse_percent :: "(str \<Rightarrow> u64 option) \<Rightarrow> str \<Rightarrow> u64 option" where
  "parse_percent f64 part =
     (case f64 (trim_end_percent (trim part)) of
        None \<Rightarrow> None | Some v \<Rightarrow> if f64_is_finite v then Some v else None)"

definition comma :: char where "comma = CHR '',''"

definition rate_window ::
    "(str \<Rightarrow> u64 option) \<Rightarrow> (str \<Rightarrow> i64 option) \<Rightarrow> header_map \<Rightarrow> str \<Rightarrow> str \<Rightarrow> rate_limit_window option" where
  "rate_window f64 rfc3339 headers pre window =
     (let base = pre @ ''-'' @ window in
      Option.bind (header_str_list headers (base @ ''-used-percent'')) (\<lambda>value.
      Option.bind (find_map (parse_percent f64) (split_on comma value)) (\<lambda>percent.
        Some \<lparr>used_percent = percent,
              window_minutes = Option.bind (header_str_list headers (base @ ''-window-minutes''))
                (\<lambda>v. find_map (\<lambda>part. parse_i64 (trim part)) (split_on comma v)),
              resets_at = Option.bind (header_str_list headers (base @ ''-reset-at''))
                (\<lambda>v. find_map (\<lambda>part. parse_unix_or_iso rfc3339 (trim part)) (split_on comma v))\<rparr>)))"

definition rate_limit_suffixes :: "str list" where
  "rate_limit_suffixes =
     [''-primary-used-percent'', ''-secondary-used-percent'', ''-window-minutes'', ''-reset-at'', ''-limit-name'']"

definition limit_ids :: "header_map \<Rightarrow> str list" where
  "limit_ids headers =
     (let ids = List.map_filter
            (\<lambda>name. find_map (\<lambda>suffix. Option.bind (strip_prefix name ''x-'') (\<lambda>rest. strip_suffix rest suffix))
               rate_limit_suffixes) (map fst headers);
          codex = (if map_of headers ''x-codex-primary-used-percent'' \<noteq> None \<or>
                      map_of headers ''x-codex-credits-has-credits'' \<noteq> None then [''codex''] else [])
      in sort_dedup (ids @ codex))"

definition codex_credits :: "header_map \<Rightarrow> credits_snapshot option" where
  "codex_credits headers =
     (let has = header_bool headers ''x-codex-credits-has-credits'';
          unl = header_bool headers ''x-codex-credits-unlimited'';
          bal = header_str headers ''x-codex-credits-balance''
      in case (has, unl) of
           (Some h, Some u) \<Rightarrow> Some \<lparr>has_credits = h, credits_unlimited = u, balance = bal\<rparr>
         | (Some h, None) \<Rightarrow> Some \<lparr>has_credits = h, credits_unlimited = False, balance = bal\<rparr>
         | (None, Some u) \<Rightarrow> Some \<lparr>has_credits = \<not> u, credits_unlimited = u, balance = bal\<rparr>
         | (None, None) \<Rightarrow> None)"

definition underscores :: "str \<Rightarrow> str" where
  "underscores s = map (\<lambda>c. if c = CHR ''-'' then CHR ''_'' else c) s"

definition rate_limit_of ::
    "(str \<Rightarrow> u64 option) \<Rightarrow> (str \<Rightarrow> i64 option) \<Rightarrow> header_map \<Rightarrow> str \<Rightarrow> rate_limit_snapshot option" where
  "rate_limit_of f64 rfc3339 headers ident =
     (let pre = ''x-'' @ ident;
          first = rate_window f64 rfc3339 headers pre ''primary'';
          second = rate_window f64 rfc3339 headers pre ''secondary'';
          credits = (if ident = ''codex'' then codex_credits headers else None)
      in if first = None \<and> second = None \<and> credits = None then None
         else Some \<lparr>limit_id = underscores ident,
                    limit_name = header_str_list headers (pre @ ''-limit-name''),
                    rl_primary = first, rl_secondary = second, rl_credits = credits\<rparr>)"

definition parse_rate_limits ::
    "(str \<Rightarrow> u64 option) \<Rightarrow> (str \<Rightarrow> i64 option) \<Rightarrow> header_map \<Rightarrow> rate_limit_snapshot list" where
  "parse_rate_limits f64 rfc3339 headers =
     List.map_filter (rate_limit_of f64 rfc3339 headers) (limit_ids headers)"

section \<open>Responses\<close>

record http_response =
  resp_status :: u16
  resp_headers :: header_map
  resp_body :: str

definition is_success :: "u16 \<Rightarrow> bool" where
  "is_success status = (200 \<le> status \<and> status < 300)"

definition MAX_PROVIDER_ERROR_BYTES :: usize where "MAX_PROVIDER_ERROR_BYTES = 4 * 1024"

definition error_text :: "(str \<Rightarrow> str + json) \<Rightarrow> str \<Rightarrow> str" where
  "error_text parse body =
     (let bytes = take (min (length body) MAX_PROVIDER_ERROR_BYTES) body;
          raw = from_utf8_lossy bytes
      in case parse bytes of
           Inl _ \<Rightarrow> trim raw
         | Inr v \<Rightarrow> unwrap_or (Option.bind (or_else (json_pointer v [''error'', ''message''])
             (or_else (json_get v ''detail'') (json_get v ''message''))) as_str) (trim raw))"

definition http_error ::
    "(str \<Rightarrow> str + json) \<Rightarrow> (str \<Rightarrow> time option) \<Rightarrow> time \<Rightarrow> http_response \<Rightarrow> provider_error option" where
  "http_error parse rfc2822 now r =
     map_option (\<lambda>detail.
       let detail = (case header_get (resp_headers r) ''x-request-id'' of
               None \<Rightarrow> detail
             | Some request \<Rightarrow> detail @ '' [request '' @ request @ '']'');
           detail = (if detail = [] then ''provider returned no error details'' else detail)
       in Http (resp_status r) detail (retry_after_from_headers rfc2822 now (resp_headers r)))
     (redact_provider_detail (error_text parse (resp_body r)))"

section \<open>GET requests with retries\<close>

text \<open>What happens to one attempt: the request cannot be built, a response arrives, or sending fails with
  an error that is a timeout, a connect or a request error (\<open>True\<close>) or something else.\<close>

datatype attempt = NotBuilt provider_error | Answered http_response | NotSent str bool

definition MAX_GET_ATTEMPTS :: nat where "MAX_GET_ATTEMPTS = 3"

definition retryable_status :: "u16 \<Rightarrow> bool" where
  "retryable_status status = (status = 429 \<or> (500 \<le> status \<and> status < 600))"

text \<open>The delays slept, in milliseconds, and the result; \<open>outcome\<close> and \<open>wait\<close> are indexed by attempt, \<open>wait\<close>
  giving the delay a response asks for, if any, and the random one.\<close>

fun get_attempts ::
    "(nat \<Rightarrow> attempt) \<Rightarrow> (http_response \<Rightarrow> u64 option) \<Rightarrow> (nat \<Rightarrow> nat) \<Rightarrow> nat list \<Rightarrow> nat list \<Rightarrow>
     nat list \<times> (provider_error + http_response)" where
  "get_attempts outcome delay jitter [] slept =
     (slept, Inl (InvalidResponse ''retry loop made no attempts''))"
| "get_attempts outcome delay jitter (n # ns) slept =
     (case outcome n of
        NotBuilt e \<Rightarrow> (slept, Inl e)
      | Answered r \<Rightarrow>
          if n + 1 < MAX_GET_ATTEMPTS \<and> retryable_status (resp_status r)
          then get_attempts outcome delay jitter ns
                 (slept @ [case delay r of Some s \<Rightarrow> 1000 * s | None \<Rightarrow> retry_delay (jitter n) n])
          else (slept, Inr r)
      | NotSent err retryable \<Rightarrow>
          if n + 1 < MAX_GET_ATTEMPTS \<and> retryable
          then get_attempts outcome delay jitter ns (slept @ [retry_delay (jitter n) n])
          else (slept, Inl (RequestError err)))"

definition send_get_with_retry ::
    "(str \<Rightarrow> time option) \<Rightarrow> time \<Rightarrow> (nat \<Rightarrow> nat) \<Rightarrow> (nat \<Rightarrow> attempt) \<Rightarrow>
     nat list \<times> (provider_error + http_response)" where
  "send_get_with_retry rfc2822 now jitter outcome =
     get_attempts outcome (\<lambda>r. retry_after_delay rfc2822 now (resp_headers r)) jitter [0..<MAX_GET_ATTEMPTS] []"

section \<open>The catalogue and a turn\<close>

record model_catalog =
  mc_models :: "model_descriptor list"
  mc_etag :: "str option"
  mc_not_modified :: bool

type_synonym capability_map = "(str \<times> model_capabilities) list"

text \<open>\<open>capabilities.extend(...)\<close>: of two models with one slug the later one counts.\<close>

definition install_model_catalog :: "model_descriptor list \<Rightarrow> capability_map" where
  "install_model_catalog models =
     foldl (\<lambda>m d. AList.update (md_slug d) (descriptor_capabilities d) m) [] models"

definition catalog_of_response ::
    "(str \<Rightarrow> str + json) \<Rightarrow> (str \<Rightarrow> time option) \<Rightarrow> time \<Rightarrow> capability_map \<Rightarrow> http_response \<Rightarrow>
     ((provider_error + model_catalog) \<times> capability_map) option" where
  "catalog_of_response parse rfc2822 now capabilities r =
     (let etag = header_get (resp_headers r) ''etag'' in
      if resp_status r = 304 then
        Some (Inr \<lparr>mc_models = [], mc_etag = etag, mc_not_modified = True\<rparr>, capabilities)
      else if \<not> is_success (resp_status r) then
        map_option (\<lambda>e. (Inl e, capabilities)) (http_error parse rfc2822 now r)
      else case parse (resp_body r) of
        Inl err \<Rightarrow> Some (Inl (JsonError err), capabilities)
      | Inr raw \<Rightarrow>
          (case parse_models raw of
             Inl e \<Rightarrow> Some (Inl e, capabilities)
           | Inr models \<Rightarrow>
               Some (Inr \<lparr>mc_models = models, mc_etag = etag, mc_not_modified = False\<rparr>,
                     install_model_catalog models)))"

definition fetch_models ::
    "(str \<Rightarrow> str + json) \<Rightarrow> (str \<Rightarrow> time option) \<Rightarrow> time \<Rightarrow> (nat \<Rightarrow> nat) \<Rightarrow> (nat \<Rightarrow> attempt) \<Rightarrow> capability_map \<Rightarrow>
     ((provider_error + model_catalog) \<times> capability_map) option" where
  "fetch_models parse rfc2822 now jitter outcome capabilities =
     (case snd (send_get_with_retry rfc2822 now jitter outcome) of
        Inl e \<Rightarrow> Some (Inl e, capabilities)
      | Inr r \<Rightarrow> catalog_of_response parse rfc2822 now capabilities r)"

definition turn_stream ::
    "(str \<Rightarrow> str + json) \<Rightarrow> (str \<Rightarrow> time option) \<Rightarrow> (str \<Rightarrow> u64 option) \<Rightarrow> (str \<Rightarrow> i64 option) \<Rightarrow> time \<Rightarrow>
     provider_error + http_response \<Rightarrow> stream_item list \<Rightarrow>
     (stream_event list \<times> (provider_error + turn_result)) option" where
  "turn_stream parse rfc2822 f64 rfc3339 now sent body =
     (case sent of
        Inl e \<Rightarrow> Some ([], Inl e)
      | Inr r \<Rightarrow>
          if \<not> is_success (resp_status r)
          then map_option (\<lambda>e. ([], Inl e)) (http_error parse rfc2822 now r)
          else stream_loop parse body [] sse_parser_default
                 (turn_result_default
                    \<lparr>server_model := header_get (resp_headers r) ''openai-model'',
                     rate_limits := parse_rate_limits f64 rfc3339 (resp_headers r)\<rparr>))"

section \<open>Properties\<close>

definition tries_again :: "nat \<Rightarrow> attempt \<Rightarrow> bool" where
  "tries_again n a =
     (n + 1 < MAX_GET_ATTEMPTS \<and>
      (case a of NotBuilt _ \<Rightarrow> False | Answered r \<Rightarrow> retryable_status (resp_status r) | NotSent _ again \<Rightarrow> again))"

definition attempt_result :: "attempt \<Rightarrow> provider_error + http_response" where
  "attempt_result a =
     (case a of NotBuilt e \<Rightarrow> Inl e | Answered r \<Rightarrow> Inr r | NotSent err _ \<Rightarrow> Inl (RequestError err))"

definition attempt_delay :: "(http_response \<Rightarrow> u64 option) \<Rightarrow> (nat \<Rightarrow> nat) \<Rightarrow> nat \<Rightarrow> attempt \<Rightarrow> nat" where
  "attempt_delay delay jitter n a =
     (case a of
        Answered r \<Rightarrow> (case delay r of Some s \<Rightarrow> 1000 * s | None \<Rightarrow> retry_delay (jitter n) n)
      | _ \<Rightarrow> retry_delay (jitter n) n)"

lemma get_attempts_Cons:
  "get_attempts outcome delay jitter (n # ns) slept =
     (if tries_again n (outcome n)
      then get_attempts outcome delay jitter ns (slept @ [attempt_delay delay jitter n (outcome n)])
      else (slept, attempt_result (outcome n)))"
  by (simp add: tries_again_def attempt_result_def attempt_delay_def split: attempt.split)

declare get_attempts.simps(2) [simp del]

lemma retry_delay_le: "jitter \<le> 100 \<Longrightarrow> n < 3 \<Longrightarrow> retry_delay jitter n \<le> 700"
proof -
  assume a: "jitter \<le> 100" "n < 3"
  then have "(2::nat) ^ min n 4 \<le> 2 ^ 2" by (intro power_increasing) auto
  then have "sat_mul 150 (2 ^ min n 4) \<le> 600" by (simp add: sat_mul_def)
  then show ?thesis using a by (simp add: retry_delay_def)
qed

lemma attempt_delay_le:
  assumes "\<forall>r s. delay r = Some s \<longrightarrow> s \<le> 30" and "\<forall>k. jitter k \<le> 100" and "n < 3"
  shows "attempt_delay delay jitter n a \<le> 30000"
  using assms retry_delay_le[of "jitter n" n]
  by (fastforce simp: attempt_delay_def split: attempt.split option.split)

lemma get_attempts_up_to:
  assumes d: "\<forall>r s. delay r = Some s \<longrightarrow> s \<le> 30" and j: "\<forall>k. jitter k \<le> 100"
  shows "\<exists>k < 3. (\<forall>i < k. tries_again i (outcome i)) \<and> \<not> tries_again k (outcome k) \<and>
     get_attempts outcome delay jitter [0..<MAX_GET_ATTEMPTS] [] =
       (map (\<lambda>i. attempt_delay delay jitter i (outcome i)) [0..<k], attempt_result (outcome k))"
proof -
  have l: "[0..<MAX_GET_ATTEMPTS] = [0, 1, 2]" by (simp add: MAX_GET_ATTEMPTS_def upt_rec)
  have last: "\<not> tries_again 2 (outcome 2)" by (simp add: tries_again_def MAX_GET_ATTEMPTS_def)
  consider "\<not> tries_again 0 (outcome 0)" | "tries_again 0 (outcome 0)" "\<not> tries_again 1 (outcome 1)"
    | "tries_again 0 (outcome 0)" "tries_again 1 (outcome 1)" by blast
  then show ?thesis
  proof cases
    case 1
    then show ?thesis by (intro exI[of _ 0]) (simp add: l get_attempts_Cons)
  next
    case 2
    then show ?thesis by (intro exI[of _ 1]) (simp add: l get_attempts_Cons)
  next
    case 3
    then show ?thesis using last
      unfolding l by (intro exI[of _ 2]) (auto simp: get_attempts_Cons upt_rec less_Suc_eq numeral_2_eq_2)
  qed
qed

text \<open>C19: a GET is sent at most three times and sleeps at most thirty seconds before each retry, whatever the
  server asks for; it stops at the first attempt that is not to be retried and returns exactly what that
  attempt gave, so the error of a loop without attempts never shows.\<close>

theorem get_retries_are_bounded:
  assumes "\<forall>k. jitter k \<le> 100"
  shows "\<exists>k < 3. (\<forall>i < k. tries_again i (outcome i)) \<and> \<not> tries_again k (outcome k) \<and>
     length (fst (send_get_with_retry rfc2822 now jitter outcome)) = k \<and>
     (\<forall>d \<in> set (fst (send_get_with_retry rfc2822 now jitter outcome)). d \<le> 30000) \<and>
     snd (send_get_with_retry rfc2822 now jitter outcome) = attempt_result (outcome k)"
proof -
  let ?delay = "\<lambda>r. retry_after_delay rfc2822 now (resp_headers r)"
  have d: "\<forall>r s. ?delay r = Some s \<longrightarrow> s \<le> 30" by (auto simp: retry_after_delay_def)
  obtain k where k: "k < 3" "\<forall>i < k. tries_again i (outcome i)" "\<not> tries_again k (outcome k)"
    and g: "get_attempts outcome ?delay jitter [0..<MAX_GET_ATTEMPTS] [] =
       (map (\<lambda>i. attempt_delay ?delay jitter i (outcome i)) [0..<k], attempt_result (outcome k))"
    using get_attempts_up_to[OF d assms, of outcome] by blast
  have "attempt_delay ?delay jitter i (outcome i) \<le> 30000" if "i < k" for i
    using attempt_delay_le[OF d assms, of i "outcome i"] that k(1) by simp
  then show ?thesis using k g by (intro exI[of _ k]) (simp add: send_get_with_retry_def)
qed

theorem get_retries_are_bounded_witness:
  "snd (send_get_with_retry (\<lambda>_. None) 0 (\<lambda>_. 7) (\<lambda>n. NotSent ''reset'' True)) = Inl (RequestError ''reset'')"
proof -
  obtain k where "snd (send_get_with_retry (\<lambda>_. None) 0 (\<lambda>_. 7) (\<lambda>n. NotSent ''reset'' True)) =
      attempt_result (NotSent ''reset'' True)"
    using get_retries_are_bounded [of "\<lambda>_. 7" "\<lambda>n. NotSent ''reset'' True" "\<lambda>_. None" 0] by auto
  then show ?thesis by (simp add: attempt_result_def)
qed

text \<open>An error response becomes an error that can be shown: whenever the diagnostic is redacted at all,
  the status and the requested delay are kept and the detail is nonempty and at most 1003 bytes, plus
  the request id.\<close>

theorem http_error_is_presentable:
  assumes "http_error parse rfc2822 now r = Some e"
  shows "\<exists>detail. e = Http (resp_status r) detail (retry_after_from_headers rfc2822 now (resp_headers r)) \<and>
    detail \<noteq> [] \<and>
    length detail \<le> 1015 + length (unwrap_or (header_get (resp_headers r) ''x-request-id'') [])"
proof -
  obtain t where t: "redact_provider_detail (error_text parse (resp_body r)) = Some t"
    and e: "e = Http (resp_status r)
      (let detail = (case header_get (resp_headers r) ''x-request-id'' of
               None \<Rightarrow> t | Some request \<Rightarrow> t @ '' [request '' @ request @ '']'')
       in if detail = [] then ''provider returned no error details'' else detail)
      (retry_after_from_headers rfc2822 now (resp_headers r))"
    using assms by (auto simp: http_error_def Let_def)
  have "length t \<le> 1003" using redacted_detail_length[OF t] .
  then show ?thesis by (auto simp: e Let_def split: option.split)
qed

theorem http_error_is_presentable_witness:
  "\<exists>detail. http_error (\<lambda>_. Inl ''eof'') (\<lambda>_. None) 0 \<lparr>resp_status = 502, resp_headers = [], resp_body = '' ''\<rparr> =
     Some (Http 502 detail None) \<and> detail \<noteq> []"
proof -
  let ?r = "\<lparr>resp_status = 502, resp_headers = [], resp_body = '' ''\<rparr>"
  have t: "error_text (\<lambda>_. Inl ''eof'') '' '' = []" by code_simp
  have d: "\<not> contains_any (to_ascii_lowercase (one_line [])) sensitive_fields" "\<not> contains (one_line []) ''Bearer ''"
    by code_simp+
  obtain e where e: "http_error (\<lambda>_. Inl ''eof'') (\<lambda>_. None) 0 ?r = Some e"
    using d by (simp add: http_error_def t redact_provider_detail_eq)
  from http_error_is_presentable [OF e] e show ?thesis
    by (auto simp: retry_after_from_headers_def header_get_def)
qed

end
