(* ===== verification/Provider_Health.thy ===== *)
theory Provider_Health
  imports Fair_Store Provider_Http
begin

text \<open>
  Durable provider health (\<open>provider_health_state\<close> of \<open>crates/minha-core/src/store.rs\<close>) and the
  classification of provider errors in \<open>record_provider_failure\<close> of \<open>runtime.rs\<close>. The table is a map from
  workspace and provider to the row. \<open>chrono\<close>'s addition of seconds to a time is the argument \<open>after\<close>:
  it panics when the duration or the sum is out of range, and then it is \<open>None\<close>. A call whose outer
  result is \<open>None\<close> panics or does not return; an error leaves the table as it was.
\<close>

record health_row =
  hr_schema_version :: i64
  hr_status :: str
  hr_cooldown_until :: "time option"
  hr_failures :: i64
  hr_detail :: str
  hr_updated_at :: time

type_synonym health_table = "((str \<times> str) \<times> health_row) list"

type_synonym health_result = "(store_error + provider_health \<times> health_table) option"

section \<open>Operations\<close>

definition compact_routing_detail :: "str \<Rightarrow> str option" where
  "compact_routing_detail detail =
     map_option (\<lambda>compact.
       let bounded = take_chars 512 compact;
           bounded = (if char_count compact > char_count bounded then bounded @ ellipsis else bounded)
       in if bounded = [] then ''provider state changed without a diagnostic'' else bounded)
     (redact_provider_detail (one_line detail))"

definition provider_health_from_values :: "(str \<times> str) \<times> health_row \<Rightarrow> store_error + provider_health" where
  "provider_health_from_values kr =
     (case kr of ((workspace_id, provider), row) \<Rightarrow>
        if hr_schema_version row \<noteq> int PROVIDER_HEALTH_SCHEMA_VERSION
        then Inl (Coordination (''unsupported provider health schema '' @ show_int (hr_schema_version row)))
        else case provider_health_status_parse (hr_status row) of
               None \<Rightarrow> Inl (Coordination (''unsupported provider health status '' @ hr_status row))
             | Some status \<Rightarrow>
                 Inr \<lparr>ph_schema_version = PROVIDER_HEALTH_SCHEMA_VERSION, ph_workspace_id = workspace_id,
                      ph_provider = provider, ph_status = status, ph_cooldown_until = hr_cooldown_until row,
                      ph_consecutive_failures = nat (max (hr_failures row) 0) mod 4294967296,
                      ph_detail = hr_detail row, ph_updated_at = hr_updated_at row\<rparr>)"

definition provider_health_of :: "time \<Rightarrow> health_table \<Rightarrow> str \<Rightarrow> str \<Rightarrow> store_error + provider_health" where
  "provider_health_of now db workspace_id provider =
     (case map_of db (workspace_id, provider) of
        None \<Rightarrow> Inr (provider_health_unknown now workspace_id provider)
      | Some row \<Rightarrow> provider_health_from_values ((workspace_id, provider), row))"

definition provider_healths :: "health_table \<Rightarrow> str \<Rightarrow> store_error + provider_health list" where
  "provider_healths db workspace_id =
     r_mapm provider_health_from_values (filter (\<lambda>kr. fst (fst kr) = workspace_id) db)"

definition identities_missing :: "str \<Rightarrow> str \<Rightarrow> bool" where
  "identities_missing workspace_id provider = (blank workspace_id \<or> blank provider)"

definition health_row_of :: "provider_health \<Rightarrow> health_row" where
  "health_row_of h =
     \<lparr>hr_schema_version = int (ph_schema_version h), hr_status = provider_health_status_str (ph_status h),
      hr_cooldown_until = ph_cooldown_until h, hr_failures = int (ph_consecutive_failures h),
      hr_detail = ph_detail h, hr_updated_at = ph_updated_at h\<rparr>"

text \<open>The upsert both writers end with: every column of the row is replaced.\<close>

definition upsert_health :: "provider_health \<Rightarrow> health_table \<Rightarrow> provider_health \<times> health_table" where
  "upsert_health h db = (h, bt_insert (ph_workspace_id h, ph_provider h) (health_row_of h) db)"

definition set_provider_health ::
    "time \<Rightarrow> str \<Rightarrow> str \<Rightarrow> provider_health_status \<Rightarrow> time option \<Rightarrow> u32 \<Rightarrow> str \<Rightarrow> health_table \<Rightarrow> health_result" where
  "set_provider_health now workspace_id provider status cooldown_until consecutive_failures detail db =
     (if identities_missing workspace_id provider
      then Some (Inl (Coordination ''provider health requires workspace and provider identities''))
      else map_option (\<lambda>detail. Inr (upsert_health
             \<lparr>ph_schema_version = PROVIDER_HEALTH_SCHEMA_VERSION, ph_workspace_id = workspace_id,
              ph_provider = provider, ph_status = status, ph_cooldown_until = cooldown_until,
              ph_consecutive_failures = consecutive_failures, ph_detail = detail,
              ph_updated_at = now\<rparr> db))
           (compact_routing_detail detail))"

definition record_provider_catalog_success :: "time \<Rightarrow> str \<Rightarrow> str \<Rightarrow> health_table \<Rightarrow> health_result" where
  "record_provider_catalog_success now workspace_id provider db =
     set_provider_health now workspace_id provider Healthy None 0 ''catalog refreshed successfully'' db"

definition record_provider_turn_success :: "time \<Rightarrow> str \<Rightarrow> str \<Rightarrow> health_table \<Rightarrow> health_result" where
  "record_provider_turn_success now workspace_id provider db =
     set_provider_health now workspace_id provider Healthy None 0 ''provider turn completed'' db"

definition record_provider_remediation_needed ::
    "time \<Rightarrow> str \<Rightarrow> str \<Rightarrow> provider_health_status \<Rightarrow> str \<Rightarrow> health_table \<Rightarrow> health_result" where
  "record_provider_remediation_needed now workspace_id provider status detail db =
     (if status \<notin> {Unsupported, AuthenticationRequired}
      then Some (Inl (Coordination ''remediation state must be unsupported or authentication_required''))
      else set_provider_health now workspace_id provider status None 0 detail db)"

definition record_provider_transient_failure ::
    "(time \<Rightarrow> i64 \<Rightarrow> time option) \<Rightarrow> time \<Rightarrow> str \<Rightarrow> str \<Rightarrow> u64 option \<Rightarrow> str \<Rightarrow> health_table \<Rightarrow> health_result" where
  "record_provider_transient_failure after now workspace_id provider retry_after detail db =
     (if identities_missing workspace_id provider
      then Some (Inl (Coordination ''provider health requires workspace and provider identities''))
      else
        let prior = (case map_of db (workspace_id, provider) of
                       None \<Rightarrow> 0 | Some row \<Rightarrow> nat (max (hr_failures row) 0) mod 4294967296);
            failures = sat_add32 prior 1;
            seconds = (case retry_after of Some d \<Rightarrow> min (int d) i64_max
                       | None \<Rightarrow> exponential_cooldown_seconds failures)
        in case after now seconds of
             None \<Rightarrow> None
           | Some cooldown_until \<Rightarrow>
               map_option (\<lambda>detail. Inr (upsert_health
                   \<lparr>ph_schema_version = PROVIDER_HEALTH_SCHEMA_VERSION, ph_workspace_id = workspace_id,
                    ph_provider = provider, ph_status = CoolingDown, ph_cooldown_until = Some cooldown_until,
                    ph_consecutive_failures = failures, ph_detail = detail, ph_updated_at = now\<rparr> db))
                 (compact_routing_detail detail))"

section \<open>The inspector\<close>

record routing_inspector =
  ri_fairness :: "fairness_state list"
  ri_providers :: "provider_health list"

definition with_unknown :: "time \<Rightarrow> str \<Rightarrow> provider_health list \<Rightarrow> provider_id \<Rightarrow> provider_health list" where
  "with_unknown now workspace_id hs p =
     (if list_ex (\<lambda>h. ph_provider h = provider_key p) hs then hs
      else hs @ [provider_health_unknown now workspace_id (provider_key p)])"

definition routing_inspector_of ::
    "time \<Rightarrow> routing_db \<Rightarrow> health_table \<Rightarrow> str \<Rightarrow> store_error + routing_inspector" where
  "routing_inspector_of now db health workspace_id =
     r_bind (fairness_states db workspace_id None) (\<lambda>fairness.
     r_bind (provider_healths health workspace_id) (\<lambda>providers.
       Inr \<lparr>ri_fairness = fairness,
            ri_providers = sort_key ph_provider (foldl (with_unknown now workspace_id) providers provider_all)\<rparr>))"

section \<open>Errors of a turn\<close>

text \<open>\<open>status_text\<close> is how \<open>reqwest\<close> prints a status code.\<close>

fun provider_error_text :: "(u16 \<Rightarrow> str) \<Rightarrow> provider_error \<Rightarrow> str" where
  "provider_error_text st (RequestError e) = ''provider request failed: '' @ e"
| "provider_error_text st (Http status detail _) = ''provider returned HTTP status '' @ st status @ '': '' @ detail"
| "provider_error_text st (JsonError e) = ''provider returned invalid JSON: '' @ e"
| "provider_error_text st (SseError e) = ''provider returned an invalid SSE event: '' @ e"
| "provider_error_text st (InvalidResponse e) = ''provider returned an invalid response: '' @ e"
| "provider_error_text st IncompleteStream = ''provider stream ended before a response.completed event''"
| "provider_error_text st HeaderError = ''invalid provider header value''"
| "provider_error_text st (RemoteError e) = ''provider error event: '' @ e"

fun classify_failure :: "provider_error \<Rightarrow> provider_health_status option \<times> u64 option" where
  "classify_failure (Http status detail retry_after) =
     (if status \<in> {401, 403} then (Some AuthenticationRequired, None)
      else if status \<in> {404, 405, 501} then (Some Unsupported, None)
      else (None, retry_after))"
| "classify_failure HeaderError = (Some AuthenticationRequired, None)"
| "classify_failure _ = (None, None)"

definition record_provider_failure ::
    "(time \<Rightarrow> i64 \<Rightarrow> time option) \<Rightarrow> (u16 \<Rightarrow> str) \<Rightarrow> time \<Rightarrow> str \<Rightarrow> provider_id \<Rightarrow> provider_error \<Rightarrow>
     health_table \<Rightarrow> health_result" where
  "record_provider_failure after st now workspace_id provider error db =
     (case classify_failure error of
        (Some status, _) \<Rightarrow>
          record_provider_remediation_needed now workspace_id (provider_key provider) status
            (provider_error_text st error) db
      | (None, retry_after) \<Rightarrow>
          record_provider_transient_failure after now workspace_id (provider_key provider) retry_after
            (provider_error_text st error) db)"

section \<open>The abstract specification\<close>

text \<open>
  What health means: of each provider only the status, the deadline and the number of transient failures
  since the last observation of another kind count. An event is what the runtime observes of a provider.
\<close>

datatype health_event = CatalogRefreshed | TurnCompleted | Failed provider_error

type_synonym health_view = "provider_health_status \<times> time option \<times> u32"

definition health_view :: "provider_health \<Rightarrow> health_view" where
  "health_view h = (ph_status h, ph_cooldown_until h, ph_consecutive_failures h)"

definition never_observed :: health_view where
  "never_observed = (HealthUnknown, None, 0)"

fun observe_event :: "(time \<Rightarrow> i64 \<Rightarrow> time option) \<Rightarrow> health_view \<Rightarrow> time \<times> health_event \<Rightarrow> health_view" where
  "observe_event after v (now, CatalogRefreshed) = (Healthy, None, 0)"
| "observe_event after v (now, TurnCompleted) = (Healthy, None, 0)"
| "observe_event after (s, c, n) (now, Failed e) =
     (case classify_failure e of
        (Some status, _) \<Rightarrow> (status, None, 0)
      | (None, retry_after) \<Rightarrow>
          let n = sat_add32 n 1
          in (CoolingDown,
              after now (case retry_after of Some d \<Rightarrow> min (int d) i64_max
                         | None \<Rightarrow> exponential_cooldown_seconds n), n))"

text \<open>The store's side of an event, and a history of events over all workspaces and providers; a call that
  returns an error changes nothing.\<close>

fun health_step ::
    "(time \<Rightarrow> i64 \<Rightarrow> time option) \<Rightarrow> (u16 \<Rightarrow> str) \<Rightarrow> time \<Rightarrow> str \<Rightarrow> provider_id \<Rightarrow> health_event \<Rightarrow>
     health_table \<Rightarrow> health_result" where
  "health_step after st now w p CatalogRefreshed db = record_provider_catalog_success now w (provider_key p) db"
| "health_step after st now w p TurnCompleted db = record_provider_turn_success now w (provider_key p) db"
| "health_step after st now w p (Failed e) db = record_provider_failure after st now w p e db"

fun record_history ::
    "(time \<Rightarrow> i64 \<Rightarrow> time option) \<Rightarrow> (u16 \<Rightarrow> str) \<Rightarrow> (time \<times> str \<times> provider_id \<times> health_event) list \<Rightarrow>
     health_table \<Rightarrow> health_table option" where
  "record_history after st [] db = Some db"
| "record_history after st ((now, w, p, ev) # es) db =
     (case health_step after st now w p ev db of
        None \<Rightarrow> None
      | Some (Inl _) \<Rightarrow> record_history after st es db
      | Some (Inr (h, db')) \<Rightarrow> record_history after st es db')"

definition health_events_of ::
    "str \<Rightarrow> provider_id \<Rightarrow> (time \<times> str \<times> provider_id \<times> health_event) list \<Rightarrow> (time \<times> health_event) list" where
  "health_events_of w p es = map (\<lambda>(now, _, _, ev). (now, ev)) (filter (\<lambda>(_, w', p', _). w' = w \<and> p' = p) es)"

section \<open>Lemmas\<close>

definition health_row_ok :: "health_row \<Rightarrow> bool" where
  "health_row_ok row =
     (hr_schema_version row = int PROVIDER_HEALTH_SCHEMA_VERSION \<and>
      provider_health_status_parse (hr_status row) \<noteq> None \<and>
      0 \<le> hr_failures row \<and> hr_failures row \<le> int u32_max)"

definition health_table_ok :: "health_table \<Rightarrow> bool" where
  "health_table_ok db = (\<forall>k row. map_of db k = Some row \<longrightarrow> health_row_ok row)"

definition stored_view :: "health_table \<Rightarrow> str \<times> str \<Rightarrow> health_view" where
  "stored_view db k =
     (case map_of db k of
        None \<Rightarrow> never_observed
      | Some row \<Rightarrow> (the (provider_health_status_parse (hr_status row)), hr_cooldown_until row, nat (hr_failures row)))"

definition health_ok :: "provider_health \<Rightarrow> bool" where
  "health_ok h = (ph_schema_version h = PROVIDER_HEALTH_SCHEMA_VERSION \<and> ph_consecutive_failures h \<le> u32_max)"

lemma health_row_of_ok: "health_ok h \<Longrightarrow> health_row_ok (health_row_of h)"
  by (simp add: health_ok_def health_row_ok_def health_row_of_def health_wire.parse_render)

lemma upsert_health_ok:
  assumes "health_ok h" and "health_table_ok db" and "upsert_health h db = (h', db')"
  shows "health_table_ok db' \<and> h' = h \<and>
    stored_view db' (ph_workspace_id h, ph_provider h) = health_view h \<and>
    (\<forall>k. k \<noteq> (ph_workspace_id h, ph_provider h) \<longrightarrow> map_of db' k = map_of db k)"
proof -
  have "db' = bt_insert (ph_workspace_id h, ph_provider h) (health_row_of h) db" "h' = h"
    using assms(3) by (auto simp: upsert_health_def)
  then show ?thesis
    using assms(2) health_row_of_ok[OF assms(1)]
    by (auto simp: health_table_ok_def stored_view_def health_view_def health_row_of_def health_wire.parse_render)
qed

lemma provider_health_of_ok:
  assumes "health_table_ok db"
  shows "\<exists>h. provider_health_of now db w p = Inr h \<and> health_view h = stored_view db (w, p) \<and>
    ph_workspace_id h = w \<and> ph_provider h = p"
proof (cases "map_of db (w, p)")
  case None
  then show ?thesis
    by (simp add: provider_health_of_def provider_health_unknown_def health_view_def stored_view_def
        never_observed_def)
next
  case (Some row)
  then have r: "health_row_ok row" using assms by (simp add: health_table_ok_def)
  then obtain s where "provider_health_status_parse (hr_status row) = Some s"
    by (auto simp: health_row_ok_def)
  moreover have "nat (max (hr_failures row) 0) mod 4294967296 = nat (hr_failures row)"
    using r by (auto simp: health_row_ok_def max_def)
  ultimately show ?thesis
    using r Some
    by (simp add: provider_health_of_def provider_health_from_values_def health_view_def stored_view_def
        health_row_ok_def)
qed

text \<open>One event: on success the row of its provider is what the specification says and no other row
  changes.\<close>

lemma set_provider_health_Inr:
  assumes "set_provider_health now w p s c n d db = Some (Inr (h, db'))"
  shows "upsert_health h db = (h, db') \<and> ph_workspace_id h = w \<and> ph_provider h = p \<and>
    health_view h = (s, c, n) \<and> ph_schema_version h = PROVIDER_HEALTH_SCHEMA_VERSION"
  using assms by (auto simp: set_provider_health_def upsert_health_def health_view_def split: if_splits)

lemma transient_Inr:
  assumes "record_provider_transient_failure after now w p ra d db = Some (Inr (h, db'))"
    and ok: "health_table_ok db"
  shows "upsert_health h db = (h, db') \<and> ph_workspace_id h = w \<and> ph_provider h = p \<and>
    health_view h = (case stored_view db (w, p) of (_, _, n) \<Rightarrow>
      (CoolingDown, after now (case ra of Some d \<Rightarrow> min (int d) i64_max
         | None \<Rightarrow> exponential_cooldown_seconds (sat_add32 n 1)), sat_add32 n 1)) \<and>
    ph_schema_version h = PROVIDER_HEALTH_SCHEMA_VERSION"
proof -
  let ?prior = "case map_of db (w, p) of None \<Rightarrow> 0 | Some row \<Rightarrow> nat (max (hr_failures row) 0) mod 4294967296"
  have prior: "?prior = snd (snd (stored_view db (w, p)))"
  proof (cases "map_of db (w, p)")
    case None
    then show ?thesis by (simp add: stored_view_def never_observed_def)
  next
    case (Some row)
    then have "health_row_ok row" using ok by (simp add: health_table_ok_def)
    then show ?thesis using Some by (auto simp: stored_view_def health_row_ok_def max_def)
  qed
  show ?thesis using assms(1) unfolding record_provider_transient_failure_def prior
    by (auto simp: Let_def upsert_health_def health_view_def split_beta split: if_splits option.splits)
qed

lemma sat_add32_le [simp]: "sat_add32 a b \<le> u32_max"
  by (simp add: sat_add32_def)

lemma recorded:
  assumes "upsert_health h db = (h, db')" and "ph_workspace_id h = w" and "ph_provider h = p" and h: "health_ok h"
    and "health_table_ok db"
  shows "health_table_ok db' \<and> provider_health_of later db' w p = Inr h \<and> stored_view db' (w, p) = health_view h \<and>
    (\<forall>k. k \<noteq> (w, p) \<longrightarrow> map_of db' k = map_of db k)"
proof -
  have "db' = bt_insert (w, p) (health_row_of h) db" using assms by (simp add: upsert_health_def)
  moreover have "provider_health_from_values ((w, p), health_row_of h) = Inr h"
    using assms(2,3) h
    by (simp add: provider_health_from_values_def health_row_of_def health_wire.parse_render health_ok_def)
  ultimately show ?thesis using upsert_health_ok[OF h assms(5,1)] assms(2,3)
    by (simp add: provider_health_of_def)
qed

lemma classified_status:
  "classify_failure e = (Some status, ra) \<Longrightarrow> status \<in> {Unsupported, AuthenticationRequired}"
  by (cases e) (auto split: if_splits)

lemma record_event_Inr:
  assumes "health_step after st now w p ev db = Some (Inr (h, db'))" and ok: "health_table_ok db"
  shows "upsert_health h db = (h, db') \<and> ph_workspace_id h = w \<and> ph_provider h = provider_key p \<and>
    health_view h = observe_event after (stored_view db (w, provider_key p)) (now, ev) \<and> health_ok h"
proof (cases ev)
  case CatalogRefreshed
  then show ?thesis
    using assms(1) set_provider_health_Inr[of now w "provider_key p" Healthy None 0 _ db h db']
    by (simp add: record_provider_catalog_success_def health_ok_def health_view_def)
next
  case TurnCompleted
  then show ?thesis
    using assms(1) set_provider_health_Inr[of now w "provider_key p" Healthy None 0 _ db h db']
    by (simp add: record_provider_turn_success_def health_ok_def health_view_def)
next
  case (Failed e)
  obtain s c n where v: "stored_view db (w, provider_key p) = (s, c, n)" by (cases "stored_view db (w, provider_key p)")
  obtain status ra where k: "classify_failure e = (status, ra)" by (cases "classify_failure e")
  show ?thesis
  proof (cases status)
    case None
    then have "record_provider_transient_failure after now w (provider_key p) ra (provider_error_text st e) db =
        Some (Inr (h, db'))"
      using assms(1) Failed k by (simp add: record_provider_failure_def)
    from transient_Inr[OF this ok] show ?thesis
      using None Failed k v by (simp add: health_ok_def health_view_def Let_def del: One_nat_def)
  next
    case (Some s')
    then have "set_provider_health now w (provider_key p) s' None 0 (provider_error_text st e) db =
        Some (Inr (h, db'))"
      using assms(1) Failed k classified_status[of e s' ra]
      by (auto simp: record_provider_failure_def record_provider_remediation_needed_def)
    from set_provider_health_Inr[OF this] show ?thesis
      using Some Failed k v by (simp add: health_ok_def health_view_def)
  qed
qed

lemma record_event_step:
  assumes "health_step after st now w p ev db = Some (Inr (h, db'))" and ok: "health_table_ok db"
  shows "health_table_ok db' \<and> provider_health_of later db' w (provider_key p) = Inr h \<and>
    stored_view db' (w, provider_key p) = observe_event after (stored_view db (w, provider_key p)) (now, ev) \<and>
    (\<forall>k. k \<noteq> (w, provider_key p) \<longrightarrow> map_of db' k = map_of db k)"
  using record_event_Inr[OF assms] recorded[of h db db' w "provider_key p" later, OF _ _ _ _ ok] by metis

lemma set_provider_health_error:
  "set_provider_health now w p s c n d db = Some (Inl err) \<Longrightarrow> blank w \<or> blank p"
  by (auto simp: set_provider_health_def identities_missing_def split: if_splits)

lemma provider_key_named [simp]: "\<not> blank (provider_key p)"
  by (induction p) code_simp+

lemma provider_key_eq [simp]: "provider_key p = provider_key q \<longleftrightarrow> p = q"
  by (cases p; cases q; simp)

lemma record_event_Inl:
  "health_step after st now w p ev db = Some (Inl err) \<Longrightarrow> blank w"
proof (cases ev)
  case (Failed e)
  assume a: "health_step after st now w p ev db = Some (Inl err)"
  obtain status ra where k: "classify_failure e = (status, ra)" by (cases "classify_failure e")
  show ?thesis using a Failed k classified_status[of e _ ra] set_provider_health_error
    by (fastforce simp: record_provider_failure_def record_provider_remediation_needed_def Let_def
        record_provider_transient_failure_def identities_missing_def split: option.splits if_splits)
qed (auto simp: record_provider_catalog_success_def record_provider_turn_success_def
    dest: set_provider_health_error)

lemma record_history_view:
  "record_history after st es db = Some db' \<Longrightarrow> health_table_ok db \<Longrightarrow> \<not> blank w \<Longrightarrow>
     health_table_ok db' \<and>
     stored_view db' (w, provider_key p) =
       foldl (observe_event after) (stored_view db (w, provider_key p)) (health_events_of w p es)"
proof (induction after st es db rule: record_history.induct)
  case (1 after st db)
  then show ?case by (simp add: health_events_of_def)
next
  case (2 after st now w' p' ev es db)
  then obtain x where x: "health_step after st now w' p' ev db = Some x" by (auto split: option.splits)
  show ?case
  proof (cases x)
    case (Inl err)
    then have "blank w'" using x record_event_Inl by blast
    then have "w' \<noteq> w" using "2.prems"(3) by auto
    then have "health_events_of w p ((now, w', p', ev) # es) = health_events_of w p es" by (simp add: health_events_of_def)
    then show ?thesis using "2.IH"(1)[OF x Inl] "2.prems" x Inl by simp
  next
    case (Inr y)
    obtain h db1 where y: "y = (h, db1)" by (cases y)
    have s: "health_step after st now w' p' ev db = Some (Inr (h, db1))" using x Inr y by simp
    note step = record_event_step[OF s "2.prems"(2)]
    have "record_history after st es db1 = Some db'" using "2.prems"(1) s by simp
    then have "health_table_ok db' \<and> stored_view db' (w, provider_key p) =
        foldl (observe_event after) (stored_view db1 (w, provider_key p)) (health_events_of w p es)"
      using "2.IH"(2)[OF x Inr y[symmetric]] step "2.prems"(3) by blast
    moreover have "foldl (observe_event after) (stored_view db1 (w, provider_key p)) (health_events_of w p es) =
        foldl (observe_event after) (stored_view db (w, provider_key p)) (health_events_of w p ((now, w', p', ev) # es))"
    proof (cases "w' = w \<and> p' = p")
      case True
      then show ?thesis using step by (simp add: health_events_of_def)
    next
      case False
      then have "(w, provider_key p) \<noteq> (w', provider_key p')" by auto
      then have "stored_view db1 (w, provider_key p) = stored_view db (w, provider_key p)"
        using step by (simp add: stored_view_def)
      then show ?thesis using False by (auto simp: health_events_of_def)
    qed
    ultimately show ?thesis by simp
  qed
qed

section \<open>Properties\<close>

text \<open>C6: the stored health refines its specification: after any history of observations, over any workspaces
  and providers and interleaved at will, what is read back for a provider is the specification folded
  over the observations of that provider alone. In particular transient failures count up and cool down
  until an observation of another kind resets them, and reading never fails.\<close>

theorem provider_health_refines_observations:
  assumes "record_history after st es [] = Some db" and "\<not> blank w"
  shows "\<exists>h. provider_health_of now db w (provider_key p) = Inr h \<and>
    health_view h = foldl (observe_event after) never_observed (health_events_of w p es)"
proof -
  have "health_table_ok [] \<and> stored_view [] (w, provider_key p) = never_observed"
    by (simp add: health_table_ok_def stored_view_def)
  then have "health_table_ok db" "stored_view db (w, provider_key p) =
      foldl (observe_event after) never_observed (health_events_of w p es)"
    using record_history_view[OF assms(1) _ assms(2), of p] by auto
  then show ?thesis using provider_health_of_ok[of db now w "provider_key p"] by auto
qed

lemma compact_returns:
  "\<not> contains (one_line (one_line d)) ''Bearer '' \<Longrightarrow> compact_routing_detail d \<noteq> None"
  by (simp add: compact_routing_detail_def redact_provider_detail_eq)

lemma record_event_returns:
  assumes total: "\<forall>t s. after t s \<noteq> None"
    and "case ev of Failed e \<Rightarrow> compact_routing_detail (provider_error_text st e) \<noteq> None | _ \<Rightarrow> True"
  shows "health_step after st now w p ev db \<noteq> None"
proof -
  have c: "compact_routing_detail ''catalog refreshed successfully'' \<noteq> None"
    "compact_routing_detail ''provider turn completed'' \<noteq> None"
    by (rule compact_returns, code_simp)+
  have set: "compact_routing_detail d \<noteq> None \<Longrightarrow> set_provider_health now w q s u n d db \<noteq> None" for q s u n d
    by (simp add: set_provider_health_def)
  have transient: "compact_routing_detail d \<noteq> None \<Longrightarrow>
      record_provider_transient_failure after now w q ra d db \<noteq> None" for q ra d
    by (simp add: record_provider_transient_failure_def Let_def option.case_eq_if total del: not_None_eq)
  show ?thesis
  proof (cases ev)
    case (Failed e)
    then show ?thesis using assms(2) set transient
      by (simp add: record_provider_failure_def record_provider_remediation_needed_def
          split: prod.split option.split)
  qed (use c set in \<open>simp_all add: record_provider_catalog_success_def record_provider_turn_success_def\<close>)
qed

lemma record_history_returns:
  assumes total: "\<forall>t s. after t s \<noteq> None"
    and "\<forall>(_, _, _, ev) \<in> set es.
      case ev of Failed e \<Rightarrow> compact_routing_detail (provider_error_text st e) \<noteq> None | _ \<Rightarrow> True"
  shows "record_history after st es db \<noteq> None"
  using assms(2)
proof (induction es arbitrary: db)
  case Nil
  then show ?case by simp
next
  case (Cons x es)
  obtain now w p ev where x: "x = (now, w, p, ev)" by (cases x)
  then have "health_step after st now w p ev db \<noteq> None"
    using Cons.prems by (intro record_event_returns[OF total]) (auto split: health_event.splits)
  then show ?case using Cons x by (auto split: sum.split)
qed

definition sample_events :: "(time \<times> str \<times> provider_id \<times> health_event) list" where
  "sample_events =
     [(10, ''w'', DeepSeek, Failed IncompleteStream), (20, ''w'', ChatGptCodex, TurnCompleted),
      (30, ''w'', DeepSeek, Failed IncompleteStream)]"

theorem provider_health_refines_observations_witness:
  "\<exists>db h. record_history (\<lambda>t s. Some (t + s)) (\<lambda>_. []) sample_events [] = Some db \<and>
     provider_health_of 40 db ''w'' ''deepseek'' = Inr h \<and> health_view h = (CoolingDown, Some 60, 2)"
proof -
  have c: "compact_routing_detail (provider_error_text (\<lambda>_. []) IncompleteStream) \<noteq> None"
    by (rule compact_returns) code_simp
  have b: "\<not> blank ''w''" by code_simp
  obtain db where db: "record_history (\<lambda>t s. Some (t + s)) (\<lambda>_. []) sample_events [] = Some db"
    using record_history_returns[of "\<lambda>t s. Some (t + s)" sample_events "\<lambda>_. []" "[]"] c
    by (auto simp: sample_events_def)
  have f: "foldl (observe_event (\<lambda>t s. Some (t + s))) never_observed (health_events_of ''w'' DeepSeek sample_events) =
      (CoolingDown, Some 60, 2)"
    by (simp add: sample_events_def health_events_of_def never_observed_def sat_add32_def
        exponential_cooldown_seconds_def Let_def INITIAL_PROVIDER_COOLDOWN_SECONDS_def
        MAX_PROVIDER_COOLDOWN_SECONDS_def sat_i64_def)
  from provider_health_refines_observations [OF db b, of 40 DeepSeek] show ?thesis
    using db f by auto
qed

text \<open>An error response can make the store panic: the delay of a \<open>Retry-After\<close> header is kept uncapped, and
  adding more than \<open>i64::MAX / 1000\<close> seconds panics (as \<open>chrono\<close> documents of \<open>Duration::seconds\<close>), so
  recording the failure of a response that asks for more does not return.\<close>

theorem huge_retry_after_panics:
  assumes "\<And>t s. i64_max div 1000 < s \<Longrightarrow> after t s = None"
    and "http_error parse rfc2822 now r = Some e" and "resp_status r \<notin> {401, 403, 404, 405, 501}"
    and "retry_after_from_headers rfc2822 now (resp_headers r) = Some n" and "i64_max div 1000 < int n"
    and "\<not> blank w"
  shows "record_provider_failure after st now w p e db = None"
proof -
  obtain detail where e: "e = Http (resp_status r) detail (Some n)"
    using assms(2,4) by (auto simp: http_error_def Let_def)
  have "after now (min (int n) i64_max) = None" using assms(1)[of "min (int n) i64_max"] assms(5) by simp
  then show ?thesis
    using assms(3,6) by (simp add: record_provider_failure_def e record_provider_transient_failure_def
        identities_missing_def Let_def)
qed

theorem huge_retry_after_panics_witness:
  "\<exists>e. http_error (\<lambda>_. Inl ''eof'') (\<lambda>_. None) 0
       \<lparr>resp_status = 429, resp_headers = [(''retry-after'', Some ''9999999999999999'')], resp_body = []\<rparr> = Some e \<and>
     record_provider_failure (\<lambda>t s. if i64_max div 1000 < s then None else Some (t + s)) (\<lambda>_. ''429'') 0 ''w''
       DeepSeek e [] = None"
proof -
  let ?r = "\<lparr>resp_status = 429, resp_headers = [(''retry-after'', Some ''9999999999999999'')], resp_body = []\<rparr>"
  have t: "error_text (\<lambda>_. Inl ''eof'') [] = []" by code_simp
  have d: "\<not> contains_any (to_ascii_lowercase (one_line [])) sensitive_fields" "\<not> contains (one_line []) ''Bearer ''"
    by code_simp+
  obtain e where e: "http_error (\<lambda>_. Inl ''eof'') (\<lambda>_. None) 0 ?r = Some e"
    using d by (simp add: http_error_def t redact_provider_detail_eq)
  have w: "trim ''9999999999999999'' = ''9999999999999999''" "\<not> blank ''w''" by code_simp+
  have n: "retry_after_from_headers (\<lambda>_. None) 0 (resp_headers ?r) = Some 9999999999999999"
    by (simp add: retry_after_from_headers_def header_get_def w parse_unsigned_def unsigned_part_def
        digits_value_def is_ascii_digit_def)
  show ?thesis
    using huge_retry_after_panics [OF _ e _ n _ w(2),
        of "\<lambda>t s. if i64_max div 1000 < s then None else Some (t + s)"] e by auto
qed

end
