(* ===== verification/Fair_Ledger.thy ===== *)
theory Fair_Ledger
  imports Fair_Store
begin

text \<open>
  What the fair-route transactions promise: every reachable database keeps an exact account of the
  credits and debits its admissions stand for, a cancelled admission leaves no trace in it, and
  rounds over the same candidates keep their deficits together.
\<close>

section \<open>Rows and columns\<close>

named_theorems table_simps "how a write changes a column of a table"

lemma route_key_eq [simp]: "route_key w r c = route_key w r c' \<longleftrightarrow> c = c'"
  by (cases c; cases c') (simp add: route_key_def)

lemma route_key_fields [simp]:
  "fk_workspace (route_key w r c) = w" "fk_role (route_key w r c) = r"
  "fk_provider (route_key w r c) = fc_provider c" "fk_model (route_key w r c) = fc_model c"
  by (simp_all add: route_key_def)

lemma route_key_of_key [simp]:
  "route_key (fk_workspace k) (fk_role k) (FairnessCandidate (fk_provider k) (fk_model k)) = k"
  by (cases k) (simp add: route_key_def)

lemma column_update [table_simps]:
  "map_of m k = Some row \<Longrightarrow>
     column f (bt_update k g m) j = (if j = k then f (g row) else column f m j)"
  by (simp add: column_def)

lemma column_insert [table_simps]:
  "column f (bt_insert k row m) j = (if j = k then f row else column f m j)"
  by (simp add: column_def)

lemma credit_state_dom: "dom (map_of (credit_state now w r c m)) = insert (route_key w r (fst c)) (dom (map_of m))"
  by (auto simp: credit_state_def Let_def split: option.splits if_splits)

lemma credit_state_columns [table_simps]:
  "column rs_deficit (credit_state now w r c m) j =
     (if j = route_key w r (fst c) then credit (snd c) else column rs_deficit m j)"
  "column rs_dispatched (credit_state now w r c m) j = column rs_dispatched m j"
  "column rs_settled_work (credit_state now w r c m) j = column rs_settled_work m j"
  by (auto simp: credit_state_def Let_def column_def split: option.splits)

lemma credit_state_ok: "bt_ok m \<Longrightarrow> bt_ok (credit_state now w r c m)"
  by (auto simp: credit_state_def Let_def bt_ok_insert bt_ok_update split: option.splits)

definition credit_all ::
    "time \<Rightarrow> str \<Rightarrow> str \<Rightarrow> (fairness_key \<Rightarrow> i64) \<Rightarrow> fairness_candidate list \<Rightarrow>
     (fairness_key \<times> routing_state_row) list \<Rightarrow> (fairness_key \<times> routing_state_row) list" where
  "credit_all now w r D cs m =
     foldl (\<lambda>m c. credit_state now w r c m) m (map (\<lambda>c. (c, D (route_key w r c))) cs)"

lemma credit_all_rec:
  "credit_all now w r D [] m = m"
  "credit_all now w r D (c # cs) m =
     credit_all now w r D cs (credit_state now w r (c, D (route_key w r c)) m)"
  by (simp_all add: credit_all_def)

lemma credit_all_dom:
  "dom (map_of (credit_all now w r D cs m)) = route_key w r ` set cs \<union> dom (map_of m)"
  by (induction cs arbitrary: m) (auto simp: credit_all_rec credit_state_dom)

lemma credit_all_columns [table_simps]:
  "column rs_deficit (credit_all now w r D cs m) j =
     (if j \<in> route_key w r ` set cs then credit (D j) else column rs_deficit m j)"
  "column rs_dispatched (credit_all now w r D cs m) j = column rs_dispatched m j"
  "column rs_settled_work (credit_all now w r D cs m) j = column rs_settled_work m j"
  by (induction cs arbitrary: m) (auto simp: credit_all_rec credit_state_columns)

lemma credit_all_ok: "bt_ok m \<Longrightarrow> bt_ok (credit_all now w r D cs m)"
  by (induction cs arbitrary: m) (auto simp: credit_all_rec credit_state_ok)

section \<open>What a successful admission wrote\<close>

lemma admit_cases:
  assumes "admit_equal_weight_route now w r run agent rid cs e db = Inr (sel, db')"
  obtains (repeated) a where "map_of (db_admissions db) rid = Some a"
      and "sel = admission_selection a" and "db' = db"
  | (fresh) "map_of (db_admissions db) rid = None"
      and "choose_equal_weight_wdrr w r
             (map (\<lambda>c. (c, deficit_of db (route_key w r c))) (sort_dedup cs)) e = Some sel"
      and "\<forall>(rid', a) \<in> set (db_admissions db). \<not> (ad_run_id a = run \<and> ad_agent_id a = agent)"
      and "\<forall>c \<in> set cs. (rid, c) \<notin> set (db_candidates db)"
      and "db' = admit_insert now w r run agent rid (sort_dedup cs) sel db"
  using assms unfolding admit_equal_weight_route_def Let_def
  by (auto split: if_splits option.splits simp: list_ex_iff)

lemma admit_selected:
  assumes "choose_equal_weight_wdrr w r (map (\<lambda>c. (c, D (route_key w r c))) (sort_dedup cs)) e = Some sel"
  obtains c where "c \<in> set cs" and "sel_key sel = route_key w r c"
    and "sel_deficit_before sel = D (sel_key sel)"
    and "sel_deficit_after sel = sat_i64 (credit (D (sel_key sel)) - signed_work e)"
    and "signed_work (sel_estimated_work sel) = signed_work e"
    and "\<forall>c' \<in> set cs. credit (D (route_key w r c')) \<le> credit (D (sel_key sel))"
proof -
  from assms obtain c d where cd: "(c, d) \<in> set (map (\<lambda>c. (c, D (route_key w r c))) (sort_dedup cs))"
    and sel: "sel_key sel = FairnessKey w r (fc_provider c) (fc_model c)"
      "sel_deficit_before sel = d" "sel_deficit_after sel = sat_i64 (credit d - signed_work e)"
      "sel_estimated_work sel = min e (nat i64_max)"
    and best: "\<forall>(c', d') \<in> set (map (\<lambda>c. (c, D (route_key w r c))) (sort_dedup cs)). credit d' \<le> credit d"
    by (auto elim!: choose_Some)
  from cd have c: "c \<in> set cs" "d = D (route_key w r c)" by auto
  have "signed_work (sel_estimated_work sel) = signed_work e"
    by (simp add: sel(4) signed_work_def)
  with sel c best show thesis
    by (intro that[of c]) (auto simp: route_key_def)
qed

definition share :: "(str \<times> fairness_candidate) list \<Rightarrow> fairness_key \<Rightarrow> str \<times> admission_row \<Rightarrow> int" where
  "share cands k ra =
     (let a = snd ra in
      if ad_cancelled a then 0
      else (if \<exists>c. (fst ra, c) \<in> set cands \<and> k = route_key (fk_workspace (ad_key a)) (fk_role (ad_key a)) c
            then int WDRR_QUANTUM else 0)
         - (if ad_key a = k
            then (if ad_settlement_started a then ad_settled_work a else ad_estimated_work a) else 0))"

definition volume :: "routing_db \<Rightarrow> int" where
  "volume db = (\<Sum>(_, a) \<leftarrow> db_admissions db.
                  int WDRR_QUANTUM + ad_estimated_work a + ad_settled_work a)"

definition admission_ok :: "routing_db \<Rightarrow> str \<Rightarrow> admission_row \<Rightarrow> bool" where
  "admission_ok db rid a \<longleftrightarrow>
     0 \<le> ad_estimated_work a \<and> 0 \<le> ad_settled_work a \<and> ad_settled_work a \<le> i64_max \<and>
     (\<not> ad_settlement_started a \<longrightarrow> ad_settled_work a = 0) \<and>
     (ad_cancelled a \<longrightarrow> \<not> ad_settlement_started a) \<and>
     (rid, FairnessCandidate (fk_provider (ad_key a)) (fk_model (ad_key a))) \<in> set (db_candidates db) \<and>
     (\<forall>c. (rid, c) \<in> set (db_candidates db) \<longrightarrow>
        route_key (fk_workspace (ad_key a)) (fk_role (ad_key a)) c \<in> dom (map_of (db_states db)))"

definition routing_ok :: "routing_db \<Rightarrow> bool" where
  "routing_ok db \<longleftrightarrow>
     bt_ok (db_states db) \<and> bt_ok (db_admissions db) \<and> bt_ok (db_usage db) \<and> bs_ok (db_candidates db) \<and>
     (\<forall>(rid, a) \<in> set (db_admissions db). admission_ok db rid a) \<and>
     (\<forall>(rid, c) \<in> set (db_candidates db). rid \<in> fst ` set (db_admissions db)) \<and>
     (\<forall>(ek, u) \<in> set (db_usage db). ue_receipt_id u \<in> fst ` set (db_admissions db)) \<and>
     (\<forall>p \<in> set (db_admissions db). \<forall>q \<in> set (db_admissions db).
        ad_run_id (snd p) = ad_run_id (snd q) \<and> ad_agent_id (snd p) = ad_agent_id (snd q) \<longrightarrow> p = q)"

definition accounts_balance :: "routing_db \<Rightarrow> bool" where
  "accounts_balance db \<longleftrightarrow>
     (\<forall>k. deficit_of db k = (\<Sum>ra \<leftarrow> db_admissions db. share (db_candidates db) k ra)) \<and>
     (\<forall>k. dispatched_of db k =
        (\<Sum>(_, a) \<leftarrow> db_admissions db. if \<not> ad_cancelled a \<and> ad_key a = k then 1 else 0)) \<and>
     (\<forall>k. settled_of db k =
        (\<Sum>(_, a) \<leftarrow> db_admissions db. if ad_key a = k then ad_settled_work a else 0)) \<and>
     (\<forall>(rid, a) \<in> set (db_admissions db).
        ad_settled_work a =
          (\<Sum>(_, u) \<leftarrow> db_usage db. if ue_receipt_id u = rid then ue_normalized_work u else 0))"


lemma accounts_balanceI:
  assumes "\<And>k. deficit_of db k = (\<Sum>ra \<leftarrow> db_admissions db. share (db_candidates db) k ra)"
    and "\<And>k. dispatched_of db k =
        (\<Sum>(_, a) \<leftarrow> db_admissions db. if \<not> ad_cancelled a \<and> ad_key a = k then 1 else 0)"
    and "\<And>k. settled_of db k = (\<Sum>(_, a) \<leftarrow> db_admissions db. if ad_key a = k then ad_settled_work a else 0)"
    and "\<And>rid a. (rid, a) \<in> set (db_admissions db) \<Longrightarrow> ad_settled_work a =
          (\<Sum>(_, u) \<leftarrow> db_usage db. if ue_receipt_id u = rid then ue_normalized_work u else 0)"
  shows "accounts_balance db"
  using assms unfolding accounts_balance_def by blast

lemma accounts_balanceD:
  assumes "accounts_balance db"
  shows "deficit_of db k = (\<Sum>ra \<leftarrow> db_admissions db. share (db_candidates db) k ra)"
    and "dispatched_of db k =
        (\<Sum>(_, a) \<leftarrow> db_admissions db. if \<not> ad_cancelled a \<and> ad_key a = k then 1 else 0)"
    and "settled_of db k = (\<Sum>(_, a) \<leftarrow> db_admissions db. if ad_key a = k then ad_settled_work a else 0)"
    and "(rid, a) \<in> set (db_admissions db) \<Longrightarrow> ad_settled_work a =
          (\<Sum>(_, u) \<leftarrow> db_usage db. if ue_receipt_id u = rid then ue_normalized_work u else 0)"
  using assms unfolding accounts_balance_def by blast+

section \<open>Bounds\<close>

lemma sum_list_abs_le:
  fixes f g :: "'a \<Rightarrow> int"
  assumes "\<And>x. x \<in> set xs \<Longrightarrow> \<bar>f x\<bar> \<le> g x"
  shows "\<bar>\<Sum>x \<leftarrow> xs. f x\<bar> \<le> (\<Sum>x \<leftarrow> xs. g x)"
  using assms by (induction xs) (auto, smt (verit))

lemma share_bound:
  assumes "0 \<le> ad_estimated_work a" and "0 \<le> ad_settled_work a"
  shows "\<bar>share cands k (rid, a)\<bar> \<le> int WDRR_QUANTUM + ad_estimated_work a + ad_settled_work a"
  using assms by (auto simp: share_def Let_def)

lemma routing_ok_entries:
  assumes "routing_ok db" and "ra \<in> set (db_admissions db)"
  shows "0 \<le> ad_estimated_work (snd ra) \<and> 0 \<le> ad_settled_work (snd ra)"
  using assms by (auto simp: routing_ok_def admission_ok_def)

lemma volume_nonneg: "routing_ok db \<Longrightarrow> 0 \<le> volume db"
  unfolding volume_def
  by (intro sum_list_nonneg) (auto dest!: routing_ok_entries)

lemma deficit_bound:
  assumes "routing_ok db" and "accounts_balance db"
  shows "\<bar>deficit_of db k\<bar> \<le> volume db"
proof -
  have "\<bar>\<Sum>ra \<leftarrow> db_admissions db. share (db_candidates db) k ra\<bar> \<le>
      (\<Sum>ra \<leftarrow> db_admissions db. (case ra of (_, a) \<Rightarrow>
         int WDRR_QUANTUM + ad_estimated_work a + ad_settled_work a))"
    using routing_ok_entries[OF assms(1)] by (intro sum_list_abs_le) (auto simp: share_bound)
  then show ?thesis using assms(2) by (simp add: accounts_balance_def volume_def)
qed

lemma settled_bound:
  assumes "routing_ok db" and "accounts_balance db"
  shows "0 \<le> settled_of db k" and "settled_of db k \<le> volume db"
proof -
  have eq: "settled_of db k = (\<Sum>(_, a) \<leftarrow> db_admissions db. if ad_key a = k then ad_settled_work a else 0)"
    using assms(2) by (simp add: accounts_balance_def)
  show "0 \<le> settled_of db k"
    unfolding eq by (intro sum_list_nonneg) (auto dest: routing_ok_entries[OF assms(1)])
  show "settled_of db k \<le> volume db"
    unfolding eq volume_def
    by (intro sum_list_mono) (auto dest!: routing_ok_entries[OF assms(1)])
qed

section \<open>Admission keeps the accounts\<close>

lemma share_other_receipt:
  "fst ra \<noteq> rid \<Longrightarrow> share (foldl (\<lambda>s c. bs_insert (rid, c) s) cands cs) k ra = share cands k ra"
  by (simp add: share_def Let_def set_foldl_bs_insert image_iff)

lemma credit_exact: "\<bar>d\<bar> + int WDRR_QUANTUM \<le> i64_max \<Longrightarrow> credit d = d + int WDRR_QUANTUM"
  by (auto simp: credit_def signed_work_def WDRR_QUANTUM_def sat_i64_def)

lemma admit_insert_simps:
  "db_runs (admit_insert now w r run agent rid cs sel db) = db_runs db"
  "db_usage (admit_insert now w r run agent rid cs sel db) = db_usage db"
  "db_candidates (admit_insert now w r run agent rid cs sel db) =
     foldl (\<lambda>s c. bs_insert (rid, c) s) (db_candidates db) cs"
  "db_states (admit_insert now w r run agent rid cs sel db) =
     bt_update (sel_key sel)
       (\<lambda>row. row\<lparr>rs_deficit := sel_deficit_after sel, rs_dispatched := rs_dispatched row + 1,
                  rs_updated_at := now\<rparr>)
       (credit_all now w r (deficit_of db) cs (db_states db))"
  by (simp_all add: admit_insert_def Let_def credit_all_def)

lemma admit_insert_columns:
  fixes now w r run agent rid cs sel db
  assumes "sel_key sel \<in> route_key w r ` set cs"
  defines "db' \<equiv> admit_insert now w r run agent rid cs sel db"
  shows "deficit_of db' k =
      (if k = sel_key sel then sel_deficit_after sel
       else if k \<in> route_key w r ` set cs then credit (deficit_of db k) else deficit_of db k)"
    and "dispatched_of db' k = dispatched_of db k + (if k = sel_key sel then 1 else 0)"
    and "settled_of db' k = settled_of db k"
    and "dom (map_of (db_states db')) = route_key w r ` set cs \<union> dom (map_of (db_states db))"
proof -
  have "sel_key sel \<in> dom (map_of (credit_all now w r (deficit_of db) cs (db_states db)))"
    using assms(1) by (simp add: credit_all_dom)
  then obtain row where
    row: "map_of (credit_all now w r (deficit_of db) cs (db_states db)) (sel_key sel) = Some row"
    by blast
  have c: "rs_dispatched row = dispatched_of db (sel_key sel)"
    "rs_settled_work row = settled_of db (sel_key sel)"
    using credit_all_columns(2,3)[of now w r "deficit_of db" cs "db_states db" "sel_key sel"] row
    by (simp_all add: dispatched_of_def settled_of_def column_def)
  show "deficit_of db' k =
      (if k = sel_key sel then sel_deficit_after sel
       else if k \<in> route_key w r ` set cs then credit (deficit_of db k) else deficit_of db k)"
    and "dispatched_of db' k = dispatched_of db k + (if k = sel_key sel then 1 else 0)"
    and "settled_of db' k = settled_of db k"
    by (auto simp: db'_def deficit_of_def dispatched_of_def settled_of_def admit_insert_simps
        column_update[OF row] table_simps c[unfolded dispatched_of_def settled_of_def])
  show "dom (map_of (db_states db')) = route_key w r ` set cs \<union> dom (map_of (db_states db))"
    by (simp only: db'_def admit_insert_simps dom_bt_update credit_all_dom)
qed


lemma admit_insert_parts:
  fixes now w r run agent rid cs e db sel
  assumes ok: "routing_ok db"
    and fresh: "map_of (db_admissions db) rid = None"
    and chosen: "choose_equal_weight_wdrr w r
          (map (\<lambda>c. (c, deficit_of db (route_key w r c))) (sort_dedup cs)) e = Some sel"
    and new_agent: "\<forall>(rid', a) \<in> set (db_admissions db). \<not> (ad_run_id a = run \<and> ad_agent_id a = agent)"
  defines "db' \<equiv> admit_insert now w r run agent rid (sort_dedup cs) sel db"
  shows "routing_ok db'" and "volume db' = volume db + int WDRR_QUANTUM + signed_work e"
proof -
  obtain c0 where c0: "c0 \<in> set cs" "sel_key sel = route_key w r c0"
    and after: "sel_deficit_after sel = sat_i64 (credit (deficit_of db (sel_key sel)) - signed_work e)"
    and est: "signed_work (sel_estimated_work sel) = signed_work e"
    using chosen by (rule admit_selected)
  have key: "sel_key sel \<in> route_key w r ` set (sort_dedup cs)" using c0 by simp
  note cols = admit_insert_columns[OF key, of now run agent rid db, folded db'_def]
  have rid: "rid \<notin> fst ` set (db_admissions db)" using fresh by (simp add: map_of_eq_None_iff)
  obtain row where row: "db_admissions db' = bt_insert rid row (db_admissions db)"
    and row_simps: "ad_run_id row = run" "ad_agent_id row = agent" "ad_key row = sel_key sel"
      "ad_estimated_work row = signed_work e" "\<not> ad_settlement_started row" "ad_settled_work row = 0"
      "\<not> ad_cancelled row"
    by (simp add: db'_def admit_insert_def Let_def est)
  obtain xs ys where adm: "db_admissions db = xs @ ys" "db_admissions db' = xs @ (rid, row) # ys"
    using bt_insert_split[OF rid] row by metis
  have other: "fst ra \<noteq> rid" if "ra \<in> set xs \<union> set ys" for ra using rid that adm(1) by auto
  have cands: "set (db_candidates db') = Pair rid ` set cs \<union> set (db_candidates db)"
    by (simp add: db'_def admit_insert_simps set_foldl_bs_insert)
  have new_cands: "(rid, c) \<in> set (db_candidates db') \<longleftrightarrow> c \<in> set cs" for c
    using ok rid cands by (fastforce simp: routing_ok_def)
  have shares: "share (db_candidates db') k ra = share (db_candidates db) k ra"
    if "ra \<in> set xs \<union> set ys" for k ra
    using other[OF that] by (simp add: db'_def admit_insert_simps share_other_receipt)
  show vol: "volume db' = volume db + int WDRR_QUANTUM + signed_work e"
    by (simp add: volume_def adm row_simps)
  show "routing_ok db'"
  proof -
    have old: "admission_ok db' rid' a" if "(rid', a) \<in> set (db_admissions db)" for rid' a
    proof -
      have "admission_ok db rid' a" using ok that by (auto simp: routing_ok_def)
      moreover have "rid' \<noteq> rid" using rid that by force
      ultimately show ?thesis using cands cols(4) by (auto simp: admission_ok_def)
    qed
    have "admission_ok db' rid row"
      using c0 cols(4) by (auto simp: admission_ok_def row_simps new_cands signed_work_def)
    with ok old show ?thesis
      unfolding routing_ok_def row
      using new_agent cands
      by (auto simp: db'_def admit_insert_simps credit_all_ok bt_ok_update bt_ok_insert bs_ok_foldl
          fst_bt_insert row_simps dest!: set_bt_insert)
  qed
qed

lemma admit_insert_accounts:
  fixes now w r run agent rid cs e db sel
  assumes ok: "routing_ok db" and bal: "accounts_balance db"
    and fresh: "map_of (db_admissions db) rid = None"
    and chosen: "choose_equal_weight_wdrr w r
          (map (\<lambda>c. (c, deficit_of db (route_key w r c))) (sort_dedup cs)) e = Some sel"
    and new_agent: "\<forall>(rid', a) \<in> set (db_admissions db). \<not> (ad_run_id a = run \<and> ad_agent_id a = agent)"
    and small': "volume (admit_insert now w r run agent rid (sort_dedup cs) sel db) \<le> i64_max"
  shows "accounts_balance (admit_insert now w r run agent rid (sort_dedup cs) sel db)"
proof -
  define db' where "db' = admit_insert now w r run agent rid (sort_dedup cs) sel db"
  have small: "volume db' \<le> i64_max" using small' by (simp add: db'_def)
  have vol: "volume db' = volume db + int WDRR_QUANTUM + signed_work e"
    unfolding db'_def by (rule admit_insert_parts(2)[OF ok fresh chosen new_agent])
  obtain c0 where c0: "c0 \<in> set cs" "sel_key sel = route_key w r c0"
    and after: "sel_deficit_after sel = sat_i64 (credit (deficit_of db (sel_key sel)) - signed_work e)"
    and est: "signed_work (sel_estimated_work sel) = signed_work e"
    using chosen by (rule admit_selected)
  have key: "sel_key sel \<in> route_key w r ` set (sort_dedup cs)" using c0 by simp
  note cols = admit_insert_columns[OF key, of now run agent rid db, folded db'_def]
  have rid: "rid \<notin> fst ` set (db_admissions db)" using fresh by (simp add: map_of_eq_None_iff)
  obtain row where row: "db_admissions db' = bt_insert rid row (db_admissions db)"
    and row_simps: "ad_run_id row = run" "ad_agent_id row = agent" "ad_key row = sel_key sel"
      "ad_estimated_work row = signed_work e" "\<not> ad_settlement_started row" "ad_settled_work row = 0"
      "\<not> ad_cancelled row"
    by (simp add: db'_def admit_insert_def Let_def est)
  obtain xs ys where adm: "db_admissions db = xs @ ys" "db_admissions db' = xs @ (rid, row) # ys"
    using bt_insert_split[OF rid] row by metis
  have other: "fst ra \<noteq> rid" if "ra \<in> set xs \<union> set ys" for ra using rid that adm(1) by auto
  have cands: "set (db_candidates db') = Pair rid ` set cs \<union> set (db_candidates db)"
    by (simp add: db'_def admit_insert_simps set_foldl_bs_insert)
  have new_cands: "(rid, c) \<in> set (db_candidates db') \<longleftrightarrow> c \<in> set cs" for c
    using ok rid cands by (fastforce simp: routing_ok_def)
  have shares: "share (db_candidates db') k ra = share (db_candidates db) k ra"
    if "ra \<in> set xs \<union> set ys" for k ra
    using other[OF that] by (simp add: db'_def admit_insert_simps share_other_receipt)
  have "accounts_balance db'"
  proof -
    let ?Q = "int WDRR_QUANTUM"
    have e0: "0 \<le> signed_work e" by (simp add: signed_work_def)
    have dbd: "\<bar>deficit_of db k\<bar> \<le> volume db" for k by (rule deficit_bound[OF ok bal])
    have cr: "credit (deficit_of db k) = deficit_of db k + ?Q" for k
      using dbd[of k] small e0 vol by (intro credit_exact) linarith
    have af: "sel_deficit_after sel = deficit_of db (sel_key sel) + ?Q - signed_work e"
      unfolding after cr using dbd[of "sel_key sel"] small e0 vol by (intro sat_i64_exact) linarith+
    have row_share: "share (db_candidates db') k (rid, row) =
        (if k \<in> route_key w r ` set cs then ?Q else 0) - (if k = sel_key sel then signed_work e else 0)" for k
      using c0 by (auto simp: share_def Let_def row_simps new_cands)
    have "(\<Sum>ra \<leftarrow> db_admissions db'. share (db_candidates db') k ra) =
        deficit_of db k + share (db_candidates db') k (rid, row)" for k
      using bal shares by (simp add: adm accounts_balance_def cong: map_cong)
    then have "deficit_of db' k = (\<Sum>ra \<leftarrow> db_admissions db'. share (db_candidates db') k ra)" for k
      using key by (simp add: row_share cols(1) af cr)
    moreover have "ad_settled_work a =
        (\<Sum>(_, u) \<leftarrow> db_usage db'. if ue_receipt_id u = rid' then ue_normalized_work u else 0)"
      if "(rid', a) \<in> set (db_admissions db')" for rid' a
    proof (cases "rid' = rid")
      case True
      with that other[of "(rid', a)"] have "a = row" by (auto simp: adm)
      moreover have "(\<Sum>(_, u) \<leftarrow> db_usage db. if ue_receipt_id u = rid then ue_normalized_work u else 0) = 0"
        using ok rid by (intro sum_list_map_zero) (force simp: routing_ok_def)
      ultimately show ?thesis using True by (simp add: row_simps db'_def admit_insert_simps)
    next
      case False
      with that have "(rid', a) \<in> set (db_admissions db)" by (auto simp: adm)
      with bal show ?thesis by (auto simp: accounts_balance_def db'_def admit_insert_simps)
    qed
    ultimately show ?thesis
      by (intro accounts_balanceI)
         (simp_all add: cols(2,3) accounts_balanceD(2,3)[OF bal] adm row_simps)
  qed
  then show ?thesis by (simp add: db'_def)
qed

section \<open>Settlement keeps the accounts\<close>

lemma admission_of_Some:
  assumes "admission_of db run agent = Some (rid, a)"
  shows "(rid, a) \<in> set (db_admissions db)" and "ad_run_id a = run" and "ad_agent_id a = agent"
  using assms by (auto simp: admission_of_def find_Some_iff) (metis nth_mem)+

lemma admission_of_unique:
  assumes "routing_ok db" and "(rid, a) \<in> set (db_admissions db)"
  shows "admission_of db (ad_run_id a) (ad_agent_id a) = Some (rid, a)"
proof (cases "admission_of db (ad_run_id a) (ad_agent_id a)")
  case None
  then show ?thesis using assms(2) by (auto simp: admission_of_def find_None_iff)
next
  case (Some ra)
  then obtain rid' a' where ra: "ra = (rid', a')" by (cases ra)
  from admission_of_Some[OF Some[unfolded ra]] assms show ?thesis
    unfolding Some ra routing_ok_def by fastforce
qed

definition bulk :: "(str \<times> admission_row) list \<Rightarrow> int" where
  "bulk l = (\<Sum>(_, a) \<leftarrow> l. int WDRR_QUANTUM + ad_estimated_work a + ad_settled_work a)"

lemma bulk_bounds:
  assumes "routing_ok db" and "set l \<subseteq> set (db_admissions db)"
  shows "0 \<le> bulk l" and "\<bar>\<Sum>ra \<leftarrow> l. share cands k ra\<bar> \<le> bulk l"
proof -
  have e: "0 \<le> ad_estimated_work (snd ra) \<and> 0 \<le> ad_settled_work (snd ra)" if "ra \<in> set l" for ra
    using routing_ok_entries[OF assms(1)] that assms(2) by blast
  then show "0 \<le> bulk l"
    unfolding bulk_def by (intro sum_list_nonneg) force
  show "\<bar>\<Sum>ra \<leftarrow> l. share cands k ra\<bar> \<le> bulk l"
    unfolding bulk_def using e by (intro sum_list_abs_le) (force simp: share_bound)
qed

lemma admission_split:
  assumes ok: "routing_ok db" and a: "(rid, a) \<in> set (db_admissions db)"
  obtains xs ys where "db_admissions db = xs @ (rid, a) # ys"
    and "\<And>f. bt_update rid f (db_admissions db) = xs @ (rid, f a) # ys"
    and "\<forall>p \<in> set xs \<union> set ys. fst p \<noteq> rid"
    and "volume db = bulk xs + (int WDRR_QUANTUM + ad_estimated_work a + ad_settled_work a) + bulk ys"
    and "0 \<le> bulk xs" and "0 \<le> bulk ys"
    and "\<And>cands k. \<bar>\<Sum>ra \<leftarrow> xs. share cands k ra\<bar> \<le> bulk xs"
    and "\<And>cands k. \<bar>\<Sum>ra \<leftarrow> ys. share cands k ra\<bar> \<le> bulk ys"
proof -
  have bt: "bt_ok (db_admissions db)" using ok by (simp add: routing_ok_def)
  then have "map_of (db_admissions db) rid = Some a" using a bt_ok_distinct by fastforce
  then obtain xs ys where split: "db_admissions db = xs @ (rid, a) # ys"
    "\<And>f. bt_update rid f (db_admissions db) = xs @ (rid, f a) # ys"
    "\<forall>p \<in> set xs \<union> set ys. fst p \<noteq> rid"
    using bt_update_split[OF bt] by metis
  then have sub: "set xs \<subseteq> set (db_admissions db)" "set ys \<subseteq> set (db_admissions db)" by auto
  show thesis
    using that[OF split] split(1) bulk_bounds[OF ok sub(1)] bulk_bounds[OF ok sub(2)]
    by (simp add: volume_def bulk_def)
qed

lemma settle_cases:
  assumes "settle_fair_route_usage now run agent ek u db = Inr (b, db')"
  obtains (ignored) "\<not> b" and "db' = db"
  | (charged) rid a row work where "b" and "(rid, a) \<in> set (db_admissions db)" and "\<not> ad_cancelled a"
      and "work = signed_work (normalized_token_work u)" and "0 < work"
      and "map_of (db_usage db) ek = None" and "map_of (db_states db) (ad_key a) = Some row"
      and "db' = db\<lparr>db_usage := bt_insert ek
              \<lparr>ue_receipt_id = rid, ue_normalized_work = work, ue_occurred_at = now\<rparr> (db_usage db),
            db_states := bt_update (ad_key a)
              (\<lambda>row'. row'\<lparr>rs_deficit := sat_i64 ((if \<not> ad_settlement_started a
                  then sat_i64 (rs_deficit row + max (ad_estimated_work a) 0) else rs_deficit row) - work),
                rs_settled_work := sat_i64 (rs_settled_work row + work), rs_updated_at := now\<rparr>)
              (db_states db),
            db_admissions := bt_update rid
              (\<lambda>a'. a'\<lparr>ad_settlement_started := True,
                ad_settled_work := sat_i64 (max (ad_settled_work a) 0 + work), ad_updated_at := now\<rparr>)
              (db_admissions db)\<rparr>"
proof (cases "normalized_token_work u = 0 \<or> admission_of db run agent = None")
  case True
  with assms show thesis
    by (intro ignored) (auto simp: settle_fair_route_usage_def Let_def split: if_splits)
next
  case False
  then obtain rid a where a: "admission_of db run agent = Some (rid, a)" and u: "normalized_token_work u \<noteq> 0"
    by auto
  show thesis
  proof (cases "ad_cancelled a \<or> map_of (db_usage db) ek \<noteq> None")
    case True
    with assms a u show thesis
      by (intro ignored) (auto simp: settle_fair_route_usage_def Let_def split: if_splits)
  next
    case False
    with assms a u obtain row where row: "map_of (db_states db) (ad_key a) = Some row"
      by (auto simp: settle_fair_route_usage_def Let_def split: option.splits if_splits)
    have w: "0 < signed_work (normalized_token_work u)" using u by (simp add: signed_work_def)
    show thesis
      by (rule charged[OF _ admission_of_Some(1)[OF a] _ refl w _ row])
         (use assms a u False row in
           \<open>auto simp: settle_fair_route_usage_def Let_def split: if_splits\<close>)
  qed
qed


lemma admission_ok_cong:
  "db_candidates db' = db_candidates db \<Longrightarrow>
   dom (map_of (db_states db')) = dom (map_of (db_states db)) \<Longrightarrow>
   admission_ok db' rid a = admission_ok db rid a"
  by (simp add: admission_ok_def)

lemma routing_ok_usage:
  "routing_ok db \<Longrightarrow> (ek, u) \<in> set (db_usage db) \<Longrightarrow> ue_receipt_id u \<in> fst ` set (db_admissions db)"
  unfolding routing_ok_def by blast

lemma agents_unique:
  "routing_ok db \<Longrightarrow> \<forall>p \<in> set (db_admissions db). \<forall>q \<in> set (db_admissions db).
     ad_run_id (snd p) = ad_run_id (snd q) \<and> ad_agent_id (snd p) = ad_agent_id (snd q) \<longrightarrow> p = q"
  unfolding routing_ok_def by blast

lemma agents_unique_update:
  assumes "\<forall>p \<in> set (xs @ (rid, a) # ys). \<forall>q \<in> set (xs @ (rid, a) # ys).
        ad_run_id (snd p) = ad_run_id (snd q) \<and> ad_agent_id (snd p) = ad_agent_id (snd q) \<longrightarrow> p = q"
    and "\<forall>p \<in> set xs \<union> set ys. fst p \<noteq> rid"
    and "ad_run_id a' = ad_run_id a" and "ad_agent_id a' = ad_agent_id a"
  shows "\<forall>p \<in> set (xs @ (rid, a') # ys). \<forall>q \<in> set (xs @ (rid, a') # ys).
        ad_run_id (snd p) = ad_run_id (snd q) \<and> ad_agent_id (snd p) = ad_agent_id (snd q) \<longrightarrow> p = q"
proof (intro ballI impI)
  fix p q
  assume p: "p \<in> set (xs @ (rid, a') # ys)" and q: "q \<in> set (xs @ (rid, a') # ys)"
    and eq: "ad_run_id (snd p) = ad_run_id (snd q) \<and> ad_agent_id (snd p) = ad_agent_id (snd q)"
  let ?old = "\<lambda>p. if fst p = rid then (rid, a) else p"
  have old: "?old p \<in> set (xs @ (rid, a) # ys)" "?old q \<in> set (xs @ (rid, a) # ys)" using p q by auto
  have "?old p = ?old q"
    using assms(1)[rule_format, OF old] eq p q assms(2-4) by (auto split: if_splits)
  then show "p = q" using p q assms(2) by (auto split: if_splits)
qed

lemma share_charged:
  "\<not> ad_cancelled a \<Longrightarrow>
     share cands k (rid, a\<lparr>ad_settlement_started := True, ad_settled_work := n, ad_updated_at := now\<rparr>) =
       share cands k (rid, a) +
         (if ad_key a = k then (if ad_settlement_started a then ad_settled_work a else ad_estimated_work a) - n
          else 0)"
  by (simp add: share_def Let_def)

lemma settle_routing_ok:
  assumes ok: "routing_ok db"
    and run: "settle_fair_route_usage now run agent ek u db = Inr (b, db')"
  shows "routing_ok db' \<and> volume db \<le> volume db'"
  using run
proof (cases rule: settle_cases)
  case ignored
  then show ?thesis using ok by simp
next
  case (charged rid a row work)
  note db' = charged(8)
  obtain xs ys where adm: "db_admissions db = xs @ (rid, a) # ys"
    and upd: "\<And>f. bt_update rid f (db_admissions db) = xs @ (rid, f a) # ys"
    and other: "\<forall>p \<in> set xs \<union> set ys. fst p \<noteq> rid"
    using admission_split[OF ok charged(2)] by metis
  have aok: "admission_ok db rid a" using ok charged(2) by (auto simp: routing_ok_def)
  then have pos: "0 \<le> ad_settled_work a" "ad_settled_work a \<le> i64_max"
    by (auto simp: admission_ok_def)
  let ?n = "sat_i64 (max (ad_settled_work a) 0 + work)"
  let ?a = "a\<lparr>ad_settlement_started := True, ad_settled_work := ?n, ad_updated_at := now\<rparr>"
  have adm': "db_admissions db' = xs @ (rid, ?a) # ys" by (simp add: db' upd)
  have n: "ad_settled_work a \<le> ?n" "?n \<le> i64_max" using pos charged(5) by (auto simp: sat_i64_def)
  then have "volume db \<le> volume db'" by (simp add: volume_def adm adm')
  moreover have "routing_ok db'"
  proof -
    have same: "admission_ok db' rid' a' = admission_ok db rid' a'" for rid' a'
      by (rule admission_ok_cong) (simp_all add: db' del: map_of_bt_update)
    have "admission_ok db' rid' a'" if "(rid', a') \<in> set (db_admissions db)" for rid' a'
      using ok that by (auto simp: routing_ok_def same)
    moreover have "admission_ok db' rid ?a"
      using aok charged(3,5) n unfolding same by (auto simp: admission_ok_def)
    ultimately have "\<forall>(rid', a') \<in> set (db_admissions db'). admission_ok db' rid' a'"
      by (auto simp: adm' adm)
    moreover have "fst ` set (db_admissions db') = fst ` set (db_admissions db)"
      by (simp add: db')
    moreover have "\<forall>(ek, u) \<in> set (db_usage db'). ue_receipt_id u \<in> fst ` set (db_admissions db)"
    proof clarify
      fix ek' u' assume "(ek', u') \<in> set (db_usage db')"
      then have "(ek', u') \<in> set (db_usage db) \<or> ue_receipt_id u' = rid"
        by (auto simp: db' dest!: set_bt_insert)
      then show "ue_receipt_id u' \<in> fst ` set (db_admissions db)"
        using routing_ok_usage[OF ok, of ek' u'] imageI[OF charged(2), of fst]
        unfolding fst_conv by (elim disjE) (simp_all only:)
    qed
    moreover have "\<forall>p \<in> set (db_admissions db'). \<forall>q \<in> set (db_admissions db').
        ad_run_id (snd p) = ad_run_id (snd q) \<and> ad_agent_id (snd p) = ad_agent_id (snd q) \<longrightarrow> p = q"
      unfolding adm'
      by (rule agents_unique_update[OF agents_unique[OF ok, unfolded adm] other]) simp_all
    moreover have "bt_ok (db_states db') \<and> bt_ok (db_admissions db') \<and> bt_ok (db_usage db') \<and>
        db_candidates db' = db_candidates db"
      using ok by (simp add: routing_ok_def db' bt_ok_update bt_ok_insert)
    ultimately show ?thesis using ok unfolding routing_ok_def by metis
  qed
  ultimately show ?thesis by blast
qed

lemma settle_accounts:
  assumes ok: "routing_ok db" and bal: "accounts_balance db"
    and run: "settle_fair_route_usage now run agent ek u db = Inr (b, db')"
    and small: "volume db' \<le> i64_max"
  shows "accounts_balance db'"
  using run
proof (cases rule: settle_cases)
  case ignored
  then show ?thesis using bal by simp
next
  case (charged rid a row work)
  note db' = charged(8)
  obtain xs ys where adm: "db_admissions db = xs @ (rid, a) # ys"
    and upd: "\<And>f. bt_update rid f (db_admissions db) = xs @ (rid, f a) # ys"
    and other: "\<forall>p \<in> set xs \<union> set ys. fst p \<noteq> rid"
    and vol: "volume db = bulk xs + (int WDRR_QUANTUM + ad_estimated_work a + ad_settled_work a) + bulk ys"
    and nn: "0 \<le> bulk xs" "0 \<le> bulk ys"
    and bound: "\<And>cands k. \<bar>\<Sum>ra \<leftarrow> xs. share cands k ra\<bar> \<le> bulk xs"
      "\<And>cands k. \<bar>\<Sum>ra \<leftarrow> ys. share cands k ra\<bar> \<le> bulk ys"
    using admission_split[OF ok charged(2)] by metis
  have aok: "admission_ok db rid a" using ok charged(2) by (auto simp: routing_ok_def)
  then have pos: "0 \<le> ad_estimated_work a" "0 \<le> ad_settled_work a"
    and fresh: "\<not> ad_settlement_started a \<Longrightarrow> ad_settled_work a = 0"
    by (auto simp: admission_ok_def)
  let ?n = "sat_i64 (max (ad_settled_work a) 0 + work)" and ?Q = "int WDRR_QUANTUM"
  let ?a = "a\<lparr>ad_settlement_started := True, ad_settled_work := ?n, ad_updated_at := now\<rparr>"
  have adm': "db_admissions db' = xs @ (rid, ?a) # ys" by (simp add: db' upd)
  have vol': "volume db' = bulk xs + (?Q + ad_estimated_work a + ?n) + bulk ys"
    by (simp add: volume_def bulk_def adm')
  have Q: "0 < ?Q" by (simp add: WDRR_QUANTUM_def)
  have "?n < i64_max" using small vol' nn pos Q by linarith
  then have n: "?n = ad_settled_work a + work" using pos charged(5) by (simp add: sat_i64_def)
  with vol vol' have grow: "volume db' = volume db + work" by simp
  have D: "deficit_of db k = (\<Sum>ra \<leftarrow> xs. share (db_candidates db) k ra)
      + share (db_candidates db) k (rid, a) + (\<Sum>ra \<leftarrow> ys. share (db_candidates db) k ra)" for k
    using bal by (simp add: accounts_balance_def adm)
  let ?old = "if ad_settlement_started a then ad_settled_work a else ad_estimated_work a"
  have mine: "- ?old \<le> share (db_candidates db) (ad_key a) (rid, a)"
    "share (db_candidates db) (ad_key a) (rid, a) \<le> ?Q - ?old"
    using charged(3) Q by (auto simp: share_def Let_def)
  have row: "rs_deficit row = deficit_of db (ad_key a)" "rs_settled_work row = settled_of db (ad_key a)"
    using charged(7) by (simp_all add: deficit_of_def settled_of_def column_def)
  have new_deficit: "sat_i64 ((if \<not> ad_settlement_started a
      then sat_i64 (rs_deficit row + max (ad_estimated_work a) 0) else rs_deficit row) - work) =
      deficit_of db (ad_key a) + ?old - (ad_settled_work a + work)"
  proof (cases "ad_settlement_started a")
    case True
    have "sat_i64 (rs_deficit row - work) = rs_deficit row - work"
      using row(1) D[of "ad_key a"] mine True bound[of "db_candidates db" "ad_key a"] small grow vol pos nn
        charged(5) by (intro sat_i64_exact) auto
    with True show ?thesis by (simp add: row)
  next
    case False
    have "sat_i64 (rs_deficit row + ad_estimated_work a) = rs_deficit row + ad_estimated_work a"
      using row(1) D[of "ad_key a"] mine False bound[of "db_candidates db" "ad_key a"] small grow vol pos nn
        charged(5) by (intro sat_i64_exact) auto
    moreover have "sat_i64 (rs_deficit row + ad_estimated_work a - work) = rs_deficit row + ad_estimated_work a - work"
      using row(1) D[of "ad_key a"] mine False bound[of "db_candidates db" "ad_key a"] small grow vol pos nn
        charged(5) by (intro sat_i64_exact) auto
    ultimately show ?thesis using False fresh pos by (simp add: row max_def)
  qed
  have new_total: "sat_i64 (rs_settled_work row + work) = settled_of db (ad_key a) + work"
    unfolding row(2) using settled_bound[OF ok bal, of "ad_key a"] small grow charged(5)
    by (intro sat_i64_exact) auto
  have cols: "deficit_of db' k = deficit_of db k + (if k = ad_key a then ?old - (ad_settled_work a + work) else 0)"
    "dispatched_of db' k = dispatched_of db k"
    "settled_of db' k = settled_of db k + (if k = ad_key a then work else 0)" for k
    unfolding deficit_of_def dispatched_of_def settled_of_def
    by (simp_all add: db' column_update[OF charged(7)] new_deficit new_total)
       (use charged(7) in \<open>simp_all add: column_def deficit_of_def settled_of_def\<close>)
  show ?thesis
  proof (rule accounts_balanceI)
    show "deficit_of db' k = (\<Sum>ra \<leftarrow> db_admissions db'. share (db_candidates db') k ra)" for k
      using D[of k] n by (simp add: cols adm' share_charged[OF charged(3)]) (simp add: db')
    show "dispatched_of db' k =
        (\<Sum>(_, a) \<leftarrow> db_admissions db'. if \<not> ad_cancelled a \<and> ad_key a = k then 1 else 0)" for k
      using accounts_balanceD(2)[OF bal, of k] by (simp add: cols adm adm')
    show "settled_of db' k = (\<Sum>(_, a) \<leftarrow> db_admissions db'. if ad_key a = k then ad_settled_work a else 0)" for k
      using accounts_balanceD(3)[OF bal, of k] n by (simp add: cols adm adm')
    have "ek \<notin> fst ` set (db_usage db)" using charged(6) by (simp add: map_of_eq_None_iff)
    then obtain us vs where us: "db_usage db = us @ vs" "\<And>v. bt_insert ek v (db_usage db) = us @ (ek, v) # vs"
      using bt_insert_split by metis
    then have us': "db_usage db' = us @ (ek, \<lparr>ue_receipt_id = rid, ue_normalized_work = work, ue_occurred_at = now\<rparr>) # vs"
      by (simp add: db')
    have "ad_settled_work a'' + (if rid' = rid then work else 0) =
        (\<Sum>(_, u) \<leftarrow> db_usage db'. if ue_receipt_id u = rid' then ue_normalized_work u else 0)"
      if "(rid', a'') \<in> set (db_admissions db)" for rid' a''
      using accounts_balanceD(4)[OF bal that] by (auto simp: us(1) us')
    note sums = this
    show "ad_settled_work a'' =
        (\<Sum>(_, u) \<leftarrow> db_usage db'. if ue_receipt_id u = rid' then ue_normalized_work u else 0)"
      if new: "(rid', a'') \<in> set (db_admissions db')" for rid' a''
    proof (cases "(rid', a'') = (rid, ?a)")
      case True
      then show ?thesis using sums[OF charged(2)] n by simp
    next
      case False
      with new have "(rid', a'') \<in> set xs \<union> set ys" by (auto simp: adm')
      then show ?thesis using sums[of rid' a''] other[rule_format, of "(rid', a'')"] by (auto simp: adm)
    qed
  qed
qed


section \<open>Cancellation keeps the accounts\<close>

lemma route_key_selected:
  "route_key (fk_workspace k) (fk_role k) c = k \<longleftrightarrow> fc_provider c = fk_provider k \<and> fc_model c = fk_model k"
  by (cases k; cases c) (auto simp: route_key_def)

lemma cancel_round_columns:
  assumes "distinct cs"
    and "\<forall>c \<in> set cs. route_key (fk_workspace (ad_key a)) (fk_role (ad_key a)) c \<in> dom (map_of m)"
  shows "\<exists>m'. cancel_round now a cs m = Inr m' \<and> dom (map_of m') = dom (map_of m) \<and> (bt_ok m \<longrightarrow> bt_ok m') \<and>
    (\<forall>j. column rs_deficit m' j =
       (if j \<in> route_key (fk_workspace (ad_key a)) (fk_role (ad_key a)) ` set cs
        then (let d = sat_i64 (column rs_deficit m j - int WDRR_QUANTUM)
              in if j = ad_key a then sat_i64 (d + max (ad_estimated_work a) 0) else d)
        else column rs_deficit m j)) \<and>
    (\<forall>j. column rs_dispatched m' j =
       (if j = ad_key a \<and> j \<in> route_key (fk_workspace (ad_key a)) (fk_role (ad_key a)) ` set cs
        then max (sat_i64 (column rs_dispatched m j - 1)) 0 else column rs_dispatched m j)) \<and>
    (\<forall>j. column rs_settled_work m' j = column rs_settled_work m j)"
  using assms
proof (induction cs arbitrary: m)
  case Nil
  then show ?case by simp
next
  case (Cons c cs)
  let ?key = "route_key (fk_workspace (ad_key a)) (fk_role (ad_key a))"
  let ?sel = "fc_provider c = fk_provider (ad_key a) \<and> fc_model c = fk_model (ad_key a)"
  from Cons.prems obtain row where row: "map_of m (?key c) = Some row" by auto
  let ?m = "bt_update (?key c) (uncredit_row now ?sel (ad_estimated_work a)) m"
  have sel: "?sel \<longleftrightarrow> ?key c = ad_key a" by (rule route_key_selected[symmetric])
  have r: "rs_deficit row = column rs_deficit m (?key c)" "rs_dispatched row = column rs_dispatched m (?key c)"
    "rs_settled_work row = column rs_settled_work m (?key c)"
    using row by (simp_all add: column_def)
  have distinct: "distinct cs" using Cons.prems(1) by simp
  have "\<forall>c \<in> set cs. ?key c \<in> dom (map_of ?m)"
    using Cons.prems(2) unfolding dom_bt_update by simp
  from Cons.IH[OF distinct this] obtain m' where IH:
    "cancel_round now a cs ?m = Inr m'" "dom (map_of m') = dom (map_of ?m)" "bt_ok ?m \<longrightarrow> bt_ok m'"
    "\<And>j. column rs_deficit m' j =
       (if j \<in> ?key ` set cs
        then (let d = sat_i64 (column rs_deficit ?m j - int WDRR_QUANTUM)
              in if j = ad_key a then sat_i64 (d + max (ad_estimated_work a) 0) else d)
        else column rs_deficit ?m j)"
    "\<And>j. column rs_dispatched m' j =
       (if j = ad_key a \<and> j \<in> ?key ` set cs
        then max (sat_i64 (column rs_dispatched ?m j - 1)) 0 else column rs_dispatched ?m j)"
    "\<And>j. column rs_settled_work m' j = column rs_settled_work ?m j"
    by blast
  have new: "?key c \<notin> ?key ` set cs" using Cons.prems(1) by auto
  have "cancel_round now a (c # cs) m = Inr m'" using IH(1) row by (simp add: Let_def)
  moreover have "dom (map_of m') = dom (map_of m)" using IH(2) unfolding dom_bt_update .
  moreover have "bt_ok m \<longrightarrow> bt_ok m'" using IH(3) bt_ok_update by blast
  moreover have "column rs_deficit m' j =
       (if j \<in> ?key ` set (c # cs)
        then (let d = sat_i64 (column rs_deficit m j - int WDRR_QUANTUM)
              in if j = ad_key a then sat_i64 (d + max (ad_estimated_work a) 0) else d)
        else column rs_deficit m j)" for j
    using new unfolding IH(4) column_update[OF row]
    by (cases "j = ?key c") (auto simp: r uncredit_row_def Let_def sel)
  moreover have "column rs_dispatched m' j =
       (if j = ad_key a \<and> j \<in> ?key ` set (c # cs)
        then max (sat_i64 (column rs_dispatched m j - 1)) 0 else column rs_dispatched m j)" for j
    using new unfolding IH(5) column_update[OF row]
    by (cases "j = ?key c") (auto simp: r uncredit_row_def Let_def sel)
  moreover have "column rs_settled_work m' j = column rs_settled_work m j" for j
    unfolding IH(6) column_update[OF row] by (auto simp: r uncredit_row_def Let_def)
  ultimately show ?case by blast
qed

lemma receipt_candidates_set: "c \<in> set (receipt_candidates db rid) \<longleftrightarrow> (rid, c) \<in> set (db_candidates db)"
  by (force simp: receipt_candidates_def)

lemma receipt_candidates_distinct:
  assumes "routing_ok db"
  shows "distinct (receipt_candidates db rid)"
proof -
  have "distinct (db_candidates db)" using assms by (simp add: routing_ok_def bs_ok_distinct)
  then show ?thesis
    unfolding receipt_candidates_def by (auto simp: distinct_map inj_on_def)
qed

lemma dispatched_bounds:
  assumes ok: "routing_ok db" and bal: "accounts_balance db"
  shows "dispatched_of db k \<le> volume db"
  unfolding accounts_balanceD(2)[OF bal] volume_def
  by (intro sum_list_mono) (use routing_ok_entries[OF ok] in \<open>force simp: WDRR_QUANTUM_def\<close>)


lemma cancel_cases:
  assumes "cancel_fair_route_admission now run agent db = Inr (b, db')" and ok: "routing_ok db"
  obtains (ignored) "\<not> b" and "db' = db"
  | (cancelled) rid a states where "b" and "(rid, a) \<in> set (db_admissions db)"
      and "\<not> ad_settlement_started a" and "\<not> ad_cancelled a"
      and "cancel_round now a (receipt_candidates db rid) (db_states db) = Inr states"
      and "db' = db\<lparr>db_states := states, db_admissions := bt_update rid
              (\<lambda>a. a\<lparr>ad_cancelled := True, ad_updated_at := now\<rparr>) (db_admissions db)\<rparr>"
proof (cases "admission_of db run agent")
  case None
  with assms show thesis by (intro ignored) (auto simp: cancel_fair_route_admission_def)
next
  case (Some ra)
  then obtain rid a where a: "admission_of db run agent = Some (rid, a)" by (cases ra) auto
  note in_adm = admission_of_Some(1)[OF a]
  then have "admission_ok db rid a" using ok by (auto simp: routing_ok_def)
  then have "(rid, FairnessCandidate (fk_provider (ad_key a)) (fk_model (ad_key a))) \<in> set (db_candidates db)"
    by (simp add: admission_ok_def)
  then have some: "receipt_candidates db rid \<noteq> []"
    unfolding receipt_candidates_set[symmetric] by force
  show thesis
  proof (cases "ad_settlement_started a \<or> ad_cancelled a")
    case True
    with assms(1) a show thesis by (intro ignored) (auto simp: cancel_fair_route_admission_def)
  next
    case False
    have "cancel_fair_route_admission now run agent db = r_map (\<lambda>states.
        (True, db\<lparr>db_states := states, db_admissions := bt_update rid
           (\<lambda>a. a\<lparr>ad_cancelled := True, ad_updated_at := now\<rparr>) (db_admissions db)\<rparr>))
        (cancel_round now a (receipt_candidates db rid) (db_states db))"
      using False some by (simp add: cancel_fair_route_admission_def a Let_def)
    with assms(1) obtain states where
      "cancel_round now a (receipt_candidates db rid) (db_states db) = Inr states" and "b"
      and "db' = db\<lparr>db_states := states, db_admissions := bt_update rid
           (\<lambda>a. a\<lparr>ad_cancelled := True, ad_updated_at := now\<rparr>) (db_admissions db)\<rparr>"
      by (auto simp: r_map_Inr)
    with in_adm False show thesis by (intro cancelled) auto
  qed
qed

lemma share_cancelled: "share cands k (rid, a\<lparr>ad_cancelled := True, ad_updated_at := now\<rparr>) = 0"
  by (simp add: share_def)

lemma cancel_routing_ok:
  assumes ok: "routing_ok db"
    and run: "cancel_fair_route_admission now run agent db = Inr (b, db')"
  shows "routing_ok db' \<and> volume db' = volume db"
  using run ok
proof (cases rule: cancel_cases)
  case ignored
  then show ?thesis using ok by simp
next
  case (cancelled rid a states)
  note db' = cancelled(6)
  obtain xs ys where adm: "db_admissions db = xs @ (rid, a) # ys"
    and upd: "\<And>f. bt_update rid f (db_admissions db) = xs @ (rid, f a) # ys"
    and other: "\<forall>p \<in> set xs \<union> set ys. fst p \<noteq> rid"
    using admission_split[OF ok cancelled(2)] by metis
  have aok: "admission_ok db rid a" using ok cancelled(2) by (auto simp: routing_ok_def)
  let ?a = "a\<lparr>ad_cancelled := True, ad_updated_at := now\<rparr>"
  let ?key = "route_key (fk_workspace (ad_key a)) (fk_role (ad_key a))"
  have adm': "db_admissions db' = xs @ (rid, ?a) # ys" by (simp add: db' upd)
  have vol': "volume db' = volume db" by (simp add: volume_def adm adm')
  have "\<forall>c \<in> set (receipt_candidates db rid). ?key c \<in> dom (map_of (db_states db))"
    using aok by (simp add: admission_ok_def receipt_candidates_set)
  from cancel_round_columns[OF receipt_candidates_distinct[OF ok] this, of now] obtain m' where
    m': "cancel_round now a (receipt_candidates db rid) (db_states db) = Inr m'"
    and dom: "dom (map_of m') = dom (map_of (db_states db))" and bt: "bt_ok (db_states db) \<longrightarrow> bt_ok m'"
    by blast
  have st: "db_states db' = m'" using m' cancelled(5) by (simp add: db')
    have same: "admission_ok db' rid' a' = admission_ok db rid' a'" for rid' a'
      by (rule admission_ok_cong) (simp_all only: st dom, simp add: db')
    have "\<forall>(rid', a') \<in> set (db_admissions db'). admission_ok db' rid' a'"
    proof clarify
      fix rid' a' assume new: "(rid', a') \<in> set (db_admissions db')"
      show "admission_ok db' rid' a'"
      proof (cases "(rid', a') = (rid, ?a)")
        case True
        then show ?thesis using aok cancelled(3) unfolding same by (simp add: admission_ok_def)
      next
        case False
        with new have "(rid', a') \<in> set (db_admissions db)" by (auto simp: adm adm')
        then show ?thesis using ok unfolding same routing_ok_def by blast
      qed
    qed
    moreover have "fst ` set (db_admissions db') = fst ` set (db_admissions db)"
      by (simp add: db')
    moreover have "\<forall>p \<in> set (db_admissions db'). \<forall>q \<in> set (db_admissions db').
        ad_run_id (snd p) = ad_run_id (snd q) \<and> ad_agent_id (snd p) = ad_agent_id (snd q) \<longrightarrow> p = q"
      unfolding adm'
      by (rule agents_unique_update[OF agents_unique[OF ok, unfolded adm] other]) simp_all
    moreover have "bt_ok (db_states db') \<and> bt_ok (db_admissions db') \<and> db_usage db' = db_usage db \<and>
        db_candidates db' = db_candidates db"
      using ok bt unfolding st by (simp add: routing_ok_def db' bt_ok_update)
    ultimately have "routing_ok db'" using ok unfolding routing_ok_def by metis
  then show ?thesis using vol' by blast
qed

lemma cancel_accounts:
  assumes ok: "routing_ok db" and bal: "accounts_balance db"
    and run: "cancel_fair_route_admission now run agent db = Inr (b, db')"
    and small: "volume db \<le> i64_max"
  shows "accounts_balance db'"
  using run ok
proof (cases rule: cancel_cases)
  case ignored
  then show ?thesis using bal by simp
next
  case (cancelled rid a states)
  note db' = cancelled(6)
  obtain xs ys where adm: "db_admissions db = xs @ (rid, a) # ys"
    and upd: "\<And>f. bt_update rid f (db_admissions db) = xs @ (rid, f a) # ys"
    and other: "\<forall>p \<in> set xs \<union> set ys. fst p \<noteq> rid"
    and vol: "volume db = bulk xs + (int WDRR_QUANTUM + ad_estimated_work a + ad_settled_work a) + bulk ys"
    and nn: "0 \<le> bulk xs" "0 \<le> bulk ys"
    and bound: "\<And>cands k. \<bar>\<Sum>ra \<leftarrow> xs. share cands k ra\<bar> \<le> bulk xs"
      "\<And>cands k. \<bar>\<Sum>ra \<leftarrow> ys. share cands k ra\<bar> \<le> bulk ys"
    using admission_split[OF ok cancelled(2)] by metis
  have aok: "admission_ok db rid a" using ok cancelled(2) by (auto simp: routing_ok_def)
  then have pos: "0 \<le> ad_estimated_work a" and settled: "ad_settled_work a = 0"
    using cancelled(3) by (auto simp: admission_ok_def)
  let ?a = "a\<lparr>ad_cancelled := True, ad_updated_at := now\<rparr>" and ?Q = "int WDRR_QUANTUM"
  let ?key = "route_key (fk_workspace (ad_key a)) (fk_role (ad_key a))"
  let ?K = "?key ` set (receipt_candidates db rid)"
  have adm': "db_admissions db' = xs @ (rid, ?a) # ys" by (simp add: db' upd)
  have in_K: "ad_key a \<in> ?K"
    using aok by (force simp: admission_ok_def receipt_candidates_set intro: rev_image_eqI)
  have K: "k \<in> ?K \<longleftrightarrow> (\<exists>c. (rid, c) \<in> set (db_candidates db) \<and> k = ?key c)" for k
    by (auto simp: receipt_candidates_set)
  have "\<forall>c \<in> set (receipt_candidates db rid). ?key c \<in> dom (map_of (db_states db))"
    using aok by (simp add: admission_ok_def receipt_candidates_set)
  from cancel_round_columns[OF receipt_candidates_distinct[OF ok] this, of now] obtain m' where
    m': "cancel_round now a (receipt_candidates db rid) (db_states db) = Inr m'"
    and dom: "dom (map_of m') = dom (map_of (db_states db))" and bt: "bt_ok (db_states db) \<longrightarrow> bt_ok m'"
    and cols': "\<forall>j. column rs_deficit m' j = (if j \<in> ?K
        then (let d = sat_i64 (column rs_deficit (db_states db) j - ?Q)
              in if j = ad_key a then sat_i64 (d + max (ad_estimated_work a) 0) else d)
        else column rs_deficit (db_states db) j)"
      "\<forall>j. column rs_dispatched m' j =
        (if j = ad_key a \<and> j \<in> ?K then max (sat_i64 (column rs_dispatched (db_states db) j - 1)) 0
         else column rs_dispatched (db_states db) j)"
      "\<forall>j. column rs_settled_work m' j = column rs_settled_work (db_states db) j"
    by blast
  have st: "db_states db' = m'" using m' cancelled(5) by (simp add: db')
  note cols = cols'[folded deficit_of_def dispatched_of_def settled_of_def, folded st,
      folded deficit_of_def dispatched_of_def settled_of_def, rule_format]
  have D: "deficit_of db k = (\<Sum>ra \<leftarrow> xs. share (db_candidates db) k ra)
      + share (db_candidates db) k (rid, a) + (\<Sum>ra \<leftarrow> ys. share (db_candidates db) k ra)" for k
    using accounts_balanceD(1)[OF bal] by (simp add: adm)
  have S: "share (db_candidates db) k (rid, a) =
      (if k \<in> ?K then ?Q else 0) - (if k = ad_key a then ad_estimated_work a else 0)" for k
    unfolding K using cancelled(3,4) by (simp add: share_def Let_def)
  have D': "deficit_of db' k = (\<Sum>ra \<leftarrow> xs. share (db_candidates db) k ra) + (\<Sum>ra \<leftarrow> ys. share (db_candidates db) k ra)" for k
  proof -
    let ?s = "(\<Sum>ra \<leftarrow> xs. share (db_candidates db) k ra) + (\<Sum>ra \<leftarrow> ys. share (db_candidates db) k ra)"
    have le: "\<bar>?s\<bar> + ?Q + ad_estimated_work a \<le> i64_max"
      using bound[of "db_candidates db" k] vol small settled by linarith
    consider "k = ad_key a" | "k \<in> ?K" "k \<noteq> ad_key a" | "k \<notin> ?K" "k \<noteq> ad_key a" by blast
    then show ?thesis
    proof cases
      case 1
      have d: "deficit_of db k = ?s + ?Q - ad_estimated_work a" using D[of k] S[of k] in_K 1 by simp
      then have "sat_i64 (deficit_of db k - ?Q) = ?s - ad_estimated_work a"
        using le pos by (subst sat_i64_exact) auto
      moreover have "sat_i64 (?s - ad_estimated_work a + ad_estimated_work a) = ?s"
        using le pos by (subst sat_i64_exact) auto
      ultimately show ?thesis using 1 in_K pos by (simp add: cols(1) Let_def max_def)
    next
      case 2
      then have "deficit_of db k = ?s + ?Q" using D[of k] S[of k] by simp
      moreover have "sat_i64 ?s = ?s" using le pos by (intro sat_i64_exact) auto
      ultimately show ?thesis using 2 by (simp add: cols(1) Let_def)
    next
      case 3
      then show ?thesis using D[of k] S[of k] by (simp add: cols(1))
    qed
  qed
  show ?thesis
  proof (rule accounts_balanceI)
    have c: "db_candidates db' = db_candidates db" by (simp add: db')
    show "deficit_of db' k = (\<Sum>ra \<leftarrow> db_admissions db'. share (db_candidates db') k ra)" for k
      by (simp add: D' adm' share_cancelled c)
    show "dispatched_of db' k =
        (\<Sum>(_, a) \<leftarrow> db_admissions db'. if \<not> ad_cancelled a \<and> ad_key a = k then 1 else 0)" for k
    proof -
      let ?c = "\<lambda>l. (\<Sum>(_, a) \<leftarrow> l. if \<not> ad_cancelled a \<and> ad_key a = k then 1 else 0) :: int"
      have nonneg: "0 \<le> ?c l" for l by (intro sum_list_nonneg) auto
      have "dispatched_of db k = ?c xs + (if ad_key a = k then 1 else 0) + ?c ys"
        using accounts_balanceD(2)[OF bal, of k] cancelled(4) by (simp add: adm)
      moreover have "dispatched_of db k \<le> i64_max" using dispatched_bounds[OF ok bal, of k] small by linarith
      ultimately show ?thesis
        using in_K nonneg[of xs] nonneg[of ys] by (auto simp: cols(2) adm' sat_i64_def)
    qed
    show "settled_of db' k = (\<Sum>(_, a) \<leftarrow> db_admissions db'. if ad_key a = k then ad_settled_work a else 0)" for k
      using accounts_balanceD(3)[OF bal, of k] by (simp add: cols(3) adm adm')
    show "ad_settled_work a'' =
        (\<Sum>(_, u) \<leftarrow> db_usage db'. if ue_receipt_id u = rid' then ue_normalized_work u else 0)"
      if new: "(rid', a'') \<in> set (db_admissions db')" for rid' a''
    proof (cases "(rid', a'') = (rid, ?a)")
      case True
      then show ?thesis using accounts_balanceD(4)[OF bal cancelled(2)] by (simp add: db')
    next
      case False
      with new have "(rid', a'') \<in> set (db_admissions db)" by (auto simp: adm adm')
      from accounts_balanceD(4)[OF bal this] show ?thesis by (simp add: db')
    qed
  qed
qed


section \<open>Histories of a database\<close>

inductive routing_history :: "routing_db \<Rightarrow> bool" where
  created: "routing_history routing_db_empty"
| run_created: "routing_history db \<Longrightarrow> routing_history (db\<lparr>db_runs := run # db_runs db\<rparr>)"
| admitted: "routing_history db \<Longrightarrow>
     admit_equal_weight_route now w r run agent rid cs e db = Inr (sel, db') \<Longrightarrow> routing_history db'"
| settled: "routing_history db \<Longrightarrow>
     settle_fair_route_usage now run agent ek u db = Inr (b, db') \<Longrightarrow> routing_history db'"
| cancelled: "routing_history db \<Longrightarrow>
     cancel_fair_route_admission now run agent db = Inr (b, db') \<Longrightarrow> routing_history db'"

lemma routing_ok_runs: "routing_ok (db\<lparr>db_runs := rs\<rparr>) = routing_ok db"
  by (simp add: routing_ok_def admission_ok_def)

lemma accounts_balance_runs: "accounts_balance (db\<lparr>db_runs := rs\<rparr>) = accounts_balance db"
  by (simp add: accounts_balance_def deficit_of_def dispatched_of_def settled_of_def)

lemma admit_keeps:
  assumes ok: "routing_ok db" and bal: "volume db \<le> i64_max \<Longrightarrow> accounts_balance db"
    and run: "admit_equal_weight_route now w r run agent rid cs e db = Inr (sel, db')"
  shows "routing_ok db' \<and> (volume db' \<le> i64_max \<longrightarrow> accounts_balance db')"
  using run
proof (cases rule: admit_cases)
  case repeated
  then show ?thesis using ok bal by simp
next
  case fresh
  note parts = admit_insert_parts[OF ok fresh(1,2,3), of now]
  have "volume db \<le> volume db'"
    using parts(2) by (simp add: fresh(5) WDRR_QUANTUM_def signed_work_def)
  then show ?thesis
    using parts(1) admit_insert_accounts[OF ok _ fresh(1,2,3), of now] bal by (auto simp: fresh(5))
qed

lemma history_ok:
  "routing_history db \<Longrightarrow> routing_ok db \<and> (volume db \<le> i64_max \<longrightarrow> accounts_balance db)"
proof (induction rule: routing_history.induct)
  case created
  then show ?case
    by (simp add: routing_ok_def accounts_balance_def routing_db_empty_def deficit_of_def
        dispatched_of_def settled_of_def column_def bs_ok_def)
next
  case (run_created db run)
  then show ?case by (simp add: routing_ok_runs accounts_balance_runs volume_def)
next
  case (admitted db now w r run agent rid cs e sel db')
  then show ?case using admit_keeps by blast
next
  case (settled db now run agent ek u b db')
  then show ?case using settle_routing_ok[OF _ settled(2)] settle_accounts[OF _ _ settled(2)]
    by fastforce
next
  case (cancelled db now run agent b db')
  then show ?case using cancel_routing_ok[OF _ cancelled(2)] cancel_accounts[OF _ _ cancelled(2)]
    by fastforce
qed


lemma cancel_succeeds:
  assumes ok: "routing_ok db" and a: "(rid, a) \<in> set (db_admissions db)"
    and live: "\<not> ad_settlement_started a" "\<not> ad_cancelled a"
  obtains states where "cancel_fair_route_admission now (ad_run_id a) (ad_agent_id a) db =
      Inr (True, db\<lparr>db_states := states, db_admissions := bt_update rid
             (\<lambda>a. a\<lparr>ad_cancelled := True, ad_updated_at := now\<rparr>) (db_admissions db)\<rparr>)"
proof -
  have aok: "admission_ok db rid a" using ok a by (auto simp: routing_ok_def)
  then have "(rid, FairnessCandidate (fk_provider (ad_key a)) (fk_model (ad_key a))) \<in> set (db_candidates db)"
    by (simp add: admission_ok_def)
  then have some: "receipt_candidates db rid \<noteq> []"
    unfolding receipt_candidates_set[symmetric] by force
  have "\<forall>c \<in> set (receipt_candidates db rid).
      route_key (fk_workspace (ad_key a)) (fk_role (ad_key a)) c \<in> dom (map_of (db_states db))"
    using aok by (simp add: admission_ok_def receipt_candidates_set)
  from cancel_round_columns[OF receipt_candidates_distinct[OF ok] this, of now] obtain m' where
    "cancel_round now a (receipt_candidates db rid) (db_states db) = Inr m'" by blast
  then show thesis
    using some live
    by (intro that[of m'])
       (simp add: cancel_fair_route_admission_def admission_of_unique[OF ok a] Let_def)
qed

text \<open>Clamping to \<open>i64\<close> brings two values no further apart.\<close>

lemma sat_i64_lipschitz: "x - y \<le> E \<Longrightarrow> 0 \<le> E \<Longrightarrow> sat_i64 x - sat_i64 y \<le> E"
  by (auto simp: sat_i64_def)

inductive wdrr_rounds :: "str \<Rightarrow> str \<Rightarrow> fairness_candidate set \<Rightarrow> u64 \<Rightarrow> routing_db \<Rightarrow> routing_db \<Rightarrow> bool"
  for w r C E where
  none: "wdrr_rounds w r C E db db"
| round: "wdrr_rounds w r C E db0 db \<Longrightarrow> set cs = C \<Longrightarrow> e \<le> E \<Longrightarrow>
     map_of (db_admissions db) rid = None \<Longrightarrow>
     admit_equal_weight_route now w r run agent rid cs e db = Inr (sel, db') \<Longrightarrow>
     wdrr_rounds w r C E db0 db'"

definition spread :: "routing_db \<Rightarrow> str \<Rightarrow> str \<Rightarrow> fairness_candidate \<Rightarrow> fairness_candidate \<Rightarrow> int" where
  "spread db w r c d = deficit_of db (route_key w r c) - deficit_of db (route_key w r d)"

lemma round_spread:
  assumes run: "admit_equal_weight_route now w r run agent rid cs e db = Inr (sel, db')"
    and new: "map_of (db_admissions db) rid = None" and e: "e \<le> E"
    and old: "\<forall>c \<in> set cs. \<forall>d \<in> set cs. spread db w r c d \<le> int E"
    and c: "c \<in> set cs" and d: "d \<in> set cs"
  shows "spread db' w r c d \<le> int E"
  using run
proof (cases rule: admit_cases)
  case repeated
  then show ?thesis using new by simp
next
  case fresh
  let ?D = "\<lambda>c. deficit_of db (route_key w r c)"
  obtain c0 where c0: "c0 \<in> set cs" "sel_key sel = route_key w r c0"
    and after: "sel_deficit_after sel = sat_i64 (credit (?D c0) - signed_work e)"
    and best: "\<forall>c' \<in> set cs. credit (?D c') \<le> credit (?D c0)"
    using fresh(2) by (rule admit_selected) metis
  have key: "sel_key sel \<in> route_key w r ` set (sort_dedup cs)" using c0 by simp
  have D': "deficit_of db' (route_key w r x) =
      (if x = c0 then sat_i64 (credit (?D c0) - signed_work e) else credit (?D x))" if "x \<in> set cs" for x
    using that unfolding fresh(5) admit_insert_columns(1)[OF key] by (auto simp: c0(2) after)
  have lip: "credit (?D x) - credit (?D y) \<le> int E" if "x \<in> set cs" "y \<in> set cs" for x y
    using old that unfolding credit_def by (intro sat_i64_lipschitz) (auto simp: spread_def)
  have we: "0 \<le> signed_work e" "signed_work e \<le> int E" using e by (auto simp: signed_work_def)
  have m: "credit (?D c0) \<le> i64_max" "i64_min \<le> credit (?D c0)" by (auto simp: credit_def sat_i64_def)
  have lower: "credit (?D c0) - signed_work e \<le> sat_i64 (credit (?D c0) - signed_work e)"
    using m we by (simp add: sat_i64_def)
  have upper: "sat_i64 (credit (?D c0) - signed_work e) \<le> credit (?D c0)"
    using m we by (simp add: sat_i64_def)
  consider "c = c0" "d = c0" | "c = c0" "d \<noteq> c0" | "c \<noteq> c0" "d = c0" | "c \<noteq> c0" "d \<noteq> c0" by blast
  then show ?thesis
  proof cases
    case 1
    then show ?thesis by (simp add: spread_def)
  next
    case 2
    then show ?thesis using lip[OF c d] upper D'[OF c] D'[OF d] by (simp add: spread_def)
  next
    case 3
    then show ?thesis using bspec[OF best c] lower we D'[OF c] D'[OF d] by (simp add: spread_def)
  next
    case 4
    then show ?thesis using lip[OF c d] D'[OF c] D'[OF d] by (simp add: spread_def)
  qed
qed

section \<open>Undoing an admission\<close>

text \<open>\<open>undone rid db db'\<close>: the admissions of \<open>db'\<close> are those of \<open>db\<close> and a cancelled one under \<open>rid\<close>,
  and the candidates of the others are the same.\<close>

definition undone :: "str \<Rightarrow> routing_db \<Rightarrow> routing_db \<Rightarrow> bool" where
  "undone rid db db' \<longleftrightarrow>
     (\<exists>xs ys a. db_admissions db = xs @ ys \<and> db_admissions db' = xs @ (rid, a) # ys \<and>
        ad_cancelled a \<and> ad_settled_work a = 0 \<and>
        (\<forall>k. \<forall>ra \<in> set xs \<union> set ys. share (db_candidates db') k ra = share (db_candidates db) k ra))"

lemma undone_accounts:
  assumes "undone rid db db'" and bal: "accounts_balance db" and bal': "accounts_balance db'"
  shows "deficit_of db' k = deficit_of db k \<and> dispatched_of db' k = dispatched_of db k \<and>
    settled_of db' k = settled_of db k"
proof -
  obtain xs ys a where u: "db_admissions db = xs @ ys" "db_admissions db' = xs @ (rid, a) # ys"
    "ad_cancelled a" "ad_settled_work a = 0"
    and s: "\<And>k ra. ra \<in> set xs \<union> set ys \<Longrightarrow> share (db_candidates db') k ra = share (db_candidates db) k ra"
    using assms(1) unfolding undone_def by blast
  have "share (db_candidates db') k (rid, a) = 0" using u(3) by (simp add: share_def)
  moreover have "map (share (db_candidates db') k) xs = map (share (db_candidates db) k) xs"
    "map (share (db_candidates db') k) ys = map (share (db_candidates db) k) ys"
    using s by (auto intro: map_cong)
  ultimately show ?thesis
    using u accounts_balanceD(1-3)[OF bal, of k] accounts_balanceD(1-3)[OF bal', of k] by (simp cong: map_cong)
qed

lemma fresh_cancel:
  assumes ok: "routing_ok db" and ok1: "routing_ok db1"
    and fresh: "map_of (db_admissions db) rid = None"
    and db1: "db1 = admit_insert now w r run agent rid cs sel db"
  shows "\<exists>db2. cancel_fair_route_admission now' run agent db1 = Inr (True, db2) \<and> undone rid db db2"
proof -
  have rid: "rid \<notin> fst ` set (db_admissions db)" using fresh by (simp add: map_of_eq_None_iff)
  obtain a where adm1: "db_admissions db1 = bt_insert rid a (db_admissions db)"
    and a: "ad_run_id a = run" "ad_agent_id a = agent" "\<not> ad_settlement_started a" "\<not> ad_cancelled a"
      "ad_settled_work a = 0"
    by (simp add: db1 admit_insert_def Let_def)
  obtain xs ys where split: "db_admissions db = xs @ ys" "\<And>v. bt_insert rid v (db_admissions db) = xs @ (rid, v) # ys"
    using bt_insert_split[OF rid] by metis
  have other: "fst ra \<noteq> rid" if "ra \<in> set xs \<union> set ys" for ra using rid that split(1) by auto
  have mem: "(rid, a) \<in> set (db_admissions db1)" by (simp add: adm1 split(2))
  let ?f = "\<lambda>a. a\<lparr>ad_cancelled := True, ad_updated_at := now'\<rparr>"
  obtain states where c: "cancel_fair_route_admission now' (ad_run_id a) (ad_agent_id a) db1 =
      Inr (True, db1\<lparr>db_states := states, db_admissions := bt_update rid ?f (db_admissions db1)\<rparr>)"
    using cancel_succeeds[OF ok1 mem a(3,4), of now'] by metis
  have "map (\<lambda>p. if fst p = rid then (rid, ?f (snd p)) else p) l = l" if "set l \<subseteq> set xs \<union> set ys" for l
    using other that by (intro map_idI) auto
  then have "bt_update rid ?f (db_admissions db1) = xs @ (rid, ?f a) # ys"
    by (simp add: adm1 split(2) bt_update_def)
  moreover have "share (db_candidates db1) k ra = share (db_candidates db) k ra"
    if "ra \<in> set xs \<union> set ys" for k ra
    using other[OF that] by (simp add: db1 admit_insert_simps share_other_receipt)
  ultimately have "undone rid db (db1\<lparr>db_states := states, db_admissions := bt_update rid ?f (db_admissions db1)\<rparr>)"
    unfolding undone_def
    by (intro exI[of _ xs] exI[of _ ys] exI[of _ "?f a"]) (simp add: a(5) split(1))
  with c a(1,2) show ?thesis by blast
qed

lemma admitted_selection:
  assumes "choose_equal_weight_wdrr w r ds e = Some sel"
    and "db1 = admit_insert now w r run agent rid cs sel db"
  shows "\<exists>a. map_of (db_admissions db1) rid = Some a \<and> sel = admission_selection a"
  using choose_fields[OF assms(1)]
  by (simp add: assms(2) admit_insert_def Let_def admission_selection_def signed_work_def)

section \<open>A small database\<close>

definition sample_db :: routing_db where
  "sample_db = routing_db_empty\<lparr>db_runs := [''r'']\<rparr>"

definition sample_route :: fairness_candidate where
  "sample_route = FairnessCandidate ''p'' ''m''"

lemma sample_history: "routing_history sample_db"
  using routing_history.run_created[OF routing_history.created, of "''r''"]
  by (simp add: sample_db_def routing_db_empty_def)

lemma sample_names:
  "trim ''w'' \<noteq> []" "trim ''x'' \<noteq> []" "trim ''t'' \<noteq> []" "trim ''p'' \<noteq> []" "trim ''m'' \<noteq> []"
  by code_simp+

lemmas sample_simps = sample_names sample_db_def sample_route_def routing_db_empty_def
  admit_equal_weight_route_def sort_dedup_def Let_def choose_equal_weight_wdrr_def rank_candidate_def
  route_key_def admit_insert_def credit_state_def volume_def deficit_of_def column_def credit_def
  signed_work_def WDRR_QUANTUM_def sat_i64_def bt_update_def

lemma sample_admission:
  obtains sel db' where
    "admit_equal_weight_route 0 ''w'' ''x'' ''r'' ''a'' ''t'' [sample_route] 5 sample_db = Inr (sel, db')"
    and "volume db' = 100005" and "deficit_of db' (route_key ''w'' ''x'' sample_route) = 99995"
    and "\<exists>a. db_admissions db' = [(''t'', a)] \<and> ad_run_id a = ''r'' \<and> ad_agent_id a = ''a'' \<and>
           \<not> ad_cancelled a"
proof -
  have "\<exists>sel db'. admit_equal_weight_route 0 ''w'' ''x'' ''r'' ''a'' ''t'' [sample_route] 5 sample_db =
        Inr (sel, db') \<and> volume db' = 100005 \<and> deficit_of db' (route_key ''w'' ''x'' sample_route) = 99995 \<and>
        (\<exists>a. db_admissions db' = [(''t'', a)] \<and> ad_run_id a = ''r'' \<and> ad_agent_id a = ''a'' \<and>
           \<not> ad_cancelled a)"
    by (simp add: sample_simps)
  then show thesis using that by blast
qed

section \<open>Properties\<close>

text \<open>C1: in every database the transactions can produce, as long as the total volume admitted fits an
  \<open>i64\<close>, a route's deficit is exactly one quantum for each live admission it was a candidate of, less
  what it was charged (the estimate until real usage arrives, the recorded usage afterwards); the
  dispatch counter counts its live admissions, and settled work adds up the usage entries.\<close>

theorem routing_accounts_are_exact:
  assumes "routing_history db" and "volume db \<le> i64_max"
  shows "deficit_of db k = (\<Sum>ra \<leftarrow> db_admissions db. share (db_candidates db) k ra) \<and>
    dispatched_of db k =
      (\<Sum>(_, a) \<leftarrow> db_admissions db. if \<not> ad_cancelled a \<and> ad_key a = k then 1 else 0) \<and>
    settled_of db k = (\<Sum>(_, a) \<leftarrow> db_admissions db. if ad_key a = k then ad_settled_work a else 0) \<and>
    (\<forall>(rid, a) \<in> set (db_admissions db). ad_settled_work a =
      (\<Sum>(_, u) \<leftarrow> db_usage db. if ue_receipt_id u = rid then ue_normalized_work u else 0))"
  using history_ok[OF assms(1)] assms(2) unfolding accounts_balance_def by blast

theorem routing_accounts_are_exact_witness:
  "\<exists>db. routing_history db \<and> deficit_of db (route_key ''w'' ''x'' sample_route) = 99995 \<and>
     dispatched_of db (route_key ''w'' ''x'' sample_route) =
       (\<Sum>(_, a) \<leftarrow> db_admissions db.
          if \<not> ad_cancelled a \<and> ad_key a = route_key ''w'' ''x'' sample_route then 1 else 0)"
proof -
  obtain sel db' where run:
    "admit_equal_weight_route 0 ''w'' ''x'' ''r'' ''a'' ''t'' [sample_route] 5 sample_db = Inr (sel, db')"
    and v: "volume db' = 100005" and d: "deficit_of db' (route_key ''w'' ''x'' sample_route) = 99995"
    by (rule sample_admission)
  have h: "routing_history db'" by (rule routing_history.admitted[OF sample_history run])
  have "volume db' \<le> i64_max" by (simp add: v)
  from routing_accounts_are_exact [OF h this] show ?thesis using h d by blast
qed

text \<open>C16: over rounds with the same candidates the deficits of any two of them never differ by more than
  the largest estimate (if they did not at first), whatever the clamping of \<open>i64\<close> does: no route can get
  more than one request ahead of another.\<close>

theorem wdrr_rounds_stay_together:
  assumes "wdrr_rounds w r C E db0 db"
    and "\<forall>c \<in> C. \<forall>d \<in> C. spread db0 w r c d \<le> int E"
  shows "\<forall>c \<in> C. \<forall>d \<in> C. spread db w r c d \<le> int E"
  using assms
proof (induction rule: wdrr_rounds.induct)
  case (none db)
  then show ?case .
next
  case (round db0 db cs e rid now run agent sel db')
  then have "\<forall>c \<in> set cs. \<forall>d \<in> set cs. spread db w r c d \<le> int E" by simp
  from round_spread[OF round(5) round(4) round(3) this] show ?case using round(2) by blast
qed

theorem wdrr_rounds_stay_together_witness:
  "\<exists>db. wdrr_rounds ''w'' ''x'' {sample_route} 5 sample_db db \<and>
     deficit_of db (route_key ''w'' ''x'' sample_route) = 99995 \<and>
     spread db ''w'' ''x'' sample_route sample_route \<le> 5"
proof -
  obtain sel db' where run:
    "admit_equal_weight_route 0 ''w'' ''x'' ''r'' ''a'' ''t'' [sample_route] 5 sample_db = Inr (sel, db')"
    and d: "deficit_of db' (route_key ''w'' ''x'' sample_route) = 99995"
    by (rule sample_admission)
  have r: "wdrr_rounds ''w'' ''x'' {sample_route} 5 sample_db db'"
    by (rule wdrr_rounds.round[OF wdrr_rounds.none _ order_refl _ run])
       (simp_all add: sample_db_def routing_db_empty_def)
  have "\<forall>c \<in> {sample_route}. \<forall>d \<in> {sample_route}. spread sample_db ''w'' ''x'' c d \<le> int 5"
    by (simp add: spread_def)
  from wdrr_rounds_stay_together [OF r this] show ?thesis using r d by auto
qed

text \<open>An admission given back before any usage leaves no trace in the accounts: cancelling right
  after a new admission succeeds, and every route has the deficit, the dispatch count and the settled
  work it had before.\<close>

theorem cancelled_admission_leaves_no_trace:
  assumes "routing_history db" and "map_of (db_admissions db) rid = None"
    and "admit_equal_weight_route now w r run agent rid cs e db = Inr (sel, db1)"
    and "volume db1 \<le> i64_max"
  shows "\<exists>db2. cancel_fair_route_admission now' run agent db1 = Inr (True, db2) \<and>
    (\<forall>k. deficit_of db2 k = deficit_of db k \<and> dispatched_of db2 k = dispatched_of db k \<and>
         settled_of db2 k = settled_of db k)"
proof -
  from assms(3) show ?thesis
  proof (cases rule: admit_cases)
    case repeated
    then show ?thesis using assms(2) by simp
  next
    case fresh
    have h1: "routing_history db1" by (rule routing_history.admitted[OF assms(1,3)])
    have ok1: "routing_ok db1" and ok: "routing_ok db" using history_ok h1 assms(1) by blast+
    obtain db2 where c: "cancel_fair_route_admission now' run agent db1 = Inr (True, db2)"
      and undo: "undone rid db db2"
      using fresh_cancel[OF ok ok1 assms(2) fresh(5)] by blast
    have h2: "routing_history db2" by (rule routing_history.cancelled[OF h1 c])
    have "volume db2 \<le> i64_max" "volume db \<le> i64_max"
      using cancel_routing_ok[OF ok1 c] admit_insert_parts(2)[OF ok fresh(1,2,3), of now] assms(4)
      by (auto simp: fresh(5) WDRR_QUANTUM_def signed_work_def)
    then have "accounts_balance db2" "accounts_balance db" using history_ok h2 assms(1) by blast+
    with c undo show ?thesis using undone_accounts by blast
  qed
qed

theorem cancelled_admission_leaves_no_trace_witness:
  "\<exists>db1 db2. deficit_of db1 (route_key ''w'' ''x'' sample_route) = 99995 \<and>
     cancel_fair_route_admission 1 ''r'' ''a'' db1 = Inr (True, db2) \<and>
     deficit_of db2 (route_key ''w'' ''x'' sample_route) = 0"
proof -
  obtain sel db' where run:
    "admit_equal_weight_route 0 ''w'' ''x'' ''r'' ''a'' ''t'' [sample_route] 5 sample_db = Inr (sel, db')"
    and v: "volume db' = 100005" and d: "deficit_of db' (route_key ''w'' ''x'' sample_route) = 99995"
    by (rule sample_admission)
  have n: "map_of (db_admissions sample_db) ''t'' = None"
    by (simp add: sample_db_def routing_db_empty_def)
  have zero: "deficit_of sample_db k = 0" for k
    by (simp add: sample_db_def routing_db_empty_def deficit_of_def column_def)
  have "volume db' \<le> i64_max" by (simp add: v)
  from cancelled_admission_leaves_no_trace [OF sample_history n run this, of 1] d zero
  show ?thesis by metis
qed

text \<open>A receipt is admitted once and a usage entry is charged once: after a successful admission any
  well-formed request with the same receipt returns the same selection and changes nothing, and after
  a successful settlement any report with the same entry key is ignored.\<close>

theorem receipts_and_entries_are_idempotent:
  "(admit_equal_weight_route now w r run agent rid cs e db = Inr (sel, db1) \<and>
    \<not> blank w' \<and> \<not> blank r' \<and> cs' \<noteq> [] \<and>
    (\<forall>c \<in> set cs'. \<not> blank (fc_provider c) \<and> \<not> blank (fc_model c)) \<longrightarrow>
      admit_equal_weight_route now' w' r' run' agent' rid cs' e' db1 = Inr (sel, db1)) \<and>
   (settle_fair_route_usage now run agent ek u db = Inr (True, db2) \<longrightarrow>
      settle_fair_route_usage now' run' agent' ek u' db2 = Inr (False, db2))"
proof (intro conjI impI; (elim conjE)?)
  assume run: "admit_equal_weight_route now w r run agent rid cs e db = Inr (sel, db1)"
    and w: "\<not> blank w'" "\<not> blank r'" and cs: "cs' \<noteq> []"
    and c: "\<forall>c \<in> set cs'. \<not> blank (fc_provider c) \<and> \<not> blank (fc_model c)"
  have rid: "\<not> blank rid" using run by (auto simp: admit_equal_weight_route_def split: if_splits)
  obtain a where a: "map_of (db_admissions db1) rid = Some a" "sel = admission_selection a"
    using run
  proof (cases rule: admit_cases)
    case repeated
    then show thesis using that by simp
  next
    case fresh
    then show thesis using that admitted_selection[OF fresh(2) fresh(5)] by blast
  qed
  have "sort_dedup cs' \<noteq> []" using cs by (metis set_sort_dedup set_empty)
  moreover have "\<not> list_ex (\<lambda>c. blank (fc_provider c) \<or> blank (fc_model c)) (sort_dedup cs')"
    using c by (auto simp: list_ex_iff)
  ultimately show "admit_equal_weight_route now' w' r' run' agent' rid cs' e' db1 = Inr (sel, db1)"
    unfolding admit_equal_weight_route_def Let_def using w rid a by simp
next
  assume "settle_fair_route_usage now run agent ek u db = Inr (True, db2)"
  then have "map_of (db_usage db2) ek \<noteq> None" by (cases rule: settle_cases) auto
  then show "settle_fair_route_usage now' run' agent' ek u' db2 = Inr (False, db2)"
    by (auto simp: settle_fair_route_usage_def Let_def split: option.splits)
qed

theorem receipts_and_entries_are_idempotent_witness:
  "\<exists>sel db1. admit_equal_weight_route 0 ''w'' ''x'' ''r'' ''a'' ''t'' [sample_route] 5 sample_db =
      Inr (sel, db1) \<and>
    admit_equal_weight_route 7 ''x'' ''w'' ''q'' ''b'' ''t'' [sample_route, sample_route] 9 db1 = Inr (sel, db1)"
proof -
  obtain sel db' where run:
    "admit_equal_weight_route 0 ''w'' ''x'' ''r'' ''a'' ''t'' [sample_route] 5 sample_db = Inr (sel, db')"
    by (rule sample_admission)
  have "admit_equal_weight_route 7 ''x'' ''w'' ''q'' ''b'' ''t'' [sample_route, sample_route] 9 db' = Inr (sel, db')"
    using run receipts_and_entries_are_idempotent [of 0 "''w''" "''x''" "''r''" "''a''" "''t''"
        "[sample_route]" 5 sample_db sel db' "''x''" "''w''" "[sample_route, sample_route]" 7 "''q''" "''b''" 9]
    by (simp add: sample_names sample_route_def)
  with run show ?thesis by blast
qed

end
