(* ===== verification/Auto_Routing.thy ===== *)
theory Auto_Routing
  imports Config Provider_Health Fair_Ledger
begin

text \<open>
  Automatic routing (\<open>select_automatic_route\<close> and its helpers in \<open>crates/minha-core/src/runtime.rs\<close>): of the
  models that could serve a role, those that policy, the user's pin, the provider's stored health, its
  cooldown and its balance reserve allow are handed to the equal-weight admission of \<open>store.rs\<close>. The
  configuration, the health table, the routing tables and the observed balances are the arguments; a
  balance is a percentage of the high-water mark, absent when it is unknown.
\<close>

section \<open>Model names\<close>

definition provider_model_slug :: "str \<Rightarrow> str" where
  "provider_model_slug model =
     unwrap_or (or_else (strip_prefix model ''deepseek/'')
       (or_else (strip_prefix model ''chatgpt/'') (strip_prefix model ''xiaomi/''))) model"

definition provider_for_model :: "str \<Rightarrow> provider_id" where
  "provider_for_model model = mref_provider (parse_or_legacy_chatgpt model)"

definition canonical_routing_model :: "str \<Rightarrow> str" where
  "canonical_routing_model model =
     (let slug = provider_model_slug model in
      case provider_for_model model of
        ChatGptCodex \<Rightarrow> ''chatgpt/'' @ slug
      | DeepSeek \<Rightarrow> ''deepseek/'' @ slug
      | XiaomiMiMo \<Rightarrow> ''xiaomi/'' @ slug)"

definition worker_model_policy_exclusion :: "str \<Rightarrow> str option" where
  "worker_model_policy_exclusion model =
     (let r = parse_or_legacy_chatgpt model in
      if mref_provider r = DeepSeek \<and> mref_slug r = ''deepseek-v4-pro''
      then Some ''DeepSeek Pro is excluded from automatic worker routing by policy'' else None)"

section \<open>Reserves\<close>

datatype reserve_admission = UnknownReserve | NormalReserve | SoftReserve | HardReserve

fun reserve_admission_str :: "reserve_admission \<Rightarrow> str" where
  "reserve_admission_str UnknownReserve = ''unknown''"
| "reserve_admission_str NormalReserve = ''normal''"
| "reserve_admission_str SoftReserve = ''soft_reserved''"
| "reserve_admission_str HardReserve = ''hard_reserved''"

type_synonym balances = "(provider_id \<times> float) list"

definition provider_reserve_admission :: "config \<Rightarrow> balances \<Rightarrow> provider_id \<Rightarrow> reserve_admission" where
  "provider_reserve_admission cfg bal p =
     (case ov_reserve (provider_override (routing_of cfg) p) of
        Some True \<Rightarrow> HardReserve
      | Some False \<Rightarrow> NormalReserve
      | None \<Rightarrow>
          (case map_of bal p of
             None \<Rightarrow> UnknownReserve
           | Some percent \<Rightarrow>
               let policy = reserve_for (budgets_of cfg) p in
               if float_le percent (hard_percent policy) then HardReserve
               else if float_le percent (soft_percent policy) then SoftReserve
               else NormalReserve))"

definition reserved_providers :: "config \<Rightarrow> balances \<Rightarrow> provider_id list \<times> provider_id list" where
  "reserved_providers cfg bal =
     (let percent = (\<lambda>p. map_of bal p); policy = (\<lambda>p. reserve_for (budgets_of cfg) p);
          hard = (\<lambda>p. case percent p of None \<Rightarrow> False | Some x \<Rightarrow> float_le x (hard_percent (policy p)));
          soft = (\<lambda>p. case percent p of None \<Rightarrow> False | Some x \<Rightarrow> float_le x (soft_percent (policy p)))
      in (filter hard provider_all, filter (\<lambda>p. \<not> hard p \<and> soft p) provider_all))"

text \<open>The \<open>HashSet\<close> of models is a list in some order.\<close>

definition apply_provider_reserves :: "config \<Rightarrow> balances \<Rightarrow> str list \<Rightarrow> str list" where
  "apply_provider_reserves cfg bal available =
     (let (hard, soft) = reserved_providers cfg bal;
          kept = (if hard = [] then available
                  else filter (\<lambda>m. provider_for_model m \<notin> set hard) available);
          unreserved = filter (\<lambda>m. provider_for_model m \<notin> set soft) kept
      in if soft \<noteq> [] \<and> unreserved \<noteq> [] then unreserved else kept)"

section \<open>Selection\<close>

record routed_selection =
  rsel_model :: str
  rsel_candidates :: "routing_candidate list"
  rsel_fairness :: fairness_selection
  rsel_health :: provider_health_status
  rsel_user_pin :: bool
  rsel_reserve_override :: "bool option"
  rsel_cooldown_override :: "bool option"

datatype harness_error =
  ConfigFailed config_error | StoreFailed store_error | LoginRequired | MissingAccountId | AuthFailed str
| ProviderFailed provider_error | CredentialFailed str | ModelUnavailable str | ToolFailed str
| GitFailed str | IoFailed str | Interrupted

text \<open>The verdict on one model before soft reserves are looked at: whether it is eligible, and why.\<close>

definition route_verdict ::
    "str option \<Rightarrow> str \<Rightarrow> routing_override \<Rightarrow> provider_health \<Rightarrow> reserve_admission \<Rightarrow> time \<Rightarrow> bool \<times> str" where
  "route_verdict pin model ov health adm now =
     (case worker_model_policy_exclusion model of
        Some exclusion \<Rightarrow> (False, exclusion)
      | None \<Rightarrow>
          if pin \<noteq> None \<and> pin \<noteq> Some model then (False, ''excluded by explicit user model pin'')
          else if ph_status health = Unsupported
          then (False, ''provider unsupported until a successful catalog refresh'')
          else if ph_status health = AuthenticationRequired
          then (False, ''provider authentication needs remediation'')
          else if ov_cooldown ov = Some True
          then (False, ''excluded by explicit user cooldown override'')
          else if cooldown_active_at health now \<and> ov_cooldown ov \<noteq> Some False
          then (False, ''provider cooldown is active'')
          else if adm = HardReserve then (False, ''provider reserve excludes this route'')
          else (True,
            (if ph_status health = HealthUnknown then ''eligible; provider telemetry is unknown''
             else ''eligible by capability and provider health'') @
            (if ov_cooldown ov = Some False \<and> cooldown_active_at health now
             then ''; explicit user cooldown bypass applied'' else []) @
            (if ov_reserve ov = Some False then ''; explicit user reserve bypass applied'' else [])))"

text \<open>A candidate with the mark of a soft reserve, which only an eligible one carries.\<close>

definition route_candidate ::
    "config \<Rightarrow> balances \<Rightarrow> health_table \<Rightarrow> str \<Rightarrow> str option \<Rightarrow> time \<Rightarrow> str \<Rightarrow>
     store_error + routing_candidate \<times> bool" where
  "route_candidate cfg bal health workspace_id pin now model =
     (let p = provider_for_model model;
          ov = provider_override (routing_of cfg) p
      in r_bind (provider_health_of now health workspace_id (provider_key p)) (\<lambda>h.
         let adm = provider_reserve_admission cfg bal p;
             (eligible, reason) = route_verdict pin model ov h adm now;
             soft = (eligible \<and> adm = SoftReserve)
         in Inr (\<lparr>rc_provider = provider_key p, rc_model = model, rc_eligible = eligible,
                  rc_reason = reason @ (if soft then ''; soft provider reserve'' else []),
                  rc_health = ph_status h, rc_cooldown_until = ph_cooldown_until h,
                  rc_reserve = reserve_admission_str adm, rc_pinned = (pin = Some model)\<rparr>, soft)))"

definition drop_soft :: "(routing_candidate \<times> bool) list \<Rightarrow> routing_candidate list" where
  "drop_soft cs =
     (if list_ex (\<lambda>(c, soft). rc_eligible c \<and> \<not> soft) cs
      then map (\<lambda>(c, soft). if soft
             then c\<lparr>rc_eligible := False,
                    rc_reason := ''provider soft reserve; an unreserved eligible route exists''\<rparr>
             else c) cs
      else map fst cs)"

definition fairness_of :: "routing_candidate \<Rightarrow> fairness_candidate" where
  "fairness_of c = FairnessCandidate (rc_provider c) (rc_model c)"

definition select_automatic_route ::
    "config \<Rightarrow> balances \<Rightarrow> health_table \<Rightarrow> time \<Rightarrow> str \<Rightarrow> str \<Rightarrow> str \<Rightarrow> str \<Rightarrow> str \<Rightarrow> str list \<Rightarrow> u64 \<Rightarrow> routing_db \<Rightarrow>
     harness_error + routed_selection \<times> routing_db" where
  "select_automatic_route cfg bal health now workspace_id role run_id agent_id receipt_id candidate_models
       estimated_input db =
     (let pin = map_option canonical_routing_model (pin_for_role (routing_of cfg) role);
          models = sort_dedup (map canonical_routing_model candidate_models)
      in case r_mapm (route_candidate cfg bal health workspace_id pin now) models of
           Inl e \<Rightarrow> Inl (StoreFailed e)
         | Inr marked \<Rightarrow>
             let candidates = drop_soft marked;
                 eligible = map fairness_of (filter rc_eligible candidates)
             in if eligible = [] then
                  Inl (ModelUnavailable (''no eligible automatic '' @ role @ '' route'' @
                    (case pin of None \<Rightarrow> [] | Some m \<Rightarrow> '' (pinned model `'' @ m @ ''` is not eligible)'')))
                else
                  case admit_equal_weight_route now workspace_id role run_id agent_id receipt_id eligible
                         (normalized_token_work (usage_zero\<lparr>tu_input := estimated_input\<rparr>)) db of
                    Inl e \<Rightarrow> Inl (StoreFailed e)
                  | Inr (fairness, db') \<Rightarrow>
                      (case List.find (\<lambda>c. rc_provider c = fk_provider (sel_key fairness) \<and>
                                           rc_model c = fk_model (sel_key fairness)) candidates of
                         None \<Rightarrow> Inl (ModelUnavailable ''fair route disappeared after admission'')
                       | Some c \<Rightarrow>
                           let ov = provider_override (routing_of cfg) (provider_for_model (rc_model c))
                           in Inr (\<lparr>rsel_model = rc_model c, rsel_candidates = candidates,
                                    rsel_fairness = fairness, rsel_health = rc_health c,
                                    rsel_user_pin = rc_pinned c, rsel_reserve_override = ov_reserve ov,
                                    rsel_cooldown_override = ov_cooldown ov\<rparr>, db')))"

section \<open>Lemmas\<close>

definition route_health :: "health_table \<Rightarrow> str \<Rightarrow> time \<Rightarrow> str \<Rightarrow> provider_health" where
  "route_health health w now model =
     (case provider_health_of now health w (provider_key (provider_for_model model)) of
        Inr h \<Rightarrow> h | Inl _ \<Rightarrow> provider_health_unknown now w (provider_key (provider_for_model model)))"

text \<open>What makes a model eligible, soft reserves aside.\<close>

definition admissible :: "config \<Rightarrow> balances \<Rightarrow> health_table \<Rightarrow> str \<Rightarrow> time \<Rightarrow> str \<Rightarrow> str \<Rightarrow> bool" where
  "admissible cfg bal health w now role model =
     (let p = provider_for_model model;
          ov = provider_override (routing_of cfg) p;
          h = route_health health w now model
      in worker_model_policy_exclusion model = None \<and>
         (\<forall>pin. pin_for_role (routing_of cfg) role = Some pin \<longrightarrow> model = canonical_routing_model pin) \<and>
         ph_status h \<notin> {Unsupported, AuthenticationRequired} \<and>
         ov_cooldown ov \<noteq> Some True \<and>
         (cooldown_active_at h now \<longrightarrow> ov_cooldown ov = Some False) \<and>
         provider_reserve_admission cfg bal p \<noteq> HardReserve)"

definition soft_route :: "config \<Rightarrow> balances \<Rightarrow> str \<Rightarrow> bool" where
  "soft_route cfg bal model = (provider_reserve_admission cfg bal (provider_for_model model) = SoftReserve)"

text \<open>The models finally eligible: soft-reserved ones only when nothing else is.\<close>

definition eligible_models :: "config \<Rightarrow> balances \<Rightarrow> health_table \<Rightarrow> str \<Rightarrow> time \<Rightarrow> str \<Rightarrow> str list \<Rightarrow> str set" where
  "eligible_models cfg bal health w now role models =
     (let good = {m \<in> canonical_routing_model ` set models. admissible cfg bal health w now role m};
          free = {m \<in> good. \<not> soft_route cfg bal m}
      in if free = {} then good else free)"

lemma route_verdict_eligible:
  "fst (route_verdict pin model ov h adm now) \<longleftrightarrow>
     worker_model_policy_exclusion model = None \<and> (pin = None \<or> pin = Some model) \<and>
     ph_status h \<notin> {Unsupported, AuthenticationRequired} \<and> ov_cooldown ov \<noteq> Some True \<and>
     (cooldown_active_at h now \<longrightarrow> ov_cooldown ov = Some False) \<and> adm \<noteq> HardReserve"
  by (auto simp: route_verdict_def split: option.split)

lemma route_candidate_Inr:
  assumes "route_candidate cfg bal health w (map_option canonical_routing_model (pin_for_role (routing_of cfg) role))
      now model = Inr (c, soft)"
  shows "rc_model c = model \<and> rc_provider c = provider_key (provider_for_model model) \<and>
    rc_eligible c = admissible cfg bal health w now role model \<and>
    soft = (admissible cfg bal health w now role model \<and> soft_route cfg bal model)"
proof -
  let ?pin = "map_option canonical_routing_model (pin_for_role (routing_of cfg) role)"
  let ?p = "provider_for_model model"
  obtain h where h: "provider_health_of now health w (provider_key ?p) = Inr h"
    using assms by (auto simp: route_candidate_def Let_def result_simps)
  have pin: "(?pin = None \<or> ?pin = Some model) \<longleftrightarrow>
      (\<forall>pin. pin_for_role (routing_of cfg) role = Some pin \<longrightarrow> model = canonical_routing_model pin)"
    by auto
  have "fst (route_verdict ?pin model (provider_override (routing_of cfg) ?p) h
      (provider_reserve_admission cfg bal ?p) now) = admissible cfg bal health w now role model"
    unfolding route_verdict_eligible pin by (simp add: admissible_def Let_def route_health_def h)
  then show ?thesis
    using assms h by (auto simp: route_candidate_def Let_def soft_route_def split: prod.splits)
qed

lemma route_candidates_Inr:
  assumes "r_mapm (route_candidate cfg bal health w (map_option canonical_routing_model
      (pin_for_role (routing_of cfg) role)) now) models = Inr marked"
  shows "map (\<lambda>(c, _). rc_model c) marked = models \<and>
    (\<forall>(c, soft) \<in> set marked. rc_provider c = provider_key (provider_for_model (rc_model c)) \<and>
       rc_eligible c = admissible cfg bal health w now role (rc_model c) \<and>
       soft = (admissible cfg bal health w now role (rc_model c) \<and> soft_route cfg bal (rc_model c)))"
  using assms
proof (induction models arbitrary: marked)
  case Nil
  then show ?case by simp
next
  case (Cons m ms)
  obtain c soft rest where m: "marked = (c, soft) # rest"
    and c: "route_candidate cfg bal health w (map_option canonical_routing_model
        (pin_for_role (routing_of cfg) role)) now m = Inr (c, soft)"
    and r: "r_mapm (route_candidate cfg bal health w (map_option canonical_routing_model
        (pin_for_role (routing_of cfg) role)) now) ms = Inr rest"
    using Cons.prems by (auto split: sum.splits)
  show ?case using Cons.IH[OF r] route_candidate_Inr[OF c] m by auto
qed

lemma drop_soft_models: "map rc_model (drop_soft cs) = map (\<lambda>(c, _). rc_model c) cs"
  by (auto simp: drop_soft_def)

lemma drop_soft_providers: "map rc_provider (drop_soft cs) = map (\<lambda>(c, _). rc_provider c) cs"
  by (auto simp: drop_soft_def)

lemma eligible_candidates:
  assumes "r_mapm (route_candidate cfg bal health w (map_option canonical_routing_model
      (pin_for_role (routing_of cfg) role)) now) (sort_dedup (map canonical_routing_model models)) = Inr marked"
  shows "{rc_model c | c. c \<in> set (drop_soft marked) \<and> rc_eligible c} =
      eligible_models cfg bal health w now role models" (is "?L = ?R")
    and "\<forall>c \<in> set (drop_soft marked). rc_provider c = provider_key (provider_for_model (rc_model c)) \<and>
      (rc_eligible c \<longrightarrow> rc_model c \<in> eligible_models cfg bal health w now role models)"
proof -
  let ?good = "{m \<in> canonical_routing_model ` set models. admissible cfg bal health w now role m}"
  let ?free = "{m \<in> ?good. \<not> soft_route cfg bal m}"
  note facts = route_candidates_Inr[OF assms]
  have ms: "(\<lambda>(c, _). rc_model c) ` set marked = canonical_routing_model ` set models"
    using facts by (metis (no_types, lifting) list.set_map set_sort_dedup)
  have el: "rc_eligible c = admissible cfg bal health w now role (rc_model c)"
    and so: "soft = (admissible cfg bal health w now role (rc_model c) \<and> soft_route cfg bal (rc_model c))"
    and pr: "rc_provider c = provider_key (provider_for_model (rc_model c))"
    and im: "rc_model c \<in> canonical_routing_model ` set models"
    if "(c, soft) \<in> set marked" for c soft
    using facts that ms by (auto simp: image_iff)
  have mem: "m \<in> canonical_routing_model ` set models \<longleftrightarrow> (\<exists>c s. (c, s) \<in> set marked \<and> rc_model c = m)" for m
    unfolding ms[symmetric] by force
  have free: "list_ex (\<lambda>(c, soft). rc_eligible c \<and> \<not> soft) marked \<longleftrightarrow> ?free \<noteq> {}"
  proof -
    have "?free \<noteq> {} \<longleftrightarrow> (\<exists>m. m \<in> canonical_routing_model ` set models \<and>
        admissible cfg bal health w now role m \<and> \<not> soft_route cfg bal m)" by blast
    also have "\<dots> \<longleftrightarrow> (\<exists>c s. (c, s) \<in> set marked \<and> rc_eligible c \<and> \<not> s)"
      unfolding mem using el so by blast
    finally show ?thesis by (auto simp: list_ex_iff)
  qed
  have e: "?R = (if ?free = {} then ?good else ?free)" by (simp only: eligible_models_def Let_def)
  show l: "?L = ?R"
  proof (cases "?free = {}")
    case True
    then have "drop_soft marked = map fst marked" using free by (simp add: drop_soft_def)
    then have "?L = {rc_model c | c s. (c, s) \<in> set marked \<and> rc_eligible c}" by force
    also have "\<dots> = ?good" unfolding mem using el by blast
    finally show ?thesis by (simp only: e if_P[OF True])
  next
    case False
    then have d: "drop_soft marked = map (\<lambda>(c, soft). if soft
             then c\<lparr>rc_eligible := False,
                    rc_reason := ''provider soft reserve; an unreserved eligible route exists''\<rparr>
             else c) marked"
      using free by (simp add: drop_soft_def)
    have "?L = {rc_model c | c s. (c, s) \<in> set marked \<and> rc_eligible c \<and> \<not> s}"
      unfolding d by (auto split: if_splits) force+
    also have "\<dots> = ?free" unfolding mem using el so by blast
    finally show ?thesis by (simp only: e if_not_P[OF False])
  qed
  have "rc_provider c = provider_key (provider_for_model (rc_model c))" if "c \<in> set (drop_soft marked)" for c
    using that pr by (fastforce simp: drop_soft_def split: if_splits)
  then show "\<forall>c \<in> set (drop_soft marked). rc_provider c = provider_key (provider_for_model (rc_model c)) \<and>
      (rc_eligible c \<longrightarrow> rc_model c \<in> eligible_models cfg bal health w now role models)"
    using l by blast
qed

definition route_of_model :: "str \<Rightarrow> fairness_candidate" where
  "route_of_model m = FairnessCandidate (provider_key (provider_for_model m)) m"

lemma eligible_routes:
  assumes "r_mapm (route_candidate cfg bal health w (map_option canonical_routing_model
      (pin_for_role (routing_of cfg) role)) now) (sort_dedup (map canonical_routing_model models)) = Inr marked"
  shows "set (map fairness_of (filter rc_eligible (drop_soft marked))) =
      route_of_model ` eligible_models cfg bal health w now role models"
proof -
  note e = eligible_candidates[OF assms]
  have "fairness_of c = route_of_model (rc_model c)" if "c \<in> set (drop_soft marked)" for c
    using e(2) that by (simp add: fairness_of_def route_of_model_def)
  then have "set (map fairness_of (filter rc_eligible (drop_soft marked))) =
      route_of_model ` {rc_model c | c. c \<in> set (drop_soft marked) \<and> rc_eligible c}"
    by (force simp: image_iff)
  then show ?thesis by (simp only: e(1))
qed

lemma select_Inr:
  assumes "select_automatic_route cfg bal health now w role run agent rid models n db = Inr (sel, db')"
  obtains marked where "r_mapm (route_candidate cfg bal health w (map_option canonical_routing_model
      (pin_for_role (routing_of cfg) role)) now) (sort_dedup (map canonical_routing_model models)) = Inr marked"
    and "admit_equal_weight_route now w role run agent rid (map fairness_of (filter rc_eligible (drop_soft marked)))
      (normalized_token_work (usage_zero\<lparr>tu_input := n\<rparr>)) db = Inr (rsel_fairness sel, db')"
    and "fk_model (sel_key (rsel_fairness sel)) = rsel_model sel"
    and "rsel_candidates sel = drop_soft marked"
    and "\<exists>c \<in> set (drop_soft marked). rc_model c = rsel_model sel"
proof -
  let ?mapm = "r_mapm (route_candidate cfg bal health w (map_option canonical_routing_model
      (pin_for_role (routing_of cfg) role)) now) (sort_dedup (map canonical_routing_model models))"
  obtain marked where m: "?mapm = Inr marked"
    using assms by (cases ?mapm) (simp_all add: select_automatic_route_def Let_def)
  let ?cs = "map fairness_of (filter rc_eligible (drop_soft marked))"
  let ?admit = "admit_equal_weight_route now w role run agent rid ?cs
      (normalized_token_work (usage_zero\<lparr>tu_input := n\<rparr>)) db"
  have ne: "?cs \<noteq> []" using assms m by (auto simp: select_automatic_route_def Let_def)
  obtain f db1 where a: "?admit = Inr (f, db1)"
    using assms m ne by (cases ?admit) (auto simp: select_automatic_route_def Let_def)
  let ?P = "\<lambda>c. rc_provider c = fk_provider (sel_key f) \<and> rc_model c = fk_model (sel_key f)"
  obtain c where c: "List.find ?P (drop_soft marked) = Some c"
    using assms m ne a by (cases "List.find ?P (drop_soft marked)") (auto simp: select_automatic_route_def Let_def)
  have "c \<in> set (drop_soft marked)" "?P c" using c by (auto simp: find_Some_iff)
  moreover have "rsel_fairness sel = f" "db' = db1" "rsel_model sel = rc_model c"
      "rsel_candidates sel = drop_soft marked"
    using assms m ne a c by (auto simp: select_automatic_route_def Let_def)
  ultimately show thesis using that[OF m] a by metis
qed

lemma not_blank_start:
  assumes "\<not> is_cont c" and "\<And>t. \<not> is_whitespace (c # t)"
  shows "\<not> blank (c # s)"
proof
  assume "blank (c # s)"
  then have "chars (trim (c # s)) = []" by simp
  then show False using assms(2) by (simp add: trim_eq chars_trim_matches)
qed

lemma canonical_not_blank: "\<not> blank (canonical_routing_model m)"
proof -
  have "\<exists>s. canonical_routing_model m = CHR ''c'' # s \<or> canonical_routing_model m = CHR ''d'' # s \<or>
      canonical_routing_model m = CHR ''x'' # s"
    by (simp add: canonical_routing_model_def Let_def split: provider_id.split)
  moreover have "\<not> blank (CHR ''c'' # s)" "\<not> blank (CHR ''d'' # s)" "\<not> blank (CHR ''x'' # s)" for s
    by (rule not_blank_start; simp add: is_cont_def is_whitespace_def unicode_white_space_def)+
  ultimately show ?thesis by metis
qed

lemma eligible_models_canonical:
  "m \<in> eligible_models cfg bal health w now role models \<Longrightarrow> m \<in> canonical_routing_model ` set models"
  by (auto simp: eligible_models_def Let_def split: if_splits)

lemma candidates_read:
  assumes "health_table_ok health"
  shows "\<exists>marked. r_mapm (route_candidate cfg bal health w pin now) models = Inr marked"
proof (induction models)
  case (Cons m ms)
  obtain h where "provider_health_of now health w (provider_key (provider_for_model m)) = Inr h"
    using provider_health_of_ok[OF assms] by blast
  then show ?case using Cons by (auto simp: route_candidate_def Let_def split: prod.split)
qed simp

lemma selected_route:
  assumes "select_automatic_route cfg bal health now w role run agent rid models n db = Inr (sel, db')"
    and "map_of (db_admissions db) rid = None"
  shows "rsel_model sel \<in> eligible_models cfg bal health w now role models \<and>
    admissible cfg bal health w now role (rsel_model sel) \<and>
    (soft_route cfg bal (rsel_model sel) \<longrightarrow>
       (\<forall>m \<in> set models. admissible cfg bal health w now role (canonical_routing_model m) \<longrightarrow>
          soft_route cfg bal (canonical_routing_model m))) \<and>
    sel_key (rsel_fairness sel) = route_key w role (route_of_model (rsel_model sel)) \<and>
    (\<forall>m \<in> eligible_models cfg bal health w now role models.
       credit (deficit_of db (route_key w role (route_of_model m))) \<le>
       credit (deficit_of db (sel_key (rsel_fairness sel))))"
proof -
  let ?E = "eligible_models cfg bal health w now role models"
  obtain marked where m: "r_mapm (route_candidate cfg bal health w (map_option canonical_routing_model
      (pin_for_role (routing_of cfg) role)) now) (sort_dedup (map canonical_routing_model models)) = Inr marked"
    and a: "admit_equal_weight_route now w role run agent rid (map fairness_of (filter rc_eligible (drop_soft marked)))
      (normalized_token_work (usage_zero\<lparr>tu_input := n\<rparr>)) db = Inr (rsel_fairness sel, db')"
    and k: "fk_model (sel_key (rsel_fairness sel)) = rsel_model sel"
    using select_Inr[OF assms(1)] by metis
  note E = eligible_routes[OF m]
  from a assms(2) obtain c where c: "c \<in> set (map fairness_of (filter rc_eligible (drop_soft marked)))"
    and s: "sel_key (rsel_fairness sel) = route_key w role c"
    and best: "\<forall>c' \<in> set (map fairness_of (filter rc_eligible (drop_soft marked))).
        credit (deficit_of db (route_key w role c')) \<le> credit (deficit_of db (sel_key (rsel_fairness sel)))"
    by (cases rule: admit_cases) (auto elim!: admit_selected)
  from c E obtain m' where m': "m' \<in> ?E" "c = route_of_model m'" by blast
  then have r: "rsel_model sel = m'" using k s by (simp add: route_key_def route_of_model_def)
  have "admissible cfg bal health w now role m' \<and> (soft_route cfg bal m' \<longrightarrow>
       (\<forall>m \<in> set models. admissible cfg bal health w now role (canonical_routing_model m) \<longrightarrow>
          soft_route cfg bal (canonical_routing_model m)))"
    using m'(1) by (auto simp: eligible_models_def Let_def split: if_splits)
  moreover have "\<forall>m \<in> ?E. credit (deficit_of db (route_key w role (route_of_model m))) \<le>
       credit (deficit_of db (sel_key (rsel_fairness sel)))"
    using best E by blast
  ultimately show ?thesis using m' r s by blast
qed

lemma route_not_blank: "\<not> blank (fc_provider (route_of_model (canonical_routing_model m)))"
    "\<not> blank (fc_model (route_of_model (canonical_routing_model m)))"
  by (simp_all add: route_of_model_def canonical_not_blank)

text \<open>Admission fails only for the reasons it names.\<close>

lemma admission_succeeds:
  assumes "routing_history db" and "\<not> blank w" and "\<not> blank role" and "\<not> blank rid"
    and "run \<in> set (db_runs db)" and "map_of (db_admissions db) rid = None"
    and "\<forall>(_, a) \<in> set (db_admissions db). \<not> (ad_run_id a = run \<and> ad_agent_id a = agent)"
    and "cs \<noteq> []" and "\<forall>c \<in> set cs. \<not> blank (fc_provider c) \<and> \<not> blank (fc_model c)"
  shows "\<exists>sel db'. admit_equal_weight_route now w role run agent rid cs e db = Inr (sel, db')"
proof -
  have ne: "sort_dedup cs \<noteq> []" using assms(8) by (metis set_empty set_sort_dedup)
  have "rid \<notin> fst ` set (db_admissions db)" using assms(6) by (simp add: map_of_eq_None_iff)
  then have "\<not> list_ex (\<lambda>c. (rid, c) \<in> set (db_candidates db)) (sort_dedup cs)"
    using history_ok[OF assms(1)] by (auto simp: routing_ok_def list_ex_iff)
  moreover have "\<not> list_ex (\<lambda>(_, a). ad_run_id a = run \<and> ad_agent_id a = agent) (db_admissions db)"
    using assms(7) by (auto simp: list_ex_iff)
  moreover have "\<not> list_ex (\<lambda>c. blank (fc_provider c) \<or> blank (fc_model c)) (sort_dedup cs)"
    using assms(9) by (auto simp: list_ex_iff)
  moreover obtain sel where "choose_equal_weight_wdrr w role
      (map (\<lambda>c. (c, deficit_of db (route_key w role c))) (sort_dedup cs)) e = Some sel"
    using ne choose_None[of w role "map (\<lambda>c. (c, deficit_of db (route_key w role c))) (sort_dedup cs)" e] by auto
  ultimately show ?thesis using assms(2-6) ne by (simp add: admit_equal_weight_route_def Let_def)
qed

lemma selection_iff:
  assumes "routing_history db" and "health_table_ok health" and "\<not> blank w" and "\<not> blank role" and "\<not> blank rid"
    and "run \<in> set (db_runs db)" and "map_of (db_admissions db) rid = None"
    and "\<forall>(_, a) \<in> set (db_admissions db). \<not> (ad_run_id a = run \<and> ad_agent_id a = agent)"
  shows "(\<exists>sel db'. select_automatic_route cfg bal health now w role run agent rid models n db = Inr (sel, db')) \<longleftrightarrow>
      eligible_models cfg bal health w now role models \<noteq> {}"
    (is "?ok \<longleftrightarrow> ?E \<noteq> {}")
proof
  assume ?ok
  then show "?E \<noteq> {}" using selected_route[OF _ assms(7)] by blast
next
  assume ne: "?E \<noteq> {}"
  obtain marked where m: "r_mapm (route_candidate cfg bal health w (map_option canonical_routing_model
      (pin_for_role (routing_of cfg) role)) now) (sort_dedup (map canonical_routing_model models)) = Inr marked"
    using candidates_read[OF assms(2)] by blast
  let ?cs = "map fairness_of (filter rc_eligible (drop_soft marked))"
  note E = eligible_routes[OF m]
  have cs: "?cs \<noteq> []" using E ne by (metis empty_set image_is_empty)
  have named: "\<forall>c \<in> set ?cs. \<not> blank (fc_provider c) \<and> \<not> blank (fc_model c)"
    unfolding E using eligible_models_canonical route_not_blank by blast
  obtain sel db' where a: "admit_equal_weight_route now w role run agent rid ?cs
      (normalized_token_work (usage_zero\<lparr>tu_input := n\<rparr>)) db = Inr (sel, db')"
    using admission_succeeds[OF assms(1,3-8) cs named] by blast
  then obtain c where "c \<in> set ?cs" "sel_key sel = route_key w role c"
    using assms(7) by (cases rule: admit_cases) (auto elim!: admit_selected)
  then have "\<exists>x \<in> set (drop_soft marked). rc_provider x = fk_provider (sel_key sel) \<and> rc_model x = fk_model (sel_key sel)"
    by (auto simp: fairness_of_def route_key_def)
  then obtain x where "List.find (\<lambda>c. rc_provider c = fk_provider (sel_key sel) \<and> rc_model c = fk_model (sel_key sel))
      (drop_soft marked) = Some x"
    by (cases "List.find (\<lambda>c. rc_provider c = fk_provider (sel_key sel) \<and> rc_model c = fk_model (sel_key sel))
      (drop_soft marked)") (auto simp: find_None_iff)
  then show ?ok using m a cs by (simp add: select_automatic_route_def Let_def)
qed

section \<open>Properties\<close>

text \<open>C3: a newly admitted automatic route is one the user, the policy and the provider's state allow: its
  model is among the candidates, meets the pin, is not excluded, its provider is neither unsupported nor
  unauthenticated, is not cooling down unless the user bypassed that, and is not under its hard reserve;
  it is under a soft reserve only when no unreserved route is eligible; and of the eligible routes it has
  the largest credited deficit.\<close>

theorem automatic_route_is_eligible:
  assumes "select_automatic_route cfg bal health now w role run agent rid models n db = Inr (sel, db')"
    and "map_of (db_admissions db) rid = None"
  shows "rsel_model sel \<in> eligible_models cfg bal health w now role models \<and>
    admissible cfg bal health w now role (rsel_model sel) \<and>
    (soft_route cfg bal (rsel_model sel) \<longrightarrow>
       (\<forall>m \<in> set models. admissible cfg bal health w now role (canonical_routing_model m) \<longrightarrow>
          soft_route cfg bal (canonical_routing_model m))) \<and>
    sel_key (rsel_fairness sel) = route_key w role (route_of_model (rsel_model sel)) \<and>
    (\<forall>m \<in> eligible_models cfg bal health w now role models.
       credit (deficit_of db (route_key w role (route_of_model m))) \<le>
       credit (deficit_of db (sel_key (rsel_fairness sel))))"
  using selected_route[OF assms] .

text \<open>C18: whenever some model is eligible a route is found: in a reachable database, with readable health,
  a known run without an admission for the agent and a fresh receipt, selection succeeds exactly when the
  set of eligible models is not empty, and otherwise reports that no model is available.\<close>

theorem automatic_route_exists:
  assumes "routing_history db" and "health_table_ok health" and "\<not> blank w" and "\<not> blank role" and "\<not> blank rid"
    and "run \<in> set (db_runs db)" and "map_of (db_admissions db) rid = None"
    and "\<forall>(_, a) \<in> set (db_admissions db). \<not> (ad_run_id a = run \<and> ad_agent_id a = agent)"
  shows "(\<exists>sel db'. select_automatic_route cfg bal health now w role run agent rid models n db = Inr (sel, db')) \<longleftrightarrow>
      eligible_models cfg bal health w now role models \<noteq> {}"
  using selection_iff[OF assms] .

lemma sample_eligible:
  "eligible_models config_default [] [] ''w'' 0 ''x'' [''gpt''] = {''chatgpt/gpt''}"
proof -
  have c: "canonical_routing_model ''gpt'' = ''chatgpt/gpt''" "provider_for_model ''chatgpt/gpt'' = ChatGptCodex"
    "worker_model_policy_exclusion ''chatgpt/gpt'' = None" by code_simp+
  have p: "pin_for_role (routing_of config_default) ''x'' = None"
    by (cases "role_family ''x''") (simp_all add: pin_for_role_def config_default_def routing_config_default_def)
  have o: "provider_override (routing_of config_default) q = routing_override_default" for q
    by (simp add: provider_override_def config_default_def routing_config_default_def)
  have r: "provider_reserve_admission config_default [] q = UnknownReserve" for q
    by (simp add: provider_reserve_admission_def o routing_override_default_def)
  have "admissible config_default [] [] ''w'' 0 ''x'' ''chatgpt/gpt''"
    by (simp add: admissible_def Let_def c p o r route_health_def provider_health_of_def
        provider_health_unknown_def cooldown_active_at_def routing_override_default_def)
  then show ?thesis by (simp add: eligible_models_def Let_def c soft_route_def r) auto
qed

lemma sample_prems:
  "health_table_ok []" "''r'' \<in> set (db_runs sample_db)" "map_of (db_admissions sample_db) ''t'' = None"
  "\<forall>(_, a) \<in> set (db_admissions sample_db). \<not> (ad_run_id a = ''r'' \<and> ad_agent_id a = ''a'')"
  by (simp_all add: sample_db_def routing_db_empty_def health_table_ok_def)

theorem automatic_route_exists_witness:
  "\<exists>sel db'. select_automatic_route config_default [] [] 0 ''w'' ''x'' ''r'' ''a'' ''t'' [''gpt''] 5 sample_db =
     Inr (sel, db')"
  using automatic_route_exists [OF sample_history sample_prems(1) sample_names(1,2,3) sample_prems(2-4),
      of config_default "[]" 0 "[''gpt'']" 5]
  by (simp add: sample_eligible)

theorem automatic_route_is_eligible_witness:
  "\<exists>sel db'. select_automatic_route config_default [] [] 0 ''w'' ''x'' ''r'' ''a'' ''t'' [''gpt''] 5 sample_db =
     Inr (sel, db') \<and> rsel_model sel = ''chatgpt/gpt''"
proof -
  obtain sel db' where
    s: "select_automatic_route config_default [] [] 0 ''w'' ''x'' ''r'' ''a'' ''t'' [''gpt''] 5 sample_db = Inr (sel, db')"
    using selection_iff[OF sample_history sample_prems(1) sample_names(1,2,3) sample_prems(2-4),
        of config_default "[]" 0 "[''gpt'']" 5] sample_eligible by auto
  from automatic_route_is_eligible [OF s sample_prems(3)] s show ?thesis by (auto simp: sample_eligible)
qed

end
