(* ===== verification/Store_Schema.thy ===== *)
theory Store_Schema
  imports Protocol Fair_Store
begin

text \<open>
  The tables of \<open>crates/minha-core/src/store.rs\<close> behind runs, messages, events, agents, tasks, leases,
  the board, the usage ledger and todos. A table is a \<open>BTreeMap\<close> from its primary key to the other
  columns of its row, with the column types of the schema: names of states and JSON documents are
  text, counters are \<open>INTEGER\<close>. Primary keys, unique indexes and foreign keys are checked where a row
  is written (\<open>PRAGMA foreign_keys = ON\<close>), and a transaction that fails leaves the database as it was.

  What SQLite and serde decide is an argument: the texts of JSON documents are written and read by a
  \<open>codec\<close>; an \<open>ORDER BY\<close> that leaves ties sorts the rows in whatever order they are scanned.
  The broadcast channel is the list of the envelopes sent so far.
\<close>

section \<open>Integers in columns\<close>

text \<open>\<open>as i64\<close> on a \<open>u64\<close> and back.\<close>

definition as_i64 :: "u64 \<Rightarrow> i64" where
  "as_i64 n = (if int n \<le> i64_max then int n else int n - 18446744073709551616)"

definition as_u64_of :: "i64 \<Rightarrow> u64" where
  "as_u64_of i = (if 0 \<le> i then nat i else nat (i + 18446744073709551616))"

text \<open>
  A number column. An integer sum that leaves \<open>i64\<close> becomes a floating-point number, whose value is
  not kept: nothing that reads an integer reads it.
\<close>

datatype sql_num = SqlInteger i64 | SqlReal

fun sql_add :: "sql_num \<Rightarrow> i64 \<Rightarrow> sql_num" where
  "sql_add (SqlInteger a) b =
     (if i64_min \<le> a + b \<and> a + b \<le> i64_max then SqlInteger (a + b) else SqlReal)"
| "sql_add SqlReal b = SqlReal"

fun get_i64 :: "sql_num \<Rightarrow> store_error + i64" where
  "get_i64 (SqlInteger a) = Inr a"
| "get_i64 SqlReal = Inl (Sqlite ''invalid column type Real'')"

lemma as_i64_small: "int n \<le> i64_max \<Longrightarrow> as_i64 n = int n"
  by (simp add: as_i64_def)

lemma as_u64_of_as_i64: "n \<le> u64_max \<Longrightarrow> as_u64_of (as_i64 n) = n"
  by (auto simp: as_u64_of_def as_i64_def)

lemma as_i64_range: "n \<le> u64_max \<Longrightarrow> i64_min \<le> as_i64 n \<and> as_i64 n \<le> i64_max"
  by (auto simp: as_i64_def)

lemma as_i64_inj: "m \<le> u64_max \<Longrightarrow> n \<le> u64_max \<Longrightarrow> as_i64 m = as_i64 n \<longleftrightarrow> m = n"
  by (metis as_u64_of_as_i64)

section \<open>Writing rows\<close>

definition insert_row :: "'k::linorder \<Rightarrow> 'v \<Rightarrow> ('k \<times> 'v) list \<Rightarrow> store_error + ('k \<times> 'v) list" where
  "insert_row k v t =
     (if map_of t k \<noteq> None then Inl (Sqlite ''UNIQUE constraint failed'') else Inr (bt_insert k v t))"

definition references :: "('k \<times> 'v) list \<Rightarrow> 'k \<Rightarrow> store_error + 'a \<Rightarrow> store_error + 'a" where
  "references t k r =
     (if map_of t k = None then Inl (Sqlite ''FOREIGN KEY constraint failed'') else r)"

definition delete_where :: "('k \<Rightarrow> 'v \<Rightarrow> bool) \<Rightarrow> ('k \<times> 'v) list \<Rightarrow> ('k \<times> 'v) list" where
  "delete_where P t = filter (\<lambda>(k, v). \<not> P k v) t"

definition count_where :: "('k \<Rightarrow> 'v \<Rightarrow> bool) \<Rightarrow> ('k \<times> 'v) list \<Rightarrow> nat" where
  "count_where P t = length (filter (\<lambda>(k, v). P k v) t)"

text \<open>Inserting a list of things, the first error first.\<close>

fun fold_result :: "('a \<Rightarrow> 's \<Rightarrow> 'e + 's) \<Rightarrow> 'a list \<Rightarrow> 's \<Rightarrow> 'e + 's" where
  "fold_result f [] s = Inr s"
| "fold_result f (x # xs) s = (case f x s of Inl e \<Rightarrow> Inl e | Inr s' \<Rightarrow> fold_result f xs s')"

lemma insert_row_Inr [result_simps]:
  "insert_row k v t = Inr t' \<longleftrightarrow> map_of t k = None \<and> t' = bt_insert k v t"
  by (auto simp: insert_row_def)

lemma references_Inr [result_simps]: "references t k r = Inr x \<longleftrightarrow> map_of t k \<noteq> None \<and> r = Inr x"
  by (auto simp: references_def)

lemma filter_keys_bt_ok: "bt_ok t \<Longrightarrow> bt_ok (filter P t)"
  by (induction t) (auto simp: bt_ok_Cons)

lemma bt_ok_delete_where: "bt_ok t \<Longrightarrow> bt_ok (delete_where P t)"
  by (simp add: delete_where_def filter_keys_bt_ok)

lemma map_of_filter_distinct:
  "distinct (map fst t) \<Longrightarrow>
   map_of (filter P t) k = (case map_of t k of None \<Rightarrow> None | Some v \<Rightarrow> if P (k, v) then Some v else None)"
proof (induction t)
  case (Cons p t)
  then have "fst p = k \<Longrightarrow> map_of t k = None" by (auto simp: map_of_eq_None_iff)
  with Cons show ?case by (cases p) auto
qed simp

lemma map_of_delete_where:
  "bt_ok t \<Longrightarrow> map_of (delete_where P t) k =
     (case map_of t k of None \<Rightarrow> None | Some v \<Rightarrow> if P k v then None else Some v)"
  by (simp add: delete_where_def map_of_filter_distinct bt_ok_distinct split: option.split)

lemma set_delete_where: "p \<in> set (delete_where P t) \<longleftrightarrow> p \<in> set t \<and> \<not> P (fst p) (snd p)"
  by (auto simp: delete_where_def split: prod.splits)

lemma fold_result_append:
  "fold_result f (xs @ ys) s = (case fold_result f xs s of Inl e \<Rightarrow> Inl e | Inr s' \<Rightarrow> fold_result f ys s')"
  by (induction xs arbitrary: s) (auto split: sum.split)

text \<open>An invariant of the single step is an invariant of the fold.\<close>

lemma fold_result_inv:
  assumes "fold_result f xs s = Inr s'" and "I s"
    and "\<And>x s s'. x \<in> set xs \<Longrightarrow> I s \<Longrightarrow> f x s = Inr s' \<Longrightarrow> I s'"
  shows "I s'"
  using assms
proof (induction xs arbitrary: s)
  case Nil
  then show ?case by simp
next
  case (Cons x xs)
  from Cons.prems(1) obtain s1 where step: "f x s = Inr s1" and rest: "fold_result f xs s1 = Inr s'"
    by (auto split: sum.splits)
  have "I s1" using Cons.prems(2,3) step by (meson list.set_intros(1))
  then show ?case using Cons.IH[OF rest] Cons.prems(3) by (meson list.set_intros(2))
qed

section \<open>Rows\<close>

record run_row =
  rw_title :: str
  rw_goal :: str
  rw_mode :: str
  rw_state :: str
  rw_model :: "str option"
  rw_created_at :: time
  rw_updated_at :: time
  rw_input_tokens :: sql_num
  rw_output_tokens :: sql_num
  rw_summary :: "str option"
  rw_pending_question :: "str option"
  rw_archived :: bool
  rw_parent_run_id :: "str option"

record workspace_row =
  wr_root :: str
  wr_created_at :: time
  wr_updated_at :: time

record message_row =
  mr_role :: str
  mr_content :: str
  mr_compacted :: bool
  mr_occurred_at :: time

record event_row =
  er_protocol_version :: u16
  er_turn_id :: "str option"
  er_kind :: str
  er_payload :: str
  er_occurred_at :: time

record agent_row =
  ar_parent :: "str option"
  ar_role :: str
  ar_model :: str
  ar_state :: str
  ar_task_id :: "str option"
  ar_attempt :: u32
  ar_generation :: i64
  ar_started_at :: time
  ar_updated_at :: time
  ar_finished_at :: "time option"

record task_row =
  tr_objective :: str
  tr_state :: str
  tr_paths :: str
  tr_assigned :: "str option"
  tr_attempt :: u32
  tr_max_attempts :: u32
  tr_generation :: i64
  tr_last_error :: "str option"
  tr_created_at :: time
  tr_updated_at :: time

record contract_row =
  cr_schema_version :: i64
  cr_contract :: str
  cr_created_at :: time
  cr_updated_at :: time

record receipt_row =
  rr_run_id :: str
  rr_task_id :: str
  rr_generation :: i64
  rr_schema_version :: i64
  rr_receipt :: str
  rr_created_at :: time

record lease_row =
  lr_task_id :: str
  lr_agent_id :: str
  lr_generation :: i64
  lr_expires_at :: time

record board_row =
  br_workspace_id :: str
  br_run_id :: "str option"
  br_scope :: str
  br_kind :: str
  br_subject :: str
  br_body :: str
  br_task_id :: "str option"
  br_author :: "str option"
  br_confidence :: i64
  br_status :: str
  br_supersedes_id :: "str option"
  br_evidence :: str
  br_created_at :: time
  br_updated_at :: time

record revision_row =
  vr_body :: str
  vr_status :: str
  vr_author :: "str option"
  vr_created_at :: time

record usage_row =
  ur_run_id :: str
  ur_schema_version :: i64
  ur_kind :: str
  ur_state :: str
  ur_provider :: str
  ur_model :: str
  ur_agent_id :: "str option"
  ur_response_id :: "str option"
  ur_input :: i64
  ur_output :: i64
  ur_cached_input :: i64
  ur_cache_write :: i64
  ur_reasoning_output :: i64
  ur_context_tokens :: "i64 option"
  ur_occurred_at :: time

record todo_row =
  tw_objective :: str
  tw_state :: str
  tw_sort_order :: u32
  tw_blocker :: "str option"
  tw_evidence :: str
  tw_revision :: i64
  tw_updated_at :: time

record intake_row =
  ir_schema_version :: i64
  ir_status :: str
  ir_snapshot :: str
  ir_created_at :: time
  ir_updated_at :: time

section \<open>The database\<close>

record store_db =
  t_runs :: "(str \<times> run_row) list"
  t_workspaces :: "(str \<times> workspace_row) list"
  t_run_workspaces :: "(str \<times> str) list"
  t_messages :: "((str \<times> i64) \<times> message_row) list"
  t_events :: "((str \<times> i64) \<times> event_row) list"
  t_agents :: "((str \<times> str) \<times> agent_row) list"
  t_tasks :: "((str \<times> str) \<times> task_row) list"
  t_dependencies :: "((str \<times> str \<times> str) \<times> unit) list"
  t_contracts :: "((str \<times> str) \<times> contract_row) list"
  t_receipts :: "(str \<times> receipt_row) list"
  t_leases :: "((str \<times> str) \<times> lease_row) list"
  t_board :: "(str \<times> board_row) list"
  t_revisions :: "((str \<times> i64) \<times> revision_row) list"
  t_usage :: "(str \<times> usage_row) list"
  t_todos :: "((str \<times> str \<times> str) \<times> todo_row) list"
  t_intakes :: "(str \<times> intake_row) list"
  t_sent :: "event_envelope list"

definition store_empty :: store_db where
  "store_empty =
     \<lparr>t_runs = [], t_workspaces = [], t_run_workspaces = [], t_messages = [], t_events = [], t_agents = [],
      t_tasks = [], t_dependencies = [], t_contracts = [], t_receipts = [], t_leases = [], t_board = [],
      t_revisions = [], t_usage = [], t_todos = [], t_intakes = [], t_sent = []\<rparr>"

text \<open>Every table holds its rows in the order of its primary key, once each.\<close>

definition tables_ok :: "store_db \<Rightarrow> bool" where
  "tables_ok db \<longleftrightarrow>
     bt_ok (t_runs db) \<and> bt_ok (t_workspaces db) \<and> bt_ok (t_run_workspaces db) \<and> bt_ok (t_messages db) \<and>
     bt_ok (t_events db) \<and> bt_ok (t_agents db) \<and> bt_ok (t_tasks db) \<and> bt_ok (t_dependencies db) \<and>
     bt_ok (t_contracts db) \<and> bt_ok (t_receipts db) \<and> bt_ok (t_leases db) \<and> bt_ok (t_board db) \<and>
     bt_ok (t_revisions db) \<and> bt_ok (t_usage db) \<and> bt_ok (t_todos db) \<and> bt_ok (t_intakes db)"

lemma tables_ok_empty [simp]: "tables_ok store_empty"
  by (simp add: tables_ok_def store_empty_def)

section \<open>JSON documents\<close>

text \<open>
  \<open>serde_json::to_string\<close> and \<open>from_str\<close> at the types the store keeps as documents. Writing may fail
  as well; reading a text that is not of the type fails with serde's message.
\<close>

record codec =
  enc_strs :: "str list \<Rightarrow> str + str"
  dec_strs :: "str \<Rightarrow> str + str list"
  enc_value :: "json \<Rightarrow> str + str"
  dec_value :: "str \<Rightarrow> str + json"
  enc_event :: "runtime_event \<Rightarrow> str + str"
  dec_event :: "str \<Rightarrow> str + runtime_event"
  enc_contract :: "microtask_contract \<Rightarrow> str + str"
  dec_contract :: "str \<Rightarrow> str + microtask_contract"
  enc_receipt_v1 :: "dispatch_receipt_v1 \<Rightarrow> str + str"
  enc_receipt :: "dispatch_receipt \<Rightarrow> str + str"
  dec_receipt :: "str \<Rightarrow> str + dispatch_receipt"
  enc_view :: "issue_clarification_view \<Rightarrow> str + str"
  dec_view :: "str \<Rightarrow> str + issue_clarification_view"

definition json_err :: "str + 'a \<Rightarrow> store_error + 'a" where
  "json_err r = (case r of Inl e \<Rightarrow> Inl (StoreJson e) | Inr x \<Rightarrow> Inr x)"

lemma json_err_simps [simp]: "json_err (Inl e) = Inl (StoreJson e)" "json_err (Inr x) = Inr x"
  by (simp_all add: json_err_def)

lemma json_err_Inr [result_simps]: "json_err r = Inr x \<longleftrightarrow> r = Inr x"
  by (cases r) auto

text \<open>What serde documents of a document that was written: it is read back.\<close>

definition reads_back :: "('a \<Rightarrow> str + str) \<Rightarrow> (str \<Rightarrow> str + 'a) \<Rightarrow> 'a \<Rightarrow> bool" where
  "reads_back enc dec x \<longleftrightarrow> (\<exists>t. enc x = Inr t \<and> dec t = Inr x)"

section \<open>Sequences of statements\<close>

text \<open>
  An operation that issues several statements without a transaction around them keeps what the earlier
  ones wrote when a later one fails. It is a function from the database to its result and the database
  it leaves; a single statement or transaction is lifted by \<open>txn\<close>.
\<close>

type_synonym 'a store_m = "store_db \<Rightarrow> (store_error + 'a) \<times> store_db"

definition sm_return :: "'a \<Rightarrow> 'a store_m" where
  "sm_return x db = (Inr x, db)"

definition sm_bind :: "'a store_m \<Rightarrow> ('a \<Rightarrow> 'b store_m) \<Rightarrow> 'b store_m" where
  "sm_bind m f db = (case m db of (Inl e, db') \<Rightarrow> (Inl e, db') | (Inr x, db') \<Rightarrow> f x db')"

definition txn :: "(store_db \<Rightarrow> store_error + 'a \<times> store_db) \<Rightarrow> 'a store_m" where
  "txn f db = (case f db of Inl e \<Rightarrow> (Inl e, db) | Inr (x, db') \<Rightarrow> (Inr x, db'))"

definition exec :: "(store_db \<Rightarrow> store_error + store_db) \<Rightarrow> unit store_m" where
  "exec f db = (case f db of Inl e \<Rightarrow> (Inl e, db) | Inr db' \<Rightarrow> (Inr (), db'))"

definition query :: "(store_db \<Rightarrow> store_error + 'a) \<Rightarrow> 'a store_m" where
  "query f db = (f db, db)"

fun sm_each :: "('a \<Rightarrow> unit store_m) \<Rightarrow> 'a list \<Rightarrow> unit store_m" where
  "sm_each f [] = sm_return ()"
| "sm_each f (x # xs) = sm_bind (f x) (\<lambda>_. sm_each f xs)"

lemma sm_return_run [simp]: "sm_return x db = (Inr x, db)"
  by (simp add: sm_return_def)

lemma query_run [simp]: "query f db = (f db, db)"
  by (simp add: query_def)

lemma sm_bind_Inr [result_simps]:
  "sm_bind m f db = (Inr y, db') \<longleftrightarrow> (\<exists>x db1. m db = (Inr x, db1) \<and> f x db1 = (Inr y, db'))"
  by (auto simp: sm_bind_def split: prod.splits sum.splits)

lemma txn_Inr [result_simps]: "txn f db = (Inr x, db') \<longleftrightarrow> f db = Inr (x, db')"
  by (auto simp: txn_def split: sum.splits)

lemma exec_Inr [result_simps]: "exec f db = (Inr u, db') \<longleftrightarrow> f db = Inr db'"
  by (auto simp: exec_def split: sum.splits)

lemma sm_bind_inv:
  assumes "\<And>db. I db \<Longrightarrow> I (snd (m db))" and "\<And>x db. I db \<Longrightarrow> I (snd (f x db))" and "I db"
  shows "I (snd (sm_bind m f db))"
  using assms by (auto simp: sm_bind_def split: prod.splits sum.splits) (metis snd_conv)+

lemma txn_inv:
  assumes "\<And>x db'. f db = Inr (x, db') \<Longrightarrow> I db'" and "I db"
  shows "I (snd (txn f db))"
  using assms by (auto simp: txn_def split: sum.splits)

lemma exec_inv:
  assumes "\<And>db'. f db = Inr db' \<Longrightarrow> I db'" and "I db"
  shows "I (snd (exec f db))"
  using assms by (auto simp: exec_def split: sum.splits)

lemma sm_each_inv:
  assumes "\<And>x db. x \<in> set xs \<Longrightarrow> I db \<Longrightarrow> I (snd (f x db))" and "I db"
  shows "I (snd (sm_each f xs db))"
  using assms
proof (induction xs arbitrary: db)
  case Nil
  then show ?case by simp
next
  case (Cons x xs)
  show ?case
    unfolding sm_each.simps
  proof (rule sm_bind_inv[where I = I])
    show "I db' \<Longrightarrow> I (snd (f x db'))" for db' using Cons.prems(1) by simp
    show "I db' \<Longrightarrow> I (snd (sm_each f xs db'))" for db' using Cons by (meson list.set_intros(2))
    show "I db" by (rule Cons.prems(2))
  qed
qed

end
