(* ===== verification/Store_Runs.thy ===== *)
theory Store_Runs
  imports Store_Schema Facts
begin

text \<open>
  Runs, their messages and events, and workspaces (\<open>crates/minha-core/src/store.rs\<close>). Each operation
  takes the instant \<open>Utc::now()\<close> gives it and the fresh identifiers it draws. The sequence numbers of
  messages and of events are drawn and written under one lock of the connection.
\<close>

section \<open>Names of states\<close>

fun mode_name_of :: "mode \<Rightarrow> str" where
  "mode_name_of Interactive = ''interactive''"
| "mode_name_of Batch = ''batch''"
| "mode_name_of ReviewMode = ''review''"

fun state_name :: "exit_state \<Rightarrow> str" where
  "state_name ExitPending = ''pending''"
| "state_name ExitRunning = ''running''"
| "state_name ExitSucceeded = ''succeeded''"
| "state_name ExitFailed = ''failed''"
| "state_name ExitCancelled = ''cancelled''"
| "state_name ExitBlocked = ''blocked''"
| "state_name ExitInconclusive = ''inconclusive''"
| "state_name ExitNeedsInput = ''needs_input''"
| "state_name ExitUsagePaused = ''usage_paused''"
| "state_name ExitApprovalRequired = ''approval_required''"
| "state_name ExitAuthUnavailable = ''auth_unavailable''"
| "state_name ExitModelUnavailable = ''model_unavailable''"

definition parse_state :: "str \<Rightarrow> store_error + exit_state" where
  "parse_state value =
     (if value = ''pending'' then Inr ExitPending
      else if value = ''running'' then Inr ExitRunning
      else if value = ''succeeded'' then Inr ExitSucceeded
      else if value = ''failed'' then Inr ExitFailed
      else if value = ''cancelled'' then Inr ExitCancelled
      else if value = ''blocked'' then Inr ExitBlocked
      else if value = ''inconclusive'' then Inr ExitInconclusive
      else if value = ''needs_input'' then Inr ExitNeedsInput
      else if value = ''usage_paused'' then Inr ExitUsagePaused
      else if value = ''approval_required'' then Inr ExitApprovalRequired
      else if value = ''auth_unavailable'' then Inr ExitAuthUnavailable
      else if value = ''model_unavailable'' then Inr ExitModelUnavailable
      else Inl (StoreState value))"

lemma parse_state_name [simp]: "parse_state (state_name s) = Inr s"
  by (induction s) code_simp+

lemma mode_from_name [simp]: "mode_from_str (mode_name_of m) = Inr m"
  by (induction m) code_simp+

text \<open>Names of a state, read back as an option, are a wire format of the library.\<close>

definition ok_of :: "'e + 'a \<Rightarrow> 'a option" where
  "ok_of r = (case r of Inl _ \<Rightarrow> None | Inr x \<Rightarrow> Some x)"

lemma ok_of_simps [simp]: "ok_of (Inl e) = None" "ok_of (Inr x) = Some x"
  by (simp_all add: ok_of_def)

interpretation exit_names: wire_format state_name "\<lambda>w. ok_of (parse_state w)" "\<lambda>_. True"
  by unfold_locales simp

section \<open>Runs\<close>

record run_record =
  rn_id :: run_id
  rn_title :: str
  rn_goal :: str
  rn_mode :: mode
  rn_state :: exit_state
  rn_model :: "str option"
  rn_created_at :: time
  rn_updated_at :: time
  rn_input_tokens :: u64
  rn_output_tokens :: u64
  rn_summary :: "str option"
  rn_pending_question :: "str option"
  rn_archived :: bool
  rn_parent_run_id :: "run_id option"

definition session_title :: "str \<Rightarrow> str" where
  "session_title goal =
     (let title = join '' '' (take 8 (split_whitespace goal)) in
      if title = [] then ''New session''
      else if 72 < char_count title then take_chars 69 title @ ''...''
      else title)"

definition create_run :: "time \<Rightarrow> run_id \<Rightarrow> str \<Rightarrow> mode \<Rightarrow> store_db \<Rightarrow> store_error + run_record \<times> store_db" where
  "create_run now fresh goal m db =
     (let title = session_title goal;
          run = \<lparr>rn_id = fresh, rn_title = title, rn_goal = goal, rn_mode = m, rn_state = ExitPending,
                 rn_model = None, rn_created_at = now, rn_updated_at = now, rn_input_tokens = 0,
                 rn_output_tokens = 0, rn_summary = None, rn_pending_question = None,
                 rn_archived = False, rn_parent_run_id = None\<rparr>;
          row = \<lparr>rw_title = title, rw_goal = goal, rw_mode = mode_name_of m, rw_state = state_name ExitPending,
                 rw_model = None, rw_created_at = now, rw_updated_at = now,
                 rw_input_tokens = SqlInteger 0, rw_output_tokens = SqlInteger 0, rw_summary = None,
                 rw_pending_question = None, rw_archived = False, rw_parent_run_id = None\<rparr>
      in r_map (\<lambda>t. (run, db\<lparr>t_runs := t\<rparr>)) (insert_row fresh row (t_runs db)))"

definition decode_run :: "run_id \<Rightarrow> run_row \<Rightarrow> store_error + run_record" where
  "decode_run rid row =
     r_bind (get_i64 (rw_input_tokens row)) (\<lambda>input.
     r_bind (get_i64 (rw_output_tokens row)) (\<lambda>out.
     r_bind (case mode_from_str (rw_mode row) of Inl e \<Rightarrow> Inl (StoreMode e) | Inr m \<Rightarrow> Inr m) (\<lambda>m.
     r_bind (parse_state (rw_state row)) (\<lambda>st.
       Inr \<lparr>rn_id = rid, rn_title = rw_title row, rn_goal = rw_goal row, rn_mode = m, rn_state = st,
            rn_model = rw_model row, rn_created_at = rw_created_at row,
            rn_updated_at = rw_updated_at row, rn_input_tokens = nat (max input 0),
            rn_output_tokens = nat (max out 0), rn_summary = rw_summary row,
            rn_pending_question = rw_pending_question row, rn_archived = rw_archived row,
            rn_parent_run_id = rw_parent_run_id row\<rparr>))))"

definition run_of :: "run_id \<Rightarrow> store_db \<Rightarrow> store_error + run_record option" where
  "run_of rid db =
     (case map_of (t_runs db) rid of None \<Rightarrow> Inr None
      | Some row \<Rightarrow> r_map Some (decode_run rid row))"

text \<open>
  \<open>ORDER BY updated_at DESC\<close>: a stable sort of the rows in the order they are scanned, an argument.
\<close>

definition active_runs :: "((str \<times> run_row) list \<Rightarrow> (str \<times> run_row) list) \<Rightarrow> store_db \<Rightarrow> (str \<times> run_row) list" where
  "active_runs scan db =
     sort_key (\<lambda>(_, row). - rw_updated_at row) (scan (filter (\<lambda>(_, row). \<not> rw_archived row) (t_runs db)))"

definition latest_run ::
    "((str \<times> run_row) list \<Rightarrow> (str \<times> run_row) list) \<Rightarrow> store_db \<Rightarrow> store_error + run_record option" where
  "latest_run scan db =
     (case active_runs scan db of [] \<Rightarrow> Inr None
      | (rid, row) # _ \<Rightarrow> r_map Some (decode_run rid row))"

definition list_runs ::
    "((str \<times> run_row) list \<Rightarrow> (str \<times> run_row) list) \<Rightarrow> usize \<Rightarrow> store_db \<Rightarrow> store_error + run_record list"
    where
  "list_runs scan lim db =
     r_mapm (\<lambda>(rid, row). decode_run rid row) (take (min lim 1000) (active_runs scan db))"

definition update_run_state ::
    "time \<Rightarrow> run_id \<Rightarrow> exit_state \<Rightarrow> str option \<Rightarrow> str option \<Rightarrow> str option \<Rightarrow> store_db \<Rightarrow> store_db" where
  "update_run_state now rid st mdl summary question db =
     db\<lparr>t_runs := bt_update rid (\<lambda>row. row\<lparr>rw_state := state_name st,
           rw_model := or_else mdl (rw_model row), rw_summary := or_else summary (rw_summary row),
           rw_pending_question := question, rw_updated_at := now\<rparr>) (t_runs db)\<rparr>"
section \<open>Workspaces\<close>

record workspace_record =
  wk_id :: str
  wk_root :: str
  wk_created_at :: time
  wk_updated_at :: time

definition workspace_id_of :: "(str \<Rightarrow> str) \<Rightarrow> str \<Rightarrow> str" where
  "workspace_id_of sha256 root_path = hex (take 16 (sha256 root_path))"

definition ensure_workspace ::
    "(str \<Rightarrow> str) \<Rightarrow> time \<Rightarrow> str \<Rightarrow> store_db \<Rightarrow> store_error + workspace_record \<times> store_db" where
  "ensure_workspace sha256 now root_path db =
     (let wid = workspace_id_of sha256 root_path;
          rec = \<lparr>wk_id = wid, wk_root = root_path, wk_created_at = now, wk_updated_at = now\<rparr>
      in if (\<exists>(w, row) \<in> set (t_workspaces db). w \<noteq> wid \<and> wr_root row = root_path)
         then Inl (Sqlite ''UNIQUE constraint failed'')
         else Inr (rec, db\<lparr>t_workspaces :=
           (case map_of (t_workspaces db) wid of
              None \<Rightarrow> bt_insert wid \<lparr>wr_root = root_path, wr_created_at = now, wr_updated_at = now\<rparr> (t_workspaces db)
            | Some _ \<Rightarrow> bt_update wid (\<lambda>row. row\<lparr>wr_root := root_path, wr_updated_at := now\<rparr>)
                (t_workspaces db))\<rparr>))"

text \<open>\<open>INSERT OR IGNORE\<close> ignores a run that is attached already; a missing parent row is still an error.\<close>

definition attach_run_workspace :: "run_id \<Rightarrow> str \<Rightarrow> store_db \<Rightarrow> store_error + store_db" where
  "attach_run_workspace rid wid db =
     (if map_of (t_run_workspaces db) rid \<noteq> None then Inr db
      else references (t_runs db) rid (references (t_workspaces db) wid
        (Inr (db\<lparr>t_run_workspaces := bt_insert rid wid (t_run_workspaces db)\<rparr>))))"

definition workspace_for_run :: "run_id \<Rightarrow> store_db \<Rightarrow> str option" where
  "workspace_for_run rid db = map_of (t_run_workspaces db) rid"

section \<open>Messages\<close>

record stored_message =
  sm_run_id :: run_id
  sm_sequence :: u64
  sm_role :: str
  sm_content :: json
  sm_compacted :: bool
  sm_occurred_at :: time

text \<open>\<open>COALESCE(MAX(sequence), -1) + 1\<close> over the rows of a run, read as an \<open>i64\<close>.\<close>

definition sequences :: "str \<Rightarrow> ((str \<times> i64) \<times> 'r) list \<Rightarrow> i64 list" where
  "sequences rid t = map (snd \<circ> fst) (filter (\<lambda>p. fst (fst p) = rid) t)"

definition next_sequence :: "str \<Rightarrow> ((str \<times> i64) \<times> 'r) list \<Rightarrow> store_error + i64" where
  "next_sequence rid t =
     get_i64 (sql_add (SqlInteger (case sequences rid t of [] \<Rightarrow> -1 | s # ss \<Rightarrow> foldl max s ss)) 1)"

definition append_message ::
    "codec \<Rightarrow> time \<Rightarrow> run_id \<Rightarrow> str \<Rightarrow> json \<Rightarrow> bool \<Rightarrow> store_db \<Rightarrow> store_error + u64 \<times> store_db" where
  "append_message C now rid msg_role content compacted db =
     r_bind (next_sequence rid (t_messages db)) (\<lambda>n.
     r_bind (json_err (enc_value C content)) (\<lambda>body.
     r_bind (references (t_runs db) rid (insert_row (rid, n)
         \<lparr>mr_role = msg_role, mr_content = body, mr_compacted = compacted, mr_occurred_at = now\<rparr>
         (t_messages db))) (\<lambda>t.
       Inr (as_u64_of n, db\<lparr>t_messages := t\<rparr>))))"

definition decode_message :: "codec \<Rightarrow> run_id \<Rightarrow> i64 \<times> message_row \<Rightarrow> store_error + stored_message" where
  "decode_message C rid p =
     r_map (\<lambda>v. \<lparr>sm_run_id = rid, sm_sequence = as_u64_of (fst p), sm_role = mr_role (snd p), sm_content = v,
                 sm_compacted = mr_compacted (snd p), sm_occurred_at = mr_occurred_at (snd p)\<rparr>)
       (json_err (dec_value C (mr_content (snd p))))"

text \<open>The rows of a run in the order of their sequence numbers, which is the order of the primary key.\<close>

definition rows_of_run :: "str \<Rightarrow> ((str \<times> 'k) \<times> 'r) list \<Rightarrow> ('k \<times> 'r) list" where
  "rows_of_run rid t = map (\<lambda>((_, k), r). (k, r)) (filter (\<lambda>p. fst (fst p) = rid) t)"

definition messages_of :: "codec \<Rightarrow> run_id \<Rightarrow> store_db \<Rightarrow> store_error + stored_message list" where
  "messages_of C rid db = r_mapm (decode_message C rid) (rows_of_run rid (t_messages db))"

section \<open>Events\<close>

definition event_row_of :: "codec \<Rightarrow> event_envelope \<Rightarrow> store_error + event_row" where
  "event_row_of C env =
     r_map (\<lambda>payload. \<lparr>er_protocol_version = env_protocol_version env, er_turn_id = env_turn_id env,
                       er_kind = envelope_kind env, er_payload = payload,
                       er_occurred_at = env_occurred_at env\<rparr>)
       (json_err (enc_event C (env_event env)))"

text \<open>A sent envelope reaches the subscribers; that nobody listens is not an error.\<close>

definition append_event :: "codec \<Rightarrow> event_envelope \<Rightarrow> store_db \<Rightarrow> store_error + store_db" where
  "append_event C env db =
     r_bind (event_row_of C env) (\<lambda>row.
     r_bind (references (t_runs db) (env_run_id env)
         (insert_row (env_run_id env, as_i64 (env_sequence env)) row (t_events db))) (\<lambda>t.
       Inr (db\<lparr>t_events := t, t_sent := t_sent db @ [env]\<rparr>)))"

definition record_runtime_event ::
    "codec \<Rightarrow> time \<Rightarrow> run_id \<Rightarrow> runtime_event \<Rightarrow> store_db \<Rightarrow> store_error + event_envelope \<times> store_db" where
  "record_runtime_event C now rid e db =
     r_bind (next_sequence rid (t_events db)) (\<lambda>n.
       let env = envelope_new now rid (as_u64_of n) e in
       r_bind (event_row_of C env) (\<lambda>row.
       r_bind (references (t_runs db) rid (insert_row (rid, as_i64 (env_sequence env)) row (t_events db))) (\<lambda>t.
         Inr (env, db\<lparr>t_events := t, t_sent := t_sent db @ [env]\<rparr>))))"

definition record_event ::
    "codec \<Rightarrow> time \<Rightarrow> run_id \<Rightarrow> str \<Rightarrow> json \<Rightarrow> store_db \<Rightarrow> store_error + event_envelope \<times> store_db" where
  "record_event C now rid kind payload = record_runtime_event C now rid (EvLegacy kind payload)"

definition publish_runtime_event :: "time \<Rightarrow> run_id \<Rightarrow> runtime_event \<Rightarrow> store_db \<Rightarrow> store_db" where
  "publish_runtime_event now rid e db =
     db\<lparr>t_sent := t_sent db @ [(envelope_new now rid u64_max e)\<lparr>env_sequence := u64_max\<rparr>]\<rparr>"

definition decode_event :: "codec \<Rightarrow> u16 \<Rightarrow> str \<Rightarrow> str \<Rightarrow> store_error + runtime_event" where
  "decode_event C protocol kind payload =
     (if MIN_TYPED_PROTOCOL_VERSION \<le> protocol then json_err (dec_event C payload)
      else r_map (EvLegacy kind) (json_err (dec_value C payload)))"

definition envelope_of :: "codec \<Rightarrow> run_id \<Rightarrow> u64 \<Rightarrow> event_row \<Rightarrow> store_error + event_envelope" where
  "envelope_of C rid seq row =
     r_map (\<lambda>e. \<lparr>env_protocol_version = er_protocol_version row, env_run_id = rid,
                 env_turn_id = er_turn_id row, env_sequence = seq, env_event = e,
                 env_occurred_at = er_occurred_at row\<rparr>)
       (decode_event C (er_protocol_version row) (er_kind row) (er_payload row))"

definition event_of :: "codec \<Rightarrow> run_id \<Rightarrow> u64 \<Rightarrow> store_db \<Rightarrow> store_error + event_envelope option" where
  "event_of C rid seq db =
     (case map_of (t_events db) (rid, as_i64 seq) of None \<Rightarrow> Inr None
      | Some row \<Rightarrow> r_map Some (envelope_of C rid seq row))"

definition events_of :: "codec \<Rightarrow> run_id \<Rightarrow> store_db \<Rightarrow> store_error + event_envelope list" where
  "events_of C rid db =
     r_mapm (\<lambda>(n, row). envelope_of C rid (as_u64_of n) row) (rows_of_run rid (t_events db))"

definition set_title :: "time \<Rightarrow> run_id \<Rightarrow> str \<Rightarrow> store_db \<Rightarrow> store_db" where
  "set_title now rid title db =
     db\<lparr>t_runs := bt_update rid (\<lambda>row. row\<lparr>rw_title := title, rw_updated_at := now\<rparr>) (t_runs db)\<rparr>"

definition rename_run :: "codec \<Rightarrow> time \<Rightarrow> time \<Rightarrow> run_id \<Rightarrow> str \<Rightarrow> unit store_m" where
  "rename_run C now now' rid title =
     (let title = trim title in
      if title = [] then sm_return ()
      else sm_bind (exec (\<lambda>db. Inr (set_title now rid title db))) (\<lambda>_.
           sm_bind (txn (record_runtime_event C now' rid (Session (EvSessionRenamed title)))) (\<lambda>_.
             sm_return ())))"

definition set_archived :: "time \<Rightarrow> run_id \<Rightarrow> store_db \<Rightarrow> store_db" where
  "set_archived now rid db =
     db\<lparr>t_runs := bt_update rid (\<lambda>row. row\<lparr>rw_archived := True, rw_updated_at := now\<rparr>) (t_runs db)\<rparr>"

definition archive_run :: "codec \<Rightarrow> time \<Rightarrow> time \<Rightarrow> run_id \<Rightarrow> unit store_m" where
  "archive_run C now now' rid =
     sm_bind (exec (\<lambda>db. Inr (set_archived now rid db))) (\<lambda>_.
     sm_bind (txn (record_runtime_event C now' rid (Session EvSessionArchived))) (\<lambda>_. sm_return ()))"

section \<open>The event log\<close>

lemma rows_of_run_insert_other: "a \<noteq> rid \<Longrightarrow> rows_of_run rid (bt_insert (a, n) r t) = rows_of_run rid t"
  by (induction t) (auto simp: rows_of_run_def)

lemma rows_of_run_insert_last:
  "bt_ok t \<Longrightarrow> \<forall>p \<in> set (rows_of_run rid t). fst p < n \<Longrightarrow>
   rows_of_run rid (bt_insert (rid, n) r t) = rows_of_run rid t @ [(n, r)]"
proof (induction t)
  case (Cons p t)
  obtain a m v where p: "p = ((a, m), v)" by (metis prod.collapse)
  have IH: "rows_of_run rid (bt_insert (rid, n) r t) = rows_of_run rid t @ [(n, r)]"
    using Cons by (auto simp: bt_ok_Cons rows_of_run_def)
  have here: "a = rid \<Longrightarrow> m < n" using Cons.prems(2) by (simp add: p rows_of_run_def)
  have rest: "rows_of_run rid t = []" if "(rid, n) < (a, m)"
  proof -
    have "a \<noteq> rid" using that here by (auto simp: less_prod_def)
    with that have "rid < a" by (auto simp: less_prod_def less_le)
    moreover have "\<forall>q \<in> set t. (a, m) < fst q" using Cons.prems(1) by (simp add: bt_ok_Cons p)
    ultimately have "\<forall>q \<in> set t. rid < fst (fst q)" by (auto simp: less_prod_def dest: less_le_trans less_trans)
    then show ?thesis by (auto simp: rows_of_run_def filter_empty_conv)
  qed
  consider "(a, m) < (rid, n)" | "(rid, n) < (a, m)" using here by fastforce
  then show ?case
  proof cases
    case 1
    then show ?thesis using IH by (simp add: p rows_of_run_def)
  next
    case 2
    then have "a \<noteq> rid" using here by (auto simp: less_prod_def)
    with 2 rest[OF 2] show ?thesis by (auto simp: p rows_of_run_def)
  qed
qed (simp add: rows_of_run_def)

lemma sequences_rows: "sequences rid t = map fst (rows_of_run rid t)"
  by (simp add: sequences_def rows_of_run_def case_prod_beta comp_def)

lemma foldl_max_upto: "foldl max (0::int) (map int [1..<Suc n]) = int n"
  by (induction n) auto

lemma next_sequence_upto:
  assumes "sequences rid t = map int [0..<n]" and "int n \<le> i64_max"
  shows "next_sequence rid t = Inr (int n)"
proof (cases n)
  case (Suc k)
  then have "sequences rid t = 0 # map int [1..<Suc k]"
    using assms(1) by (simp add: upt_rec[of 0] del: upt_Suc)
  then show ?thesis
    using assms(2) foldl_max_upto[of k] by (simp add: next_sequence_def Suc del: upt_Suc)
qed (use assms in \<open>simp add: next_sequence_def\<close>)

text \<open>Events recorded one after another, for any runs.\<close>

fun record_all ::
    "codec \<Rightarrow> (time \<times> run_id \<times> runtime_event) list \<Rightarrow> store_db \<Rightarrow> store_error + event_envelope list \<times> store_db"
    where
  "record_all C [] db = Inr ([], db)"
| "record_all C ((now, rid, e) # es) db =
     r_bind (record_runtime_event C now rid e db) (\<lambda>(env, db').
       r_map (\<lambda>(envs, db''). (env # envs, db'')) (record_all C es db'))"

definition log_holds :: "codec \<Rightarrow> event_envelope list \<Rightarrow> store_db \<Rightarrow> bool" where
  "log_holds C envs db \<longleftrightarrow> bt_ok (t_events db) \<and>
     (\<forall>rid. events_of C rid db = Inr (filter (\<lambda>v. env_run_id v = rid) envs) \<and>
        sequences rid (t_events db) = map int [0..<length (filter (\<lambda>v. env_run_id v = rid) envs)] \<and>
        map env_sequence (filter (\<lambda>v. env_run_id v = rid) envs) =
          [0..<length (filter (\<lambda>v. env_run_id v = rid) envs)])"

lemma envelope_back:
  assumes "event_row_of C (envelope_new now rid n e) = Inr row" and "reads_back (enc_event C) (dec_event C) e"
  shows "envelope_of C rid n row = Inr (envelope_new now rid n e)"
  using assms
  by (auto simp: event_row_of_def envelope_of_def decode_event_def envelope_new_def reads_back_def result_simps
      MIN_TYPED_PROTOCOL_VERSION_def PROTOCOL_VERSION_def)

lemma r_mapm_snoc: "r_mapm f xs = Inr ys \<Longrightarrow> f x = Inr y \<Longrightarrow> r_mapm f (xs @ [x]) = Inr (ys @ [y])"
  by (simp add: r_mapm_Inr list_all2_appendI)

lemma record_extends_log:
  assumes log: "log_holds C envs db" and step: "record_runtime_event C now rid e db = Inr (env, db')"
    and rb: "reads_back (enc_event C) (dec_event C) e" and small: "int (length envs) < i64_max"
  shows "log_holds C (envs @ [env]) db' \<and> env_run_id env = rid \<and> env_event env = e \<and>
    t_sent db' = t_sent db @ [env]"
proof -
  let ?mine = "filter (\<lambda>v. env_run_id v = rid) envs"
  let ?n = "length ?mine"
  have le: "?n \<le> length envs" by simp
  with small have n: "int ?n \<le> i64_max" by linarith
  have seqs: "sequences rid (t_events db) = map int [0..<?n]" using log by (simp add: log_holds_def)
  have nxt: "next_sequence rid (t_events db) = Inr (int ?n)" by (rule next_sequence_upto[OF seqs n])
  have pos: "as_u64_of (int ?n) = ?n" by (simp add: as_u64_of_def)
  have key: "as_i64 ?n = int ?n" using n by (rule as_i64_small)
  from step nxt obtain row where row: "event_row_of C (envelope_new now rid ?n e) = Inr row"
    and env: "env = envelope_new now rid ?n e"
    and db': "db' = db\<lparr>t_events := bt_insert (rid, int ?n) row (t_events db), t_sent := t_sent db @ [env]\<rparr>"
    by (auto simp: record_runtime_event_def result_simps Let_def pos key envelope_new_def)
  have fields: "env_run_id env = rid" "env_event env = e" "env_sequence env = ?n"
    by (simp_all add: env envelope_new_def)
  have low: "\<forall>p \<in> set (rows_of_run rid (t_events db)). fst p < int ?n"
  proof
    fix p assume "p \<in> set (rows_of_run rid (t_events db))"
    then have "fst p \<in> set (sequences rid (t_events db))" by (simp add: sequences_rows)
    then show "fst p < int ?n" by (auto simp: seqs)
  qed
  have bt: "bt_ok (t_events db)" using log by (simp add: log_holds_def)
  have rows: "rows_of_run q (t_events db') =
      rows_of_run q (t_events db) @ (if q = rid then [(int ?n, row)] else [])" for q
    using rows_of_run_insert_last[OF bt low] by (simp add: db' rows_of_run_insert_other)
  have "events_of C q db' = Inr (filter (\<lambda>v. env_run_id v = q) (envs @ [env])) \<and>
      sequences q (t_events db') = map int [0..<length (filter (\<lambda>v. env_run_id v = q) (envs @ [env]))] \<and>
      map env_sequence (filter (\<lambda>v. env_run_id v = q) (envs @ [env])) =
        [0..<length (filter (\<lambda>v. env_run_id v = q) (envs @ [env]))]" for q
  proof (cases "q = rid")
    case True
    have "envelope_of C rid (as_u64_of (int ?n)) row = Inr env"
      using envelope_back[OF row rb] by (simp add: pos env)
    then show ?thesis
      using log r_mapm_snoc[of "\<lambda>(n, row). envelope_of C rid (as_u64_of n) row"]
      by (simp add: True log_holds_def events_of_def rows sequences_rows fields)
  next
    case False
    then show ?thesis using log by (simp add: log_holds_def events_of_def rows sequences_rows fields)
  qed
  moreover have "bt_ok (t_events db')" using bt by (simp add: db' bt_ok_insert)
  ultimately show ?thesis by (simp add: log_holds_def fields db')
qed

lemma record_all_extends_log:
  assumes "log_holds C old db" and "record_all C es db = Inr (envs, db')"
    and "\<forall>(_, _, e) \<in> set es. reads_back (enc_event C) (dec_event C) e"
    and "int (length old + length es) \<le> i64_max"
  shows "log_holds C (old @ envs) db' \<and> map (\<lambda>v. (env_run_id v, env_event v)) envs = map snd es \<and>
    t_sent db' = t_sent db @ envs"
  using assms
proof (induction es arbitrary: old db envs)
  case Nil
  then show ?case by simp
next
  case (Cons x es)
  obtain now rid e where x: "x = (now, rid, e)" by (metis prod.collapse)
  from Cons.prems(2) obtain env db1 rest where step: "record_runtime_event C now rid e db = Inr (env, db1)"
    and more': "record_all C es db1 = Inr (rest, db')" and envs: "envs = env # rest"
    by (auto simp: x result_simps)
  have "log_holds C (old @ [env]) db1 \<and> env_run_id env = rid \<and> env_event env = e \<and> t_sent db1 = t_sent db @ [env]"
    using Cons.prems by (intro record_extends_log[OF Cons.prems(1) step]) (auto simp: x)
  with Cons.IH[OF _ more', of "old @ [env]"] Cons.prems(3,4) show ?case by (auto simp: x envs)
qed

text \<open>C9: The event log replays. Whatever events are recorded for whatever runs, one after another on a
  database without events, each run's \<open>events\<close> are exactly its envelopes in the order they were
  recorded, numbered from zero without a gap, whatever was recorded for other runs in between; and the
  subscribers were sent every envelope once, in that order.\<close>

theorem event_log_replays:
  assumes "t_events db = []" and "record_all C es db = Inr (envs, db')"
    and "\<forall>(_, _, e) \<in> set es. reads_back (enc_event C) (dec_event C) e" and "int (length es) \<le> i64_max"
  shows "(\<forall>rid. events_of C rid db' = Inr (filter (\<lambda>v. env_run_id v = rid) envs) \<and>
        map env_sequence (filter (\<lambda>v. env_run_id v = rid) envs) =
          [0..<length (filter (\<lambda>v. env_run_id v = rid) envs)]) \<and>
    map (\<lambda>v. (env_run_id v, env_event v)) envs = map snd es \<and> t_sent db' = t_sent db @ envs"
proof -
  have "log_holds C [] db" using assms(1) by (simp add: log_holds_def events_of_def sequences_def rows_of_run_def)
  from record_all_extends_log[OF this assms(2,3)] assms(4) show ?thesis by (simp add: log_holds_def)
qed

text \<open>A created run is read back as it was returned, until something changes its row.\<close>

lemma created_run_reads_back:
  "create_run now fresh goal m db = Inr (run, db') \<Longrightarrow>
   run_of fresh db' = Inr (Some run) \<and> (\<forall>rid. rid \<noteq> fresh \<longrightarrow> run_of rid db' = run_of rid db)"
  using parse_state_name[of ExitPending]
  by (auto simp: create_run_def Let_def result_simps run_of_def decode_run_def)

text \<open>The first workspace of a run stays: attaching another one changes nothing.\<close>

lemma first_workspace_stays:
  "attach_run_workspace rid wid db = Inr db1 \<Longrightarrow> attach_run_workspace rid wid' db1 = Inr db1 \<and>
   workspace_for_run rid db1 = Some (case workspace_for_run rid db of Some w \<Rightarrow> w | None \<Rightarrow> wid)"
  by (auto simp: attach_run_workspace_def workspace_for_run_def result_simps split: if_splits option.splits)

section \<open>A small database\<close>

text \<open>A writer for a few documents, and a database with one run, for the examples.\<close>

definition example_codec :: codec where
  "example_codec =
     \<lparr>enc_strs = (\<lambda>x. if x = [''src''] then Inr ''[src]'' else Inl ''unsupported''),
      dec_strs = (\<lambda>t. if t = ''[src]'' then Inr [''src''] else Inl ''unsupported''),
      enc_value = (\<lambda>_. Inl ''unsupported''), dec_value = (\<lambda>_. Inl ''unsupported''),
      enc_event = (\<lambda>e. if e = Session EvSessionArchived then Inr ''archived''
                       else if e = Session (EvSessionRenamed ''n'') then Inr ''renamed''
                       else Inl ''unsupported''),
      dec_event = (\<lambda>t. if t = ''archived'' then Inr (Session EvSessionArchived)
                       else if t = ''renamed'' then Inr (Session (EvSessionRenamed ''n''))
                       else Inl ''unsupported''),
      enc_contract = (\<lambda>_. Inl ''unsupported''), dec_contract = (\<lambda>_. Inl ''unsupported''),
      enc_receipt_v1 = (\<lambda>_. Inl ''unsupported''), enc_receipt = (\<lambda>_. Inl ''unsupported''),
      dec_receipt = (\<lambda>_. Inl ''unsupported''),
      enc_view = (\<lambda>_. Inl ''unsupported''), dec_view = (\<lambda>_. Inl ''unsupported'')\<rparr>"

definition example_row :: run_row where
  "example_row = \<lparr>rw_title = ''t'', rw_goal = ''g'', rw_mode = ''batch'', rw_state = ''pending'',
     rw_model = None, rw_created_at = 0, rw_updated_at = 0, rw_input_tokens = SqlInteger 0,
     rw_output_tokens = SqlInteger 0, rw_summary = None, rw_pending_question = None,
     rw_archived = False, rw_parent_run_id = None\<rparr>"

definition example_db :: store_db where
  "example_db = store_empty\<lparr>t_runs := [(''r'', example_row), (''s'', example_row)]\<rparr>"

lemmas example_defs = example_codec_def example_row_def example_db_def store_empty_def

lemma event_log_replays_witness:
  "\<exists>envs db'. record_all example_codec
      [(1, ''r'', Session (EvSessionRenamed ''n'')), (2, ''s'', Session EvSessionArchived),
       (3, ''r'', Session EvSessionArchived)] example_db = Inr (envs, db') \<and>
    length envs = 3 \<and> events_of example_codec ''r'' db' = Inr (filter (\<lambda>v. env_run_id v = ''r'') envs) \<and>
    map env_sequence envs = [0, 0, 1]"
proof -
  let ?es = "[(1, ''r'', Session (EvSessionRenamed ''n'')), (2, ''s'', Session EvSessionArchived),
       (3, ''r'', Session EvSessionArchived)]"
  obtain envs db' where run: "record_all example_codec ?es example_db = Inr (envs, db')"
    and n: "length envs = 3" and seqs: "map env_sequence envs = [0, 0, 1]"
    by (simp add: example_defs record_runtime_event_def next_sequence_def sequences_def event_row_of_def
        envelope_new_def references_def insert_row_def Let_def as_u64_of_def as_i64_def)
  have "t_events example_db = []" by (simp add: example_defs)
  moreover have "\<forall>(_, _, e) \<in> set ?es. reads_back (enc_event example_codec) (dec_event example_codec) e"
    by (simp add: example_defs reads_back_def)
  moreover have "int (length ?es) \<le> i64_max" by simp
  ultimately have "events_of example_codec ''r'' db' = Inr (filter (\<lambda>v. env_run_id v = ''r'') envs)"
    using event_log_replays[OF _ run] by blast
  with run n seqs show ?thesis by (intro exI conjI)
qed

end
