(* ===== verification/Store_Tasks.thy ===== *)
theory Store_Tasks
  imports Store_Runs
begin

text \<open>
  Tasks, agents and leases of a run (\<open>crates/minha-core/src/store.rs\<close>): the plan of a run is replaced in
  one transaction, tasks and agents are updated in place, and a task holds leases on resources. Deleting
  a task deletes what refers to it (\<open>ON DELETE CASCADE\<close>): its dependencies and its leases.
\<close>

section \<open>Names of states\<close>

fun task_state_name :: "plan_task_state \<Rightarrow> str" where
  "task_state_name TaskPending = ''pending''"
| "task_state_name TaskRunning = ''running''"
| "task_state_name TaskCompleted = ''completed''"
| "task_state_name TaskBlocked = ''blocked''"
| "task_state_name TaskFailed = ''failed''"

definition parse_task_state :: "str \<Rightarrow> store_error + plan_task_state" where
  "parse_task_state value =
     (if value = ''pending'' then Inr TaskPending
      else if value = ''running'' then Inr TaskRunning
      else if value = ''completed'' then Inr TaskCompleted
      else if value = ''blocked'' then Inr TaskBlocked
      else if value = ''failed'' then Inr TaskFailed
      else Inl (Coordination (''unknown task state '' @ value)))"

fun agent_state_name :: "agent_state \<Rightarrow> str" where
  "agent_state_name AgentStarting = ''starting''"
| "agent_state_name AgentInspecting = ''inspecting''"
| "agent_state_name AgentPlanning = ''planning''"
| "agent_state_name AgentWorking = ''working''"
| "agent_state_name AgentWaiting = ''waiting''"
| "agent_state_name AgentIntegrating = ''integrating''"
| "agent_state_name AgentVerifying = ''verifying''"
| "agent_state_name AgentCompleted = ''completed''"
| "agent_state_name AgentFailed = ''failed''"
| "agent_state_name AgentCancelled = ''cancelled''"

definition parse_agent_state :: "str \<Rightarrow> store_error + agent_state" where
  "parse_agent_state value =
     (if value = ''starting'' then Inr AgentStarting
      else if value = ''inspecting'' then Inr AgentInspecting
      else if value = ''planning'' then Inr AgentPlanning
      else if value = ''working'' then Inr AgentWorking
      else if value = ''waiting'' then Inr AgentWaiting
      else if value = ''integrating'' then Inr AgentIntegrating
      else if value = ''verifying'' then Inr AgentVerifying
      else if value = ''completed'' then Inr AgentCompleted
      else if value = ''failed'' then Inr AgentFailed
      else if value = ''cancelled'' then Inr AgentCancelled
      else Inl (Coordination (''unknown agent state '' @ value)))"

lemma parse_task_state_name [simp]: "parse_task_state (task_state_name s) = Inr s"
  by (induction s) code_simp+

lemma parse_agent_state_name [simp]: "parse_agent_state (agent_state_name s) = Inr s"
  by (induction s) code_simp+

section \<open>Tasks\<close>

record task_record =
  tk_run_id :: run_id
  tk_task_id :: str
  tk_objective :: str
  tk_state :: plan_task_state
  tk_paths :: "str list"
  tk_dependencies :: "str list"
  tk_assigned :: "event_agent_id option"
  tk_attempt :: u32
  tk_max_attempts :: u32
  tk_generation :: u64
  tk_last_error :: "str option"
  tk_created_at :: time
  tk_updated_at :: time

definition delete_plan :: "run_id \<Rightarrow> store_db \<Rightarrow> store_db" where
  "delete_plan rid db =
     (let gone = (\<lambda>k. fst k = rid \<and> map_of (t_tasks db) k \<noteq> None)
      in db\<lparr>t_dependencies := delete_where (\<lambda>(r, _, _) _. r = rid) (t_dependencies db),
            t_contracts := delete_where (\<lambda>(r, _) _. r = rid) (t_contracts db),
            t_tasks := delete_where (\<lambda>(r, _) _. r = rid) (t_tasks db),
            t_leases := delete_where (\<lambda>(r, _) l. gone (r, lr_task_id l)) (t_leases db)\<rparr>)"

definition task_row_of :: "codec \<Rightarrow> task_record \<Rightarrow> store_error + task_row" where
  "task_row_of C t =
     r_map (\<lambda>paths. \<lparr>tr_objective = tk_objective t, tr_state = task_state_name (tk_state t), tr_paths = paths,
                     tr_assigned = tk_assigned t, tr_attempt = tk_attempt t,
                     tr_max_attempts = tk_max_attempts t, tr_generation = as_i64 (tk_generation t),
                     tr_last_error = tk_last_error t, tr_created_at = tk_created_at t,
                     tr_updated_at = tk_updated_at t\<rparr>)
       (json_err (enc_strs C (tk_paths t)))"

definition insert_task :: "codec \<Rightarrow> run_id \<Rightarrow> task_record \<Rightarrow> store_db \<Rightarrow> store_error + store_db" where
  "insert_task C rid t db =
     r_bind (task_row_of C t) (\<lambda>row.
     r_bind (references (t_runs db) rid (insert_row (rid, tk_task_id t) row (t_tasks db))) (\<lambda>tasks.
       Inr (db\<lparr>t_tasks := tasks\<rparr>)))"

definition insert_dependency :: "run_id \<Rightarrow> str \<times> str \<Rightarrow> store_db \<Rightarrow> store_error + store_db" where
  "insert_dependency rid edge db =
     (case edge of (prerequisite, dependent) \<Rightarrow>
        r_bind (references (t_tasks db) (rid, prerequisite) (references (t_tasks db) (rid, dependent)
          (insert_row (rid, prerequisite, dependent) () (t_dependencies db)))) (\<lambda>deps.
          Inr (db\<lparr>t_dependencies := deps\<rparr>)))"

definition plan_edges :: "task_record list \<Rightarrow> (str \<times> str) list" where
  "plan_edges tasks = concat (map (\<lambda>t. map (\<lambda>p. (p, tk_task_id t)) (tk_dependencies t)) tasks)"

definition replace_tasks :: "codec \<Rightarrow> run_id \<Rightarrow> task_record list \<Rightarrow> store_db \<Rightarrow> store_error + store_db" where
  "replace_tasks C rid tasks db =
     r_bind (fold_result (insert_task C rid) tasks (delete_plan rid db)) (\<lambda>db'.
       fold_result (insert_dependency rid) (plan_edges tasks) db')"

definition task_of_row :: "codec \<Rightarrow> run_id \<Rightarrow> str \<times> task_row \<Rightarrow> store_error + task_record" where
  "task_of_row C rid p =
     (case p of (tid, row) \<Rightarrow>
        r_bind (parse_task_state (tr_state row)) (\<lambda>st.
        r_bind (json_err (dec_strs C (tr_paths row))) (\<lambda>paths.
          Inr \<lparr>tk_run_id = rid, tk_task_id = tid, tk_objective = tr_objective row, tk_state = st,
               tk_paths = paths, tk_dependencies = [], tk_assigned = tr_assigned row,
               tk_attempt = tr_attempt row, tk_max_attempts = tr_max_attempts row,
               tk_generation = nat (max (tr_generation row) 0), tk_last_error = tr_last_error row,
               tk_created_at = tr_created_at row, tk_updated_at = tr_updated_at row\<rparr>)))"

text \<open>
  The prerequisites of a task are pushed in the order the index on the key of \<open>task_dependencies\<close> gives
  them; the first task with the identifier of the dependent takes them.
\<close>

definition prerequisites_of :: "run_id \<Rightarrow> str \<Rightarrow> store_db \<Rightarrow> str list" where
  "prerequisites_of rid tid db =
     map (\<lambda>((_, p, _), _). p) (filter (\<lambda>((r, _, d), _). r = rid \<and> d = tid) (t_dependencies db))"

definition tasks_of :: "codec \<Rightarrow> run_id \<Rightarrow> store_db \<Rightarrow> store_error + task_record list" where
  "tasks_of C rid db =
     r_map (map (\<lambda>t. t\<lparr>tk_dependencies := prerequisites_of rid (tk_task_id t) db\<rparr>))
       (r_mapm (task_of_row C rid)
         (sort_key (\<lambda>(tid, row). (tr_created_at row, tid)) (rows_of_run rid (t_tasks db))))"

definition update_task ::
    "time \<Rightarrow> run_id \<Rightarrow> str \<Rightarrow> plan_task_state \<Rightarrow> event_agent_id option \<Rightarrow> u32 \<Rightarrow> u64 \<Rightarrow> str option \<Rightarrow> store_db \<Rightarrow> store_db"
    where
  "update_task now rid tid st agent attempt gen last_error db =
     db\<lparr>t_tasks := bt_update (rid, tid) (\<lambda>row. row\<lparr>tr_state := task_state_name st, tr_assigned := agent,
           tr_attempt := attempt, tr_generation := as_i64 gen, tr_last_error := last_error,
           tr_updated_at := now\<rparr>) (t_tasks db)\<rparr>"

section \<open>Agents\<close>

record agent_record =
  an_run_id :: run_id
  an_agent_id :: event_agent_id
  an_parent :: "event_agent_id option"
  an_role :: str
  an_model :: str
  an_state :: agent_state
  an_task_id :: "str option"
  an_attempt :: u32
  an_generation :: u64
  an_started_at :: time
  an_updated_at :: time
  an_finished_at :: "time option"

definition upsert_agent :: "agent_record \<Rightarrow> store_db \<Rightarrow> store_error + store_db" where
  "upsert_agent a db =
     references (t_runs db) (an_run_id a) (Inr (db\<lparr>t_agents :=
       (let k = (an_run_id a, an_agent_id a) in
        case map_of (t_agents db) k of
          None \<Rightarrow> bt_insert k \<lparr>ar_parent = an_parent a, ar_role = an_role a, ar_model = an_model a,
             ar_state = agent_state_name (an_state a), ar_task_id = an_task_id a,
             ar_attempt = an_attempt a, ar_generation = as_i64 (an_generation a),
             ar_started_at = an_started_at a, ar_updated_at = an_updated_at a,
             ar_finished_at = an_finished_at a\<rparr> (t_agents db)
        | Some _ \<Rightarrow> bt_update k (\<lambda>row. row\<lparr>ar_state := agent_state_name (an_state a),
             ar_task_id := an_task_id a, ar_attempt := an_attempt a,
             ar_generation := as_i64 (an_generation a), ar_updated_at := an_updated_at a,
             ar_finished_at := an_finished_at a\<rparr>) (t_agents db))\<rparr>))"

definition agent_of_row :: "run_id \<Rightarrow> str \<times> agent_row \<Rightarrow> store_error + agent_record" where
  "agent_of_row rid p =
     (case p of (aid, row) \<Rightarrow>
        r_map (\<lambda>st. \<lparr>an_run_id = rid, an_agent_id = aid, an_parent = ar_parent row, an_role = ar_role row,
                     an_model = ar_model row, an_state = st, an_task_id = ar_task_id row,
                     an_attempt = ar_attempt row, an_generation = nat (max (ar_generation row) 0),
                     an_started_at = ar_started_at row, an_updated_at = ar_updated_at row,
                     an_finished_at = ar_finished_at row\<rparr>)
          (parse_agent_state (ar_state row)))"

definition agents_of :: "run_id \<Rightarrow> store_db \<Rightarrow> store_error + agent_record list" where
  "agents_of rid db =
     r_mapm (agent_of_row rid)
       (sort_key (\<lambda>(aid, row). (ar_started_at row, aid)) (rows_of_run rid (t_agents db)))"

section \<open>Leases\<close>

definition reclaim_expired :: "time \<Rightarrow> store_db \<Rightarrow> store_db" where
  "reclaim_expired now db = db\<lparr>t_leases := delete_where (\<lambda>_ l. lr_expires_at l \<le> now) (t_leases db)\<rparr>"

definition reclaim_expired_leases :: "time \<Rightarrow> store_db \<Rightarrow> usize \<times> store_db" where
  "reclaim_expired_leases now db =
     (count_where (\<lambda>_ l. lr_expires_at l \<le> now) (t_leases db), reclaim_expired now db)"

definition held_by_other :: "run_id \<Rightarrow> str \<Rightarrow> store_db \<Rightarrow> str \<Rightarrow> bool" where
  "held_by_other rid tid db resource =
     (case map_of (t_leases db) (rid, resource) of None \<Rightarrow> False | Some l \<Rightarrow> lr_task_id l \<noteq> tid)"

definition put_lease :: "run_id \<Rightarrow> lease_row \<Rightarrow> str \<Rightarrow> store_db \<Rightarrow> store_error + store_db" where
  "put_lease rid l resource db =
     references (t_tasks db) (rid, lr_task_id l)
       (Inr (db\<lparr>t_leases := bt_insert (rid, resource) l (t_leases db)\<rparr>))"

definition acquire_task_leases ::
    "time \<Rightarrow> run_id \<Rightarrow> str \<Rightarrow> event_agent_id \<Rightarrow> u64 \<Rightarrow> str list \<Rightarrow> time \<Rightarrow> store_db \<Rightarrow> store_error + store_db" where
  "acquire_task_leases now rid tid agent gen resources expiry db =
     (let db = reclaim_expired now db in
      case find (held_by_other rid tid db) resources of
        Some resource \<Rightarrow> Inl (LeaseConflict resource)
      | None \<Rightarrow> fold_result (put_lease rid \<lparr>lr_task_id = tid, lr_agent_id = agent,
                  lr_generation = as_i64 gen, lr_expires_at = expiry\<rparr>) resources db)"

definition stamped_by :: "str \<Rightarrow> str \<Rightarrow> event_agent_id \<Rightarrow> u64 \<Rightarrow> str \<times> str \<Rightarrow> lease_row \<Rightarrow> bool" where
  "stamped_by rid tid agent gen k l =
     (fst k = rid \<and> lr_task_id l = tid \<and> lr_agent_id l = agent \<and> lr_generation l = as_i64 gen)"

definition release_task_leases ::
    "run_id \<Rightarrow> str \<Rightarrow> event_agent_id \<Rightarrow> u64 \<Rightarrow> store_db \<Rightarrow> usize \<times> store_db" where
  "release_task_leases rid tid agent gen db =
     (count_where (stamped_by rid tid agent gen) (t_leases db),
      db\<lparr>t_leases := delete_where (stamped_by rid tid agent gen) (t_leases db)\<rparr>)"
section \<open>Rows of a run\<close>

lemma rows_of_run_set:
  "bt_ok t \<Longrightarrow> (k, r) \<in> set (rows_of_run rid t) \<longleftrightarrow> map_of t (rid, k) = Some r"
  unfolding rows_of_run_def by (force dest: bt_ok_distinct simp: map_of_eq_Some_iff)

lemma rows_of_run_distinct: "bt_ok t \<Longrightarrow> distinct (map fst (rows_of_run rid t))"
proof -
  assume "bt_ok t"
  then have "distinct (map fst (filter (\<lambda>p. fst (fst p) = rid) t))"
    by (simp add: bt_ok_distinct distinct_map_filter)
  moreover have "inj_on snd (set (map fst (filter (\<lambda>p. fst (fst p) = rid) t)))"
    by (auto simp: inj_on_def)
  ultimately have "distinct (map snd (map fst (filter (\<lambda>p. fst (fst p) = rid) t)))"
    by (simp only: distinct_map simp_thms)
  then show ?thesis by (simp add: rows_of_run_def case_prod_beta comp_def)
qed

lemma filter_single: "distinct zs \<Longrightarrow> k \<in> set zs \<Longrightarrow> filter (\<lambda>x. x = k) zs = [k]"
  by (induction zs) (auto simp: filter_empty_conv)

lemma insort_key_map: "insort_key f (g x) (map g xs) = map g (insort_key (f \<circ> g) x xs)"
  by (induction xs) auto

text \<open>Sorting by a key that tells the elements apart depends on the elements only.\<close>

lemma sort_key_unique:
  assumes "distinct xs" and "distinct ys" and "set xs = set ys" and "inj_on f (set xs)"
  shows "sort_key f xs = sort_key f ys"
proof (rule properties_for_sort_key)
  show "mset (sort_key f ys) = mset xs"
    using assms by (simp add: set_eq_iff_mset_eq_distinct)
  show "sorted (map f (sort_key f ys))" by simp
  fix k assume "k \<in> set (sort_key f ys)"
  then have k: "k \<in> set xs" using assms(3) by simp
  have "filter (\<lambda>x. f k = f x) zs = [k]" if "distinct zs" "set zs = set xs" for zs
  proof -
    have "\<forall>x \<in> set zs. f k = f x \<longleftrightarrow> x = k" using that(2) k assms(4) by (auto simp: inj_on_eq_iff)
    then have "filter (\<lambda>x. f k = f x) zs = filter (\<lambda>x. x = k) zs" by (intro filter_cong) auto
    then show ?thesis using that k by (simp add: filter_single)
  qed
  then show "filter (\<lambda>x. f k = f x) (sort_key f ys) = filter (\<lambda>x. f k = f x) xs"
    using assms by simp
qed

lemma insort_key_agree: "\<forall>y \<in> set (x # xs). f y = g y \<Longrightarrow> insort_key f x xs = insort_key g x xs"
  by (induction xs) auto

lemma sort_key_agree: "\<forall>x \<in> set xs. f x = g x \<Longrightarrow> sort_key f xs = sort_key g xs"
proof (induction xs)
  case (Cons x xs)
  then have "insort_key f x (sort_key g xs) = insort_key g x (sort_key g xs)"
    by (intro insort_key_agree) simp
  with Cons show ?case by (simp add: sort_key_def)
qed simp

lemma sort_key_map: "sort_key f (map g xs) = map g (sort_key (f \<circ> g) xs)"
  by (induction xs) (simp_all add: sort_key_def insort_key_map comp_def)

section \<open>Replacing a plan\<close>

definition plan_ok :: "store_db \<Rightarrow> bool" where
  "plan_ok db \<longleftrightarrow> bt_ok (t_tasks db) \<and> bt_ok (t_dependencies db) \<and> bt_ok (t_leases db) \<and>
     (\<forall>p \<in> set (t_leases db). map_of (t_tasks db) (fst (fst p), lr_task_id (snd p)) \<noteq> None)"

lemma delete_plan_tasks:
  "bt_ok (t_tasks db) \<Longrightarrow> map_of (t_tasks (delete_plan rid db)) k = (if fst k = rid then None else map_of (t_tasks db) k)"
  by (cases k) (simp add: delete_plan_def Let_def map_of_delete_where split: option.split)

lemma delete_plan_leases:
  assumes "plan_ok db"
  shows "set (t_leases (delete_plan rid db)) = {p \<in> set (t_leases db). fst (fst p) \<noteq> rid}"
  using assms unfolding plan_ok_def delete_plan_def Let_def
  by (fastforce simp: set_delete_where)

lemma delete_plan_ok: "plan_ok db \<Longrightarrow> plan_ok (delete_plan rid db)"
  unfolding plan_ok_def
  by (auto simp: delete_plan_def Let_def bt_ok_delete_where set_delete_where map_of_delete_where
      split: option.splits)

lemma insert_tasks_effect:
  assumes "fold_result (insert_task C rid) tasks db = Inr db'"
  shows "db' = db\<lparr>t_tasks := t_tasks db'\<rparr> \<and> (bt_ok (t_tasks db) \<longrightarrow> bt_ok (t_tasks db')) \<and>
    distinct (map tk_task_id tasks) \<and>
    (\<forall>t \<in> set tasks. map_of (t_tasks db) (rid, tk_task_id t) = None \<and>
       (\<exists>row. task_row_of C t = Inr row \<and> map_of (t_tasks db') (rid, tk_task_id t) = Some row)) \<and>
    (\<forall>k. k \<notin> (\<lambda>t. (rid, tk_task_id t)) ` set tasks \<longrightarrow> map_of (t_tasks db') k = map_of (t_tasks db) k)"
  using assms
proof (induction tasks arbitrary: db)
  case Nil
  then show ?case by simp
next
  case (Cons t ts)
  then obtain db1 where step: "insert_task C rid t db = Inr db1"
    and rest: "fold_result (insert_task C rid) ts db1 = Inr db'"
    by (auto split: sum.splits)
  from step obtain row where row: "task_row_of C t = Inr row"
    and fresh: "map_of (t_tasks db) (rid, tk_task_id t) = None"
    and db1: "db1 = db\<lparr>t_tasks := bt_insert (rid, tk_task_id t) row (t_tasks db)\<rparr>"
    by (auto simp: insert_task_def result_simps)
  note IH = Cons.IH[OF rest]
  from IH have other: "\<And>k. k \<notin> (\<lambda>t. (rid, tk_task_id t)) ` set ts \<Longrightarrow> map_of (t_tasks db') k = map_of (t_tasks db1) k"
    by blast
  have notin: "tk_task_id t \<notin> tk_task_id ` set ts"
  proof
    assume "tk_task_id t \<in> tk_task_id ` set ts"
    then obtain u where "u \<in> set ts" "tk_task_id u = tk_task_id t" by auto
    with IH have "map_of (t_tasks db1) (rid, tk_task_id t) = None" by metis
    then show False by (simp add: db1)
  qed
  then have mine: "map_of (t_tasks db') (rid, tk_task_id t) = Some row"
    using other[of "(rid, tk_task_id t)"] by (force simp: db1)
  have "db' = db\<lparr>t_tasks := t_tasks db'\<rparr>" using IH by (simp add: db1)
  moreover have "bt_ok (t_tasks db) \<longrightarrow> bt_ok (t_tasks db')" using IH by (simp add: db1 bt_ok_insert)
  moreover have "distinct (map tk_task_id (t # ts))" using IH notin by simp
  moreover have "\<forall>u \<in> set (t # ts). map_of (t_tasks db) (rid, tk_task_id u) = None \<and>
       (\<exists>row. task_row_of C u = Inr row \<and> map_of (t_tasks db') (rid, tk_task_id u) = Some row)"
    using IH row fresh mine by (auto simp: db1 split: if_splits)
  moreover have "\<forall>k. k \<notin> (\<lambda>t. (rid, tk_task_id t)) ` set (t # ts) \<longrightarrow>
      map_of (t_tasks db') k = map_of (t_tasks db) k"
    using other by (auto simp: db1)
  ultimately show ?case by blast
qed

lemma insert_dependencies_effect:
  assumes "fold_result (insert_dependency rid) edges db = Inr db'"
  shows "db' = db\<lparr>t_dependencies := t_dependencies db'\<rparr> \<and>
    (bt_ok (t_dependencies db) \<longrightarrow> bt_ok (t_dependencies db')) \<and>
    fst ` set (t_dependencies db') = fst ` set (t_dependencies db) \<union> (\<lambda>(p, d). (rid, p, d)) ` set edges"
  using assms
proof (induction edges arbitrary: db)
  case Nil
  then show ?case by simp
next
  case (Cons e es)
  then obtain db1 where step: "insert_dependency rid e db = Inr db1"
    and rest: "fold_result (insert_dependency rid) es db1 = Inr db'"
    by (auto split: sum.splits)
  from step have "db1 = db\<lparr>t_dependencies := bt_insert (rid, fst e, snd e) () (t_dependencies db)\<rparr>"
    by (auto simp: insert_dependency_def result_simps split: prod.splits)
  with Cons.IH[OF rest] show ?case
    by (auto simp: bt_ok_insert fst_bt_insert split: prod.splits)
qed

lemma prerequisites_set:
  "set (prerequisites_of rid tid db) = {p. (rid, p, tid) \<in> fst ` set (t_dependencies db)}"
  unfolding prerequisites_of_def by force

text \<open>What serde documents of the paths of a task, and the width of the counters.\<close>

definition storable :: "codec \<Rightarrow> task_record \<Rightarrow> bool" where
  "storable C t \<longleftrightarrow> reads_back (enc_strs C) (dec_strs C) (tk_paths t) \<and> int (tk_generation t) \<le> i64_max"

lemma task_of_row_back:
  assumes "task_row_of C t = Inr row" and "storable C t"
  shows "task_of_row C rid (tk_task_id t, row) = Inr (t\<lparr>tk_run_id := rid, tk_dependencies := []\<rparr>)"
  using assms
  by (auto simp: task_row_of_def task_of_row_def storable_def reads_back_def result_simps as_i64_small)

lemma task_row_created: "task_row_of C t = Inr row \<Longrightarrow> tr_created_at row = tk_created_at t"
  by (auto simp: task_row_of_def result_simps)

lemma r_mapm_map_Inr: "(\<And>x. x \<in> set xs \<Longrightarrow> f (g x) = Inr (h x)) \<Longrightarrow> r_mapm f (map g xs) = Inr (map h xs)"
  by (induction xs) auto

lemma replaced_rows:
  assumes run: "replace_tasks C rid tasks db = Inr db'" and ok: "plan_ok db"
  obtains row where "\<forall>t \<in> set tasks. task_row_of C t = Inr (row t)"
    and "distinct (map tk_task_id tasks)"
    and "set (rows_of_run rid (t_tasks db')) = (\<lambda>t. (tk_task_id t, row t)) ` set tasks"
    and "bt_ok (t_tasks db')"
    and "\<And>k. fst k \<noteq> rid \<Longrightarrow> map_of (t_tasks db') k = map_of (t_tasks db) k"
    and "t_leases db' = t_leases (delete_plan rid db)"
    and "fst ` set (t_dependencies db') =
      {e \<in> fst ` set (t_dependencies db). fst e \<noteq> rid} \<union> (\<lambda>(p, d). (rid, p, d)) ` set (plan_edges tasks)"
    and "bt_ok (t_dependencies db')"
proof -
  from run obtain db1 where ins: "fold_result (insert_task C rid) tasks (delete_plan rid db) = Inr db1"
    and dep: "fold_result (insert_dependency rid) (plan_edges tasks) db1 = Inr db'"
    by (auto simp: replace_tasks_def result_simps)
  have okd: "plan_ok (delete_plan rid db)" by (rule delete_plan_ok[OF ok])
  note I = insert_tasks_effect[OF ins]
  note D = insert_dependencies_effect[OF dep]
  from I obtain row where row: "\<forall>t \<in> set tasks. task_row_of C t = Inr (row t)"
    and in1: "\<forall>t \<in> set tasks. map_of (t_tasks db1) (rid, tk_task_id t) = Some (row t)"
    by (metis (no_types, lifting) Inr_inject)
  have same: "t_tasks db' = t_tasks db1" by (subst D[THEN conjunct1]) simp
  have bt: "bt_ok (t_tasks db1)" using I okd by (auto simp: plan_ok_def)
  have clean: "map_of (t_tasks (delete_plan rid db)) k = (if fst k = rid then None else map_of (t_tasks db) k)" for k
    using ok by (intro delete_plan_tasks) (simp add: plan_ok_def)
  have rest: "k \<notin> (\<lambda>t. (rid, tk_task_id t)) ` set tasks \<Longrightarrow>
      map_of (t_tasks db1) k = (if fst k = rid then None else map_of (t_tasks db) k)" for k
    using I clean by metis
  have rows: "set (rows_of_run rid (t_tasks db')) = (\<lambda>t. (tk_task_id t, row t)) ` set tasks"
  proof (rule set_eqI)
    fix q :: "str \<times> task_row"
    obtain k r where q: "q = (k, r)" by (cases q)
    have "q \<in> set (rows_of_run rid (t_tasks db')) \<longleftrightarrow> map_of (t_tasks db1) (rid, k) = Some r"
      using rows_of_run_set[OF bt] by (simp add: q same)
    also have "\<dots> \<longleftrightarrow> q \<in> (\<lambda>t. (tk_task_id t, row t)) ` set tasks"
      using rest[of "(rid, k)"] in1 by (auto simp: q image_iff split: if_splits) (metis option.inject)+
    finally show "q \<in> set (rows_of_run rid (t_tasks db')) \<longleftrightarrow> q \<in> (\<lambda>t. (tk_task_id t, row t)) ` set tasks" .
  qed
  have deps: "t_dependencies db1 = t_dependencies (delete_plan rid db)" by (subst I[THEN conjunct1]) simp
  show thesis
  proof (rule that[OF row _ rows])
    show "distinct (map tk_task_id tasks)" using I by simp
    show "bt_ok (t_tasks db')" using bt same by simp
    show "fst k \<noteq> rid \<Longrightarrow> map_of (t_tasks db') k = map_of (t_tasks db) k" for k
      using rest[of k] by (cases "k \<in> (\<lambda>t. (rid, tk_task_id t)) ` set tasks") (auto simp: same)
    show "t_leases db' = t_leases (delete_plan rid db)"
      by (subst D[THEN conjunct1], subst I[THEN conjunct1]) simp
    show "fst ` set (t_dependencies db') =
        {e \<in> fst ` set (t_dependencies db). fst e \<noteq> rid} \<union> (\<lambda>(p, d). (rid, p, d)) ` set (plan_edges tasks)"
      using D[THEN conjunct2, THEN conjunct2]
      by (simp add: deps) (force simp: delete_plan_def Let_def set_delete_where)
    show "bt_ok (t_dependencies db')" using D okd by (simp add: deps plan_ok_def)
  qed
qed

lemma plan_edges_set:
  "distinct (map tk_task_id tasks) \<Longrightarrow> t \<in> set tasks \<Longrightarrow>
   (p, tk_task_id t) \<in> set (plan_edges tasks) \<longleftrightarrow> p \<in> set (tk_dependencies t)"
  unfolding plan_edges_def by (auto simp: distinct_map inj_on_def)

section \<open>Lease histories\<close>

datatype plan_op =
  Acquire time run_id str event_agent_id u64 "str list" time
| Release run_id str event_agent_id u64
| Reclaim time
| Replan codec run_id "task_record list"
| UpdateTask time run_id str plan_task_state "event_agent_id option" u32 u64 "str option"
| UpsertAgent agent_record

text \<open>An operation that fails leaves the database as it was.\<close>

definition or_unchanged :: "'e + store_db \<Rightarrow> store_db \<Rightarrow> store_db" where
  "or_unchanged r db = (case r of Inl _ \<Rightarrow> db | Inr db' \<Rightarrow> db')"

fun plan_step :: "plan_op \<Rightarrow> store_db \<Rightarrow> store_db" where
  "plan_step (Acquire now rid tid agent gen resources expiry) db =
     or_unchanged (acquire_task_leases now rid tid agent gen resources expiry db) db"
| "plan_step (Release rid tid agent gen) db = snd (release_task_leases rid tid agent gen db)"
| "plan_step (Reclaim now) db = snd (reclaim_expired_leases now db)"
| "plan_step (Replan C rid tasks) db = or_unchanged (replace_tasks C rid tasks db) db"
| "plan_step (UpdateTask now rid tid st agent attempt gen err) db =
     update_task now rid tid st agent attempt gen err db"
| "plan_step (UpsertAgent a) db = or_unchanged (upsert_agent a db) db"

definition plan_run :: "plan_op list \<Rightarrow> store_db \<Rightarrow> store_db" where
  "plan_run ops db = foldl (\<lambda>db op. plan_step op db) db ops"

text \<open>The operations that may end the lease \<open>l\<close> of a resource.\<close>

fun may_end :: "run_id \<Rightarrow> str \<Rightarrow> lease_row \<Rightarrow> plan_op \<Rightarrow> bool" where
  "may_end rid r l (Acquire now rid' tid agent gen resources expiry) =
     (lr_expires_at l \<le> now \<or> rid' = rid \<and> tid = lr_task_id l \<and> r \<in> set resources)"
| "may_end rid r l (Release rid' tid agent gen) = stamped_by rid' tid agent gen (rid, r) l"
| "may_end rid r l (Reclaim now) = (lr_expires_at l \<le> now)"
| "may_end rid r l (Replan C rid' tasks) = (rid' = rid)"
| "may_end rid r l (UpdateTask now rid' tid st agent attempt gen err) = False"
| "may_end rid r l (UpsertAgent a) = False"

lemma reclaim_expired_lease:
  "bt_ok (t_leases db) \<Longrightarrow> map_of (t_leases (reclaim_expired now db)) k =
     (case map_of (t_leases db) k of None \<Rightarrow> None | Some l \<Rightarrow> if lr_expires_at l \<le> now then None else Some l)"
  by (simp add: reclaim_expired_def map_of_delete_where)

lemma put_leases_effect:
  assumes "fold_result (put_lease rid l) resources db = Inr db'"
  shows "db' = db\<lparr>t_leases := t_leases db'\<rparr> \<and> (bt_ok (t_leases db) \<longrightarrow> bt_ok (t_leases db')) \<and>
    (\<forall>k. map_of (t_leases db') k =
       (if fst k = rid \<and> snd k \<in> set resources then Some l else map_of (t_leases db) k)) \<and>
    (resources \<noteq> [] \<longrightarrow> map_of (t_tasks db) (rid, lr_task_id l) \<noteq> None) \<and>
    (\<forall>p \<in> set (t_leases db'). p \<in> set (t_leases db) \<or> fst (fst p) = rid \<and> snd p = l)"
  using assms
proof (induction resources arbitrary: db)
  case Nil
  then show ?case by simp
next
  case (Cons r rs)
  then obtain db1 where step: "put_lease rid l r db = Inr db1"
    and rest: "fold_result (put_lease rid l) rs db1 = Inr db'"
    by (auto split: sum.splits)
  from step have task: "map_of (t_tasks db) (rid, lr_task_id l) \<noteq> None"
    and db1: "db1 = db\<lparr>t_leases := bt_insert (rid, r) l (t_leases db)\<rparr>"
    by (auto simp: put_lease_def result_simps)
  note IH = Cons.IH[OF rest]
  have "\<forall>k. map_of (t_leases db') k =
      (if fst k = rid \<and> snd k \<in> set (r # rs) then Some l else map_of (t_leases db) k)"
    using IH by (auto simp: db1)
  moreover have "\<forall>p \<in> set (t_leases db'). p \<in> set (t_leases db) \<or> fst (fst p) = rid \<and> snd p = l"
    using IH by (auto simp: db1 dest!: set_bt_insert)
  ultimately show ?case using IH task by (simp add: db1 bt_ok_insert)
qed

lemma held_by_otherD:
  "find (held_by_other rid tid db) resources = None \<Longrightarrow> r \<in> set resources \<Longrightarrow>
   map_of (t_leases db) (rid, r) = Some l \<Longrightarrow> lr_task_id l = tid"
  by (auto simp: find_None_iff held_by_other_def)

lemma acquire_Inr:
  assumes "acquire_task_leases now rid tid agent gen resources expiry db = Inr db'" and "bt_ok (t_leases db)"
  defines "l \<equiv> \<lparr>lr_task_id = tid, lr_agent_id = agent, lr_generation = as_i64 gen, lr_expires_at = expiry\<rparr>"
  shows "db' = db\<lparr>t_leases := t_leases db'\<rparr>" and "bt_ok (t_leases db')"
    and "map_of (t_leases db') k =
      (if fst k = rid \<and> snd k \<in> set resources then Some l
       else case map_of (t_leases db) k of None \<Rightarrow> None
            | Some l' \<Rightarrow> if lr_expires_at l' \<le> now then None else Some l')"
    and "resources \<noteq> [] \<Longrightarrow> map_of (t_tasks db) (rid, tid) \<noteq> None"
    and "\<And>r l'. r \<in> set resources \<Longrightarrow> map_of (t_leases db) (rid, r) = Some l' \<Longrightarrow>
      lr_task_id l' = tid \<or> lr_expires_at l' \<le> now"
    and "\<forall>p \<in> set (t_leases db'). p \<in> set (t_leases db) \<or> fst (fst p) = rid \<and> snd p = l"
proof -
  let ?db = "reclaim_expired now db"
  from assms(1) have free: "find (held_by_other rid tid ?db) resources = None"
    and put: "fold_result (put_lease rid l) resources ?db = Inr db'"
    by (auto simp: acquire_task_leases_def Let_def l_def split: option.splits)
  note P = put_leases_effect[OF put]
  have ok: "bt_ok (t_leases ?db)" using assms(2) by (simp add: reclaim_expired_def bt_ok_delete_where)
  have other: "?db = db\<lparr>t_leases := t_leases ?db\<rparr>" "t_tasks ?db = t_tasks db"
    "set (t_leases ?db) \<subseteq> set (t_leases db)"
    by (auto simp: reclaim_expired_def set_delete_where)
  show "db' = db\<lparr>t_leases := t_leases db'\<rparr>" using P by (subst P[THEN conjunct1], subst other(1)) simp
  show "bt_ok (t_leases db')" using P ok by blast
  show "map_of (t_leases db') k =
      (if fst k = rid \<and> snd k \<in> set resources then Some l
       else case map_of (t_leases db) k of None \<Rightarrow> None
            | Some l' \<Rightarrow> if lr_expires_at l' \<le> now then None else Some l')"
    using P reclaim_expired_lease[OF assms(2), of now k] by (cases k) simp
  show "resources \<noteq> [] \<Longrightarrow> map_of (t_tasks db) (rid, tid) \<noteq> None"
    using P by (simp add: other(2) l_def)
  show "lr_task_id l' = tid \<or> lr_expires_at l' \<le> now"
    if "r \<in> set resources" "map_of (t_leases db) (rid, r) = Some l'" for r l'
    using held_by_otherD[OF free that(1), of l'] that(2) reclaim_expired_lease[OF assms(2), of now "(rid, r)"]
    by (cases "lr_expires_at l' \<le> now") auto
  show "\<forall>p \<in> set (t_leases db'). p \<in> set (t_leases db) \<or> fst (fst p) = rid \<and> snd p = l"
    using P other(3) by blast
qed

lemma upsert_agent_keeps:
  "upsert_agent a db = Inr db' \<Longrightarrow>
   t_tasks db' = t_tasks db \<and> t_dependencies db' = t_dependencies db \<and> t_leases db' = t_leases db"
  by (auto simp: upsert_agent_def result_simps)

lemma update_task_known:
  "map_of (t_tasks (update_task now rid tid st agent attempt gen err db)) k = None \<longleftrightarrow> map_of (t_tasks db) k = None"
  by (simp add: update_task_def)

lemma plan_ok_same_tables:
  "plan_ok db \<Longrightarrow> t_tasks db' = t_tasks db \<Longrightarrow> t_dependencies db' = t_dependencies db \<Longrightarrow>
   t_leases db' = t_leases db \<Longrightarrow> plan_ok db'"
  by (simp add: plan_ok_def)

lemma plan_ok_fewer_leases: "plan_ok db \<Longrightarrow> plan_ok (db\<lparr>t_leases := delete_where P (t_leases db)\<rparr>)"
  by (auto simp: plan_ok_def bt_ok_delete_where set_delete_where)

lemma acquire_ok:
  assumes run: "acquire_task_leases now rid tid agent gen resources expiry db = Inr db'" and ok: "plan_ok db"
  shows "plan_ok db'"
proof -
  have bt: "bt_ok (t_leases db)" using ok by (simp add: plan_ok_def)
  note A = acquire_Inr[OF run bt]
  have "t_tasks db' = t_tasks db" "t_dependencies db' = t_dependencies db" by (subst A(1), simp)+
  moreover have "map_of (t_tasks db) (fst (fst p), lr_task_id (snd p)) \<noteq> None" if p: "p \<in> set (t_leases db')" for p
  proof (cases "p \<in> set (t_leases db)")
    case True
    then show ?thesis using ok by (simp add: plan_ok_def)
  next
    case False
    with A(6) p have new: "fst (fst p) = rid" "lr_task_id (snd p) = tid" by auto
    have "map_of (t_leases db') (fst p) = Some (snd p)" using p A(2) by (simp add: bt_ok_distinct)
    then have "resources \<noteq> []"
      using A(3)[of "fst p"] False by (auto split: option.splits if_splits dest: map_of_SomeD)
    with A(4) new show ?thesis by simp
  qed
  ultimately show ?thesis using ok A(2) by (simp add: plan_ok_def)
qed

lemma replace_ok:
  assumes run: "replace_tasks C rid tasks db = Inr db'" and ok: "plan_ok db"
  shows "plan_ok db'"
proof -
  from replaced_rows[OF run ok] have bt: "bt_ok (t_tasks db')"
    and other: "\<And>k. fst k \<noteq> rid \<Longrightarrow> map_of (t_tasks db') k = map_of (t_tasks db) k"
    and leases: "t_leases db' = t_leases (delete_plan rid db)" and dep: "bt_ok (t_dependencies db')"
    by metis+
  have "bt_ok (t_leases (delete_plan rid db))" using delete_plan_ok[OF ok] by (simp add: plan_ok_def)
  moreover have "map_of (t_tasks db') (fst (fst p), lr_task_id (snd p)) \<noteq> None" if "p \<in> set (t_leases db')" for p
    using that ok other[of "(fst (fst p), lr_task_id (snd p))"] delete_plan_leases[OF ok]
    by (simp add: leases plan_ok_def)
  ultimately show ?thesis using bt dep by (simp add: plan_ok_def leases)
qed

lemma plan_step_ok:
  assumes "plan_ok db"
  shows "plan_ok (plan_step op db)"
proof (cases op)
  case Acquire
  then show ?thesis using acquire_ok assms by (auto simp: or_unchanged_def split: sum.split)
next
  case Release
  then show ?thesis using assms by (simp add: release_task_leases_def plan_ok_fewer_leases)
next
  case Reclaim
  then show ?thesis using assms by (simp add: reclaim_expired_leases_def reclaim_expired_def plan_ok_fewer_leases)
next
  case Replan
  then show ?thesis using replace_ok assms by (auto simp: or_unchanged_def split: sum.split)
next
  case UpdateTask
  then show ?thesis using assms by (auto simp: plan_ok_def update_task_def bt_ok_update)
next
  case UpsertAgent
  then show ?thesis using assms upsert_agent_keeps
    by (auto simp: or_unchanged_def intro: plan_ok_same_tables split: sum.split)
qed

lemma replace_keeps_other_leases:
  assumes run: "replace_tasks C rid tasks db = Inr db'" and ok: "plan_ok db" and other: "fst k \<noteq> rid"
  shows "map_of (t_leases db') k = map_of (t_leases db) k"
proof -
  from replaced_rows[OF run ok] have "t_leases db' = t_leases (delete_plan rid db)" by metis
  moreover have "bt_ok (t_leases db)" using ok by (simp add: plan_ok_def)
  ultimately show ?thesis using other
    by (cases k) (auto simp: delete_plan_def Let_def map_of_delete_where split: option.split)
qed

text \<open>A lease stays as it is under every operation that may not end it.\<close>

lemma lease_stays:
  assumes ok: "plan_ok db" and held: "map_of (t_leases db) (rid, r) = Some l" and keeps: "\<not> may_end rid r l op"
  shows "map_of (t_leases (plan_step op db)) (rid, r) = Some l"
proof (cases op)
  case (Acquire now rid' tid agent gen resources expiry)
  have bt: "bt_ok (t_leases db)" using ok by (simp add: plan_ok_def)
  show ?thesis
  proof (cases "acquire_task_leases now rid' tid agent gen resources expiry db")
    case (Inr db')
    note A = acquire_Inr[OF Inr bt]
    have "\<not> (rid' = rid \<and> r \<in> set resources)"
      using A(5)[of r l] held keeps Acquire by auto
    then show ?thesis using A(3)[of "(rid, r)"] held keeps by (auto simp: Acquire Inr or_unchanged_def)
  qed (simp add: Acquire or_unchanged_def held)
next
  case Release
  then show ?thesis using ok held keeps
    by (simp add: release_task_leases_def plan_ok_def map_of_delete_where)
next
  case Reclaim
  then show ?thesis using ok held keeps
    by (simp add: reclaim_expired_leases_def plan_ok_def reclaim_expired_lease)
next
  case (Replan C rid' tasks)
  then show ?thesis using held keeps replace_keeps_other_leases[OF _ ok, of C rid' tasks _ "(rid, r)"]
    by (auto simp: or_unchanged_def split: sum.split)
next
  case UpdateTask
  then show ?thesis using held by (simp add: update_task_def)
next
  case UpsertAgent
  then show ?thesis using held upsert_agent_keeps by (auto simp: or_unchanged_def split: sum.split)
qed

lemma plan_run_ok: "plan_ok db \<Longrightarrow> plan_ok (plan_run ops db)"
  unfolding plan_run_def by (induction ops arbitrary: db) (simp_all add: plan_step_ok)

lemma lease_stays_run:
  assumes "plan_ok db" and "map_of (t_leases db) (rid, r) = Some l" and "\<forall>op \<in> set ops. \<not> may_end rid r l op"
  shows "map_of (t_leases (plan_run ops db)) (rid, r) = Some l"
  using assms unfolding plan_run_def
  by (induction ops arbitrary: db) (simp_all add: plan_step_ok lease_stays)

lemma put_leases_run:
  "resources = [] \<or> map_of (t_tasks db) (rid, lr_task_id l) \<noteq> None \<Longrightarrow>
   \<exists>db'. fold_result (put_lease rid l) resources db = Inr db'"
  by (induction resources arbitrary: db) (auto simp: put_lease_def references_def)

lemma free_for_task:
  assumes "bt_ok (t_leases db)"
  shows "find (held_by_other rid tid (reclaim_expired now db)) resources = None \<longleftrightarrow>
    (\<forall>r \<in> set resources. \<forall>l. map_of (t_leases db) (rid, r) = Some l \<longrightarrow>
       lr_task_id l = tid \<or> lr_expires_at l \<le> now)"
proof -
  have "held_by_other rid tid (reclaim_expired now db) r \<longleftrightarrow>
      (\<exists>l. map_of (t_leases db) (rid, r) = Some l \<and> lr_task_id l \<noteq> tid \<and> \<not> lr_expires_at l \<le> now)" for r
    by (auto simp: held_by_other_def reclaim_expired_lease[OF assms] split: option.splits if_splits)
  then show ?thesis by (auto simp: find_None_iff)
qed

section \<open>What leases and plans promise\<close>

text \<open>C12: A task that acquired leases keeps them against every other task. From a plan whose leases belong
  to tasks, after a successful \<open>acquire_task_leases\<close> and any history of acquisitions, releases,
  reclamations, replans and updates, none of which may end the lease of a resource (a clock past its
  expiry, a new acquisition or a release by the holder itself, a new plan of the run), the row of the
  lease is what was written, and whoever else asks for that resource before it expires is told of a
  conflict and changes nothing.\<close>

theorem leases_exclude_other_tasks:
  assumes "plan_ok db"
    and "acquire_task_leases now rid tid agent gen resources expiry db = Inr db'"
    and "r \<in> set resources"
    and "\<forall>op \<in> set ops. \<not> may_end rid r \<lparr>lr_task_id = tid, lr_agent_id = agent, lr_generation = as_i64 gen,
           lr_expires_at = expiry\<rparr> op"
    and "other \<noteq> tid" and "r \<in> set wanted" and "later < expiry"
  shows "map_of (t_leases (plan_run ops db')) (rid, r) = Some \<lparr>lr_task_id = tid, lr_agent_id = agent,
           lr_generation = as_i64 gen, lr_expires_at = expiry\<rparr> \<and>
    (\<exists>held \<in> set wanted. acquire_task_leases later rid other agent2 gen2 wanted expiry2 (plan_run ops db') =
       Inl (LeaseConflict held))"
proof -
  let ?l = "\<lparr>lr_task_id = tid, lr_agent_id = agent, lr_generation = as_i64 gen, lr_expires_at = expiry\<rparr>"
  let ?db = "plan_run ops db'"
  have bt: "bt_ok (t_leases db)" using assms(1) by (simp add: plan_ok_def)
  have ok: "plan_ok db'" by (rule acquire_ok[OF assms(2,1)])
  have "map_of (t_leases db') (rid, r) = Some ?l" using acquire_Inr(3)[OF assms(2) bt, of "(rid, r)"] assms(3) by simp
  with ok assms(4) have row: "map_of (t_leases ?db) (rid, r) = Some ?l" by (intro lease_stays_run)
  have "bt_ok (t_leases ?db)" using plan_run_ok[OF ok] by (simp add: plan_ok_def)
  then obtain held where "find (held_by_other rid other (reclaim_expired later ?db)) wanted = Some held"
    using row assms(5-7) free_for_task[of ?db rid other later wanted] by fastforce
  moreover from this have "held \<in> set wanted" by (auto simp: find_Some_iff)
  ultimately show ?thesis using row by (auto simp: acquire_task_leases_def Let_def)
qed

text \<open>An acquisition succeeds exactly when no other task holds an unexpired lease on one of the
  resources and the task is in the plan. The generation is not compared: the rows are stamped with the
  agent and the generation of the caller, whatever generation of the task they bore.\<close>

theorem acquire_succeeds_exactly:
  assumes "bt_ok (t_leases db)"
  shows "(\<exists>db'. acquire_task_leases now rid tid agent gen resources expiry db = Inr db' \<and>
       (\<forall>r \<in> set resources. map_of (t_leases db') (rid, r) = Some \<lparr>lr_task_id = tid, lr_agent_id = agent,
          lr_generation = as_i64 gen, lr_expires_at = expiry\<rparr>)) \<longleftrightarrow>
    (resources = [] \<or> map_of (t_tasks db) (rid, tid) \<noteq> None) \<and>
    (\<forall>r \<in> set resources. \<forall>l. map_of (t_leases db) (rid, r) = Some l \<longrightarrow>
       lr_task_id l = tid \<or> lr_expires_at l \<le> now)" (is "?run \<longleftrightarrow> ?may")
proof
  assume ?run
  then obtain db' where run: "acquire_task_leases now rid tid agent gen resources expiry db = Inr db'" by blast
  show ?may using acquire_Inr(4,5)[OF run assms] by blast
next
  assume may: ?may
  let ?l = "\<lparr>lr_task_id = tid, lr_agent_id = agent, lr_generation = as_i64 gen, lr_expires_at = expiry\<rparr>"
  from may have free: "find (held_by_other rid tid (reclaim_expired now db)) resources = None"
    by (subst free_for_task[OF assms]) blast
  obtain db' where "fold_result (put_lease rid ?l) resources (reclaim_expired now db) = Inr db'"
    using put_leases_run[of resources "reclaim_expired now db" rid ?l] may by (auto simp: reclaim_expired_def)
  with free have run: "acquire_task_leases now rid tid agent gen resources expiry db = Inr db'"
    by (simp add: acquire_task_leases_def Let_def)
  then show ?run using acquire_Inr(3)[OF run assms] by simp
qed

text \<open>C27: A plan that was stored is read back: the tasks by creation time and identifier, each with the run
  it was stored under and the same set of prerequisites. No dependency and no lease of the old plan is
  left, and the tasks of other runs are what they were.\<close>

theorem replaced_plan_reads_back:
  assumes run: "replace_tasks C rid tasks db = Inr db'" and ok: "plan_ok db"
    and st: "\<forall>t \<in> set tasks. storable C t"
  shows "(\<exists>read. tasks_of C rid db' = Inr read \<and>
      map (\<lambda>t. t\<lparr>tk_dependencies := []\<rparr>) read =
      map (\<lambda>t. t\<lparr>tk_run_id := rid, tk_dependencies := []\<rparr>) (sort_key (\<lambda>t. (tk_created_at t, tk_task_id t)) tasks) \<and>
      map (set \<circ> tk_dependencies) read =
      map (set \<circ> tk_dependencies) (sort_key (\<lambda>t. (tk_created_at t, tk_task_id t)) tasks)) \<and>
    (\<forall>k. fst k \<noteq> rid \<longrightarrow> map_of (t_tasks db') k = map_of (t_tasks db) k) \<and>
    (\<forall>p \<in> set (t_leases db'). fst (fst p) \<noteq> rid)"
proof -
  obtain row where row: "\<forall>t \<in> set tasks. task_row_of C t = Inr (row t)"
    and d: "distinct (map tk_task_id tasks)"
    and rows: "set (rows_of_run rid (t_tasks db')) = (\<lambda>t. (tk_task_id t, row t)) ` set tasks"
    and bt: "bt_ok (t_tasks db')"
    and other: "\<And>k. fst k \<noteq> rid \<Longrightarrow> map_of (t_tasks db') k = map_of (t_tasks db) k"
    and leases: "t_leases db' = t_leases (delete_plan rid db)"
    and deps: "fst ` set (t_dependencies db') =
      {e \<in> fst ` set (t_dependencies db). fst e \<noteq> rid} \<union> (\<lambda>(p, d). (rid, p, d)) ` set (plan_edges tasks)"
    and "bt_ok (t_dependencies db')"
    by (rule replaced_rows[OF run ok]) (rule that)
  let ?g = "\<lambda>t. (tk_task_id t, row t)" and ?k = "\<lambda>t. (tk_created_at t, tk_task_id t)"
  let ?f = "\<lambda>(tid, row). (tr_created_at row, tid)"
  let ?sorted = "sort_key ?k tasks"
  have key: "tr_created_at (row t) = tk_created_at t" if "t \<in> set tasks" for t
    using row that task_row_created by blast
  have rowsd: "distinct (rows_of_run rid (t_tasks db'))" using rows_of_run_distinct[OF bt] distinct_map by blast
  have gd: "distinct (map ?g tasks)" using d by (auto simp: distinct_map inj_on_def)
  have "sort_key ?f (rows_of_run rid (t_tasks db')) = sort_key ?f (map ?g tasks)"
    by (rule sort_key_unique[OF rowsd gd]) (use rows d in \<open>auto simp: inj_on_def distinct_map\<close>)
  also have "\<dots> = map ?g ?sorted"
    using sort_key_agree[of tasks "?f \<circ> ?g" ?k] key by (simp add: sort_key_map)
  finally have sorted: "sort_key ?f (rows_of_run rid (t_tasks db')) = map ?g ?sorted" .
  have each: "task_of_row C rid (?g t) = Inr (t\<lparr>tk_run_id := rid, tk_dependencies := []\<rparr>)"
    if "t \<in> set ?sorted" for t
    using that row st by (simp add: task_of_row_back)
  have read: "tasks_of C rid db' = Inr (map (\<lambda>t. t\<lparr>tk_run_id := rid,
      tk_dependencies := prerequisites_of rid (tk_task_id t) db'\<rparr>) ?sorted)"
    using r_mapm_map_Inr[of ?sorted "task_of_row C rid" ?g, OF each]
    by (simp add: tasks_of_def sorted r_map_def comp_def)
  have pre: "set (prerequisites_of rid (tk_task_id t) db') = set (tk_dependencies t)" if "t \<in> set tasks" for t
  proof -
    have "(rid, p, tk_task_id t) \<in> fst ` set (t_dependencies db') \<longleftrightarrow> (p, tk_task_id t) \<in> set (plan_edges tasks)" for p
      by (auto simp: deps)
    then show ?thesis using plan_edges_set[OF d that] by (auto simp: prerequisites_set)
  qed
  have "map (\<lambda>t. t\<lparr>tk_dependencies := []\<rparr>) (map (\<lambda>t. t\<lparr>tk_run_id := rid,
      tk_dependencies := prerequisites_of rid (tk_task_id t) db'\<rparr>) ?sorted) =
      map (\<lambda>t. t\<lparr>tk_run_id := rid, tk_dependencies := []\<rparr>) ?sorted" by simp
  moreover have "map (set \<circ> tk_dependencies) (map (\<lambda>t. t\<lparr>tk_run_id := rid,
      tk_dependencies := prerequisites_of rid (tk_task_id t) db'\<rparr>) ?sorted) =
      map (set \<circ> tk_dependencies) ?sorted" using pre by simp
  moreover have "\<forall>p \<in> set (t_leases db'). fst (fst p) \<noteq> rid" using delete_plan_leases[OF ok, of rid] leases by auto
  ultimately show ?thesis using read other by blast
qed

section \<open>Examples\<close>

definition example_task :: "str \<Rightarrow> time \<Rightarrow> str list \<Rightarrow> task_record" where
  "example_task tid created prerequisites =
     \<lparr>tk_run_id = ''r'', tk_task_id = tid, tk_objective = ''o'', tk_state = TaskPending, tk_paths = [''src''],
      tk_dependencies = prerequisites, tk_assigned = None, tk_attempt = 0, tk_max_attempts = 3,
      tk_generation = 1, tk_last_error = None, tk_created_at = created, tk_updated_at = created\<rparr>"

definition example_task_row :: task_row where
  "example_task_row =
     \<lparr>tr_objective = ''o'', tr_state = ''pending'', tr_paths = ''[src]'', tr_assigned = None, tr_attempt = 0,
      tr_max_attempts = 3, tr_generation = 1, tr_last_error = None, tr_created_at = 0, tr_updated_at = 0\<rparr>"

definition example_plan :: store_db where
  "example_plan = example_db\<lparr>t_tasks := [((''r'', ''a''), example_task_row), ((''r'', ''b''), example_task_row)]\<rparr>"

lemma example_plan_ok: "plan_ok example_plan"
  by (simp add: plan_ok_def example_plan_def example_defs bt_ok_def less_prod_def)

lemma leases_exclude_other_tasks_witness:
  "\<exists>db'. acquire_task_leases 0 ''r'' ''a'' ''x'' 1 [''f''] 100 example_plan = Inr db' \<and>
    (\<exists>held \<in> set [''e'', ''f'']. acquire_task_leases 50 ''r'' ''b'' ''y'' 1 [''e'', ''f''] 150
       (plan_run [Acquire 10 ''r'' ''b'' ''y'' 1 [''e''] 90, Release ''r'' ''a'' ''x'' 2, Reclaim 95] db') =
         Inl (LeaseConflict held))"
proof -
  let ?ops = "[Acquire 10 ''r'' ''b'' ''y'' 1 [''e''] 90, Release ''r'' ''a'' ''x'' 2, Reclaim 95]"
  obtain db' where run: "acquire_task_leases 0 ''r'' ''a'' ''x'' 1 [''f''] 100 example_plan = Inr db'"
    by (simp add: acquire_task_leases_def reclaim_expired_def held_by_other_def put_lease_def references_def
        example_plan_def example_defs delete_where_def Let_def)
  have "\<forall>op \<in> set ?ops. \<not> may_end ''r'' ''f'' \<lparr>lr_task_id = ''a'', lr_agent_id = ''x'', lr_generation = as_i64 1,
      lr_expires_at = 100\<rparr> op"
    by (simp add: stamped_by_def as_i64_def)
  then have "\<exists>held \<in> set [''e'', ''f'']. acquire_task_leases 50 ''r'' ''b'' ''y'' 1 [''e'', ''f''] 150
      (plan_run ?ops db') = Inl (LeaseConflict held)"
    by (intro conjunct2[OF leases_exclude_other_tasks[OF example_plan_ok run, of "''f''"]]) simp_all
  with run show ?thesis by (intro exI conjI)
qed

lemma acquire_succeeds_exactly_witness:
  "\<exists>db'. acquire_task_leases 50 ''r'' ''a'' ''x'' 1 [''f''] 100
      (example_plan\<lparr>t_leases := [((''r'', ''f''), \<lparr>lr_task_id = ''a'', lr_agent_id = ''y'', lr_generation = 7,
         lr_expires_at = 200\<rparr>)]\<rparr>) = Inr db' \<and>
    map_of (t_leases db') (''r'', ''f'') = Some \<lparr>lr_task_id = ''a'', lr_agent_id = ''x'', lr_generation = 1,
      lr_expires_at = 100\<rparr>"
proof -
  let ?db = "example_plan\<lparr>t_leases := [((''r'', ''f''), \<lparr>lr_task_id = ''a'', lr_agent_id = ''y'', lr_generation = 7,
         lr_expires_at = 200\<rparr>)]\<rparr>"
  have "bt_ok (t_leases ?db)" by (simp add: bt_ok_def)
  from acquire_succeeds_exactly[OF this, of 50 "''r''" "''a''" "''x''" 1 "[''f'']" 100]
  show ?thesis by (auto simp: example_plan_def example_defs as_i64_def)
qed

lemma replaced_plan_reads_back_witness:
  "\<exists>db' read. replace_tasks example_codec ''r'' [example_task ''b'' 2 [''a''], example_task ''a'' 1 []] example_plan = Inr db' \<and>
    tasks_of example_codec ''r'' db' = Inr read \<and> map tk_task_id read = [''a'', ''b''] \<and>
    map (set \<circ> tk_dependencies) read = [{}, {''a''}]"
proof -
  let ?ts = "[example_task ''b'' 2 [''a''], example_task ''a'' 1 []]"
  obtain db' where run: "replace_tasks example_codec ''r'' ?ts example_plan = Inr db'"
    by (simp add: replace_tasks_def delete_plan_def example_plan_def example_defs example_task_def
        insert_task_def task_row_of_def insert_row_def references_def delete_where_def plan_edges_def
        insert_dependency_def Let_def)
  have "\<forall>t \<in> set ?ts. storable example_codec t"
    by (simp add: storable_def example_task_def example_defs reads_back_def)
  from replaced_plan_reads_back[OF run example_plan_ok this] obtain read
    where read: "tasks_of example_codec ''r'' db' = Inr read"
      and fields: "map (\<lambda>t. t\<lparr>tk_dependencies := []\<rparr>) read =
        map (\<lambda>t. t\<lparr>tk_run_id := ''r'', tk_dependencies := []\<rparr>) (sort_key (\<lambda>t. (tk_created_at t, tk_task_id t)) ?ts)"
      and pre: "map (set \<circ> tk_dependencies) read =
        map (set \<circ> tk_dependencies) (sort_key (\<lambda>t. (tk_created_at t, tk_task_id t)) ?ts)"
    by blast
  have sorted: "sort_key (\<lambda>t. (tk_created_at t, tk_task_id t)) ?ts = [example_task ''a'' 1 [], example_task ''b'' 2 [''a'']]"
    by (simp add: example_task_def less_eq_prod_def)
  have "map tk_task_id read = map tk_task_id (map (\<lambda>t. t\<lparr>tk_dependencies := []\<rparr>) read)" by simp
  also have "\<dots> = [''a'', ''b'']" by (simp only: fields sorted) (simp add: example_task_def)
  finally have ids: "map tk_task_id read = [''a'', ''b'']" .
  have d2: "map (set \<circ> tk_dependencies) read = [{}, {''a''}]"
    by (simp only: pre sorted) (simp add: example_task_def)
  show ?thesis by (rule exI, rule exI, rule conjI[OF run], rule conjI[OF read], rule conjI[OF ids d2])
qed

end
