(* ===== verification/Store_Usage.thy ===== *)
theory Store_Usage
  imports Store_Tasks
begin

text \<open>
  Usage, contracts and receipts of a run (\<open>crates/minha-core/src/store.rs\<close>): the ledger of what providers
  reported, with the counters of the runs it feeds; the contracts of a plan; and the receipts of
  dispatches, which outlive the plan.
\<close>

section \<open>The usage ledger\<close>

definition USAGE_LEDGER_SCHEMA_VERSION :: u16 where "USAGE_LEDGER_SCHEMA_VERSION = 1"

definition usage_row_of :: "time \<Rightarrow> usage_ledger_entry \<Rightarrow> usage_row" where
  "usage_row_of now e =
     \<lparr>ur_run_id = ule_run_id e, ur_schema_version = int (ule_schema_version e),
      ur_kind = usage_kind_str (ule_kind e), ur_state = usage_state_str (ule_state e),
      ur_provider = ule_provider e, ur_model = ule_model e, ur_agent_id = ule_agent_id e,
      ur_response_id = ule_provider_response_id e,
      ur_input = as_i64 (tu_input (ule_usage e)), ur_output = as_i64 (tu_output (ule_usage e)),
      ur_cached_input = as_i64 (tu_cached_input (ule_usage e)),
      ur_cache_write = as_i64 (tu_cache_write (ule_usage e)),
      ur_reasoning_output = as_i64 (tu_reasoning_output (ule_usage e)),
      ur_context_tokens = map_option as_i64 (ule_context_tokens e), ur_occurred_at = now\<rparr>"

text \<open>
  \<open>INSERT OR IGNORE\<close> leaves the table alone when the entry key is known, or the response of the
  provider is (the partial unique index). A run that is not there is still an error.
\<close>

definition response_known :: "usage_ledger_entry \<Rightarrow> (str \<times> usage_row) list \<Rightarrow> bool" where
  "response_known e t =
     (case ule_provider_response_id e of None \<Rightarrow> False
      | Some r \<Rightarrow> \<exists>(_, row) \<in> set t. ur_provider row = ule_provider e \<and> ur_response_id row = Some r)"

definition usage_known :: "usage_ledger_entry \<Rightarrow> store_db \<Rightarrow> bool" where
  "usage_known e db \<longleftrightarrow> map_of (t_usage db) (ule_entry_key e) \<noteq> None \<or> response_known e (t_usage db)"

definition count_usage :: "time \<Rightarrow> usage_ledger_entry \<Rightarrow> run_row \<Rightarrow> run_row" where
  "count_usage now e row =
     row\<lparr>rw_input_tokens := sql_add (rw_input_tokens row) (as_i64 (tu_input (ule_usage e))),
         rw_output_tokens := sql_add (rw_output_tokens row) (as_i64 (tu_output (ule_usage e))),
         rw_updated_at := now\<rparr>"

definition record_usage_entry ::
    "time \<Rightarrow> time \<Rightarrow> usage_ledger_entry \<Rightarrow> store_db \<Rightarrow> store_error + bool \<times> store_db" where
  "record_usage_entry now now' e db =
     (if ule_schema_version e \<noteq> USAGE_LEDGER_SCHEMA_VERSION
      then Inl (Coordination (''unsupported usage ledger schema '' @ show_nat (ule_schema_version e)))
      else if usage_known e db then Inr (False, db)
      else references (t_runs db) (ule_run_id e)
        (Inr (True, db\<lparr>t_usage := bt_insert (ule_entry_key e) (usage_row_of now e) (t_usage db),
                       t_runs := bt_update (ule_run_id e) (count_usage now' e) (t_runs db)\<rparr>)))"

definition add_run_usage ::
    "time \<Rightarrow> time \<Rightarrow> str \<Rightarrow> run_id \<Rightarrow> u64 \<Rightarrow> u64 \<Rightarrow> store_db \<Rightarrow> store_error + store_db" where
  "add_run_usage now now' fresh rid input out db =
     r_map snd (record_usage_entry now now'
       \<lparr>ule_schema_version = USAGE_LEDGER_SCHEMA_VERSION, ule_entry_key = ''legacy-api:'' @ rid @ '':'' @ fresh,
        ule_run_id = rid, ule_kind = KindLegacyUnverified, ule_state = StateLegacyUnverified,
        ule_provider = ''legacy'', ule_model = ''legacy/unattributed'', ule_agent_id = None,
        ule_provider_response_id = None,
        ule_usage = usage_zero\<lparr>tu_input := input, tu_output := out\<rparr>, ule_context_tokens = None\<rparr> db)"

record usage_totals =
  ut_session_input :: u64
  ut_session_output :: u64
  ut_session_cached_input :: u64
  ut_session_cache_write :: u64
  ut_session_reasoning_output :: u64
  ut_lifetime_input :: u64
  ut_lifetime_output :: u64
  ut_lifetime_cached_input :: u64
  ut_lifetime_cache_write :: u64
  ut_lifetime_reasoning_output :: u64

text \<open>\<open>SUM\<close> over integers fails when a partial sum, in the order of the scan, leaves \<open>i64\<close>.\<close>

fun sql_sum :: "i64 \<Rightarrow> i64 list \<Rightarrow> store_error + i64" where
  "sql_sum acc [] = Inr acc"
| "sql_sum acc (x # xs) =
     (if i64_min \<le> acc + x \<and> acc + x \<le> i64_max then sql_sum (acc + x) xs
      else Inl (Sqlite ''integer overflow''))"

definition column_sum :: "(usage_row \<Rightarrow> i64) \<Rightarrow> (str \<times> usage_row) list \<Rightarrow> store_error + u64" where
  "column_sum col rows = r_map (\<lambda>s. nat (max s 0)) (sql_sum 0 (map (col \<circ> snd) rows))"

definition usage_totals_of ::
    "((str \<times> usage_row) list \<Rightarrow> (str \<times> usage_row) list) \<Rightarrow> run_id option \<Rightarrow> store_db \<Rightarrow> store_error + usage_totals"
    where
  "usage_totals_of scan rid db =
     (let every = scan (t_usage db);
          session = (case rid of None \<Rightarrow> [] | Some r \<Rightarrow> scan (filter (\<lambda>(_, row). ur_run_id row = r) (t_usage db)))
      in r_bind (column_sum ur_input every) (\<lambda>li.
         r_bind (column_sum ur_output every) (\<lambda>lo.
         r_bind (column_sum ur_cached_input every) (\<lambda>lc.
         r_bind (column_sum ur_cache_write every) (\<lambda>lw.
         r_bind (column_sum ur_reasoning_output every) (\<lambda>lr.
         r_bind (column_sum ur_input session) (\<lambda>si.
         r_bind (column_sum ur_output session) (\<lambda>so.
         r_bind (column_sum ur_cached_input session) (\<lambda>sc.
         r_bind (column_sum ur_cache_write session) (\<lambda>sw.
         r_bind (column_sum ur_reasoning_output session) (\<lambda>sr.
           Inr \<lparr>ut_session_input = si, ut_session_output = so, ut_session_cached_input = sc,
                ut_session_cache_write = sw, ut_session_reasoning_output = sr,
                ut_lifetime_input = li, ut_lifetime_output = lo, ut_lifetime_cached_input = lc,
                ut_lifetime_cache_write = lw, ut_lifetime_reasoning_output = lr\<rparr>)))))))))))"

section \<open>Contracts\<close>

definition validate_microtask_contract :: "microtask_contract \<Rightarrow> store_error + unit" where
  "validate_microtask_contract c =
     (if mc_schema_version c \<noteq> MICROTASK_CONTRACT_SCHEMA_VERSION
      then Inl (Coordination (''unsupported microtask contract schema '' @ show_nat (mc_schema_version c)))
      else if trim (mc_task_id c) = [] \<or> trim (mc_goal c) = [] \<or> mc_lease_resources c = [] \<or>
              trim (mc_acceptance_check c) = []
      then Inl (Coordination ''microtask contracts require task, goal, lease, and acceptance check'')
      else Inr ())"

text \<open>A contract comes with the instant at which its row is written.\<close>

definition insert_contract :: "codec \<Rightarrow> run_id \<Rightarrow> time \<times> microtask_contract \<Rightarrow> store_db \<Rightarrow> store_error + store_db" where
  "insert_contract C rid nc db =
     (case nc of (now, c) \<Rightarrow>
        r_bind (json_err (enc_contract C c)) (\<lambda>body.
        r_bind (references (t_runs db) rid (insert_row (rid, mc_task_id c)
            \<lparr>cr_schema_version = int (mc_schema_version c), cr_contract = body, cr_created_at = now,
             cr_updated_at = now\<rparr> (t_contracts db))) (\<lambda>t.
          Inr (db\<lparr>t_contracts := t\<rparr>))))"

definition replace_task_contracts ::
    "codec \<Rightarrow> run_id \<Rightarrow> (time \<times> microtask_contract) list \<Rightarrow> store_db \<Rightarrow> store_error + store_db" where
  "replace_task_contracts C rid cs db =
     r_bind (r_mapm (\<lambda>(_, c). validate_microtask_contract c) cs) (\<lambda>_.
       fold_result (insert_contract C rid) cs
         (db\<lparr>t_contracts := delete_where (\<lambda>(r, _) _. r = rid) (t_contracts db)\<rparr>))"

definition upsert_task_contract ::
    "codec \<Rightarrow> time \<Rightarrow> run_id \<Rightarrow> microtask_contract \<Rightarrow> store_db \<Rightarrow> store_error + store_db" where
  "upsert_task_contract C now rid c db =
     r_bind (validate_microtask_contract c) (\<lambda>_.
     r_bind (json_err (enc_contract C c)) (\<lambda>body.
       references (t_runs db) rid (Inr (db\<lparr>t_contracts :=
         (let k = (rid, mc_task_id c) in
          case map_of (t_contracts db) k of
            None \<Rightarrow> bt_insert k \<lparr>cr_schema_version = int (mc_schema_version c), cr_contract = body,
                      cr_created_at = now, cr_updated_at = now\<rparr> (t_contracts db)
          | Some _ \<Rightarrow> bt_update k (\<lambda>row. row\<lparr>cr_schema_version := int (mc_schema_version c),
                      cr_contract := body, cr_updated_at := now\<rparr>) (t_contracts db))\<rparr>))))"

definition read_contract :: "codec \<Rightarrow> contract_row \<Rightarrow> store_error + microtask_contract" where
  "read_contract C row =
     r_bind (json_err (dec_contract C (cr_contract row))) (\<lambda>c.
       r_map (\<lambda>_. c) (validate_microtask_contract c))"

definition task_contract_of :: "codec \<Rightarrow> run_id \<Rightarrow> str \<Rightarrow> store_db \<Rightarrow> store_error + microtask_contract option" where
  "task_contract_of C rid tid db =
     (case map_of (t_contracts db) (rid, tid) of None \<Rightarrow> Inr None
      | Some row \<Rightarrow> r_map Some (read_contract C row))"

definition task_contracts_of :: "codec \<Rightarrow> run_id \<Rightarrow> store_db \<Rightarrow> store_error + microtask_contract list" where
  "task_contracts_of C rid db = r_mapm (\<lambda>(_, row). read_contract C row) (rows_of_run rid (t_contracts db))"

section \<open>Receipts\<close>

definition validate_dispatch_receipt_v1 :: "dispatch_receipt_v1 \<Rightarrow> store_error + unit" where
  "validate_dispatch_receipt_v1 r =
     (if r1_schema_version r \<noteq> DISPATCH_RECEIPT_SCHEMA_VERSION
      then Inl (Coordination (''unsupported dispatch receipt schema '' @ show_nat (r1_schema_version r)))
      else if trim (r1_receipt_id r) = [] \<or> trim (r1_task_id r) = [] \<or> trim (r1_role r) = [] \<or>
              trim (r1_provider r) = [] \<or> trim (r1_model r) = [] \<or> r1_lease_resources r = [] \<or>
              trim (r1_acceptance_check r) = [] \<or> r1_session_target_tokens r = 0 \<or>
              trim (r1_parallelism_reason r) = []
      then Inl (Coordination ''dispatch receipts require identity, contract, budget, and admission evidence'')
      else Inr ())"

definition validate_dispatch_receipt :: "dispatch_receipt \<Rightarrow> store_error + unit" where
  "validate_dispatch_receipt r =
     (if r2_schema_version r \<noteq> DISPATCH_RECEIPT_V2_SCHEMA_VERSION
      then Inl (Coordination (''unsupported dispatch receipt schema '' @ show_nat (r2_schema_version r)))
      else r_bind (validate_dispatch_receipt_v1 (receipt_to_v1 r)) (\<lambda>_.
        if dr_schema_version (r2_routing r) \<noteq> 1 \<or> trim (dr_policy (r2_routing r)) = []
        then Inl (Coordination ''dispatch receipt routing evidence must be versioned and non-empty'')
        else Inr ()))"

definition put_receipt :: "str \<Rightarrow> receipt_row \<Rightarrow> store_db \<Rightarrow> store_error + bool \<times> store_db" where
  "put_receipt receipt_id row db =
     (if map_of (t_receipts db) receipt_id \<noteq> None then Inr (False, db)
      else references (t_runs db) (rr_run_id row)
        (Inr (True, db\<lparr>t_receipts := bt_insert receipt_id row (t_receipts db)\<rparr>)))"

definition record_dispatch_receipt ::
    "codec \<Rightarrow> run_id \<Rightarrow> dispatch_receipt_v1 \<Rightarrow> store_db \<Rightarrow> store_error + bool \<times> store_db" where
  "record_dispatch_receipt C rid r db =
     r_bind (validate_dispatch_receipt_v1 r) (\<lambda>_.
     r_bind (json_err (enc_receipt_v1 C r)) (\<lambda>body.
       put_receipt (r1_receipt_id r)
         \<lparr>rr_run_id = rid, rr_task_id = r1_task_id r, rr_generation = as_i64 (r1_generation r),
          rr_schema_version = int (r1_schema_version r), rr_receipt = body,
          rr_created_at = r1_issued_at r\<rparr> db))"

definition record_dispatch_receipt_v2 ::
    "codec \<Rightarrow> run_id \<Rightarrow> dispatch_receipt \<Rightarrow> store_db \<Rightarrow> store_error + bool \<times> store_db" where
  "record_dispatch_receipt_v2 C rid r db =
     r_bind (validate_dispatch_receipt r) (\<lambda>_.
     r_bind (json_err (enc_receipt C r)) (\<lambda>body.
       put_receipt (r2_receipt_id r)
         \<lparr>rr_run_id = rid, rr_task_id = r2_task_id r, rr_generation = as_i64 (r2_generation r),
          rr_schema_version = int (r2_schema_version r), rr_receipt = body,
          rr_created_at = r2_issued_at r\<rparr> db))"

text \<open>The newest generation first; the identifier of a receipt breaks every tie.\<close>

definition receipts_newest_first :: "run_id \<Rightarrow> str \<Rightarrow> store_db \<Rightarrow> (str \<times> receipt_row) list" where
  "receipts_newest_first rid tid db =
     rev (sort_key (\<lambda>(key, row). (rr_generation row, rr_created_at row, key))
       (filter (\<lambda>(_, row). rr_run_id row = rid \<and> rr_task_id row = tid) (t_receipts db)))"

definition amend_receipt :: "codec \<Rightarrow> run_id \<Rightarrow> str \<Rightarrow> dispatch_receipt \<Rightarrow> store_db \<Rightarrow> store_error + store_db" where
  "amend_receipt C rid receipt_id r db =
     r_bind (validate_dispatch_receipt r) (\<lambda>_.
     r_bind (json_err (enc_receipt C r)) (\<lambda>body.
       Inr (db\<lparr>t_receipts := bt_update receipt_id (\<lambda>row. if rr_run_id row = rid
             then row\<lparr>rr_schema_version := int DISPATCH_RECEIPT_V2_SCHEMA_VERSION, rr_receipt := body\<rparr>
             else row) (t_receipts db)\<rparr>)))"

definition append_dispatch_book_sources ::
    "codec \<Rightarrow> run_id \<Rightarrow> str \<Rightarrow> event_agent_id \<Rightarrow> str list \<Rightarrow> store_db \<Rightarrow>
     store_error + dispatch_receipt_v1 option \<times> store_db" where
  "append_dispatch_book_sources C rid tid agent sources db =
     (let additions = sort_dedup (filter (\<lambda>s. s \<noteq> []) (map trim sources)) in
      if additions = [] then Inr (None, db)
      else r_bind (r_mapm (\<lambda>(key, row). r_map (\<lambda>r. (key, r)) (json_err (dec_receipt C (rr_receipt row))))
                     (receipts_newest_first rid tid db)) (\<lambda>decoded.
        case find (\<lambda>(_, r). r2_agent_id r = agent) decoded of
          None \<Rightarrow> Inr (None, db)
        | Some (key, r) \<Rightarrow>
            let r' = r\<lparr>r2_book_sources := sort_dedup (r2_book_sources r @ additions)\<rparr> in
            if length (r2_book_sources r') = length (r2_book_sources r) then Inr (None, db)
            else r_map (\<lambda>db'. (Some (receipt_to_v1 r'), db')) (amend_receipt C rid key r' db)))"

definition dispatch_receipts_v2 :: "codec \<Rightarrow> run_id \<Rightarrow> store_db \<Rightarrow> store_error + dispatch_receipt list" where
  "dispatch_receipts_v2 C rid db =
     r_mapm (\<lambda>(_, row). r_bind (json_err (dec_receipt C (rr_receipt row))) (\<lambda>r.
         r_map (\<lambda>_. r) (validate_dispatch_receipt r)))
       (sort_key (\<lambda>(key, row). (rr_created_at row, key))
         (filter (\<lambda>(_, row). rr_run_id row = rid) (t_receipts db)))"

definition dispatch_receipts_v1 :: "codec \<Rightarrow> run_id \<Rightarrow> store_db \<Rightarrow> store_error + dispatch_receipt_v1 list" where
  "dispatch_receipts_v1 C rid db = r_map (map receipt_to_v1) (dispatch_receipts_v2 C rid db)"

section \<open>The ledger and the counters\<close>

definition usage_sum :: "(usage_row \<Rightarrow> i64) \<Rightarrow> str \<Rightarrow> (str \<times> usage_row) list \<Rightarrow> int" where
  "usage_sum col rid t = sum_list (map (\<lambda>(_, row). if ur_run_id row = rid then col row else 0) t)"

lemma usage_sum_insert:
  assumes "map_of t k = None"
  shows "usage_sum col rid (bt_insert k row t) = usage_sum col rid t + (if ur_run_id row = rid then col row else 0)"
proof -
  from assms have "k \<notin> fst ` set t" by (simp add: map_of_eq_None_iff)
  from bt_insert_split[OF this] obtain xs ys where "t = xs @ ys" "\<And>v. bt_insert k v t = xs @ (k, v) # ys" by blast
  then show ?thesis by (simp add: usage_sum_def)
qed

lemma usage_sum_filter:
  "sum_list (map (col \<circ> snd) (filter (\<lambda>(_, row). ur_run_id row = rid) t)) = usage_sum col rid t"
  by (induction t) (auto simp: usage_sum_def)

lemma sql_sum_exact: "sql_sum acc xs = Inr s \<Longrightarrow> s = acc + sum_list xs"
  by (induction xs arbitrary: acc) (fastforce simp: add.assoc split: if_splits)+

lemma column_sum_scan:
  assumes "column_sum col (scan (filter (\<lambda>(_, row). ur_run_id row = rid) t)) = Inr n"
    and "\<forall>xs. mset (scan xs) = mset xs"
  shows "n = nat (max (usage_sum col rid t) 0)"
proof -
  let ?xs = "filter (\<lambda>(_, row). ur_run_id row = rid) t"
  from assms(1) obtain s where s: "sql_sum 0 (map (col \<circ> snd) (scan ?xs)) = Inr s" and n: "n = nat (max s 0)"
    by (auto simp: column_sum_def result_simps)
  have "mset (map (col \<circ> snd) (scan ?xs)) = mset (map (col \<circ> snd) ?xs)" using assms(2) by simp
  then have "sum_list (map (col \<circ> snd) (scan ?xs)) = sum_list (map (col \<circ> snd) ?xs)"
    by (metis sum_mset_sum_list)
  with sql_sum_exact[OF s] n show ?thesis by (simp add: usage_sum_filter)
qed

text \<open>
  A counter of a run holds the sum of the column over its rows of the ledger, unless the sum left the
  integers; the rows of the ledger belong to runs that are there.
\<close>

definition counts :: "sql_num \<Rightarrow> int \<Rightarrow> bool" where
  "counts c s \<longleftrightarrow> c = SqlReal \<or> c = SqlInteger s"

definition usage_ok :: "store_db \<Rightarrow> bool" where
  "usage_ok db \<longleftrightarrow> bt_ok (t_runs db) \<and> bt_ok (t_usage db) \<and>
     (\<forall>rid row. map_of (t_runs db) rid = Some row \<longrightarrow>
        counts (rw_input_tokens row) (usage_sum ur_input rid (t_usage db)) \<and>
        counts (rw_output_tokens row) (usage_sum ur_output rid (t_usage db))) \<and>
     (\<forall>p \<in> set (t_usage db). map_of (t_runs db) (ur_run_id (snd p)) \<noteq> None)"

lemma usage_okD:
  "usage_ok db \<Longrightarrow> map_of (t_runs db) rid = Some row \<Longrightarrow>
   counts (rw_input_tokens row) (usage_sum ur_input rid (t_usage db)) \<and>
   counts (rw_output_tokens row) (usage_sum ur_output rid (t_usage db))"
  by (simp add: usage_ok_def)

lemma counts_add: "counts c s \<Longrightarrow> counts (sql_add c x) (s + x)"
  by (cases c) (auto simp: counts_def)

lemma usage_sum_no_rows: "\<forall>p \<in> set t. ur_run_id (snd p) \<noteq> rid \<Longrightarrow> usage_sum col rid t = 0"
  by (induction t) (auto simp: usage_sum_def)

lemma record_usage_keeps:
  assumes "record_usage_entry now now' e db = Inr (b, db')" and "usage_ok db"
  shows "usage_ok db'"
proof (cases b)
  case False
  with assms show ?thesis by (auto simp: record_usage_entry_def result_simps split: if_splits)
next
  case True
  with assms(1) have run: "map_of (t_runs db) (ule_run_id e) \<noteq> None" and new: "map_of (t_usage db) (ule_entry_key e) = None"
    and db': "db' = db\<lparr>t_usage := bt_insert (ule_entry_key e) (usage_row_of now e) (t_usage db),
                       t_runs := bt_update (ule_run_id e) (count_usage now' e) (t_runs db)\<rparr>"
    by (auto simp: record_usage_entry_def result_simps usage_known_def split: if_splits)
  have cols: "ur_run_id (usage_row_of now e) = ule_run_id e"
    "ur_input (usage_row_of now e) = as_i64 (tu_input (ule_usage e))"
    "ur_output (usage_row_of now e) = as_i64 (tu_output (ule_usage e))"
    by (simp_all add: usage_row_of_def)
  show ?thesis
    using assms(2) run cols
    unfolding usage_ok_def
    by (auto simp: db' usage_sum_insert[OF new] bt_ok_insert bt_ok_update count_usage_def counts_add
        dest!: set_bt_insert split: if_splits)
qed

lemma update_row_keeps:
  assumes "usage_ok db"
    and "\<And>row. rw_input_tokens (f row) = rw_input_tokens row \<and> rw_output_tokens (f row) = rw_output_tokens row"
  shows "usage_ok (db\<lparr>t_runs := bt_update rid f (t_runs db)\<rparr>)"
  using assms unfolding usage_ok_def by (auto simp: bt_ok_update split: if_splits)

lemma create_run_keeps:
  assumes "create_run now fresh goal m db = Inr (run, db')" and ok: "usage_ok db"
  shows "usage_ok db'"
proof -
  from assms(1) obtain row where new: "map_of (t_runs db) fresh = None"
    and db': "db' = db\<lparr>t_runs := bt_insert fresh row (t_runs db)\<rparr>"
    and zero: "rw_input_tokens row = SqlInteger 0" "rw_output_tokens row = SqlInteger 0"
    by (auto simp: create_run_def Let_def result_simps)
  have "\<forall>p \<in> set (t_usage db). ur_run_id (snd p) \<noteq> fresh" using ok new unfolding usage_ok_def by metis
  then have none: "usage_sum col fresh (t_usage db) = 0" for col by (rule usage_sum_no_rows)
  show ?thesis
    using ok unfolding usage_ok_def by (auto simp: db' none zero counts_def bt_ok_insert split: if_splits)
qed

section \<open>Histories of runs and usage\<close>

datatype usage_op =
  NewRun time run_id str mode
| NewState time run_id exit_state "str option" "str option" "str option"
| NewTitle time run_id str
| Archived time run_id
| Usage time time usage_ledger_entry
| OldUsage time time str run_id u64 u64

definition committed :: "'e + 'a \<times> store_db \<Rightarrow> store_db \<Rightarrow> store_db" where
  "committed r db = (case r of Inl _ \<Rightarrow> db | Inr (_, db') \<Rightarrow> db')"

fun usage_step :: "usage_op \<Rightarrow> store_db \<Rightarrow> store_db" where
  "usage_step (NewRun now fresh goal m) db = committed (create_run now fresh goal m db) db"
| "usage_step (NewState now rid st mdl summary question) db = update_run_state now rid st mdl summary question db"
| "usage_step (NewTitle now rid title) db = set_title now rid title db"
| "usage_step (Archived now rid) db = set_archived now rid db"
| "usage_step (Usage now now' e) db = committed (record_usage_entry now now' e db) db"
| "usage_step (OldUsage now now' fresh rid input out) db =
     or_unchanged (add_run_usage now now' fresh rid input out db) db"

definition usage_history :: "usage_op list \<Rightarrow> store_db" where
  "usage_history ops = foldl (\<lambda>db op. usage_step op db) store_empty ops"

lemma usage_step_ok: "usage_ok db \<Longrightarrow> usage_ok (usage_step op db)"
proof (cases op)
  case NewRun
  then show "usage_ok db \<Longrightarrow> ?thesis" using create_run_keeps by (auto simp: committed_def split: sum.split)
next
  case Usage
  then show "usage_ok db \<Longrightarrow> ?thesis" using record_usage_keeps by (auto simp: committed_def split: sum.split)
next
  case OldUsage
  then show "usage_ok db \<Longrightarrow> ?thesis"
    using record_usage_keeps by (auto simp: or_unchanged_def add_run_usage_def result_simps split: sum.split)
qed (auto simp: update_run_state_def set_title_def set_archived_def intro!: update_row_keeps)

lemma usage_history_ok: "usage_ok (usage_history ops)"
proof -
  have "usage_ok db \<Longrightarrow> usage_ok (foldl (\<lambda>db op. usage_step op db) db ops)" for db
    by (induction ops arbitrary: db) (simp_all add: usage_step_ok)
  moreover have "usage_ok store_empty" by (simp add: usage_ok_def store_empty_def)
  ultimately show ?thesis by (simp add: usage_history_def)
qed

text \<open>C10: The counters of a run are its ledger. After any history of creating, renaming, archiving and
  updating runs and of recording usage, by either call, what a run reports as its input and output
  tokens is what \<open>usage_totals\<close> reports for its session: the sums over its rows of the ledger, in
  whatever order they are scanned.\<close>

theorem run_counters_are_ledger_sums:
  assumes "run_of rid (usage_history ops) = Inr (Some run)"
    and "usage_totals_of scan (Some rid) (usage_history ops) = Inr totals"
    and "\<forall>xs. mset (scan xs) = mset xs"
  shows "rn_input_tokens run = ut_session_input totals \<and> rn_output_tokens run = ut_session_output totals \<and>
    rn_input_tokens run = nat (max (usage_sum ur_input rid (t_usage (usage_history ops))) 0)"
proof -
  let ?db = "usage_history ops"
  let ?mine = "filter (\<lambda>(_, row). ur_run_id row = rid) (t_usage ?db)"
  obtain row i n where row: "map_of (t_runs ?db) rid = Some row"
    and i: "rw_input_tokens row = SqlInteger i" and n: "rw_output_tokens row = SqlInteger n"
    and run: "rn_input_tokens run = nat (max i 0)" "rn_output_tokens run = nat (max n 0)"
    using assms(1)
    by (auto simp: run_of_def decode_run_def result_simps split: option.splits elim!: get_i64.elims)
  have sums: "i = usage_sum ur_input rid (t_usage ?db)" "n = usage_sum ur_output rid (t_usage ?db)"
    using usage_okD[OF usage_history_ok row] i n by (simp_all add: counts_def)
  have si: "column_sum ur_input (scan ?mine) = Inr (ut_session_input totals)"
    and so: "column_sum ur_output (scan ?mine) = Inr (ut_session_output totals)"
    using assms(2) by (auto simp: usage_totals_of_def Let_def result_simps)
  from column_sum_scan[where scan = scan and t = "t_usage ?db", OF si assms(3)]
    column_sum_scan[where scan = scan and t = "t_usage ?db", OF so assms(3)] run sums
  show ?thesis by simp
qed

text \<open>Rows of the ledger stay.\<close>

lemma bt_insert_new: "map_of t k = None \<Longrightarrow> set (bt_insert k v t) = insert (k, v) (set t)"
proof -
  assume "map_of t k = None"
  then have "k \<notin> fst ` set t" by (simp add: map_of_eq_None_iff)
  from bt_insert_split[OF this] obtain xs ys where "t = xs @ ys" "\<And>v. bt_insert k v t = xs @ (k, v) # ys" by blast
  then show ?thesis by auto
qed

lemma record_usage_rows:
  "record_usage_entry now now' e db = Inr (b, db') \<Longrightarrow> set (t_usage db) \<subseteq> set (t_usage db')"
  by (auto simp: record_usage_entry_def usage_known_def result_simps bt_insert_new split: if_splits)

lemma usage_step_rows: "set (t_usage db) \<subseteq> set (t_usage (usage_step op db))"
proof (cases op)
  case NewRun
  then show ?thesis by (auto simp: committed_def create_run_def Let_def result_simps split: sum.split)
next
  case Usage
  then show ?thesis using record_usage_rows by (fastforce simp: committed_def split: sum.split)
next
  case OldUsage
  then show ?thesis
    using record_usage_rows by (fastforce simp: or_unchanged_def add_run_usage_def result_simps split: sum.split)
qed (simp_all add: update_run_state_def set_title_def set_archived_def)

lemma usage_steps_rows: "set (t_usage db) \<subseteq> set (t_usage (foldl (\<lambda>db op. usage_step op db) db ops))"
  by (induction ops arbitrary: db) (auto dest: subsetD[OF usage_step_rows])

text \<open>Recording usage counts once. A recorded entry is a row of the ledger, its numbers are added to
  the counters of its run and to no other; and after any later history, an entry with its key, or with
  the same response of the same provider, is answered with false and changes nothing at all, whatever
  usage it reports.\<close>

theorem usage_entry_counts_once:
  assumes "record_usage_entry now now' e db = Inr (True, db')"
    and "ule_schema_version e' = USAGE_LEDGER_SCHEMA_VERSION"
    and "ule_entry_key e' = ule_entry_key e \<or>
      ule_provider e' = ule_provider e \<and> ule_provider_response_id e' = ule_provider_response_id e \<and>
      ule_provider_response_id e \<noteq> None"
    and "db'' = foldl (\<lambda>db op. usage_step op db) db' ops"
  shows "record_usage_entry later later' e' db'' = Inr (False, db'') \<and>
    map_of (t_usage db') (ule_entry_key e) = Some (usage_row_of now e) \<and>
    map_of (t_runs db') (ule_run_id e) = map_option (count_usage now' e) (map_of (t_runs db) (ule_run_id e)) \<and>
    (\<forall>rid. rid \<noteq> ule_run_id e \<longrightarrow> map_of (t_runs db') rid = map_of (t_runs db) rid)"
proof -
  from assms(1) have db': "db' = db\<lparr>t_usage := bt_insert (ule_entry_key e) (usage_row_of now e) (t_usage db),
                       t_runs := bt_update (ule_run_id e) (count_usage now' e) (t_runs db)\<rparr>"
    and new: "map_of (t_usage db) (ule_entry_key e) = None"
    by (auto simp: record_usage_entry_def usage_known_def result_simps split: if_splits)
  have "(ule_entry_key e, usage_row_of now e) \<in> set (t_usage db')" by (simp add: db' bt_insert_new[OF new])
  then have row: "(ule_entry_key e, usage_row_of now e) \<in> set (t_usage db'')"
    using usage_steps_rows[of db' ops] assms(4) by blast
  have "usage_known e' db''"
    using assms(3)
  proof
    assume "ule_entry_key e' = ule_entry_key e"
    then show ?thesis using row by (force simp: usage_known_def map_of_eq_None_iff)
  next
    assume "ule_provider e' = ule_provider e \<and> ule_provider_response_id e' = ule_provider_response_id e \<and>
      ule_provider_response_id e \<noteq> None"
    then have "response_known e' (t_usage db'')"
      using row by (force simp: response_known_def usage_row_of_def)
    then show ?thesis by (simp add: usage_known_def)
  qed
  then show ?thesis using assms(2) by (simp add: record_usage_entry_def db')
qed

section \<open>Evidence outlives the plan\<close>

lemma replace_tasks_keeps_receipts:
  "replace_tasks C rid tasks db = Inr db' \<Longrightarrow> t_receipts db' = t_receipts db \<and> t_usage db' = t_usage db"
proof -
  assume run: "replace_tasks C rid tasks db = Inr db'"
  then obtain db1 where ins: "fold_result (insert_task C rid) tasks (delete_plan rid db) = Inr db1"
    and dep: "fold_result (insert_dependency rid) (plan_edges tasks) db1 = Inr db'"
    by (auto simp: replace_tasks_def result_simps)
  have "t_receipts db1 = t_receipts db \<and> t_usage db1 = t_usage db"
    by (rule fold_result_inv[OF ins]) (auto simp: delete_plan_def Let_def insert_task_def result_simps)
  then show ?thesis
    by (rule fold_result_inv[OF dep]) (auto simp: insert_dependency_def result_simps split: prod.splits)
qed

lemma replace_contracts_keeps_receipts:
  assumes "replace_task_contracts C rid cs db = Inr db'"
  shows "t_receipts db' = t_receipts db \<and> t_tasks db' = t_tasks db"
proof -
  from assms obtain db0 where run: "fold_result (insert_contract C rid) cs db0 = Inr db'"
    and db0: "db0 = db\<lparr>t_contracts := delete_where (\<lambda>(r, _) _. r = rid) (t_contracts db)\<rparr>"
    by (auto simp: replace_task_contracts_def result_simps)
  show ?thesis
    by (rule fold_result_inv[OF run]) (auto simp: db0 insert_contract_def result_simps split: prod.splits)
qed

text \<open>The first receipt with an identifier stays; a repeated call reports false.\<close>

lemma first_receipt_stays:
  "put_receipt k row db = Inr (b, db') \<Longrightarrow> put_receipt k row' db' = Inr (False, db') \<and>
   (b \<longleftrightarrow> map_of (t_receipts db) k = None)"
  by (auto simp: put_receipt_def result_simps split: if_splits)

section \<open>Examples\<close>

definition example_entry :: "str \<Rightarrow> str option \<Rightarrow> u64 \<Rightarrow> usage_ledger_entry" where
  "example_entry key response n =
     \<lparr>ule_schema_version = 1, ule_entry_key = key, ule_run_id = ''r'', ule_kind = ModelTurn, ule_state = Settled,
      ule_provider = ''p'', ule_model = ''m'', ule_agent_id = None, ule_provider_response_id = response,
      ule_usage = usage_zero\<lparr>tu_input := n, tu_output := 1\<rparr>, ule_context_tokens = None\<rparr>"

lemmas usage_example_defs = record_usage_entry_def usage_known_def response_known_def usage_row_of_def
  count_usage_def references_def USAGE_LEDGER_SCHEMA_VERSION_def example_entry_def usage_zero_def as_i64_def

lemma run_counters_are_ledger_sums_witness:
  "\<exists>run (totals::usage_totals). run_of ''r'' (usage_history [NewRun 1 ''r'' ''g'' Batch, Usage 2 2 (example_entry ''k'' None 5),
       Usage 3 3 (example_entry ''k'' None 9), OldUsage 4 4 ''u'' ''r'' 7 2]) = Inr (Some run) \<and>
    rn_input_tokens run = 12 \<and> ut_session_input totals = 12"
proof -
  let ?ops = "[NewRun 1 ''r'' ''g'' Batch, Usage 2 2 (example_entry ''k'' None 5),
       Usage 3 3 (example_entry ''k'' None 9), OldUsage 4 4 ''u'' ''r'' 7 2]"
  obtain run where run: "run_of ''r'' (usage_history ?ops) = Inr (Some run)" and n: "rn_input_tokens run = 12"
    using parse_state_name[of ExitPending] mode_from_name[of Batch]
    by (simp add: usage_history_def committed_def create_run_def insert_row_def store_empty_def or_unchanged_def
        add_run_usage_def usage_example_defs run_of_def decode_run_def Let_def)
  obtain totals where totals: "usage_totals_of (\<lambda>xs. xs) (Some ''r'') (usage_history ?ops) = Inr totals"
    by (simp add: usage_history_def committed_def create_run_def insert_row_def store_empty_def or_unchanged_def
        add_run_usage_def usage_example_defs usage_totals_of_def column_sum_def Let_def)
  have "ut_session_input totals = 12"
    using run_counters_are_ledger_sums[OF run totals] n by simp
  with run n show ?thesis by blast
qed

lemma usage_entry_counts_once_witness:
  "\<exists>db'. record_usage_entry 2 2 (example_entry ''k'' (Some ''x'') 5) example_db = Inr (True, db') \<and>
    record_usage_entry 9 9 (example_entry ''l'' (Some ''x'') 6) (usage_step (NewTitle 3 ''r'' ''n'') db') =
      Inr (False, usage_step (NewTitle 3 ''r'' ''n'') db')"
proof -
  obtain db' where run: "record_usage_entry 2 2 (example_entry ''k'' (Some ''x'') 5) example_db = Inr (True, db')"
    by (simp add: usage_example_defs example_defs)
  have "usage_step (NewTitle 3 ''r'' ''n'') db' = foldl (\<lambda>db op. usage_step op db) db' [NewTitle 3 ''r'' ''n'']"
    by simp
  from usage_entry_counts_once[OF run _ _ this, of "example_entry ''l'' (Some ''x'') 6" 9 9]
  have "record_usage_entry 9 9 (example_entry ''l'' (Some ''x'') 6) (usage_step (NewTitle 3 ''r'' ''n'') db') =
      Inr (False, usage_step (NewTitle 3 ''r'' ''n'') db')"
    by (simp add: example_entry_def USAGE_LEDGER_SCHEMA_VERSION_def)
  with run show ?thesis by blast
qed

end
