(* ===== verification/Store_Board.thy ===== *)
theory Store_Board
  imports Store_Tasks
begin

text \<open>
  The board, todos, clarifications and forks of runs (\<open>crates/minha-core/src/store.rs\<close>). Entries of the
  board keep a row per revision; an entry that names another one supersedes it. A fork is a new run
  with copies of the session's entries, tasks, messages, clarification and events; its statements are
  not in one transaction. \<open>to_lowercase\<close> on Unicode text is an argument.
\<close>

section \<open>Board entries\<close>

definition parse_board_scope :: "str \<Rightarrow> store_error + board_scope" where
  "parse_board_scope value =
     (if value = ''session'' then Inr SessionScope
      else if value = ''project'' then Inr ProjectScope
      else Inl (Coordination (''unknown board scope '' @ value)))"

definition parse_board_kind :: "str \<Rightarrow> store_error + board_kind" where
  "parse_board_kind value =
     (if value = ''decision'' then Inr BDecision
      else if value = ''constraint'' then Inr BConstraint
      else if value = ''finding'' then Inr BFinding
      else if value = ''blocker'' then Inr BBlocker
      else if value = ''artifact'' then Inr BArtifact
      else if value = ''progress'' then Inr BProgress
      else Inl (Coordination (''unknown board kind '' @ value)))"

definition parse_board_status :: "str \<Rightarrow> store_error + board_status" where
  "parse_board_status value =
     (if value = ''open'' then Inr Open
      else if value = ''resolved'' then Inr Resolved
      else if value = ''superseded'' then Inr Superseded
      else Inl (Coordination (''unknown board status '' @ value)))"

lemma parse_board_scope_str [simp]: "parse_board_scope (board_scope_str s) = Inr s"
  by (induction s) code_simp+

lemma parse_board_kind_str [simp]: "parse_board_kind (board_kind_str k) = Inr k"
  by (induction k) code_simp+

lemma parse_board_status_str [simp]: "parse_board_status (board_status_str s) = Inr s"
  by (induction s) code_simp+

definition board_row_of :: "board_entry \<Rightarrow> str \<Rightarrow> board_row" where
  "board_row_of e evidence =
     \<lparr>br_workspace_id = be_workspace_id e, br_run_id = be_run_id e, br_scope = board_scope_str (be_scope e),
      br_kind = board_kind_str (be_kind e), br_subject = be_subject e, br_body = be_body e,
      br_task_id = be_task_id e, br_author = be_author_agent_id e, br_confidence = int (be_confidence e),
      br_status = board_status_str (be_status e), br_supersedes_id = be_supersedes_id e,
      br_evidence = evidence, br_created_at = be_created_at e, br_updated_at = be_updated_at e\<rparr>"

text \<open>A column that refers to another table and may be null.\<close>

definition references_opt :: "('k \<times> 'v) list \<Rightarrow> 'k option \<Rightarrow> store_error + 'a \<Rightarrow> store_error + 'a" where
  "references_opt t k r = (case k of None \<Rightarrow> r | Some k \<Rightarrow> references t k r)"

definition insert_board_row :: "str \<Rightarrow> board_row \<Rightarrow> store_db \<Rightarrow> store_error + store_db" where
  "insert_board_row eid row db =
     r_bind (insert_row eid row (t_board db)) (\<lambda>t.
       references (t_workspaces db) (br_workspace_id row)
         (references_opt (t_runs db) (br_run_id row)
           (references_opt t (br_supersedes_id row) (Inr (db\<lparr>t_board := t\<rparr>)))))"

definition insert_revision :: "str \<Rightarrow> i64 \<Rightarrow> revision_row \<Rightarrow> store_db \<Rightarrow> store_error + store_db" where
  "insert_revision eid n row db =
     r_bind (insert_row (eid, n) row (t_revisions db)) (\<lambda>t.
       references (t_board db) eid (Inr (db\<lparr>t_revisions := t\<rparr>)))"

definition supersede :: "time \<Rightarrow> str option \<Rightarrow> store_db \<Rightarrow> store_db" where
  "supersede at target db =
     (case target of None \<Rightarrow> db
      | Some k \<Rightarrow> db\<lparr>t_board := bt_update k (\<lambda>row. row\<lparr>br_status := ''superseded'', br_updated_at := at\<rparr>)
                      (t_board db)\<rparr>)"

definition insert_board_entry :: "codec \<Rightarrow> board_entry \<Rightarrow> store_db \<Rightarrow> store_error + store_db" where
  "insert_board_entry C e db =
     r_bind (json_err (enc_strs C (be_evidence e))) (\<lambda>evidence.
     r_bind (insert_board_row (be_id e) (board_row_of e evidence) db) (\<lambda>db1.
     r_bind (insert_revision (be_id e) 1
         \<lparr>vr_body = be_body e, vr_status = board_status_str (be_status e), vr_author = be_author_agent_id e,
          vr_created_at = be_created_at e\<rparr> db1) (\<lambda>db2.
       Inr (supersede (be_created_at e) (be_supersedes_id e) db2))))"

definition decode_board_row :: "codec \<Rightarrow> str \<times> board_row \<Rightarrow> store_error + board_entry" where
  "decode_board_row C p =
     (case p of (eid, row) \<Rightarrow>
        r_bind (parse_board_scope (br_scope row)) (\<lambda>scope.
        r_bind (parse_board_kind (br_kind row)) (\<lambda>kind.
        r_bind (parse_board_status (br_status row)) (\<lambda>status.
        r_bind (json_err (dec_strs C (br_evidence row))) (\<lambda>evidence.
          Inr \<lparr>be_id = eid, be_workspace_id = br_workspace_id row, be_run_id = br_run_id row,
               be_scope = scope, be_kind = kind, be_subject = br_subject row, be_body = br_body row,
               be_task_id = br_task_id row, be_author_agent_id = br_author row,
               be_confidence = nat (min (max (br_confidence row) 0) 100), be_status = status,
               be_supersedes_id = br_supersedes_id row, be_evidence = evidence,
               be_created_at = br_created_at row, be_updated_at = br_updated_at row\<rparr>)))))"

definition board_entry_of :: "codec \<Rightarrow> str \<Rightarrow> store_db \<Rightarrow> store_error + board_entry option" where
  "board_entry_of C eid db =
     (case map_of (t_board db) eid of None \<Rightarrow> Inr None
      | Some row \<Rightarrow> r_map Some (decode_board_row C (eid, row)))"

text \<open>Rows are decoded one by one until enough entries answer the query.\<close>

fun take_matching :: "codec \<Rightarrow> (board_entry \<Rightarrow> bool) \<Rightarrow> nat \<Rightarrow> (str \<times> board_row) list \<Rightarrow> store_error + board_entry list" where
  "take_matching C matches n [] = Inr []"
| "take_matching C matches n (p # rows) =
     r_bind (decode_board_row C p) (\<lambda>e.
       if matches e
       then if n \<le> 1 then Inr [e] else r_map (\<lambda>es. e # es) (take_matching C matches (n - 1) rows)
       else take_matching C matches n rows)"

definition kind_rank :: "str \<Rightarrow> nat" where
  "kind_rank kind = (if kind = ''blocker'' then 0 else if kind = ''decision'' then 1 else 2)"

definition board_rows ::
    "((str \<times> board_row) list \<Rightarrow> (str \<times> board_row) list) \<Rightarrow> str \<Rightarrow> run_id option \<Rightarrow> store_db \<Rightarrow> (str \<times> board_row) list"
    where
  "board_rows scan wid rid db =
     take 1000 (sort_key (\<lambda>(_, row). (kind_rank (br_kind row), - br_updated_at row))
       (scan (filter (\<lambda>(_, row). br_workspace_id row = wid \<and> br_status row \<noteq> ''superseded'' \<and>
           (br_scope row = ''project'' \<or> rid \<noteq> None \<and> br_run_id row = rid)) (t_board db))))"

definition board_entries ::
    "codec \<Rightarrow> (str \<Rightarrow> str) \<Rightarrow> ((str \<times> board_row) list \<Rightarrow> (str \<times> board_row) list) \<Rightarrow> str \<Rightarrow> run_id option \<Rightarrow>
     str option \<Rightarrow> usize \<Rightarrow> store_db \<Rightarrow> store_error + board_entry list" where
  "board_entries C lower scan wid rid wanted lim db =
     (let q = (case wanted of None \<Rightarrow> None
               | Some q \<Rightarrow> if trim q = [] then None else Some (lower (trim q)));
          matches = (\<lambda>e. case q of None \<Rightarrow> True
               | Some q \<Rightarrow> contains (lower (be_subject e @ '' '' @ be_body e)) q)
      in take_matching C matches (max 1 (min lim 200)) (board_rows scan wid rid db))"

text \<open>\<open>COALESCE(MAX(revision), 0) + 1\<close>.\<close>

definition next_revision :: "str \<Rightarrow> store_db \<Rightarrow> store_error + i64" where
  "next_revision eid db =
     get_i64 (sql_add (SqlInteger (case sequences eid (t_revisions db) of [] \<Rightarrow> 0 | n # ns \<Rightarrow> foldl max n ns)) 1)"

text \<open>The entry is read before the transaction that revises it.\<close>

definition revise_board_entry ::
    "codec \<Rightarrow> time \<Rightarrow> str \<Rightarrow> str option \<Rightarrow> board_status option \<Rightarrow> event_agent_id option \<Rightarrow> store_db \<Rightarrow>
     store_error + board_entry option \<times> store_db" where
  "revise_board_entry C now eid body status author db =
     r_bind (board_entry_of C eid db) (\<lambda>found.
       case found of None \<Rightarrow> Inr (None, db)
       | Some e \<Rightarrow>
           let e = e\<lparr>be_body := (case body of None \<Rightarrow> be_body e | Some b \<Rightarrow> b),
                     be_status := (case status of None \<Rightarrow> be_status e | Some s \<Rightarrow> s), be_updated_at := now\<rparr> in
           r_bind (next_revision eid db) (\<lambda>n.
           r_bind (insert_revision eid n
               \<lparr>vr_body = be_body e, vr_status = board_status_str (be_status e), vr_author = author,
                vr_created_at = now\<rparr>
               (db\<lparr>t_board := bt_update eid (\<lambda>row. row\<lparr>br_body := be_body e,
                  br_status := board_status_str (be_status e), br_updated_at := now\<rparr>) (t_board db)\<rparr>)) (\<lambda>db'.
             Inr (Some e, db'))))"

definition pin_board_entry :: "codec \<Rightarrow> time \<Rightarrow> str \<Rightarrow> store_db \<Rightarrow> store_error + board_entry option \<times> store_db" where
  "pin_board_entry C now eid db =
     r_bind (board_entry_of C eid db) (\<lambda>found.
       case found of None \<Rightarrow> Inr (None, db)
       | Some e \<Rightarrow>
           if be_kind e \<noteq> BDecision \<and> be_kind e \<noteq> BConstraint
           then Inl (Coordination ''only decisions and constraints can be pinned to project scope'')
           else Inr (Some (e\<lparr>be_scope := ProjectScope, be_updated_at := now\<rparr>),
             db\<lparr>t_board := bt_update eid (\<lambda>row. row\<lparr>br_scope := ''project'', br_updated_at := now\<rparr>)
                 (t_board db)\<rparr>))"

section \<open>Clarifications\<close>

fun clarification_status_name :: "clarification_status \<Rightarrow> str" where
  "clarification_status_name Collecting = ''collecting''"
| "clarification_status_name Reviewing = ''reviewing''"
| "clarification_status_name Confirmed = ''confirmed''"
| "clarification_status_name ClarificationCancelled = ''cancelled''"

definition save_issue_clarification ::
    "codec \<Rightarrow> time \<Rightarrow> run_id \<Rightarrow> issue_clarification_view \<Rightarrow> store_db \<Rightarrow> store_error + store_db" where
  "save_issue_clarification C now rid v db =
     r_bind (json_err (enc_view C v)) (\<lambda>snapshot.
       references (t_runs db) rid (Inr (db\<lparr>t_intakes :=
         (case map_of (t_intakes db) rid of
            None \<Rightarrow> bt_insert rid \<lparr>ir_schema_version = int (icv_schema_version v),
              ir_status = clarification_status_name (icv_status v), ir_snapshot = snapshot,
              ir_created_at = now, ir_updated_at = now\<rparr> (t_intakes db)
          | Some _ \<Rightarrow> bt_update rid (\<lambda>row. row\<lparr>ir_schema_version := int (icv_schema_version v),
              ir_status := clarification_status_name (icv_status v), ir_snapshot := snapshot,
              ir_updated_at := now\<rparr>) (t_intakes db))\<rparr>)))"

definition issue_clarification_of :: "codec \<Rightarrow> run_id \<Rightarrow> store_db \<Rightarrow> store_error + issue_clarification_view option" where
  "issue_clarification_of C rid db =
     (case map_of (t_intakes db) rid of None \<Rightarrow> Inr None
      | Some row \<Rightarrow> r_map Some (json_err (dec_view C (ir_snapshot row))))"

section \<open>Todos\<close>

fun todo_state_name :: "todo_state \<Rightarrow> str" where
  "todo_state_name TodoPending = ''pending''"
| "todo_state_name TodoInProgress = ''in_progress''"
| "todo_state_name TodoCompleted = ''completed''"
| "todo_state_name TodoBlocked = ''blocked''"
| "todo_state_name TodoDropped = ''dropped''"

definition todo_state_from_name :: "str \<Rightarrow> todo_state" where
  "todo_state_from_name value =
     (if value = ''in_progress'' then TodoInProgress
      else if value = ''completed'' then TodoCompleted
      else if value = ''blocked'' then TodoBlocked
      else if value = ''dropped'' then TodoDropped
      else TodoPending)"

lemma todo_state_from_name_back [simp]: "todo_state_from_name (todo_state_name s) = s"
  by (induction s) code_simp+

definition todo_of_row :: "codec \<Rightarrow> str \<times> todo_row \<Rightarrow> todo_item" where
  "todo_of_row C p =
     (case p of (tid, row) \<Rightarrow>
        \<lparr>ti_id = tid, ti_objective = tw_objective row, ti_state = todo_state_from_name (tw_state row),
         ti_order = tw_sort_order row, ti_blocker = tw_blocker row,
         ti_evidence = (case dec_strs C (tw_evidence row) of Inl _ \<Rightarrow> [] | Inr xs \<Rightarrow> xs),
         ti_revision = nat (max (tw_revision row) 0)\<rparr>)"

definition rows_of_agent :: "run_id \<Rightarrow> event_agent_id \<Rightarrow> store_db \<Rightarrow> (str \<times> todo_row) list" where
  "rows_of_agent rid aid db =
     map (\<lambda>((_, _, tid), row). (tid, row)) (filter (\<lambda>((r, a, _), _). r = rid \<and> a = aid) (t_todos db))"

definition todos_of :: "codec \<Rightarrow> run_id \<Rightarrow> event_agent_id \<Rightarrow> store_db \<Rightarrow> todo_item list" where
  "todos_of C rid aid db =
     map (todo_of_row C) (sort_key (\<lambda>(tid, row). (tw_sort_order row, tid)) (rows_of_agent rid aid db))"

definition todo_rows :: "run_id \<Rightarrow> store_db \<Rightarrow> ((str \<times> str \<times> str) \<times> todo_row) list" where
  "todo_rows rid db = filter (\<lambda>((r, _, _), _). r = rid) (t_todos db)"

definition todos_in :: "str list \<Rightarrow> run_id \<Rightarrow> store_db \<Rightarrow> u64" where
  "todos_in states rid db = length (filter (\<lambda>(_, row). tw_state row \<in> set states) (todo_rows rid db))"

definition todo_rollup :: "run_id \<Rightarrow> store_db \<Rightarrow> u64 \<times> u64 \<times> u64 \<times> u64" where
  "todo_rollup rid db =
     (todos_in [''pending'', ''in_progress''] rid db, todos_in [''blocked''] rid db, todos_in [''completed''] rid db,
      length (filter (\<lambda>(aid, row). ar_state row \<notin> {''completed'', ''failed'', ''cancelled''} \<and>
          (\<forall>((_, a, _), _) \<in> set (todo_rows rid db). a \<noteq> aid))
        (rows_of_run rid (t_agents db))))"

definition rollup_goals :: "nat \<Rightarrow> str list \<Rightarrow> (todo_row \<Rightarrow> str) \<Rightarrow> todo_row list \<Rightarrow> str list" where
  "rollup_goals lim states show_row rows = take lim (map show_row (filter (\<lambda>row. tw_state row \<in> set states) rows))"

definition blocked_text :: "todo_row \<Rightarrow> str" where
  "blocked_text row =
     (case tw_blocker row of None \<Rightarrow> tw_objective row
      | Some b \<Rightarrow> if trim b = [] then tw_objective row else tw_objective row @ '': '' @ b)"

definition todo_rollup_details ::
    "(((str \<times> str \<times> str) \<times> todo_row) list \<Rightarrow> ((str \<times> str \<times> str) \<times> todo_row) list) \<Rightarrow> run_id \<Rightarrow> usize \<Rightarrow>
     store_db \<Rightarrow> str list \<times> str list \<times> str list" where
  "todo_rollup_details scan rid lim db =
     (let n = max 1 (min lim 10);
          rows = map snd (sort_key (\<lambda>((_, _, tid), row). (- tw_updated_at row, tw_sort_order row, tid))
                   (scan (todo_rows rid db)))
      in (rollup_goals n [''pending'', ''in_progress''] tw_objective rows, rollup_goals n [''blocked''] blocked_text rows,
          rollup_goals n [''completed''] tw_objective rows))"

definition put_todo ::
    "codec \<Rightarrow> time \<Rightarrow> run_id \<Rightarrow> event_agent_id \<Rightarrow> todo_item \<Rightarrow> store_db \<Rightarrow> store_error + store_db" where
  "put_todo C now rid aid item db =
     r_bind (json_err (enc_strs C (ti_evidence item))) (\<lambda>evidence.
       references (t_runs db) rid (Inr (db\<lparr>t_todos := bt_insert (rid, aid, ti_id item)
         \<lparr>tw_objective = ti_objective item, tw_state = todo_state_name (ti_state item),
          tw_sort_order = ti_order item, tw_blocker = ti_blocker item, tw_evidence = evidence,
          tw_revision = as_i64 (ti_revision item), tw_updated_at = now\<rparr> (t_todos db)\<rparr>)))"

definition rollup_event ::
    "(((str \<times> str \<times> str) \<times> todo_row) list \<Rightarrow> ((str \<times> str \<times> str) \<times> todo_row) list) \<Rightarrow> run_id \<Rightarrow> store_db \<Rightarrow>
     runtime_event" where
  "rollup_event scan rid db =
     (case todo_rollup rid db of (active, blocked, completed, stale) \<Rightarrow>
        case todo_rollup_details scan rid 3 db of (goals, work, done_goals) \<Rightarrow>
          PlanEvent (EvTodoRollupChanged active blocked completed stale goals work done_goals))"

text \<open>The statements run one after another; what an earlier one wrote stays when a later one fails.\<close>

definition upsert_todo ::
    "codec \<Rightarrow> (((str \<times> str \<times> str) \<times> todo_row) list \<Rightarrow> ((str \<times> str \<times> str) \<times> todo_row) list) \<Rightarrow> time \<Rightarrow> time \<Rightarrow> time \<Rightarrow>
     run_id \<Rightarrow> event_agent_id \<Rightarrow> todo_item \<Rightarrow> todo_item store_m" where
  "upsert_todo C scan t1 t2 t3 rid aid item =
     sm_bind (query (\<lambda>db. Inr (map_option tw_revision (map_of (t_todos db) (rid, aid, ti_id item))))) (\<lambda>current.
       let item = item\<lparr>ti_revision := nat (max (case current of None \<Rightarrow> 0 | Some n \<Rightarrow> n) 0) + 1\<rparr> in
       sm_bind (exec (put_todo C t1 rid aid item)) (\<lambda>_.
       sm_bind (txn (record_runtime_event C t2 rid (PlanEvent (EvTodoChanged aid item)))) (\<lambda>_.
       sm_bind (query (\<lambda>db. Inr (rollup_event scan rid db))) (\<lambda>e.
       sm_bind (txn (record_runtime_event C t3 rid e)) (\<lambda>_. sm_return item)))))"

definition delete_todos :: "run_id \<Rightarrow> event_agent_id \<Rightarrow> store_db \<Rightarrow> store_db" where
  "delete_todos rid aid db = db\<lparr>t_todos := delete_where (\<lambda>(r, a, _) _. r = rid \<and> a = aid) (t_todos db)\<rparr>"

definition clear_todos ::
    "codec \<Rightarrow> (((str \<times> str \<times> str) \<times> todo_row) list \<Rightarrow> ((str \<times> str \<times> str) \<times> todo_row) list) \<Rightarrow> time \<Rightarrow>
     run_id \<Rightarrow> event_agent_id \<Rightarrow> unit store_m" where
  "clear_todos C scan now rid aid =
     sm_bind (exec (\<lambda>db. Inr (delete_todos rid aid db))) (\<lambda>_.
     sm_bind (query (\<lambda>db. Inr (rollup_event scan rid db))) (\<lambda>e.
     sm_bind (txn (record_runtime_event C now rid e)) (\<lambda>_. sm_return ())))"

section \<open>Forks\<close>

text \<open>The identifiers a fork draws and the instants it reads, each in the order of its loop.\<close>

record fork_stamps =
  fs_run :: run_id
  fs_created :: time
  fs_entry :: "nat \<Rightarrow> str \<times> time"
  fs_task :: "nat \<Rightarrow> time"
  fs_message :: "nat \<Rightarrow> time"
  fs_intake :: time
  fs_event :: "nat \<Rightarrow> time"

definition sm_fail :: "store_error \<Rightarrow> 'a store_m" where
  "sm_fail e db = (Inl e, db)"

definition mark_fork :: "run_id \<Rightarrow> str \<Rightarrow> run_id \<Rightarrow> store_db \<Rightarrow> store_db" where
  "mark_fork fork title source db =
     db\<lparr>t_runs := bt_update fork (\<lambda>row. row\<lparr>rw_title := title, rw_parent_run_id := Some source\<rparr>) (t_runs db)\<rparr>"

definition fork_entry :: "run_id \<Rightarrow> str \<times> time \<Rightarrow> board_entry \<Rightarrow> board_entry" where
  "fork_entry fork stamp e =
     e\<lparr>be_id := fst stamp, be_run_id := Some fork, be_author_agent_id := None, be_created_at := snd stamp,
       be_updated_at := snd stamp\<rparr>"

definition copied_entries :: "fork_stamps \<Rightarrow> run_id \<Rightarrow> board_entry list \<Rightarrow> board_entry list" where
  "copied_entries st source es =
     map (\<lambda>(i, e). fork_entry (fs_run st) (fs_entry st i) e)
       (enumerate 0 (filter (\<lambda>e. be_scope e = SessionScope \<and> be_run_id e = Some source) es))"

definition copied_tasks :: "fork_stamps \<Rightarrow> task_record list \<Rightarrow> task_record list" where
  "copied_tasks st ts =
     map (\<lambda>(i, t). t\<lparr>tk_run_id := fs_run st, tk_state := TaskPending, tk_assigned := None, tk_attempt := 0,
         tk_generation := 0, tk_last_error := None, tk_created_at := fs_task st i, tk_updated_at := fs_task st i\<rparr>)
       (enumerate 0 ts)"

definition own_event :: "runtime_event \<Rightarrow> bool" where
  "own_event e =
     (case e of
        Session (EvSessionStarted _ _) \<Rightarrow> True | Session (EvSessionForked _) \<Rightarrow> True
      | Session EvSessionArchived \<Rightarrow> True | Session (EvSessionRenamed _) \<Rightarrow> True | _ \<Rightarrow> False)"

definition fork_events :: "run_id \<Rightarrow> str \<Rightarrow> event_envelope list \<Rightarrow> runtime_event list" where
  "fork_events source goal evs =
     Session (EvSessionStarted ''fork'' goal) # filter (\<lambda>e. \<not> own_event e) (map env_event evs) @
     [Session (EvSessionForked source), Session (EvSessionState ExitPending)]"

definition copy_board ::
    "codec \<Rightarrow> ((str \<times> board_row) list \<Rightarrow> (str \<times> board_row) list) \<Rightarrow> fork_stamps \<Rightarrow> run_id \<Rightarrow> unit store_m" where
  "copy_board C scan st source =
     sm_bind (query (\<lambda>db. Inr (workspace_for_run source db))) (\<lambda>w.
       case w of None \<Rightarrow> sm_return ()
       | Some wid \<Rightarrow>
           sm_bind (exec (attach_run_workspace (fs_run st) wid)) (\<lambda>_.
           sm_bind (query (board_entries C (\<lambda>s. s) scan wid (Some source) None 200)) (\<lambda>es.
             sm_each (\<lambda>e. exec (insert_board_entry C e)) (copied_entries st source es))))"

definition copy_tasks :: "codec \<Rightarrow> fork_stamps \<Rightarrow> run_id \<Rightarrow> unit store_m" where
  "copy_tasks C st source =
     sm_bind (query (tasks_of C source)) (\<lambda>ts.
       if ts = [] then sm_return () else exec (replace_tasks C (fs_run st) (copied_tasks st ts)))"

definition copy_messages :: "codec \<Rightarrow> fork_stamps \<Rightarrow> run_id \<Rightarrow> unit store_m" where
  "copy_messages C st source =
     sm_bind (query (messages_of C source)) (\<lambda>ms.
       sm_each (\<lambda>(i, m). sm_bind (txn (append_message C (fs_message st i) (fs_run st) (sm_role m) (sm_content m)
           (sm_compacted m))) (\<lambda>_. sm_return ())) (enumerate 0 ms))"

definition copy_clarification :: "codec \<Rightarrow> fork_stamps \<Rightarrow> run_id \<Rightarrow> unit store_m" where
  "copy_clarification C st source =
     sm_bind (query (issue_clarification_of C source)) (\<lambda>v.
       case v of None \<Rightarrow> sm_return ()
       | Some v \<Rightarrow> exec (save_issue_clarification C (fs_intake st) (fs_run st) v))"

text \<open>The first event is recorded before the events of the source are read.\<close>

definition record_for :: "codec \<Rightarrow> fork_stamps \<Rightarrow> nat \<times> runtime_event \<Rightarrow> unit store_m" where
  "record_for C st ie =
     (case ie of (i, e) \<Rightarrow>
        sm_bind (txn (record_runtime_event C (fs_event st i) (fs_run st) e)) (\<lambda>_. sm_return ()))"

definition copy_events :: "codec \<Rightarrow> fork_stamps \<Rightarrow> run_id \<Rightarrow> str \<Rightarrow> unit store_m" where
  "copy_events C st source goal =
     sm_bind (record_for C st (0, Session (EvSessionStarted ''fork'' goal))) (\<lambda>_.
     sm_bind (query (events_of C source)) (\<lambda>evs.
       sm_each (record_for C st) (enumerate 1 (tl (fork_events source goal evs)))))"

definition fork_run ::
    "codec \<Rightarrow> ((str \<times> board_row) list \<Rightarrow> (str \<times> board_row) list) \<Rightarrow> fork_stamps \<Rightarrow> run_id \<Rightarrow> run_record store_m" where
  "fork_run C scan st source =
     sm_bind (query (run_of source)) (\<lambda>found.
       case found of None \<Rightarrow> sm_fail (StoreIo ''session not found'')
       | Some src \<Rightarrow>
           sm_bind (txn (create_run (fs_created st) (fs_run st) (rn_goal src) (rn_mode src))) (\<lambda>new.
           let fork = new\<lparr>rn_title := rn_title src @ '' (fork)'', rn_parent_run_id := Some source\<rparr> in
           sm_bind (exec (\<lambda>db. Inr (mark_fork (rn_id fork) (rn_title fork) source db))) (\<lambda>_.
           sm_bind (copy_board C scan st source) (\<lambda>_.
           sm_bind (copy_tasks C st source) (\<lambda>_.
           sm_bind (copy_messages C st source) (\<lambda>_.
           sm_bind (copy_clarification C st source) (\<lambda>_.
           sm_bind (copy_events C st source (rn_goal src)) (\<lambda>_. sm_return fork))))))))"

section \<open>What a sequence of statements keeps\<close>

definition keeps :: "(store_db \<Rightarrow> bool) \<Rightarrow> 'a store_m \<Rightarrow> bool" where
  "keeps I m \<longleftrightarrow> (\<forall>db. I db \<longrightarrow> I (snd (m db)))"

named_theorems keeps_intros

lemma keeps_return [keeps_intros]: "keeps I (sm_return x)"
  by (simp add: keeps_def)

lemma keeps_fail [keeps_intros]: "keeps I (sm_fail e)"
  by (simp add: keeps_def sm_fail_def)

lemma keeps_query [keeps_intros]: "keeps I (query f)"
  by (simp add: keeps_def)

lemma keeps_bind [keeps_intros]: "keeps I m \<Longrightarrow> (\<And>x. keeps I (f x)) \<Longrightarrow> keeps I (sm_bind m f)"
  unfolding keeps_def using sm_bind_inv[of I m f] by blast

lemma keeps_each [keeps_intros]: "(\<And>x. keeps I (f x)) \<Longrightarrow> keeps I (sm_each f xs)"
  unfolding keeps_def using sm_each_inv[of xs I f] by blast

lemma keeps_txn: "(\<And>db x db'. I db \<Longrightarrow> f db = Inr (x, db') \<Longrightarrow> I db') \<Longrightarrow> keeps I (txn f)"
  unfolding keeps_def using txn_inv[of f _ I] by blast

lemma keeps_exec: "(\<And>db db'. I db \<Longrightarrow> f db = Inr db' \<Longrightarrow> I db') \<Longrightarrow> keeps I (exec f)"
  unfolding keeps_def using exec_inv[of f _ I] by blast

lemma keeps_bind_txn:
  assumes "\<And>db x db'. I db \<Longrightarrow> g db = Inr (x, db') \<Longrightarrow> I db' \<and> P x" and "\<And>x. P x \<Longrightarrow> keeps I (f x)"
  shows "keeps I (sm_bind (txn g) f)"
  using assms unfolding keeps_def by (fastforce simp: sm_bind_def txn_def split: prod.splits sum.splits)

lemma keeps_bind_query:
  assumes "\<And>db x. I db \<Longrightarrow> g db = Inr x \<Longrightarrow> P x" and "\<And>x. P x \<Longrightarrow> keeps I (f x)"
  shows "keeps I (sm_bind (query g) f)"
  using assms unfolding keeps_def by (fastforce simp: sm_bind_def query_def split: prod.splits sum.splits)

lemma keeps_each_of: "(\<And>x. x \<in> set xs \<Longrightarrow> keeps I (f x)) \<Longrightarrow> keeps I (sm_each f xs)"
  unfolding keeps_def using sm_each_inv[of xs I f] by blast

text \<open>Nothing of the runs other than one changes outside the board.\<close>

definition runs_same :: "run_id \<Rightarrow> store_db \<Rightarrow> store_db \<Rightarrow> bool" where
  "runs_same fork db0 db \<longleftrightarrow>
     t_workspaces db = t_workspaces db0 \<and> t_agents db = t_agents db0 \<and> t_receipts db = t_receipts db0 \<and>
     t_usage db = t_usage db0 \<and> t_todos db = t_todos db0 \<and>
     (\<forall>rid. rid \<noteq> fork \<longrightarrow> map_of (t_runs db) rid = map_of (t_runs db0) rid \<and>
        map_of (t_run_workspaces db) rid = map_of (t_run_workspaces db0) rid \<and>
        map_of (t_intakes db) rid = map_of (t_intakes db0) rid \<and>
        rows_of_run rid (t_messages db) = rows_of_run rid (t_messages db0) \<and>
        rows_of_run rid (t_events db) = rows_of_run rid (t_events db0) \<and>
        rows_of_run rid (t_tasks db) = rows_of_run rid (t_tasks db0) \<and>
        rows_of_run rid (t_contracts db) = rows_of_run rid (t_contracts db0) \<and>
        rows_of_run rid (t_dependencies db) = rows_of_run rid (t_dependencies db0) \<and>
        rows_of_run rid (t_leases db) = rows_of_run rid (t_leases db0))"

text \<open>
  An entry of the board that a session entry of the forked run names as the one it supersedes. These are the
  entries of other runs, or of the forked run itself, whose status a fork may set.
\<close>

definition named_by_session :: "run_id \<Rightarrow> store_db \<Rightarrow> str \<Rightarrow> bool" where
  "named_by_session source db k \<longleftrightarrow>
     (\<exists>(_, row) \<in> set (t_board db).
        br_run_id row = Some source \<and> br_scope row = ''session'' \<and> br_supersedes_id row = Some k)"

definition marked :: "time \<Rightarrow> board_row \<Rightarrow> board_row" where
  "marked at row = row\<lparr>br_status := ''superseded'', br_updated_at := at\<rparr>"

text \<open>
  Entries of the board and their revisions stay, up to the status of those entries; new entries belong
  to the fork.
\<close>

definition board_same :: "run_id \<Rightarrow> run_id \<Rightarrow> store_db \<Rightarrow> store_db \<Rightarrow> bool" where
  "board_same fork source db0 db \<longleftrightarrow>
     (\<forall>eid row. map_of (t_board db0) eid = Some row \<longrightarrow>
        rows_of_run eid (t_revisions db) = rows_of_run eid (t_revisions db0) \<and>
        (map_of (t_board db) eid = Some row \<or>
         named_by_session source db0 eid \<and> (\<exists>at. map_of (t_board db) eid = Some (marked at row)))) \<and>
     (\<forall>(eid, row) \<in> set (t_board db).
        br_run_id row = Some fork \<or>
        (\<exists>row0. (eid, row0) \<in> set (t_board db0) \<and> (row = row0 \<or> (\<exists>at. row = marked at row0))))"

definition others_same :: "run_id \<Rightarrow> run_id \<Rightarrow> store_db \<Rightarrow> store_db \<Rightarrow> bool" where
  "others_same fork source db0 db \<longleftrightarrow> runs_same fork db0 db \<and> board_same fork source db0 db"

lemma runs_same_trans: "runs_same f db0 db \<Longrightarrow> runs_same f db db' \<Longrightarrow> runs_same f db0 db'"
  by (simp add: runs_same_def)

lemma others_same_refl: "others_same f source db db"
  by (auto simp: others_same_def runs_same_def board_same_def)

lemma marked_marked [simp]: "marked at (marked at' row) = marked at row"
  by (simp add: marked_def)

lemma marked_columns [simp]:
  "br_run_id (marked at row) = br_run_id row" "br_scope (marked at row) = br_scope row"
  "br_supersedes_id (marked at row) = br_supersedes_id row"
  by (simp_all add: marked_def)

lemma rows_of_run_delete_other:
  "(\<And>k n v. P (k, n) v \<Longrightarrow> k = fork) \<Longrightarrow> rid \<noteq> fork \<Longrightarrow> rows_of_run rid (delete_where P t) = rows_of_run rid t"
  by (induction t) (auto simp: rows_of_run_def delete_where_def)

lemma others_same_board:
  assumes "others_same f source db0 db" and "runs_same f db db'"
    and "t_board db' = t_board db" and "t_revisions db' = t_revisions db"
  shows "others_same f source db0 db'"
proof -
  have "runs_same f db0 db'" using assms(1,2) runs_same_trans unfolding others_same_def by blast
  moreover have "board_same f source db0 db'" using assms(1,3,4) by (simp add: others_same_def board_same_def)
  ultimately show ?thesis by (simp add: others_same_def)
qed

lemma create_keeps_others:
  "others_same f source db0 db \<Longrightarrow> create_run now f goal m db = Inr (x, db') \<Longrightarrow> others_same f source db0 db'"
  by (erule others_same_board) (auto simp: runs_same_def create_run_def Let_def result_simps)

lemma mark_keeps_others:
  "others_same f source db0 db \<Longrightarrow> others_same f source db0 (mark_fork f title parent db)"
  by (erule others_same_board) (auto simp: runs_same_def mark_fork_def)

lemma attach_keeps_others:
  "others_same f source db0 db \<Longrightarrow> attach_run_workspace f wid db = Inr db' \<Longrightarrow> others_same f source db0 db'"
  by (erule others_same_board) (auto simp: runs_same_def attach_run_workspace_def result_simps split: if_splits)

lemma message_keeps_others:
  "others_same f source db0 db \<Longrightarrow> append_message C now f msg_role content c db = Inr (x, db') \<Longrightarrow>
     others_same f source db0 db'"
  by (erule others_same_board)
    (auto simp: runs_same_def append_message_def result_simps rows_of_run_insert_other)

lemma event_keeps_others:
  "others_same f source db0 db \<Longrightarrow> record_runtime_event C now f e db = Inr (x, db') \<Longrightarrow>
     others_same f source db0 db'"
  by (erule others_same_board)
    (auto simp: runs_same_def record_runtime_event_def Let_def result_simps rows_of_run_insert_other
      envelope_new_def)

lemma clarification_keeps_others:
  assumes "others_same f source db0 db" and run: "save_issue_clarification C now f v db = Inr db'"
  shows "others_same f source db0 db'"
proof (rule others_same_board[OF assms(1)])
  from run obtain t where db': "db' = db\<lparr>t_intakes := t\<rparr>" and t: "\<forall>k. k \<noteq> f \<longrightarrow> map_of t k = map_of (t_intakes db) k"
    by (cases "map_of (t_intakes db) f") (fastforce simp: save_issue_clarification_def result_simps)+
  from t show "runs_same f db db'" by (simp add: runs_same_def db')
  show "t_board db' = t_board db" "t_revisions db' = t_revisions db" by (simp_all add: db')
qed

lemma tasks_keep_others:
  assumes "others_same f source db0 db" and run: "replace_tasks C f ts db = Inr db'"
  shows "others_same f source db0 db'"
proof -
  from run obtain db1 where ins: "fold_result (insert_task C f) ts (delete_plan f db) = Inr db1"
    and dep: "fold_result (insert_dependency f) (plan_edges ts) db1 = Inr db'"
    by (auto simp: replace_tasks_def result_simps)
  have "others_same f source db0 (delete_plan f db)"
    by (rule others_same_board[OF assms(1)])
      (auto simp: runs_same_def delete_plan_def Let_def intro!: rows_of_run_delete_other)
  then have "others_same f source db0 db1"
  proof (rule fold_result_inv[OF ins])
    show "others_same f source db0 s \<Longrightarrow> insert_task C f t s = Inr s' \<Longrightarrow> others_same f source db0 s'" for t s s'
      by (erule others_same_board) (auto simp: runs_same_def insert_task_def result_simps rows_of_run_insert_other)
  qed
  then show ?thesis
  proof (rule fold_result_inv[OF dep])
    show "others_same f source db0 s \<Longrightarrow> insert_dependency f e s = Inr s' \<Longrightarrow> others_same f source db0 s'" for e s s'
      by (erule others_same_board)
        (auto simp: runs_same_def insert_dependency_def result_simps rows_of_run_insert_other split: prod.splits)
  qed
qed

lemma insert_entry_board:
  assumes "insert_board_entry C e db = Inr db'"
  obtains row rev where "map_of (t_board db) (be_id e) = None" and "br_supersedes_id row = be_supersedes_id e"
    and "br_run_id row = be_run_id e"
    and "db' = supersede (be_created_at e) (be_supersedes_id e)
      (db\<lparr>t_board := bt_insert (be_id e) row (t_board db),
         t_revisions := bt_insert (be_id e, 1) rev (t_revisions db)\<rparr>)"
    and "be_supersedes_id e \<noteq> None \<Longrightarrow> map_of (t_board db') (the (be_supersedes_id e)) \<noteq> None"
proof -
  let ?rev = "\<lparr>vr_body = be_body e, vr_status = board_status_str (be_status e), vr_author = be_author_agent_id e,
    vr_created_at = be_created_at e\<rparr>"
  from assms obtain evidence db1 db2 where
    ins: "insert_board_row (be_id e) (board_row_of e evidence) db = Inr db1"
    and rev: "insert_revision (be_id e) 1 ?rev db1 = Inr db2"
    and db': "db' = supersede (be_created_at e) (be_supersedes_id e) db2"
    by (auto simp: insert_board_entry_def result_simps)
  let ?row = "board_row_of e evidence"
  from ins have new: "map_of (t_board db) (be_id e) = None"
    and db1: "db1 = db\<lparr>t_board := bt_insert (be_id e) ?row (t_board db)\<rparr>"
    and ref: "be_supersedes_id e \<noteq> None \<Longrightarrow> map_of (t_board db1) (the (be_supersedes_id e)) \<noteq> None"
    by (auto simp: insert_board_row_def references_opt_def board_row_of_def result_simps split: option.splits)
  from rev have db2: "db2 = db1\<lparr>t_revisions := bt_insert (be_id e, 1) ?rev (t_revisions db1)\<rparr>"
    by (auto simp: insert_revision_def result_simps)
  show thesis
  proof (rule that[OF new])
    show "br_supersedes_id ?row = be_supersedes_id e" "br_run_id ?row = be_run_id e"
      by (simp_all add: board_row_of_def)
    show "db' = supersede (be_created_at e) (be_supersedes_id e)
        (db\<lparr>t_board := bt_insert (be_id e) ?row (t_board db),
           t_revisions := bt_insert (be_id e, 1) ?rev (t_revisions db)\<rparr>)"
      by (simp add: db' db2 db1)
    show "map_of (t_board db') (the (be_supersedes_id e)) \<noteq> None" if "be_supersedes_id e \<noteq> None"
      using ref[OF that] that by (auto simp: db' db2 supersede_def)
  qed
qed

lemma entry_keeps_others:
  assumes same: "others_same f source db0 db" and run: "insert_board_entry C e db = Inr db'"
    and own: "be_run_id e = Some f" and named: "\<And>k. be_supersedes_id e = Some k \<Longrightarrow> named_by_session source db0 k"
  shows "others_same f source db0 db'"
proof -
  from run obtain row rev where new: "map_of (t_board db) (be_id e) = None" and row: "br_run_id row = Some f"
    and db': "db' = supersede (be_created_at e) (be_supersedes_id e)
      (db\<lparr>t_board := bt_insert (be_id e) row (t_board db),
         t_revisions := bt_insert (be_id e, 1) rev (t_revisions db)\<rparr>)"
    using own by (elim insert_entry_board) simp
  have board: "board_same f source db0 db" using same by (simp add: others_same_def)
  have "runs_same f db db'" by (simp add: runs_same_def db' supersede_def split: option.split)
  then have runs: "runs_same f db0 db'" using same runs_same_trans unfolding others_same_def by blast
  let ?b = "bt_insert (be_id e) row (t_board db)"
  have t: "t_board db' = (case be_supersedes_id e of None \<Rightarrow> ?b | Some k \<Rightarrow> bt_update k (marked (be_created_at e)) ?b)"
    "t_revisions db' = bt_insert (be_id e, 1) rev (t_revisions db)"
    by (simp_all add: db' supersede_def marked_def[abs_def] split: option.split)
  have old: "rows_of_run eid (t_revisions db') = rows_of_run eid (t_revisions db0) \<and>
      (map_of (t_board db') eid = Some r \<or>
       named_by_session source db0 eid \<and> (\<exists>at. map_of (t_board db') eid = Some (marked at r)))"
    if "map_of (t_board db0) eid = Some r" for eid r
  proof -
    from board that have rv: "rows_of_run eid (t_revisions db) = rows_of_run eid (t_revisions db0)"
      and b: "map_of (t_board db) eid = Some r \<or>
        named_by_session source db0 eid \<and> (\<exists>at. map_of (t_board db) eid = Some (marked at r))"
      unfolding board_same_def by blast+
    with new have ne: "eid \<noteq> be_id e" by auto
    then have "rows_of_run eid (t_revisions db') = rows_of_run eid (t_revisions db)"
      by (simp add: t rows_of_run_insert_other)
    moreover have "map_of (t_board db') eid = map_of (t_board db) eid \<or>
        be_supersedes_id e = Some eid \<and>
        map_of (t_board db') eid = map_option (marked (be_created_at e)) (map_of (t_board db) eid)"
      using ne by (auto simp: t split: option.split)
    ultimately show ?thesis using rv b named by auto
  qed
  have every: "br_run_id r = Some f \<or>
      (\<exists>r0. (k, r0) \<in> set (t_board db0) \<and> (r = r0 \<or> (\<exists>at. r = marked at r0)))"
    if "(k, r) \<in> set (t_board db')" for k r
  proof -
    have ins: "br_run_id x = Some f \<or>
        (\<exists>r0. (q, r0) \<in> set (t_board db0) \<and> (x = r0 \<or> (\<exists>at. x = marked at r0)))"
      if "(q, x) \<in> set ?b" for q x
      using set_bt_insert[OF that] row board unfolding board_same_def by blast
    show ?thesis
    proof (cases "(k, r) \<in> set ?b")
      case True
      then show ?thesis by (rule ins)
    next
      case False
      with that obtain k' where "(k, r) \<in> set (bt_update k' (marked (be_created_at e)) ?b)"
        by (auto simp: t split: option.splits)
      with False obtain v where "(k, v) \<in> set ?b" "r = marked (be_created_at e) v"
        using set_bt_update by fastforce
      with ins[of k v] show ?thesis by (metis marked_columns(1) marked_marked)
    qed
  qed
  have "board_same f source db0 db'" unfolding board_same_def using old every by blast
  with runs show ?thesis by (simp add: others_same_def)
qed

text \<open>The entries a fork copies are rows of the forked session, and those rows were there before.\<close>

definition copyable :: "run_id \<Rightarrow> store_db \<Rightarrow> board_entry \<Rightarrow> bool" where
  "copyable source db0 e \<longleftrightarrow>
     (be_scope e = SessionScope \<and> be_run_id e = Some source \<longrightarrow>
      (\<forall>k. be_supersedes_id e = Some k \<longrightarrow> named_by_session source db0 k))"

lemma take_matching_row:
  "take_matching C matches n rows = Inr es \<Longrightarrow> e \<in> set es \<Longrightarrow> \<exists>p \<in> set rows. decode_board_row C p = Inr e"
proof (induction C matches n rows arbitrary: es rule: take_matching.induct)
  case (2 C matches n p rows)
  then show ?case by (fastforce simp: result_simps split: if_splits)
qed simp

lemma decode_board_row_columns:
  assumes "decode_board_row C (k, row) = Inr e"
  shows "be_run_id e = br_run_id row \<and> be_supersedes_id e = br_supersedes_id row \<and>
    (be_scope e = SessionScope \<longrightarrow> br_scope row = ''session'')"
  using assms by (auto simp: decode_board_row_def parse_board_scope_def result_simps split: if_splits)

lemma entries_copyable:
  assumes scan: "\<And>rows. set (scan rows) \<subseteq> set rows" and ne: "source \<noteq> f"
    and same: "others_same f source db0 db"
    and es: "board_entries C lower scan wid rid wanted n db = Inr es" and e: "e \<in> set es"
  shows "copyable source db0 e"
proof -
  from es obtain m n' where "take_matching C m n' (board_rows scan wid rid db) = Inr es"
    by (auto simp: board_entries_def Let_def)
  from take_matching_row[OF this e] obtain k row where mem: "(k, row) \<in> set (board_rows scan wid rid db)"
    and dec: "decode_board_row C (k, row) = Inr e" by auto
  from mem have "(k, row) \<in> set (t_board db)"
    unfolding board_rows_def by (auto dest!: in_set_takeD subsetD[OF scan])
  with same obtain row0 where "br_run_id row = Some f \<or>
      (k, row0) \<in> set (t_board db0) \<and> (row = row0 \<or> (\<exists>at. row = marked at row0))"
    unfolding others_same_def board_same_def by blast
  with decode_board_row_columns[OF dec] ne show ?thesis
    by (fastforce simp: copyable_def named_by_session_def)
qed

lemma copied_entry:
  assumes "x \<in> set (copied_entries st source es)" and "\<forall>e \<in> set es. copyable source db0 e"
  shows "be_run_id x = Some (fs_run st)" and "be_supersedes_id x = Some k \<Longrightarrow> named_by_session source db0 k"
proof -
  from assms(1) obtain i e where "(i, e) \<in> set (enumerate 0 (filter (\<lambda>e. be_scope e = SessionScope \<and> be_run_id e = Some source) es))"
    and x: "x = fork_entry (fs_run st) (fs_entry st i) e"
    by (auto simp: copied_entries_def)
  then have "e \<in> set es" "be_scope e = SessionScope" "be_run_id e = Some source"
    using nth_mem by (fastforce simp: in_set_enumerate_eq)+
  with assms(2) show "be_supersedes_id x = Some k \<Longrightarrow> named_by_session source db0 k"
    by (auto simp: x fork_entry_def copyable_def)
  show "be_run_id x = Some (fs_run st)" by (simp add: x fork_entry_def)
qed

lemma fork_keeps_others:
  assumes scan: "\<And>rows. set (scan rows) \<subseteq> set rows" and ne: "source \<noteq> fs_run st"
  shows "keeps (others_same (fs_run st) source db0) (fork_run C scan st source)"
proof -
  let ?I = "others_same (fs_run st) source db0"
  have ev: "keeps ?I (record_for C st ie)" for ie
    unfolding record_for_def by (cases ie) (auto intro!: keeps_intros keeps_txn dest: event_keeps_others)
  have entries: "keeps ?I (sm_bind (query (board_entries C (\<lambda>s. s) scan wid (Some source) None 200)) (\<lambda>es.
      sm_each (\<lambda>e. exec (insert_board_entry C e)) (copied_entries st source es)))" for wid
  proof (rule keeps_bind_query)
    show "?I db \<Longrightarrow> board_entries C (\<lambda>s. s) scan wid (Some source) None 200 db = Inr es \<Longrightarrow>
        \<forall>e \<in> set es. copyable source db0 e" for db es
      using entries_copyable[OF scan ne] by blast
    show "\<forall>e \<in> set es. copyable source db0 e \<Longrightarrow>
        keeps ?I (sm_each (\<lambda>e. exec (insert_board_entry C e)) (copied_entries st source es))" for es
      by (intro keeps_each_of keeps_exec) (rule entry_keeps_others; use copied_entry in blast)
  qed
  have board: "keeps ?I (copy_board C scan st source)"
    unfolding copy_board_def
    by (auto intro!: keeps_intros(1-3) keeps_bind keeps_exec entries dest: attach_keeps_others split: option.split)
  have tasks: "keeps ?I (copy_tasks C st source)"
    unfolding copy_tasks_def by (auto intro!: keeps_intros keeps_exec dest: tasks_keep_others)
  have messages: "keeps ?I (copy_messages C st source)"
    unfolding copy_messages_def
    by (auto intro!: keeps_intros keeps_txn dest: message_keeps_others split: prod.split)
  have clarification: "keeps ?I (copy_clarification C st source)"
    unfolding copy_clarification_def
    by (auto intro!: keeps_intros keeps_exec dest: clarification_keeps_others split: option.split)
  have events: "keeps ?I (copy_events C st source goal)" for goal
    unfolding copy_events_def by (intro keeps_intros ev)
  have new: "?I db \<Longrightarrow> create_run (fs_created st) (fs_run st) goal m db = Inr (x, db') \<Longrightarrow>
      ?I db' \<and> rn_id x = fs_run st" for goal m db x db'
    using create_keeps_others by (fastforce simp: create_run_def Let_def result_simps)
  have mark: "keeps ?I (exec (\<lambda>db. Inr (mark_fork (fs_run st) title source db)))" for title
    by (rule keeps_exec) (auto intro: mark_keeps_others)
  show ?thesis
    unfolding fork_run_def
  proof (rule keeps_bind[OF keeps_query])
    fix found :: "run_record option"
    show "keeps ?I (case found of None \<Rightarrow> sm_fail (StoreIo ''session not found'')
       | Some src \<Rightarrow>
           sm_bind (txn (create_run (fs_created st) (fs_run st) (rn_goal src) (rn_mode src))) (\<lambda>new.
           let fork = new\<lparr>rn_title := rn_title src @ '' (fork)'', rn_parent_run_id := Some source\<rparr> in
           sm_bind (exec (\<lambda>db. Inr (mark_fork (rn_id fork) (rn_title fork) source db))) (\<lambda>_.
           sm_bind (copy_board C scan st source) (\<lambda>_.
           sm_bind (copy_tasks C st source) (\<lambda>_.
           sm_bind (copy_messages C st source) (\<lambda>_.
           sm_bind (copy_clarification C st source) (\<lambda>_.
           sm_bind (copy_events C st source (rn_goal src)) (\<lambda>_. sm_return fork))))))))"
    proof (cases found)
      case (Some src)
      then show ?thesis
        by (simp only: option.case, intro keeps_bind_txn[OF new])
          (auto simp: Let_def intro!: keeps_intros mark board tasks messages clarification events)
    qed (simp add: keeps_intros)
  qed
qed

text \<open>An entry that is superseded.\<close>

definition superseded :: "str \<Rightarrow> store_db \<Rightarrow> bool" where
  "superseded k db \<longleftrightarrow> (\<exists>row. map_of (t_board db) k = Some row \<and> br_status row = ''superseded'')"

lemma superseded_same_board: "superseded k db \<Longrightarrow> t_board db' = t_board db \<Longrightarrow> superseded k db'"
  by (simp add: superseded_def)

lemma replace_tasks_board: "replace_tasks C rid ts db = Inr db' \<Longrightarrow> t_board db' = t_board db"
proof -
  assume "replace_tasks C rid ts db = Inr db'"
  then obtain db1 where ins: "fold_result (insert_task C rid) ts (delete_plan rid db) = Inr db1"
    and dep: "fold_result (insert_dependency rid) (plan_edges ts) db1 = Inr db'"
    by (auto simp: replace_tasks_def result_simps)
  have "t_board db1 = t_board db"
    by (rule fold_result_inv[OF ins]) (auto simp: delete_plan_def Let_def insert_task_def result_simps)
  then show ?thesis
    by (rule fold_result_inv[OF dep]) (auto simp: insert_dependency_def result_simps split: prod.splits)
qed

lemma insert_entry_keeps_superseded:
  assumes "superseded k db" and run: "insert_board_entry C e db = Inr db'"
  shows "superseded k db'"
  using run
proof (rule insert_entry_board)
  fix row rev
  assume new: "map_of (t_board db) (be_id e) = None"
    and db': "db' = supersede (be_created_at e) (be_supersedes_id e)
      (db\<lparr>t_board := bt_insert (be_id e) row (t_board db),
         t_revisions := bt_insert (be_id e, 1) rev (t_revisions db)\<rparr>)"
  with assms(1) have "k \<noteq> be_id e" by (auto simp: superseded_def)
  with assms(1) show ?thesis by (auto simp: superseded_def db' supersede_def split: option.split)
qed

lemma insert_entry_supersedes:
  assumes run: "insert_board_entry C e db = Inr db'" and k: "be_supersedes_id e = Some k"
  shows "superseded k db'"
  using run
proof (rule insert_entry_board)
  fix row rev
  assume db': "db' = supersede (be_created_at e) (be_supersedes_id e)
      (db\<lparr>t_board := bt_insert (be_id e) row (t_board db),
         t_revisions := bt_insert (be_id e, 1) rev (t_revisions db)\<rparr>)"
    and "be_supersedes_id e \<noteq> None \<Longrightarrow> map_of (t_board db') (the (be_supersedes_id e)) \<noteq> None"
  with k obtain r where r: "map_of (t_board db') k = Some r" by auto
  have "br_status r = ''superseded''"
    using r unfolding db' k by (auto simp: supersede_def split: if_splits)
  with r show ?thesis by (simp add: superseded_def)
qed

lemma sm_each_establishes:
  assumes "sm_each f xs db = (Inr u, db')" and "x \<in> set xs"
    and "\<And>db db'. f x db = (Inr (), db') \<Longrightarrow> I db'" and "\<And>x. keeps I (f x)"
  shows "I db'"
  using assms(1,2)
proof (induction xs arbitrary: db)
  case (Cons y ys)
  then obtain db1 where step: "f y db = (Inr (), db1)" and rest: "sm_each f ys db1 = (Inr u, db')"
    by (auto simp: result_simps)
  show ?case
  proof (cases "y = x")
    case True
    then have "I db1" using assms(3) step by blast
    then have "I (snd (sm_each f ys db1))" using keeps_each[of I f ys] assms(4) by (simp add: keeps_def)
    then show ?thesis by (simp add: rest)
  qed (use Cons rest in auto)
qed simp

lemma fork_rest_keeps_superseded:
  "keeps (superseded k) (copy_tasks C st source)" "keeps (superseded k) (copy_messages C st source)"
  "keeps (superseded k) (copy_clarification C st source)" "keeps (superseded k) (copy_events C st source goal)"
proof -
  have ev: "keeps (superseded k) (record_for C st ie)" for ie
    unfolding record_for_def
    by (cases ie) (auto intro!: keeps_intros keeps_txn elim!: superseded_same_board
        simp: record_runtime_event_def Let_def result_simps)
  show "keeps (superseded k) (copy_tasks C st source)"
    unfolding copy_tasks_def
    by (auto intro!: keeps_intros keeps_exec intro: superseded_same_board[OF _ replace_tasks_board])
  show "keeps (superseded k) (copy_messages C st source)"
    unfolding copy_messages_def
    by (auto intro!: keeps_intros keeps_txn elim!: superseded_same_board
        simp: append_message_def result_simps split: prod.split)
  show "keeps (superseded k) (copy_clarification C st source)"
    unfolding copy_clarification_def
    by (auto intro!: keeps_intros keeps_exec elim!: superseded_same_board
        simp: save_issue_clarification_def result_simps split: option.split)
  show "keeps (superseded k) (copy_events C st source goal)"
    unfolding copy_events_def by (intro keeps_intros ev)
qed

lemma enumerate_member:
  assumes "x \<in> set xs"
  shows "\<exists>i. (i, x) \<in> set (enumerate n xs)"
proof -
  from assms obtain i where "i < length xs" "xs ! i = x" by (auto simp: in_set_conv_nth)
  then have "(n + i, x) \<in> set (enumerate n xs)" by (simp add: in_set_enumerate_eq)
  then show ?thesis by blast
qed

lemma copy_board_supersedes:
  assumes run: "copy_board C scan st source db = (Inr u, db')"
    and "workspace_for_run source db = Some wid" and "source \<noteq> fs_run st"
    and "board_entries C (\<lambda>s. s) scan wid (Some source) None 200 db = Inr es"
    and "e \<in> set es" and "be_scope e = SessionScope" and "be_run_id e = Some source"
    and "be_supersedes_id e = Some k"
  shows "superseded k db'"
proof -
  from run assms(2) obtain db1 es' where att: "attach_run_workspace (fs_run st) wid db = Inr db1"
    and es': "board_entries C (\<lambda>s. s) scan wid (Some source) None 200 db1 = Inr es'"
    and each: "sm_each (\<lambda>e. exec (insert_board_entry C e)) (copied_entries st source es') db1 = (Inr u, db')"
    by (auto simp: copy_board_def result_simps)
  have "t_board db1 = t_board db" using att by (auto simp: attach_run_workspace_def result_simps split: if_splits)
  then have es: "es' = es" using assms(4) es' by (simp add: board_entries_def board_rows_def)
  have "e \<in> set (filter (\<lambda>e. be_scope e = SessionScope \<and> be_run_id e = Some source) es)" using assms(5-7) by simp
  from enumerate_member[OF this] obtain i where
    "fork_entry (fs_run st) (fs_entry st i) e \<in> set (copied_entries st source es')"
    unfolding copied_entries_def es by (force simp: image_iff)
  from sm_each_establishes[OF each this, of "superseded k"] show ?thesis
    using assms(8) insert_entry_supersedes insert_entry_keeps_superseded
    by (fastforce simp: result_simps fork_entry_def intro: keeps_exec)
qed

section \<open>What forks promise\<close>

text \<open>C13: A fork changes the rows of no other run, whether it succeeds or fails half way: their runs,
  workspaces, clarifications, messages, events, tasks, contracts, dependencies and leases are what they were,
  agents, receipts, usage and todos are untouched, and every entry of the board keeps its text, its owner and
  its revisions. There is one exception: an entry that a session entry of the forked run names in
  \<open>supersedes_id\<close> may come out marked as superseded. All entries that were not there before belong to
  the fork. \<open>scan\<close> is the order in which rows are read, and returns no row that is not there.\<close>

theorem fork_leaves_other_runs_alone:
  assumes run: "fork_run C scan st source db = (result, db')"
    and scan: "\<And>rows. set (scan rows) \<subseteq> set rows"
  shows "others_same (fs_run st) source db db'"
proof (cases "source = fs_run st")
  case True
  have "db' = db"
  proof (cases "map_of (t_runs db) source")
    case None
    then show ?thesis using run by (auto simp: fork_run_def sm_bind_def run_of_def sm_fail_def)
  next
    case (Some row)
    then have "create_run now (fs_run st) goal m db = Inl (Sqlite ''UNIQUE constraint failed'')" for now goal m
      by (simp add: create_run_def Let_def insert_row_def True)
    then show ?thesis
      using run by (auto simp: fork_run_def sm_bind_def txn_def sm_fail_def split: sum.splits option.splits prod.splits)
  qed
  then show ?thesis by (simp add: others_same_refl)
next
  case False
  from fork_keeps_others[OF scan False, of db C] others_same_refl[of "fs_run st" source db] run
  show ?thesis unfolding keeps_def by (metis snd_conv)
qed

text \<open>A fork supersedes entries of the run it copies. An entry that names a predecessor keeps the name
  in its copy, and inserting the copy marks the predecessor as superseded, in the session that was
  forked, even where it had been opened again.\<close>

theorem fork_supersedes_again:
  assumes "fork_run C scan st source db = (Inr fork, db')"
    and "workspace_for_run source db = Some wid"
    and "board_entries C (\<lambda>s. s) scan wid (Some source) None 200 db = Inr es"
    and "e \<in> set es" and "be_scope e = SessionScope" and "be_run_id e = Some source"
    and "be_supersedes_id e = Some k"
  shows "\<exists>row. map_of (t_board db') k = Some row \<and> br_status row = ''superseded''"
proof -
  from assms(1) obtain src new db1 db2 db3 db4 db5 db6 where src: "run_of source db = Inr (Some src)"
    and create: "create_run (fs_created st) (fs_run st) (rn_goal src) (rn_mode src) db = Inr (new, db1)"
    and db2: "db2 = mark_fork (rn_id new) (rn_title src @ '' (fork)'') source db1"
    and board: "copy_board C scan st source db2 = (Inr (), db3)"
    and tasks: "copy_tasks C st source db3 = (Inr (), db4)"
    and messages: "copy_messages C st source db4 = (Inr (), db5)"
    and clarification: "copy_clarification C st source db5 = (Inr (), db6)"
    and events: "copy_events C st source (rn_goal src) db6 = (Inr (), db')"
    by (auto simp: fork_run_def result_simps Let_def sm_fail_def split: option.splits)
  have known: "map_of (t_runs db) source \<noteq> None" using src by (auto simp: run_of_def split: option.splits)
  have "source \<noteq> fs_run st" using create known by (auto simp: create_run_def Let_def result_simps)
  moreover have "t_board db2 = t_board db" "t_run_workspaces db2 = t_run_workspaces db"
    using create by (auto simp: db2 mark_fork_def create_run_def Let_def result_simps)
  ultimately have "superseded k db3"
    using copy_board_supersedes[OF board] assms(2-)
    by (simp add: workspace_for_run_def board_entries_def board_rows_def)
  then have "superseded k db'"
    using fork_rest_keeps_superseded[of k] tasks messages clarification events unfolding keeps_def by (metis snd_conv)
  then show ?thesis by (simp add: superseded_def)
qed

section \<open>Examples\<close>

definition example_board_row :: "str option \<Rightarrow> board_row" where
  "example_board_row supersedes =
     \<lparr>br_workspace_id = ''w'', br_run_id = Some ''r'', br_scope = ''session'', br_kind = ''finding'', br_subject = ''s'',
      br_body = ''b'', br_task_id = None, br_author = None, br_confidence = 50, br_status = ''open'',
      br_supersedes_id = supersedes, br_evidence = ''[src]'', br_created_at = 0, br_updated_at = 0\<rparr>"

definition example_board :: store_db where
  "example_board = example_db\<lparr>t_workspaces := [(''w'', \<lparr>wr_root = ''/w'', wr_created_at = 0, wr_updated_at = 0\<rparr>)],
     t_run_workspaces := [(''r'', ''w'')],
     t_board := [(''1'', example_board_row None), (''2'', example_board_row (Some ''1''))]\<rparr>"

definition example_stamps :: fork_stamps where
  "example_stamps = \<lparr>fs_run = ''f'', fs_created = 5, fs_entry = (\<lambda>i. (if i = 0 then ''3'' else ''4'', 6)),
     fs_task = (\<lambda>_. 7), fs_message = (\<lambda>_. 8), fs_intake = 9, fs_event = (\<lambda>_. 10)\<rparr>"

definition example_fork_codec :: codec where
  "example_fork_codec = example_codec\<lparr>enc_event := (\<lambda>_. Inr ''e'')\<rparr>"

lemmas fork_example_defs = example_board_row_def example_board_def example_stamps_def example_fork_codec_def
  example_defs

lemma fork_supersedes_again_witness:
  "\<exists>fork db' row. fork_run example_fork_codec (\<lambda>xs. xs) example_stamps ''r'' example_board = (Inr fork, db') \<and>
     map_of (t_board example_board) ''1'' = Some (example_board_row None) \<and>
     map_of (t_board db') ''1'' = Some row \<and> br_status row = ''superseded''"
proof -
  note names = parse_board_scope_str[of SessionScope] parse_board_kind_str[of BFinding]
    parse_board_status_str[of Open] mode_from_name[of Batch] parse_state_name[of ExitPending]
  obtain es e where es: "board_entries example_fork_codec (\<lambda>s. s) (\<lambda>xs. xs) ''w'' (Some ''r'') None 200 example_board = Inr es"
    and e: "e \<in> set es" "be_scope e = SessionScope" "be_run_id e = Some ''r''" "be_supersedes_id e = Some ''1''"
    using names
    by (fastforce simp: board_entries_def board_rows_def decode_board_row_def kind_rank_def fork_example_defs
        less_eq_prod_def)
  obtain fork db' where run: "fork_run example_fork_codec (\<lambda>xs. xs) example_stamps ''r'' example_board = (Inr fork, db')"
    using names
    by (simp add: fork_run_def sm_bind_def txn_def exec_def run_of_def decode_run_def create_run_def Let_def insert_row_def
        mark_fork_def copy_board_def workspace_for_run_def attach_run_workspace_def references_def
        board_entries_def board_rows_def decode_board_row_def kind_rank_def less_eq_prod_def copied_entries_def
        fork_entry_def insert_board_entry_def insert_board_row_def insert_revision_def references_opt_def
        board_row_of_def supersede_def copy_tasks_def tasks_of_def rows_of_run_def copy_messages_def messages_of_def
        copy_clarification_def issue_clarification_of_def copy_events_def record_for_def record_runtime_event_def
        next_sequence_def sequences_def envelope_new_def event_row_of_def events_of_def fork_events_def
        as_u64_of_def as_i64_def fork_example_defs)
  have "workspace_for_run ''r'' example_board = Some ''w''" by (simp add: workspace_for_run_def example_board_def)
  from fork_supersedes_again[OF run this es e] run show ?thesis by (auto simp: example_board_def)
qed

lemma fork_leaves_other_runs_alone_witness:
  "others_same ''f'' ''r'' example_board
     (snd (fork_run example_fork_codec (\<lambda>xs. xs) example_stamps ''r'' example_board)) \<and>
   named_by_session ''r'' example_board ''1'' \<and> \<not> named_by_session ''r'' example_board ''2''"
proof -
  have f: "fs_run example_stamps = ''f''" by (simp add: example_stamps_def)
  have names: "named_by_session ''r'' example_board ''1''" "\<not> named_by_session ''r'' example_board ''2''"
    by (simp_all add: named_by_session_def example_board_def example_board_row_def)
  from fork_leaves_other_runs_alone[of example_fork_codec "\<lambda>xs. xs" example_stamps "''r''" example_board] f names
  show ?thesis by (metis prod.collapse order_refl)
qed

end
