(* ===== verification/Rust_Path.thy ===== *)
theory Rust_Path
  imports Rust_Search "HOL-Library.Sublist"
begin

text \<open>
  \<open>std::path\<close> on Unix, as far as the sources use it: a path is its text, its components are the pieces
  between slashes with empty pieces and inner dots left out. What the file system says of a path
  (\<open>exists\<close>, \<open>canonicalize\<close>) is a record of functions, an argument of the code that asks.
\<close>

datatype path_component = RootDir | CurDir | ParentDir | NormalDir str

definition path_is_absolute :: "str \<Rightarrow> bool" where
  "path_is_absolute p = starts_with p ''/''"

fun component_of :: "str \<Rightarrow> path_component" where
  "component_of piece = (if piece = ''..'' then ParentDir else NormalDir piece)"

definition path_components :: "str \<Rightarrow> path_component list" where
  "path_components p =
     (let pieces = split_on (CHR ''/'') p
      in (if path_is_absolute p then [RootDir] else if hd pieces = ''.'' then [CurDir] else []) @
         map component_of (filter (\<lambda>piece. piece \<noteq> [] \<and> piece \<noteq> ''.'') pieces))"

definition path_file_name :: "str \<Rightarrow> str option" where
  "path_file_name p =
     (case rev (path_components p) of NormalDir name # _ \<Rightarrow> Some name | _ \<Rightarrow> None)"

definition path_starts_with :: "str \<Rightarrow> str \<Rightarrow> bool" where
  "path_starts_with p base = prefix (path_components base) (path_components p)"

definition path_join :: "str \<Rightarrow> str \<Rightarrow> str" where
  "path_join base p =
     (if path_is_absolute p then p
      else if base = [] \<or> last base = CHR ''/'' then base @ p
      else base @ ''/'' @ p)"

text \<open>A path with the given components; two paths with the same components are equal in Rust.\<close>

fun component_text :: "path_component \<Rightarrow> str" where
  "component_text RootDir = []"
| "component_text CurDir = ''.''"
| "component_text ParentDir = ''..''"
| "component_text (NormalDir name) = name"

definition path_of_components :: "path_component list \<Rightarrow> str" where
  "path_of_components cs = (if cs = [RootDir] then ''/'' else join ''/'' (map component_text cs))"

definition path_parent :: "str \<Rightarrow> str option" where
  "path_parent p =
     (let cs = path_components p in
      if cs = [] \<or> last cs = RootDir then None else Some (path_of_components (butlast cs)))"

definition has_parent_dir :: "str \<Rightarrow> bool" where
  "has_parent_dir p = (ParentDir \<in> set (path_components p))"

record 'e file_system =
  fs_exists :: "str \<Rightarrow> bool"
  fs_canonicalize :: "str \<Rightarrow> 'e + str"

lemma path_starts_with_refl [simp]: "path_starts_with p p"
  by (simp add: path_starts_with_def)

lemma path_starts_with_trans: "path_starts_with p q \<Longrightarrow> path_starts_with q r \<Longrightarrow> path_starts_with p r"
  by (meson path_starts_with_def prefix_order.trans)

lemma has_parent_dir_iff: "has_parent_dir p \<longleftrightarrow> ''..'' \<in> set (split_on (CHR ''/'') p)"
  by (auto simp: has_parent_dir_def path_components_def Let_def image_iff split: if_splits)

lemma split_on_append:
  "split_on d (xs @ d # ys) = split_on d xs @ split_on d ys"
proof (induction xs)
  case Nil
  then show ?case by (cases "split_on d ys") auto
next
  case (Cons c cs)
  then show ?case by (cases "split_on d cs") auto
qed

text \<open>A relative path joined to a base lies below it, whatever it is; only \<open>..\<close> can then leave the base.\<close>

lemma path_components_join:
  assumes "\<not> path_is_absolute p" and "base \<noteq> []" and "path_is_absolute base" and "last base \<noteq> CHR ''/''"
  shows "path_components (path_join base p) =
    path_components base @ map component_of (filter (\<lambda>piece. piece \<noteq> [] \<and> piece \<noteq> ''.'') (split_on (CHR ''/'') p))"
proof -
  from assms(3) have "path_is_absolute (base @ CHR ''/'' # p)"
    by (cases base) (auto simp: path_is_absolute_def)
  with assms show ?thesis
    by (simp add: path_join_def path_components_def Let_def split_on_append)
qed

lemma path_join_starts_with:
  assumes "\<not> path_is_absolute p" and "base \<noteq> []" and "path_is_absolute base" and "last base \<noteq> CHR ''/''"
  shows "path_starts_with (path_join base p) base"
  by (simp add: path_starts_with_def path_components_join[OF assms])

end
