(* ===== verification/Exec_Policy.thy ===== *)
theory Exec_Policy
  imports Rust_Path Json Rust_Utf8
begin

text \<open>
  The command policy of the tool executor (\<open>crates/minha-core/src/executor.rs\<close>): which argument vectors
  a role may run, which need a one-use approval, which are refused always; the literal line grammar of
  the terminal; the containment of paths and of patches in the workspace; and the bounds on captured
  output. Running a program is an argument (\<open>run\<close>), and so is the file system.
\<close>

datatype tool_error =
  InvalidArguments str
| OutsideWorkspace str
| ReadOnlyDenied
| CommandDenied str
| ToolIo str
| PatchFailed str
| ToolCoordination str

record tool_output =
  out_stdout :: str
  out_stderr :: str
  out_exit_code :: "int option"
  out_truncated :: bool

datatype tool_outcome = Output tool_output | NeedsInput str "str list"

record tool_executor =
  te_root :: str
  te_read_only :: bool
  te_allow_destructive :: bool

type_synonym files = "str file_system"

section \<open>Arguments\<close>

definition DEFAULT_OUTPUT_CAP :: usize where "DEFAULT_OUTPUT_CAP = 16 * 1024"
definition DEFAULT_TIMEOUT_MS :: u64 where "DEFAULT_TIMEOUT_MS = 30000"
definition TRUNCATION_MARKER :: str where "TRUNCATION_MARKER = CHR 0x0A # ''[output truncated]''"

definition string_array :: "json option \<Rightarrow> str \<Rightarrow> tool_error + str list" where
  "string_array value name =
     (case value of None \<Rightarrow> Inr []
      | Some v \<Rightarrow>
          r_bind (ok_or (as_array v) (InvalidArguments (name @ '' must be an array''))) (\<lambda>a.
            r_mapm (\<lambda>v. ok_or (as_str v) (InvalidArguments (name @ '' must contain strings''))) a))"

definition required_string :: "json \<Rightarrow> str \<Rightarrow> tool_error + str" where
  "required_string args name =
     (case map_option trim (get_str args name) of
        None \<Rightarrow> Inl (InvalidArguments (name @ '' is required''))
      | Some value \<Rightarrow> if value = [] then Inl (InvalidArguments (name @ '' is required'')) else Inr value)"

section \<open>Programs\<close>

definition program_of :: "str list \<Rightarrow> str option" where
  "program_of argv = (case argv of [] \<Rightarrow> None | p # _ \<Rightarrow> path_file_name p)"

definition DENIED_PROGRAMS :: "str list" where
  "DENIED_PROGRAMS =
     [''rm'', ''rmdir'', ''shred'', ''dd'', ''mkfs'', ''fdisk'', ''format'', ''shutdown'', ''reboot'', ''sh'', ''bash'',
      ''zsh'', ''fish'', ''dash'', ''ksh'', ''pwsh'', ''powershell'', ''cmd'', ''env'', ''xargs'', ''just'', ''sudo'',
      ''doas'', ''su'', ''gh'', ''codex'', ''claude'', ''gemini'', ''minha'']"

definition DENIED_GIT_SUBCOMMANDS :: "str list" where
  "DENIED_GIT_SUBCOMMANDS =
     [''add'', ''am'', ''apply'', ''bisect'', ''branch'', ''checkout'', ''cherry-pick'', ''clean'', ''commit'', ''config'',
      ''filter-branch'', ''merge'', ''mv'', ''notes'', ''prune'', ''push'', ''rebase'', ''reflog'', ''replace'', ''reset'',
      ''restore'', ''revert'', ''rm'', ''stash'', ''switch'', ''symbolic-ref'', ''tag'', ''update-index'',
      ''update-ref'', ''worktree'']"

definition REMOTE_PROGRAMS :: "str list" where
  "REMOTE_PROGRAMS =
     [''curl'', ''wget'', ''ssh'', ''scp'', ''sftp'', ''rsync'', ''kubectl'', ''docker'', ''podman'']"

definition is_dangerous_command :: "str list \<Rightarrow> bool" where
  "is_dangerous_command argv =
     (let program = unwrap_or (program_of argv) [];
          joined = join '' '' (map to_ascii_lowercase argv);
          rest = drop 1 argv
      in program \<in> set DENIED_PROGRAMS \<or> program \<in> set REMOTE_PROGRAMS \<or>
         program \<in> {''npm'', ''pnpm'', ''yarn''} \<and> ''publish'' \<in> set rest \<or>
         program = ''cargo'' \<and> ''publish'' \<in> set rest \<or>
         program = ''git'' \<and> list_ex (\<lambda>a. a \<in> {''clone'', ''fetch'', ''pull'', ''push''}) rest \<or>
         program = ''git'' \<and> list_ex (\<lambda>word. word \<in> set rest) DENIED_GIT_SUBCOMMANDS \<or>
         contains joined '' > /dev/'')"

definition is_never_allowed_command :: "str list \<Rightarrow> bool" where
  "is_never_allowed_command argv =
     (unwrap_or (program_of argv) [] \<in>
        {''sh'', ''bash'', ''zsh'', ''fish'', ''dash'', ''ksh'', ''pwsh'', ''powershell'', ''cmd'', ''env'', ''xargs'', ''just'',
         ''sudo'', ''doas'', ''su'', ''codex'', ''claude'', ''gemini'', ''minha''})"

definition is_read_only_command :: "str list \<Rightarrow> bool" where
  "is_read_only_command argv =
     (case program_of argv of None \<Rightarrow> False
      | Some program \<Rightarrow>
          let sub = (case argv of _ # s # _ \<Rightarrow> Some s | _ \<Rightarrow> None) in
          if program = ''git'' then
            (case sub of None \<Rightarrow> False
             | Some s \<Rightarrow> s \<in> {''status'', ''diff'', ''show'', ''log'', ''rev-parse'', ''ls-files'', ''grep''})
          else if program = ''cargo'' then
            (case sub of None \<Rightarrow> False
             | Some s \<Rightarrow> s \<in> {''check'', ''test'', ''clippy'', ''metadata''} \<or>
                 s = ''fmt'' \<and> ''--check'' \<in> set argv)
          else if program \<in> {''npm'', ''pnpm'', ''yarn''} then sub = Some ''test''
          else if program = ''go'' then sub = Some ''test''
          else if program \<in> {''pytest'', ''ruff''} then True
          else program \<in> {''cat'', ''head'', ''tail'', ''ls'', ''pwd'', ''rg'', ''printf'', ''echo''} \<and>
               \<not> is_dangerous_command argv)"

section \<open>Arguments of read-only commands\<close>

definition unsafe_git_option :: "str \<Rightarrow> bool" where
  "unsafe_git_option a =
     (a \<in> {''-C'', ''--git-dir'', ''--work-tree'', ''--namespace'', ''--config-env'', ''--exec-path'', ''--output'',
            ''--ext-diff'', ''--textconv'', ''--open-files-in-pager''} \<or>
      starts_with_any a
        [''--git-dir='', ''--work-tree='', ''--namespace='', ''--config-env='', ''--exec-path='', ''--output='',
         ''--open-files-in-pager=''])"

definition unsafe_rg_option :: "str \<Rightarrow> bool" where
  "unsafe_rg_option a =
     (a \<in> {''--pre'', ''--hostname-bin'', ''--search-zip'', ''-z''} \<or> starts_with_any a [''--pre='', ''--hostname-bin=''])"

definition argument_value :: "str \<Rightarrow> str" where
  "argument_value a = (case split_once (CHR ''='') a of None \<Rightarrow> a | Some (_, v) \<Rightarrow> v)"

definition is_option :: "str \<Rightarrow> bool" where
  "is_option value = (value = [] \<or> starts_with value ''-'' \<and> \<not> path_is_absolute value)"

definition candidate_path :: "str \<Rightarrow> str \<Rightarrow> str" where
  "candidate_path base value = (if path_is_absolute value then value else path_join base value)"

definition validate_argument :: "files \<Rightarrow> str \<Rightarrow> str \<Rightarrow> tool_error + unit" where
  "validate_argument fs base a =
     (let value = argument_value a in
      if is_option value then Inr ()
      else if has_parent_dir value then Inl (OutsideWorkspace value)
      else
        let candidate = candidate_path base value in
        if fs_exists fs candidate then
          (case fs_canonicalize fs candidate of
             Inl e \<Rightarrow> Inl (ToolIo e)
           | Inr canonical \<Rightarrow>
               if path_starts_with canonical base then Inr () else Inl (OutsideWorkspace value))
        else if path_is_absolute value then Inl (OutsideWorkspace value)
        else Inr ())"

definition validate_read_only_argv :: "files \<Rightarrow> str \<Rightarrow> str list \<Rightarrow> tool_error + unit" where
  "validate_read_only_argv fs base argv =
     (case program_of argv of None \<Rightarrow> Inl ReadOnlyDenied
      | Some program \<Rightarrow>
          if program = ''git'' \<and> list_ex unsafe_git_option (drop 1 argv) \<or>
             program = ''rg'' \<and> list_ex unsafe_rg_option (drop 1 argv)
          then Inl (CommandDenied (join '' '' argv))
          else r_map (\<lambda>_. ()) (r_mapm (validate_argument fs base) (drop 1 argv)))"

section \<open>Containment\<close>

definition contained :: "files \<Rightarrow> str \<Rightarrow> str \<Rightarrow> bool \<Rightarrow> tool_error + str" where
  "contained fs base input must_exist =
     (if has_parent_dir input then Inl (OutsideWorkspace input)
      else
        let joined = candidate_path base input in
        r_bind (if must_exist \<or> fs_exists fs joined
                then (case fs_canonicalize fs joined of Inl e \<Rightarrow> Inl (ToolIo e) | Inr p \<Rightarrow> Inr p)
                else Inr joined) (\<lambda>candidate.
          if path_starts_with candidate base then Inr candidate else Inl (OutsideWorkspace input)))"
section \<open>Running a command\<close>

type_synonym runner = "str \<Rightarrow> str list \<Rightarrow> str option \<Rightarrow> u64 \<Rightarrow> usize \<Rightarrow> tool_error + tool_output"

definition clamp :: "nat \<Rightarrow> nat \<Rightarrow> nat \<Rightarrow> nat" where
  "clamp low high n = max low (min high n)"

definition clamp_exec_timeout :: "u64 option \<Rightarrow> u64" where
  "clamp_exec_timeout timeout_ms = clamp 1000 120000 (unwrap_or timeout_ms DEFAULT_TIMEOUT_MS)"

text \<open>The checks of \<open>exec\<close>, in their order.\<close>

definition exec_gate :: "files \<Rightarrow> tool_executor \<Rightarrow> str list \<Rightarrow> tool_error + unit" where
  "exec_gate fs ex argv =
     (if argv = [] then Inl (InvalidArguments ''argv must not be empty'')
      else if te_read_only ex \<and> \<not> is_read_only_command argv then Inl ReadOnlyDenied
      else
        r_bind (if te_read_only ex then validate_read_only_argv fs (te_root ex) argv else Inr ()) (\<lambda>_.
          if is_never_allowed_command argv then Inl (CommandDenied (join '' '' argv))
          else if \<not> te_allow_destructive ex \<and> is_dangerous_command argv
          then Inl (CommandDenied (join '' '' argv))
          else Inr ()))"

definition exec_tool :: "files \<Rightarrow> runner \<Rightarrow> tool_executor \<Rightarrow> json \<Rightarrow> tool_error + tool_outcome" where
  "exec_tool fs run ex args =
     r_bind (string_array (json_get args ''argv'') ''argv'') (\<lambda>argv.
     r_bind (exec_gate fs ex argv) (\<lambda>_.
     r_bind (case get_str args ''cwd'' of None \<Rightarrow> Inr None
             | Some p \<Rightarrow> r_map Some (contained fs (te_root ex) p False)) (\<lambda>cwd.
       let timeout = clamp_exec_timeout (get_u64 args ''timeout_ms'');
           cap = clamp 1 (256 * 1024) (unwrap_or (get_u64 args ''max_output_bytes'') DEFAULT_OUTPUT_CAP)
       in r_map Output (run (hd argv) (tl argv) cwd timeout cap))))"

section \<open>Approval\<close>

definition command_approval_reason :: "str list \<Rightarrow> tool_error + str option" where
  "command_approval_reason argv =
     (if argv = [] then Inl (InvalidArguments ''argv must not be empty'')
      else Inr (if is_dangerous_command argv \<and> \<not> is_never_allowed_command argv
                then Some (''command can mutate history, remote state, credentials, or delete data: '' @
                           join '' '' argv)
                else None))"

definition is_just_argv :: "str list \<Rightarrow> bool" where
  "is_just_argv argv = (program_of argv = Some ''just'')"

definition is_privileged_terminal_command :: "str list \<Rightarrow> bool" where
  "is_privileged_terminal_command argv =
     (case program_of argv of None \<Rightarrow> False | Some p \<Rightarrow> p \<in> {''sudo'', ''doas'', ''su''})"

definition contains_shell_syntax :: "str \<Rightarrow> bool" where
  "contains_shell_syntax value =
     list_ex (\<lambda>c. c \<in> {CHR '';'', CHR ''|'', CHR ''&'', CHR ''>'', CHR ''<'', CHR 0x60, CHR ''$'', CHR 0x5C,
                      CHR 0x27, CHR 0x22, CHR ''('', CHR '')'', CHR ''{'', CHR ''}''}) value"

definition terminal_line_argv :: "str \<Rightarrow> tool_error + str list option" where
  "terminal_line_argv line =
     (let line = trim line in
      if line = [] then Inr None
      else if 4 * 1024 < length line
      then Inl (InvalidArguments ''terminal command line exceeds 4096 bytes'')
      else if contains_shell_syntax line
      then Inl (InvalidArguments ''terminal lines use literal argv words only; shell syntax, quoting, redirects, and substitutions are not allowed'')
      else
        let argv = split_whitespace line in
        if 64 < length argv then Inl (InvalidArguments ''terminal command line exceeds 64 argv words'')
        else Inr (Some argv))"

text \<open>The lines of the steps of a batch: a step without a line has nothing to check.\<close>

definition step_lines :: "json list \<Rightarrow> str list" where
  "step_lines steps = List.map_filter (\<lambda>step. get_str step ''line'') steps"

definition batch_argvs :: "json \<Rightarrow> tool_error + str list list" where
  "batch_argvs args =
     r_bind (ok_or (get_array args ''steps'') (InvalidArguments ''terminal batch requires steps'')) (\<lambda>steps.
       r_map (\<lambda>os. List.map_filter (\<lambda>x. x) os) (r_mapm terminal_line_argv (step_lines steps)))"

definition terminal_approval_reason :: "json \<Rightarrow> tool_error + str option" where
  "terminal_approval_reason args =
     r_bind (required_string args ''action'') (\<lambda>action.
       if action = ''start'' then
         r_bind (string_array (json_get args ''argv'') ''argv'') (\<lambda>argv.
           if argv = [] then Inl (InvalidArguments ''terminal start requires argv'')
           else command_approval_reason argv)
       else if action = ''batch'' then
         r_map (\<lambda>argvs.
             if list_ex (\<lambda>argv. is_dangerous_command argv \<or> is_just_argv argv) argvs
             then Some ''terminal batch contains a command that can mutate local or remote state''
             else None)
           (batch_argvs args)
       else if action \<in> {''observe'', ''resize'', ''close''} then Inr None
       else Inl (InvalidArguments
         (''terminal action must be start, observe, batch, resize, or close; got '' @ action)))"

definition approval_reason :: "tool_executor \<Rightarrow> str \<Rightarrow> json \<Rightarrow> tool_error + str option" where
  "approval_reason ex name args =
     (if te_read_only ex then Inr None
      else if name = ''exec'' then
        r_bind (string_array (json_get args ''argv'') ''argv'') command_approval_reason
      else if name = ''just'' \<and> get_str args ''action'' = Some ''run'' then
        r_map (\<lambda>recipe. Some
            (''Just recipe bodies are opaque and can mutate local or remote state: just '' @ recipe))
          (required_string args ''recipe'')
      else if name = ''terminal'' then terminal_approval_reason args
      else Inr None)"

definition approval_command :: "str \<Rightarrow> json \<Rightarrow> tool_error + str list option" where
  "approval_command name args =
     (if name = ''exec'' then r_map Some (string_array (json_get args ''argv'') ''argv'')
      else if name = ''just'' \<and> get_str args ''action'' = Some ''run'' then
        r_bind (required_string args ''recipe'') (\<lambda>recipe.
          r_map (\<lambda>rest. Some (''just'' # recipe # rest)) (string_array (json_get args ''args'') ''args''))
      else if name = ''terminal'' then
        r_bind (required_string args ''action'') (\<lambda>action.
          if action = ''start'' then
            r_map (\<lambda>argv. Some (''terminal:start'' # argv)) (string_array (json_get args ''argv'') ''argv'')
          else if action = ''batch'' then
            r_bind (required_string args ''session'') (\<lambda>session.
            r_bind (ok_or (get_array args ''steps'') (InvalidArguments ''terminal batch requires steps'')) (\<lambda>steps.
              Inr (Some (''terminal:batch'' # session # step_lines steps))))
          else if action \<in> {''observe'', ''resize'', ''close''} then Inr None
          else Inl (InvalidArguments (''unsupported terminal action '' @ action)))
      else Inr None)"

section \<open>Terminal lines\<close>

datatype terminal_error =
  TerminalInvalid str
| TerminalDenied str
| TerminalMissing str
| TerminalIo str
| TerminalPty str
| TerminalMetadata str

definition tool_error_text :: "tool_error \<Rightarrow> str" where
  "tool_error_text e =
     (case e of
        InvalidArguments m \<Rightarrow> ''invalid tool arguments: '' @ m
      | OutsideWorkspace m \<Rightarrow> ''path is outside the workspace: '' @ m
      | ReadOnlyDenied \<Rightarrow> ''read-only policy denied tool invocation''
      | CommandDenied m \<Rightarrow> ''command denied by safety policy: '' @ m
      | ToolIo m \<Rightarrow> m
      | PatchFailed m \<Rightarrow> ''git apply failed: '' @ m
      | ToolCoordination m \<Rightarrow> ''coordination store error: '' @ m)"

definition tool_to_terminal_error :: "tool_error \<Rightarrow> terminal_error" where
  "tool_to_terminal_error e =
     (case e of
        InvalidArguments m \<Rightarrow> TerminalDenied m
      | OutsideWorkspace m \<Rightarrow> TerminalDenied m
      | CommandDenied m \<Rightarrow> TerminalDenied m
      | ReadOnlyDenied \<Rightarrow> TerminalDenied ''read-only policy denied terminal line''
      | ToolIo m \<Rightarrow> TerminalIo m
      | other \<Rightarrow> TerminalDenied (tool_error_text other))"

definition terminal_error_text :: "terminal_error \<Rightarrow> str" where
  "terminal_error_text e =
     (case e of
        TerminalInvalid m \<Rightarrow> ''invalid terminal arguments: '' @ m
      | TerminalDenied m \<Rightarrow> ''terminal command denied by safety policy: '' @ m
      | TerminalMissing m \<Rightarrow> ''terminal session '' @ m @ '' was not found''
      | TerminalIo m \<Rightarrow> ''terminal I/O failed: '' @ m
      | TerminalPty m \<Rightarrow> ''terminal PTY failed: '' @ m
      | TerminalMetadata m \<Rightarrow> ''terminal metadata failed: '' @ m)"

definition terminal_to_tool_error :: "terminal_error \<Rightarrow> tool_error" where
  "terminal_to_tool_error e =
     (case e of
        TerminalIo m \<Rightarrow> ToolIo m
      | TerminalInvalid m \<Rightarrow> InvalidArguments m
      | TerminalDenied m \<Rightarrow> CommandDenied m
      | other \<Rightarrow> ToolCoordination (terminal_error_text other))"

definition escaping_argument :: "str \<Rightarrow> bool" where
  "escaping_argument a =
     (a \<in> {''-C'', ''--git-dir'', ''--work-tree'', ''--exec-path''} \<or>
      starts_with_any a [''--git-dir='', ''--work-tree='', ''--exec-path='', ''~''] \<or>
      path_is_absolute a \<or> has_parent_dir a)"

definition terminal_path_escape :: "str list \<Rightarrow> bool" where
  "terminal_path_escape argv =
     (case program_of argv of None \<Rightarrow> True
      | Some program \<Rightarrow>
          program \<in> {''cd'', ''pushd'', ''popd''} \<or> list_ex escaping_argument (drop 1 argv))"

definition looks_like_credential :: "str \<Rightarrow> bool" where
  "looks_like_credential value =
     (let lower = to_ascii_lowercase value in
      contains_any lower [''token='', ''password='', ''api_key=''] \<or> starts_with_any lower [''sk-'', ''tp-''])"

definition terminal_requests_privileged_input :: "json \<Rightarrow> tool_error + bool" where
  "terminal_requests_privileged_input args =
     (case get_str args ''action'' of
        None \<Rightarrow> Inl (InvalidArguments ''terminal action is required'')
      | Some action \<Rightarrow>
          if action = ''start'' then
            r_map is_privileged_terminal_command (string_array (json_get args ''argv'') ''argv'')
          else if action = ''batch'' then
            r_map (list_ex is_privileged_terminal_command) (batch_argvs args)
          else Inr False)"

definition validate_terminal_line ::
    "files \<Rightarrow> str \<Rightarrow> str \<Rightarrow> bool \<Rightarrow> bool \<Rightarrow> terminal_error + unit" where
  "validate_terminal_line fs base line read_only allow_destructive =
     (case terminal_line_argv line of
        Inl e \<Rightarrow> Inl (tool_to_terminal_error e)
      | Inr None \<Rightarrow> Inl (TerminalInvalid ''terminal command lines must not be empty'')
      | Inr (Some argv) \<Rightarrow>
          if terminal_path_escape argv
          then Inl (TerminalDenied ''terminal lines may not change the workspace root or reference paths outside it'')
          else if is_privileged_terminal_command argv
          then Inl (TerminalDenied ''privilege commands require a human-controlled terminal; do not submit them through an agent PTY'')
          else if list_ex looks_like_credential argv
          then Inl (TerminalDenied ''terminal lines must not include credentials; a human must enter secrets locally'')
          else if is_just_argv argv then
            (if read_only then Inl (TerminalDenied ''read-only roles may not run Just recipes'')
             else if \<not> allow_destructive
             then Inl (TerminalDenied ''Just recipes require explicit one-use approval'')
             else Inr ())
          else if read_only \<and> \<not> is_read_only_command argv
          then Inl (TerminalDenied ''read-only roles may submit only read-only terminal commands'')
          else
            (case (if read_only then validate_read_only_argv fs base argv else Inr ()) of
               Inl e \<Rightarrow> Inl (tool_to_terminal_error e)
             | Inr _ \<Rightarrow>
                 if is_never_allowed_command argv then Inl (TerminalDenied (join '' '' argv))
                 else if \<not> allow_destructive \<and> is_dangerous_command argv
                 then Inl (TerminalDenied (join '' '' argv))
                 else Inr ()))"

section \<open>Just\<close>

definition valid_just_recipe_name :: "str \<Rightarrow> bool" where
  "valid_just_recipe_name recipe =
     (recipe \<noteq> [] \<and> length recipe \<le> 120 \<and>
      list_all (\<lambda>c. is_ascii_alphanumeric c \<or> c \<in> {CHR ''_'', CHR ''-'', CHR ''.''}) recipe)"

definition just_argument :: "str \<Rightarrow> tool_error + str" where
  "just_argument a =
     (if a = [] \<or> contains_shell_syntax a \<or> looks_like_credential a
      then Inl (InvalidArguments ''just args must be non-secret literal arguments without shell syntax'')
      else Inr a)"

text \<open>The action \<open>run\<close> once a Justfile and the program were found.\<close>

definition just_run :: "runner \<Rightarrow> tool_executor \<Rightarrow> str \<Rightarrow> json \<Rightarrow> tool_error + tool_outcome" where
  "just_run run ex just_root args =
     (if te_read_only ex then Inl ReadOnlyDenied
      else if \<not> te_allow_destructive ex
      then Inl (CommandDenied ''Just recipes require explicit one-use approval'')
      else
        r_bind (required_string args ''recipe'') (\<lambda>recipe.
          if \<not> valid_just_recipe_name recipe
          then Inl (InvalidArguments ''just recipe must be a compact recipe name without shell syntax'')
          else
            r_bind (r_bind (string_array (json_get args ''args'') ''args'') (r_mapm just_argument)) (\<lambda>rest.
              r_map Output (run ''just'' (recipe # rest) (Some just_root)
                (clamp_exec_timeout (get_u64 args ''timeout_ms'')) DEFAULT_OUTPUT_CAP))))"

section \<open>Patches\<close>

definition patch_header :: "str \<Rightarrow> bool" where
  "patch_header line = starts_with_any line
     [''--- '', ''+++ '', ''rename from '', ''rename to '', ''copy from '', ''copy to '', ''diff --git '']"

definition symlink_line :: "str \<Rightarrow> bool" where
  "symlink_line line = contains_any line [''new file mode 120000'', ''old mode 120000'', ''new mode 120000'']"

definition header_paths :: "str \<Rightarrow> str list" where
  "header_paths line =
     (case strip_prefix line ''diff --git '' of
        Some remainder \<Rightarrow> take 2 (split_whitespace remainder)
      | None \<Rightarrow>
          let value = (case split_once (CHR '' '') line of None \<Rightarrow> [] | Some (_, v) \<Rightarrow> v);
              field = hd (split_on (CHR 0x09) value)
          in [case split_whitespace field of [] \<Rightarrow> [] | w # _ \<Rightarrow> w])"

definition strip_side :: "str \<Rightarrow> str" where
  "strip_side raw =
     unwrap_or (or_else (strip_prefix raw ''a/'') (strip_prefix raw ''b/'')) raw"

definition resolve_patch_path :: "files \<Rightarrow> str \<Rightarrow> str \<Rightarrow> tool_error + str" where
  "resolve_patch_path fs base path =
     (let full = path_join base path in
      if fs_exists fs full
      then (case fs_canonicalize fs full of Inl e \<Rightarrow> Inl (ToolIo e) | Inr p \<Rightarrow> Inr p)
      else (case fs_canonicalize fs (unwrap_or (path_parent full) base) of
              Inl e \<Rightarrow> Inl (ToolIo e)
            | Inr p \<Rightarrow> Inr (path_join p (unwrap_or (path_file_name full) []))))"

definition check_patch_path :: "files \<Rightarrow> str \<Rightarrow> str \<Rightarrow> tool_error + unit" where
  "check_patch_path fs base raw =
     (if raw = ''/dev/null'' then Inr ()
      else
        let path = strip_side raw in
        if path_is_absolute path \<or> has_parent_dir path then Inl (OutsideWorkspace path)
        else r_bind (resolve_patch_path fs base path) (\<lambda>resolved.
          if path_starts_with resolved base then Inr () else Inl (OutsideWorkspace path)))"

definition validate_patch_paths :: "files \<Rightarrow> str \<Rightarrow> str \<Rightarrow> tool_error + unit" where
  "validate_patch_paths fs patch base =
     (if list_ex symlink_line (lines patch)
      then Inl (OutsideWorkspace ''symlink patches are not allowed'')
      else r_map (\<lambda>_. ())
        (r_mapm (check_patch_path fs base) (concat (map header_paths (filter patch_header (lines patch))))))"


section \<open>Captured output\<close>

definition cap_text :: "str \<Rightarrow> usize \<Rightarrow> str \<times> bool" where
  "cap_text bytes cap =
     (if length bytes \<le> cap then (from_utf8_lossy bytes, False)
      else (from_utf8_lossy (take cap bytes) @ TRUNCATION_MARKER, True))"

text \<open>A reader gives one chunk per call, an error, or an empty chunk at its end.\<close>

fun read_capped :: "usize \<Rightarrow> (str + str) list \<Rightarrow> str \<Rightarrow> bool \<Rightarrow> str + str \<times> bool" where
  "read_capped cap [] acc truncated = Inr (acc, truncated)"
| "read_capped cap (Inl e # rs) acc truncated = Inl e"
| "read_capped cap (Inr chunk # rs) acc truncated =
     (if chunk = [] then Inr (acc, truncated)
      else
        let remaining = cap - length acc in
        read_capped cap rs (acc @ take (min (length chunk) remaining) chunk)
          (truncated \<or> remaining < length chunk))"

definition read_capped_stream :: "(str + str) list \<Rightarrow> usize \<Rightarrow> str + str \<times> bool" where
  "read_capped_stream reads cap = read_capped cap reads [] False"

section \<open>Lemmas\<close>

lemma never_allowed_dangerous: "is_never_allowed_command argv \<Longrightarrow> is_dangerous_command argv"
  unfolding is_never_allowed_command_def is_dangerous_command_def DENIED_PROGRAMS_def Let_def by auto

lemma command_approval_reason_Some:
  "argv \<noteq> [] \<Longrightarrow> (\<exists>reason. command_approval_reason argv = Inr (Some reason)) \<longleftrightarrow>
     is_dangerous_command argv \<and> \<not> is_never_allowed_command argv"
  by (simp add: command_approval_reason_def)

lemma exec_gate_writer:
  "argv \<noteq> [] \<Longrightarrow> \<not> te_read_only ex \<Longrightarrow> exec_gate fs ex argv = Inr () \<longleftrightarrow>
     \<not> is_never_allowed_command argv \<and> (te_allow_destructive ex \<or> \<not> is_dangerous_command argv)"
  by (simp add: exec_gate_def)

lemma exec_gate_reader:
  "te_read_only ex \<Longrightarrow> exec_gate fs ex argv = Inr () \<longleftrightarrow>
     argv \<noteq> [] \<and> is_read_only_command argv \<and> validate_read_only_argv fs (te_root ex) argv = Inr () \<and>
     \<not> is_never_allowed_command argv \<and> (te_allow_destructive ex \<or> \<not> is_dangerous_command argv)"
  by (auto simp: exec_gate_def r_bind_Inr)

definition argument_inside :: "files \<Rightarrow> str \<Rightarrow> str \<Rightarrow> bool" where
  "argument_inside fs base a \<longleftrightarrow>
     (let value = argument_value a; candidate = candidate_path base value
      in is_option value \<or>
         \<not> has_parent_dir value \<and>
         (fs_exists fs candidate \<longrightarrow>
            (\<exists>c. fs_canonicalize fs candidate = Inr c \<and> path_starts_with c base)) \<and>
         (path_is_absolute value \<longrightarrow> fs_exists fs candidate))"

lemma validate_argument_Inr: "validate_argument fs base a = Inr u \<longleftrightarrow> argument_inside fs base a"
  by (auto simp: validate_argument_def argument_inside_def Let_def split: if_splits sum.splits)

lemma r_mapm_unit: "r_map (\<lambda>_. ()) (r_mapm f xs) = Inr () \<longleftrightarrow> (\<forall>x \<in> set xs. is_ok (f x))"
  using r_mapm_is_ok[of f xs] by (auto simp: r_map_Inr is_ok_iff)

lemma validate_read_only_argv_Inr:
  "validate_read_only_argv fs base argv = Inr () \<Longrightarrow> \<forall>a \<in> set (drop 1 argv). argument_inside fs base a"
  unfolding validate_read_only_argv_def
  by (auto split: option.splits if_splits simp: r_mapm_unit is_ok_iff validate_argument_Inr)


lemma take_min: "take (min (length xs) n) xs = take n xs"
  by (metis min.cobounded2 nat_le_linear take_all min_absorb1 min_absorb2)

text \<open>A capped reader keeps a prefix of everything read, and says whether it dropped any.\<close>

lemma read_capped_chunks:
  assumes "\<forall>c \<in> set chunks. c \<noteq> []" and "length acc \<le> cap"
  shows "read_capped cap (map Inr chunks) acc t =
    Inr (take cap (acc @ concat chunks), t \<or> cap < length (acc @ concat chunks))"
  using assms
proof (induction chunks arbitrary: acc t)
  case Nil
  then show ?case by simp
next
  case (Cons c cs)
  let ?acc = "acc @ take (cap - length acc) c"
  have len: "length ?acc \<le> cap" using Cons.prems(2) by simp
  have IH: "read_capped cap (map Inr cs) ?acc t' =
      Inr (take cap (?acc @ concat cs), t' \<or> cap < length (?acc @ concat cs))" for t'
    using Cons.IH[OF _ len] Cons.prems(1) by simp
  have "take cap (?acc @ concat cs) = take cap (acc @ c @ concat cs)"
    using Cons.prems(2) by (cases "length c \<le> cap - length acc") auto
  moreover have "(cap - length acc < length c \<or> cap < length (?acc @ concat cs)) \<longleftrightarrow>
      cap < length (acc @ c @ concat cs)"
    using Cons.prems(2) by auto
  ultimately show ?case
    using Cons.prems(1) IH[of "t \<or> cap - length acc < length c"]
    by (auto simp: Let_def take_min)
qed

lemma split_ws_words:
  "w \<in> set (split_ws gs cur) \<Longrightarrow> w \<noteq> [] \<or> [] \<in> set gs"
  "w \<in> set (split_ws gs cur) \<Longrightarrow> set w \<subseteq> set cur \<union> set (concat gs)"
  by (induction gs cur rule: split_ws.induct) (force split: if_splits)+

lemma split_whitespace_subset: "w \<in> set (split_whitespace s) \<Longrightarrow> set w \<subseteq> set s"
  using split_ws_words(2)[of w "chars s" "[]"] by (simp add: split_whitespace_def)

lemma list_ex_subset: "list_ex P xs \<Longrightarrow> set xs \<subseteq> set ys \<Longrightarrow> list_ex P ys"
  by (auto simp: list_ex_iff)

lemma contains_shell_syntax_mono: "contains_shell_syntax w \<Longrightarrow> set w \<subseteq> set s \<Longrightarrow> contains_shell_syntax s"
  unfolding contains_shell_syntax_def by (rule list_ex_subset)

lemma terminal_line_argv_Some:
  assumes "terminal_line_argv line = Inr (Some argv)"
  shows "argv = split_whitespace (trim line)" and "length argv \<le> 64" and "length (trim line) \<le> 4 * 1024"
    and "\<forall>w \<in> set argv. \<not> contains_shell_syntax w"
proof -
  from assms have ns: "\<not> contains_shell_syntax (trim line)" and argv: "argv = split_whitespace (trim line)"
    and len: "length argv \<le> 64" and bytes: "length (trim line) \<le> 4 * 1024"
    by (auto simp: terminal_line_argv_def Let_def split: if_splits)
  show "argv = split_whitespace (trim line)" "length argv \<le> 64" "length (trim line) \<le> 4 * 1024"
    by (fact argv len bytes)+
  show "\<forall>w \<in> set argv. \<not> contains_shell_syntax w"
    using ns contains_shell_syntax_mono split_whitespace_subset unfolding argv by metis
qed

lemma validate_terminal_line_Inr:
  assumes "validate_terminal_line fs base line read_only allow = Inr ()"
  obtains argv where "terminal_line_argv line = Inr (Some argv)" and "\<not> terminal_path_escape argv"
    and "\<not> is_privileged_terminal_command argv" and "\<forall>w \<in> set argv. \<not> looks_like_credential w"
    and "is_just_argv argv \<and> \<not> read_only \<and> allow \<or>
         \<not> is_just_argv argv \<and>
         (read_only \<longrightarrow> is_read_only_command argv \<and> validate_read_only_argv fs base argv = Inr ()) \<and>
         \<not> is_never_allowed_command argv \<and> (allow \<or> \<not> is_dangerous_command argv)"
proof -
  from assms obtain argv where line: "terminal_line_argv line = Inr (Some argv)"
    unfolding validate_terminal_line_def by (auto split: sum.splits option.splits)
  with assms show thesis
    unfolding validate_terminal_line_def
    by (intro that[OF line]) (auto simp: list_ex_iff split: if_splits sum.splits)
qed

section \<open>Properties\<close>

text \<open>C15: The question asked before a command runs and the check that stops it agree: for a role that may
  write, a reason for approval is given exactly when the command is refused without an approval and runs
  with one; and what is neither asked about nor refused always runs.\<close>

theorem approval_unlocks_exactly:
  assumes "argv \<noteq> []" and "\<not> te_read_only ex"
  shows "((\<exists>reason. command_approval_reason argv = Inr (Some reason)) \<longleftrightarrow>
      exec_gate fs (ex\<lparr>te_allow_destructive := False\<rparr>) argv = Inl (CommandDenied (join '' '' argv)) \<and>
      exec_gate fs (ex\<lparr>te_allow_destructive := True\<rparr>) argv = Inr ()) \<and>
    (exec_gate fs (ex\<lparr>te_allow_destructive := False\<rparr>) argv = Inr () \<longleftrightarrow>
      command_approval_reason argv = Inr None \<and> \<not> is_never_allowed_command argv)"
  using assms never_allowed_dangerous[of argv]
  by (auto simp: command_approval_reason_def exec_gate_def)

theorem approval_unlocks_exactly_witness:
  "\<exists>fs :: files. exec_gate fs \<lparr>te_root = ''/w'', te_read_only = False, te_allow_destructive = True\<rparr> [''rm'', ''x''] = Inr ()"
proof -
  let ?fs = "\<lparr>fs_exists = (\<lambda>_. False), fs_canonicalize = Inr\<rparr> :: files"
  let ?ex = "\<lparr>te_root = ''/w'', te_read_only = False, te_allow_destructive = False\<rparr>"
  have "is_dangerous_command [''rm'', ''x'']" and "\<not> is_never_allowed_command [''rm'', ''x'']" by code_simp+
  then have "\<exists>reason. command_approval_reason [''rm'', ''x''] = Inr (Some reason)"
    by (simp add: command_approval_reason_Some)
  then have "exec_gate ?fs (?ex\<lparr>te_allow_destructive := True\<rparr>) [''rm'', ''x''] = Inr ()"
    using approval_unlocks_exactly [of "[''rm'', ''x'']" ?ex ?fs] by simp
  then show ?thesis by (intro exI[of _ ?fs]) simp
qed

lemma validate_read_only_argv_options:
  assumes "validate_read_only_argv fs base argv = Inr ()" and "a \<in> set (tl argv)"
  shows "program_of argv = Some ''git'' \<Longrightarrow> \<not> unsafe_git_option a"
    and "program_of argv = Some ''rg'' \<Longrightarrow> \<not> unsafe_rg_option a"
  using assms by (auto simp: validate_read_only_argv_def drop_Suc list_ex_iff split: if_splits)

lemma read_only_command_listed:
  assumes "is_read_only_command argv"
  shows "\<exists>p. program_of argv = Some p \<and>
    p \<in> {''git'', ''cargo'', ''npm'', ''pnpm'', ''yarn'', ''go'', ''pytest'', ''ruff'', ''cat'', ''head'', ''tail'', ''ls'',
         ''pwd'', ''rg'', ''printf'', ''echo''} \<and>
    (p = ''git'' \<longrightarrow> tl argv \<noteq> [] \<and>
       hd (tl argv) \<in> {''status'', ''diff'', ''show'', ''log'', ''rev-parse'', ''ls-files'', ''grep''}) \<and>
    (p = ''cargo'' \<longrightarrow> tl argv \<noteq> [] \<and>
       (hd (tl argv) \<in> {''check'', ''test'', ''clippy'', ''metadata''} \<or>
        hd (tl argv) = ''fmt'' \<and> ''--check'' \<in> set argv)) \<and>
    (p \<in> {''npm'', ''pnpm'', ''yarn'', ''go''} \<longrightarrow> tl argv \<noteq> [] \<and> hd (tl argv) = ''test'')"
proof -
  from assms obtain p where p: "program_of argv = Some p" by (auto simp: is_read_only_command_def split: option.splits)
  show ?thesis
    using assms unfolding is_read_only_command_def p Let_def
    by (intro exI[of _ p]) (auto split: list.splits if_splits)
qed

text \<open>C14: What a read-only role may run. The file name of the program is on the list and so is the
  subcommand of git, cargo, npm, pnpm, yarn and go; git and rg carry none of the options that redirect
  them, write a file or start another program, in the spelling the code refuses; without an approval it is not a
  dangerous command. Of every argument the part after its first \<open>=\<close> counts, or all of it without one.
  When that part is empty or starts with \<open>-\<close> it is taken for an option and not looked at. Otherwise it
  has no \<open>..\<close>; if it exists as a path it resolves below the workspace, and an absolute one exists. The
  directory of the program is not looked at either, nor the value in a short option like \<open>-Ofile\<close>.\<close>

theorem read_only_exec_stays_inside:
  assumes "exec_gate fs ex argv = Inr ()" and "te_read_only ex"
  shows "(\<exists>p. program_of argv = Some p \<and>
      p \<in> {''git'', ''cargo'', ''npm'', ''pnpm'', ''yarn'', ''go'', ''pytest'', ''ruff'', ''cat'', ''head'', ''tail'', ''ls'',
           ''pwd'', ''rg'', ''printf'', ''echo''} \<and>
      (p = ''git'' \<longrightarrow> tl argv \<noteq> [] \<and>
         hd (tl argv) \<in> {''status'', ''diff'', ''show'', ''log'', ''rev-parse'', ''ls-files'', ''grep''}) \<and>
      (p = ''cargo'' \<longrightarrow> tl argv \<noteq> [] \<and>
         (hd (tl argv) \<in> {''check'', ''test'', ''clippy'', ''metadata''} \<or>
          hd (tl argv) = ''fmt'' \<and> ''--check'' \<in> set argv)) \<and>
      (p \<in> {''npm'', ''pnpm'', ''yarn'', ''go''} \<longrightarrow> tl argv \<noteq> [] \<and> hd (tl argv) = ''test'')) \<and>
    (program_of argv = Some ''git'' \<longrightarrow> (\<forall>a \<in> set (tl argv).
       a \<notin> {''-C'', ''--git-dir'', ''--work-tree'', ''--namespace'', ''--config-env'', ''--exec-path'',
             ''--output'', ''--ext-diff'', ''--textconv'', ''--open-files-in-pager''} \<and>
       (\<forall>opt \<in> {''--git-dir'', ''--work-tree'', ''--namespace'', ''--config-env'', ''--exec-path'', ''--output'',
               ''--open-files-in-pager''}. \<not> starts_with a (opt @ ''='')))) \<and>
    (program_of argv = Some ''rg'' \<longrightarrow> (\<forall>a \<in> set (tl argv).
       a \<notin> {''--pre'', ''--hostname-bin'', ''--search-zip'', ''-z''} \<and>
       (\<forall>opt \<in> {''--pre'', ''--hostname-bin''}. \<not> starts_with a (opt @ ''='')))) \<and>
    is_read_only_command argv \<and> \<not> is_never_allowed_command argv \<and>
    (is_dangerous_command argv \<longrightarrow> te_allow_destructive ex) \<and>
    (\<forall>a \<in> set (tl argv). \<not> is_option (argument_value a) \<longrightarrow>
       \<not> has_parent_dir (argument_value a) \<and>
       (fs_exists fs (candidate_path (te_root ex) (argument_value a)) \<longrightarrow>
          (\<exists>c. fs_canonicalize fs (candidate_path (te_root ex) (argument_value a)) = Inr c \<and>
               path_starts_with c (te_root ex))) \<and>
       (path_is_absolute (argument_value a) \<longrightarrow>
          fs_exists fs (candidate_path (te_root ex) (argument_value a))))"
proof -
  from assms have gate: "is_read_only_command argv" "validate_read_only_argv fs (te_root ex) argv = Inr ()"
    "\<not> is_never_allowed_command argv" "te_allow_destructive ex \<or> \<not> is_dangerous_command argv"
    by (simp_all add: exec_gate_reader)
  note options = validate_read_only_argv_options[OF gate(2)]
  show ?thesis
  proof (intro conjI)
    show "program_of argv = Some ''git'' \<longrightarrow> (\<forall>a \<in> set (tl argv).
       a \<notin> {''-C'', ''--git-dir'', ''--work-tree'', ''--namespace'', ''--config-env'', ''--exec-path'',
             ''--output'', ''--ext-diff'', ''--textconv'', ''--open-files-in-pager''} \<and>
       (\<forall>opt \<in> {''--git-dir'', ''--work-tree'', ''--namespace'', ''--config-env'', ''--exec-path'', ''--output'',
               ''--open-files-in-pager''}. \<not> starts_with a (opt @ ''='')))"
      using options(1) by (simp add: unsafe_git_option_def starts_with_any_def)
    show "program_of argv = Some ''rg'' \<longrightarrow> (\<forall>a \<in> set (tl argv).
       a \<notin> {''--pre'', ''--hostname-bin'', ''--search-zip'', ''-z''} \<and>
       (\<forall>opt \<in> {''--pre'', ''--hostname-bin''}. \<not> starts_with a (opt @ ''='')))"
      using options(2) by (simp add: unsafe_rg_option_def starts_with_any_def)
    show "\<forall>a \<in> set (tl argv). \<not> is_option (argument_value a) \<longrightarrow>
       \<not> has_parent_dir (argument_value a) \<and>
       (fs_exists fs (candidate_path (te_root ex) (argument_value a)) \<longrightarrow>
          (\<exists>c. fs_canonicalize fs (candidate_path (te_root ex) (argument_value a)) = Inr c \<and>
               path_starts_with c (te_root ex))) \<and>
       (path_is_absolute (argument_value a) \<longrightarrow>
          fs_exists fs (candidate_path (te_root ex) (argument_value a)))"
      using validate_read_only_argv_Inr[OF gate(2)]
      by (simp add: argument_inside_def Let_def drop_Suc) blast
    show "is_dangerous_command argv \<longrightarrow> te_allow_destructive ex" using gate(4) by blast
  qed (rule read_only_command_listed[OF gate(1)] gate(1) gate(3))+
qed

theorem read_only_exec_stays_inside_witness:
  "\<exists>(fs :: files) ex argv. exec_gate fs ex argv = Inr () \<and> te_read_only ex \<and> length argv = 2 \<and>
     is_read_only_command argv \<and> \<not> has_parent_dir (argument_value (argv ! 1))"
proof -
  let ?fs = "\<lparr>fs_exists = (\<lambda>p. p = ''/w/a''), fs_canonicalize = Inr\<rparr> :: files"
  let ?ex = "\<lparr>te_root = ''/w'', te_read_only = True, te_allow_destructive = False\<rparr>"
  have "exec_gate ?fs ?ex [''cat'', ''a''] = Inr ()" by code_simp
  from read_only_exec_stays_inside [OF this] have "is_read_only_command [''cat'', ''a'']" by simp
  moreover have "\<not> has_parent_dir (argument_value ([''cat'', ''a''] ! 1))" by code_simp
  ultimately show ?thesis using \<open>exec_gate ?fs ?ex [''cat'', ''a''] = Inr ()\<close>
    by (intro exI[of _ ?fs] exI[of _ ?ex] exI[of _ "[''cat'', ''a'']"]) simp
qed

text \<open>C25: A line the terminal accepts is made of words without shell syntax, none of which leaves the
  workspace by its form, does not start with a privileged program, and apart from an approved Just recipe
  its words are a command \<open>exec\<close> accepts under the same policy.\<close>

theorem terminal_lines_obey_exec_policy:
  assumes "validate_terminal_line fs base line read_only allow = Inr ()"
  shows "\<exists>argv. terminal_line_argv line = Inr (Some argv) \<and> argv \<noteq> [] \<and> length argv \<le> 64 \<and>
    (\<forall>w \<in> set argv. \<not> contains_shell_syntax w \<and> \<not> looks_like_credential w) \<and>
    (\<forall>w \<in> set (tl argv). \<not> path_is_absolute w \<and> \<not> has_parent_dir w) \<and>
    \<not> is_privileged_terminal_command argv \<and>
    (is_just_argv argv \<and> \<not> read_only \<and> allow \<or>
     exec_gate fs \<lparr>te_root = base, te_read_only = read_only, te_allow_destructive = allow\<rparr> argv = Inr ())"
proof -
  from assms obtain argv where line: "terminal_line_argv line = Inr (Some argv)"
    and esc: "\<not> terminal_path_escape argv" and priv: "\<not> is_privileged_terminal_command argv"
    and cred: "\<forall>w \<in> set argv. \<not> looks_like_credential w"
    and pol: "is_just_argv argv \<and> \<not> read_only \<and> allow \<or>
         \<not> is_just_argv argv \<and>
         (read_only \<longrightarrow> is_read_only_command argv \<and> validate_read_only_argv fs base argv = Inr ()) \<and>
         \<not> is_never_allowed_command argv \<and> (allow \<or> \<not> is_dangerous_command argv)"
    by (rule validate_terminal_line_Inr)
  from esc have ne: "argv \<noteq> []" and inside: "\<forall>w \<in> set (tl argv). \<not> escaping_argument w"
    by (auto simp: terminal_path_escape_def program_of_def list_ex_iff drop_Suc split: option.splits)
  have "is_just_argv argv \<and> \<not> read_only \<and> allow \<or>
      exec_gate fs \<lparr>te_root = base, te_read_only = read_only, te_allow_destructive = allow\<rparr> argv = Inr ()"
    using pol ne by (cases read_only) (auto simp: exec_gate_def)
  with ne inside priv cred terminal_line_argv_Some[OF line] line show ?thesis
    by (intro exI[of _ argv]) (auto simp: escaping_argument_def)
qed

theorem terminal_lines_obey_exec_policy_witness:
  "\<exists>(fs :: files) argv. terminal_line_argv ''cargo check'' = Inr (Some argv) \<and> length argv \<le> 64 \<and>
     validate_terminal_line fs ''/w'' ''cargo check'' True False = Inr ()"
proof -
  let ?fs = "\<lparr>fs_exists = (\<lambda>_. False), fs_canonicalize = Inr\<rparr> :: files"
  have v: "validate_terminal_line ?fs ''/w'' ''cargo check'' True False = Inr ()" by code_simp
  from terminal_lines_obey_exec_policy [OF v] show ?thesis using v by blast
qed

text \<open>The checks of a command look at the form of its first word and at the known options only, so they
  miss: in a terminal line an assignment or \<open>command\<close> before the program, which hides a privileged or
  destructive program; for a read-only role the short form \<open>-O\<close> of an option refused in its long form,
  and a program outside the workspace with an allowed file name.\<close>

theorem command_policy_has_gaps:
  fixes fs :: files
  defines "fs \<equiv> \<lparr>fs_exists = (\<lambda>p. p \<noteq> ''/w/grep''), fs_canonicalize = Inr\<rparr>"
  defines "writer \<equiv> \<lparr>te_root = ''/w'', te_read_only = False, te_allow_destructive = False\<rparr>"
  defines "reader \<equiv> \<lparr>te_root = ''/w'', te_read_only = True, te_allow_destructive = False\<rparr>"
  shows "validate_terminal_line fs ''/w'' ''X=1 sudo rm -rf src'' False False = Inr () \<and>
    validate_terminal_line fs ''/w'' ''command rm -rf src'' False False = Inr () \<and>
    exec_gate fs writer [''rm'', ''-rf'', ''src''] = Inl (CommandDenied ''rm -rf src'') \<and>
    exec_gate fs reader [''git'', ''grep'', ''-O./evil'', ''-e''] = Inr () \<and>
    exec_gate fs reader [''git'', ''grep'', ''--open-files-in-pager=./evil''] =
      Inl (CommandDenied ''git grep --open-files-in-pager=./evil'') \<and>
    exec_gate fs reader [''/tmp/evil/ls''] = Inr ()"
  unfolding fs_def writer_def reader_def by (intro conjI) code_simp+



text \<open>The check of a patch stops at the first white space of a header: a path whose first word is
  harmless is accepted whatever follows, although the same path without the space is refused.\<close>

theorem patch_check_stops_at_a_space:
  fixes fs :: files
  defines "fs \<equiv> \<lparr>fs_exists = (\<lambda>_. False), fs_canonicalize = Inr\<rparr>"
  shows "validate_patch_paths fs ''+++ b/x /../../outside'' ''/w'' = Inr () \<and>
    validate_patch_paths fs ''+++ b/x/../../outside'' ''/w'' = Inl (OutsideWorkspace ''x/../../outside'') \<and>
    header_paths ''+++ b/x /../../outside'' = [''b/x'']"
  unfolding fs_def by (intro conjI) code_simp+

text \<open>What is kept of the output of a command does not depend on how it arrives: the first \<open>cap\<close> bytes,
  and the mark of truncation exactly when there were more.\<close>

theorem captured_output_ignores_chunking:
  assumes "\<forall>c \<in> set chunks. c \<noteq> []"
  shows "read_capped_stream (map Inr chunks @ [Inr []]) cap =
      Inr (take cap (concat chunks), cap < length (concat chunks)) \<and>
    cap_text (take cap (concat chunks)) cap = (from_utf8_lossy (take cap (concat chunks)), False)"
proof -
  have "read_capped cap (map Inr chunks @ [Inr []]) acc t = read_capped cap (map Inr chunks) acc t" for acc t
    by (induction chunks arbitrary: acc t) (auto simp: Let_def)
  then show ?thesis
    using read_capped_chunks[OF assms, of "[]" cap False]
    by (simp add: read_capped_stream_def cap_text_def)
qed

theorem captured_output_ignores_chunking_witness:
  "read_capped_stream [Inr ''ab'', Inr ''cd'', Inr []] 3 = Inr (''abc'', True)"
  using captured_output_ignores_chunking [of "[''ab'', ''cd'']" 3] by simp

end
