(* ===== verification/Terminal.thy ===== *)
theory Terminal
  imports Exec_Policy
begin

text \<open>
  Interactive terminals of agents (\<open>crates/minha-core/src/terminal.rs\<close>): what may be started, the batch
  of lines with its waits, prompts and expectations, the bounded ring of raw output and the redaction of
  what is shown. The pseudo-terminal is an argument: \<open>screen\<close> gives the contents of the screen after what
  was done so far, \<open>io\<close> whether a write fails.
\<close>

definition TERMINAL_SCHEMA_VERSION :: u16 where "TERMINAL_SCHEMA_VERSION = 1"
definition TERMINAL_RAW_RING_CAP :: usize where "TERMINAL_RAW_RING_CAP = 64 * 1024"
definition TERMINAL_BATCH_STEP_CAP :: usize where "TERMINAL_BATCH_STEP_CAP = 8"
definition TERMINAL_SCREEN_CAP :: usize where "TERMINAL_SCREEN_CAP = 64 * 1024"
definition TERMINAL_BATCH_WAIT_CAP_MS :: u64 where "TERMINAL_BATCH_WAIT_CAP_MS = 60000"

section \<open>Arguments\<close>

definition required_str :: "json \<Rightarrow> str \<Rightarrow> terminal_error + str" where
  "required_str args key =
     (case map_option trim (get_str args key) of
        None \<Rightarrow> Inl (TerminalInvalid (key @ '' is required''))
      | Some value \<Rightarrow> if value = [] then Inl (TerminalInvalid (key @ '' is required'')) else Inr value)"

definition argv_item :: "str \<Rightarrow> json \<Rightarrow> terminal_error + str" where
  "argv_item name item =
     (case as_str item of
        None \<Rightarrow> Inl (TerminalInvalid (name @ '' must contain non-empty strings''))
      | Some s \<Rightarrow> if s = [] then Inl (TerminalInvalid (name @ '' must contain non-empty strings'')) else Inr s)"

definition terminal_string_array :: "json option \<Rightarrow> str \<Rightarrow> terminal_error + str list" where
  "terminal_string_array value name =
     r_bind (ok_or (Option.bind value as_array) (TerminalInvalid (name @ '' must be an array'')))
       (r_mapm (argv_item name))"

definition bounded_dimension :: "json option \<Rightarrow> u16 \<Rightarrow> str \<Rightarrow> terminal_error + u16" where
  "bounded_dimension value dflt name =
     (let raw = unwrap_or (Option.bind value as_u64) dflt in
      if \<not> (4 \<le> raw \<and> raw \<le> 400) then Inl (TerminalInvalid (name @ '' must be between 4 and 400''))
      else Inr raw)"

section \<open>Shells\<close>

definition is_shell_program :: "str \<Rightarrow> bool" where
  "is_shell_program program =
     (case path_file_name program of None \<Rightarrow> False
      | Some p \<Rightarrow> p \<in> {''sh'', ''bash'', ''zsh'', ''fish'', ''dash'', ''ksh'', ''pwsh'', ''powershell'', ''cmd''})"

definition safe_shell_argv :: "str list \<Rightarrow> terminal_error + str list" where
  "safe_shell_argv argv =
     (case path_file_name (hd argv) of
        None \<Rightarrow> Inl (TerminalInvalid ''terminal shell program is invalid'')
      | Some p \<Rightarrow>
          if p = ''bash'' then Inr [hd argv, ''--noprofile'', ''--norc'']
          else if p = ''zsh'' then Inr [hd argv, ''-f'']
          else if p \<in> {''sh'', ''dash'', ''ksh''} then Inr [hd argv]
          else Inl (TerminalDenied ''interactive terminal supports sh, bash, zsh, dash, or ksh only; use argv for a non-shell program''))"

section \<open>Secrets\<close>

definition sensitive_prompt :: "str \<Rightarrow> bool" where
  "sensitive_prompt s = contains_any (to_ascii_lowercase s)
     [''password'', ''passphrase'', ''api key'', ''access token'', ''credential'', ''one-time code'',
      ''verification code'', ''sudo'', ''administrator password'']"

definition looks_like_secret :: "str \<Rightarrow> bool" where
  "looks_like_secret value =
     (let lower = to_ascii_lowercase value in
      contains lower ''api_key='' \<or> contains lower ''token='' \<or> starts_with lower ''sk-'' \<or>
      starts_with lower ''tp-'' \<or> contains lower ''password='')"

definition redact_argv_value :: "str \<Rightarrow> str" where
  "redact_argv_value value = (if looks_like_secret value then ''[redacted]'' else value)"

definition redact_screen_line :: "str \<Rightarrow> str" where
  "redact_screen_line line =
     (if contains_any (to_ascii_lowercase line) [''password'', ''passphrase'', ''api key'', ''access token'']
      then ''[sensitive terminal prompt redacted]'' else line)"

definition redact_terminal_text :: "str \<Rightarrow> str" where
  "redact_terminal_text s = join [CHR 0x0A] (map redact_screen_line (lines s))"

section \<open>Bounds\<close>

definition append_ring :: "str \<Rightarrow> str \<Rightarrow> usize \<Rightarrow> str" where
  "append_ring ring bytes cap =
     (if cap \<le> length bytes then drop (length bytes - cap) bytes
      else drop (length ring + length bytes - cap) ring @ bytes)"

text \<open>The largest character boundary at or below a position.\<close>

fun boundary_below :: "str \<Rightarrow> nat \<Rightarrow> nat" where
  "boundary_below s 0 = 0"
| "boundary_below s (Suc n) = (if is_char_boundary s (Suc n) then Suc n else boundary_below s n)"

definition cap_utf8 :: "str \<Rightarrow> usize \<Rightarrow> str \<times> bool" where
  "cap_utf8 s cap =
     (if length s \<le> cap then (s, False)
      else (take (boundary_below s cap) s @ CHR 0x0A # ''[terminal screen truncated]'', True))"

section \<open>Starting\<close>

record start_plan =
  sp_argv :: "str list"
  sp_cwd :: str
  sp_rows :: u16
  sp_cols :: u16

definition resolve_cwd :: "files \<Rightarrow> (str \<Rightarrow> bool) \<Rightarrow> str \<Rightarrow> str option \<Rightarrow> terminal_error + str" where
  "resolve_cwd fs is_dir base requested =
     (case fs_canonicalize fs (case requested of None \<Rightarrow> base | Some v \<Rightarrow> path_join base v) of
        Inl e \<Rightarrow> Inl (TerminalIo e)
      | Inr canonical \<Rightarrow>
          if \<not> path_starts_with canonical base \<or> \<not> is_dir canonical
          then Inl (TerminalDenied ''terminal cwd is outside the workspace'')
          else Inr canonical)"

text \<open>The checks of \<open>start\<close> up to the opening of the terminal; \<open>validate\<close> is the executor's line check.\<close>

definition start_checks ::
    "files \<Rightarrow> (str \<Rightarrow> bool) \<Rightarrow> str \<Rightarrow> bool \<Rightarrow> (str \<Rightarrow> terminal_error + unit) \<Rightarrow> json \<Rightarrow> terminal_error + start_plan"
    where
  "start_checks fs is_dir base read_only validate args =
     r_bind (terminal_string_array (json_get args ''argv'') ''argv'') (\<lambda>argv.
       if argv = [] then Inl (TerminalInvalid ''argv must not be empty'')
       else if 64 < length argv \<or> 4 * 1024 < sum_list (map length argv)
       then Inl (TerminalInvalid ''terminal argv must contain at most 64 words and 4096 bytes'')
       else
         r_bind (resolve_cwd fs is_dir base (get_str args ''cwd'')) (\<lambda>cwd.
         r_bind (if is_shell_program (hd argv)
                 then (if read_only
                       then Inl (TerminalDenied ''read-only roles cannot start an interactive shell'')
                       else safe_shell_argv argv)
                 else r_map (\<lambda>_. argv) (validate (join '' '' argv))) (\<lambda>argv.
           if list_ex looks_like_secret argv
           then Inl (TerminalDenied ''terminal argv appears to include a credential; use a human-controlled prompt instead'')
           else
             r_bind (bounded_dimension (json_get args ''rows'') 24 ''rows'') (\<lambda>rows.
             r_bind (bounded_dimension (json_get args ''cols'') 80 ''cols'') (\<lambda>cols.
               Inr \<lparr>sp_argv = argv, sp_cwd = cwd, sp_rows = rows, sp_cols = cols\<rparr>)))))"

section \<open>Batches\<close>

datatype pty_event = Wrote str | Slept u64

datatype batch_end = Finished | NeedsHuman str

definition human_question :: str where
  "human_question = ''terminal is asking for a credential or privilege response; a human must take over''"

text \<open>
  What the loop over the steps asks its surroundings: the executor's line check, the contents of the
  screen after what was done, whether writing fails then, and the \<open>Debug\<close> form of a string.
\<close>

record pty =
  pty_validate :: "str \<Rightarrow> terminal_error + unit"
  pty_screen :: "pty_event list \<Rightarrow> str"
  pty_io :: "pty_event list \<Rightarrow> str option"
  pty_debug :: "str \<Rightarrow> str"
  pty_session :: "str \<Rightarrow> terminal_error + unit"

definition step_line :: "json \<Rightarrow> str" where
  "step_line step = unwrap_or (get_str step ''line'') []"

definition step_wait :: "json \<Rightarrow> u64" where
  "step_wait step = min (unwrap_or (get_u64 step ''wait_ms'') 0) 30000"

definition step_events :: "json \<Rightarrow> pty_event list" where
  "step_events step =
     (if step_line step = [] then [] else [Wrote (step_line step)]) @
     (if 0 < step_wait step then [Slept (step_wait step)] else [])"

text \<open>The loop: its result, and everything that was done to the terminal, the oldest first.\<close>

fun batch_steps ::
    "pty \<Rightarrow> json list \<Rightarrow> u64 \<Rightarrow> pty_event list \<Rightarrow> (terminal_error + batch_end) \<times> pty_event list" where
  "batch_steps t [] waited acts = (Inr Finished, acts)"
| "batch_steps t (step # steps) waited acts =
     (let line = step_line step; waited = sat_add waited (step_wait step)
      in if TERMINAL_BATCH_WAIT_CAP_MS < waited
         then (Inl (TerminalInvalid (''terminal batch waits may total at most '' @
                 show_nat TERMINAL_BATCH_WAIT_CAP_MS @ ''ms'')), acts)
         else if line \<noteq> [] \<and> (CHR 0x0A \<in> set line \<or> CHR 0x0D \<in> set line)
         then (Inl (TerminalInvalid ''each terminal batch line must contain exactly one command line''), acts)
         else
           (case (if line = [] then Inr () else pty_validate t line) of
              Inl e \<Rightarrow> (Inl e, acts)
            | Inr _ \<Rightarrow>
                (case pty_io t acts of
                   Some e \<Rightarrow> (Inl (TerminalIo e), acts)
                 | None \<Rightarrow>
                     let acts = acts @ step_events step in
                     if sensitive_prompt (pty_screen t acts) then (Inr (NeedsHuman human_question), acts)
                     else
                       (case get_str step ''expect'' of
                          Some expected \<Rightarrow>
                            if \<not> contains (pty_screen t acts) expected
                            then (Inl (TerminalInvalid
                                    (''terminal batch expectation was not observed: '' @ pty_debug t expected)), acts)
                            else batch_steps t steps waited acts
                        | None \<Rightarrow> batch_steps t steps waited acts))))"

definition batch_run :: "pty \<Rightarrow> json \<Rightarrow> (terminal_error + batch_end) \<times> pty_event list" where
  "batch_run t args =
     (case required_str args ''session'' of Inl e \<Rightarrow> (Inl e, [])
      | Inr sid \<Rightarrow>
          (case get_array args ''steps'' of
             None \<Rightarrow> (Inl (TerminalInvalid ''steps must be an array''), [])
           | Some steps \<Rightarrow>
               if steps = [] \<or> TERMINAL_BATCH_STEP_CAP < length steps
               then (Inl (TerminalInvalid (''steps must contain 1..='' @ show_nat TERMINAL_BATCH_STEP_CAP @ '' entries'')), [])
               else
                 (case pty_session t sid of Inl e \<Rightarrow> (Inl e, [])
                  | Inr _ \<Rightarrow>
                      if sensitive_prompt (pty_screen t []) then (Inr (NeedsHuman human_question), [])
                      else batch_steps t steps 0 [])))"

section \<open>Properties of batches\<close>

fun slept :: "pty_event \<Rightarrow> nat" where
  "slept (Slept n) = n"
| "slept (Wrote _) = 0"

text \<open>Before each line that was written, the screen as last seen asked for no secret.\<close>

definition gated :: "pty \<Rightarrow> pty_event list \<Rightarrow> bool" where
  "gated t acts \<longleftrightarrow>
     (\<forall>i line. i < length acts \<and> acts ! i = Wrote line \<longrightarrow>
        pty_validate t line = Inr () \<and> CHR 0x0A \<notin> set line \<and> CHR 0x0D \<notin> set line \<and>
        \<not> sensitive_prompt (pty_screen t (take i acts)))"

lemma sum_slept_step: "sum_list (map slept (step_events step)) = step_wait step"
  by (simp add: step_events_def)

lemma gated_step:
  assumes "gated t acts" and "\<not> sensitive_prompt (pty_screen t acts)"
    and "step_line step = [] \<or> pty_validate t (step_line step) = Inr () \<and>
         CHR 0x0A \<notin> set (step_line step) \<and> CHR 0x0D \<notin> set (step_line step)"
  shows "gated t (acts @ step_events step)"
  unfolding gated_def
proof (intro allI impI, elim conjE)
  fix i line assume i: "i < length (acts @ step_events step)" and w: "(acts @ step_events step) ! i = Wrote line"
  show "pty_validate t line = Inr () \<and> CHR 0x0A \<notin> set line \<and> CHR 0x0D \<notin> set line \<and>
      \<not> sensitive_prompt (pty_screen t (take i (acts @ step_events step)))"
  proof (cases "i < length acts")
    case True
    with assms(1) w show ?thesis by (simp add: gated_def nth_append)
  next
    case False
    with i w have "i = length acts \<and> line = step_line step \<and> step_line step \<noteq> []"
      by (auto simp: step_events_def nth_append nth_Cons less_Suc_eq split: if_splits)
    with assms(2,3) show ?thesis by simp
  qed
qed

lemma batch_steps_gated:
  assumes "batch_steps t steps waited acts = (res, acts')" and "gated t acts"
    and "\<not> sensitive_prompt (pty_screen t acts)" and "waited \<le> TERMINAL_BATCH_WAIT_CAP_MS"
    and "sum_list (map slept acts) = waited"
  shows "gated t acts' \<and> sum_list (map slept acts') \<le> TERMINAL_BATCH_WAIT_CAP_MS"
  using assms
proof (induction steps arbitrary: waited acts)
  case Nil
  then show ?case by simp
next
  case (Cons step steps)
  let ?line = "step_line step" and ?w = "sat_add waited (step_wait step)" and ?acts = "acts @ step_events step"
  show ?case
  proof (cases "TERMINAL_BATCH_WAIT_CAP_MS < ?w \<or>
      ?line \<noteq> [] \<and> (CHR 0x0A \<in> set ?line \<or> CHR 0x0D \<in> set ?line) \<or>
      ?line \<noteq> [] \<and> (\<exists>e. pty_validate t ?line = Inl e) \<or> (\<exists>e. pty_io t acts = Some e)")
    case True
    then have "acts' = acts" using Cons.prems(1)
      by (auto simp: Let_def split: if_splits sum.splits option.splits)
    with Cons.prems show ?thesis by simp
  next
    case False
    then have w: "\<not> TERMINAL_BATCH_WAIT_CAP_MS < ?w" and io: "pty_io t acts = None"
      and line: "?line = [] \<or> pty_validate t ?line = Inr () \<and> CHR 0x0A \<notin> set ?line \<and> CHR 0x0D \<notin> set ?line"
      by (auto simp: not_Some_eq) (metis (full_types) old.sum.exhaust old.unit.exhaust)+
    have g: "gated t ?acts" by (rule gated_step[OF Cons.prems(2,3) line])
    have "waited + step_wait step \<le> TERMINAL_BATCH_WAIT_CAP_MS" using w
      by (auto simp: sat_add_def TERMINAL_BATCH_WAIT_CAP_MS_def)
    then have sw: "?w = waited + step_wait step" and b: "?w \<le> TERMINAL_BATCH_WAIT_CAP_MS"
      by (auto simp: sat_add_def TERMINAL_BATCH_WAIT_CAP_MS_def)
    have sum: "sum_list (map slept ?acts) = ?w" using Cons.prems(5) by (simp add: sum_slept_step sw)
    have unfold: "batch_steps t (step # steps) waited acts =
        (if sensitive_prompt (pty_screen t ?acts) then (Inr (NeedsHuman human_question), ?acts)
         else (case get_str step ''expect'' of
            Some expected \<Rightarrow> if \<not> contains (pty_screen t ?acts) expected
              then (Inl (TerminalInvalid (''terminal batch expectation was not observed: '' @ pty_debug t expected)), ?acts)
              else batch_steps t steps ?w ?acts
          | None \<Rightarrow> batch_steps t steps ?w ?acts))"
      using w io line by (auto simp: Let_def split: option.split)
    show ?thesis
    proof (cases "acts' = ?acts")
      case True
      with g sum b show ?thesis by simp
    next
      case False
      with Cons.prems(1) unfold have ns: "\<not> sensitive_prompt (pty_screen t ?acts)"
        and rest: "batch_steps t steps ?w ?acts = (res, acts')"
        by (auto split: if_splits option.splits)
      show ?thesis by (rule Cons.IH[OF rest g ns b sum])
    qed
  qed
qed


text \<open>C26: Whatever a batch ends with, every line it wrote to the terminal had passed the executor's check and is
  a single line, was written while the screen as last seen asked for no secret or privilege, and the
  waits of the batch took at most a minute in all.\<close>

theorem batch_writes_are_gated:
  assumes "batch_run t args = (res, acts)"
  shows "gated t acts \<and> sum_list (map slept acts) \<le> TERMINAL_BATCH_WAIT_CAP_MS"
proof -
  have empty: "gated t [] \<and> sum_list (map slept []) \<le> TERMINAL_BATCH_WAIT_CAP_MS" by (simp add: gated_def)
  show ?thesis
  proof (cases "acts = []")
    case True
    with empty show ?thesis by simp
  next
    case False
    with assms obtain steps where "batch_steps t steps 0 [] = (res, acts)"
      and "\<not> sensitive_prompt (pty_screen t [])"
      by (auto simp: batch_run_def split: sum.splits option.splits if_splits)
    then show ?thesis
      by (intro batch_steps_gated[where steps = steps and waited = 0 and acts = "[]" and res = res])
         (simp_all add: gated_def)
  qed
qed

theorem batch_writes_are_gated_witness:
  "\<exists>(t :: pty) args. batch_run t args = (Inr Finished, [Wrote ''ls'', Slept 5]) \<and> gated t [Wrote ''ls'', Slept 5]"
proof -
  let ?t = "\<lparr>pty_validate = (\<lambda>_. Inr ()), pty_screen = (\<lambda>_. ''ok''), pty_io = (\<lambda>_. None), pty_debug = (\<lambda>s. s),
             pty_session = (\<lambda>_. Inr ())\<rparr> :: pty"
  let ?args = "JObject [(''session'', JString ''s''),
    (''steps'', JArray [JObject [(''line'', JString ''ls''), (''wait_ms'', JNumber (PosInt 5))]])]"
  have calm: "\<not> sensitive_prompt ''ok''" and tr: "trim ''s'' = ''s''" by code_simp+
  have run: "batch_run ?t ?args = (Inr Finished, [Wrote ''ls'', Slept 5])"
    using calm by (simp add: batch_run_def required_str_def get_str_def get_array_def get_u64_def tr step_line_def
        step_wait_def step_events_def sat_add_def TERMINAL_BATCH_WAIT_CAP_MS_def TERMINAL_BATCH_STEP_CAP_def Let_def)
  from batch_writes_are_gated [OF run] run show ?thesis by blast
qed

text \<open>The ring of raw output holds the last bytes of everything appended to it, at most its capacity,
  however the output was cut into chunks.\<close>

theorem ring_keeps_the_latest_bytes:
  "foldl (\<lambda>ring c. append_ring ring c cap) [] chunks =
     drop (length (concat chunks) - cap) (concat chunks)"
proof -
  have step: "append_ring (drop (length s - cap) s) c cap = drop (length (s @ c) - cap) (s @ c)" for s c :: str
    by (cases "length s \<le> cap") (auto simp: append_ring_def add.commute)
  have "foldl (\<lambda>ring c. append_ring ring c cap) (drop (length s - cap) s) chunks =
      drop (length (s @ concat chunks) - cap) (s @ concat chunks)" for s
  proof (induction chunks arbitrary: s)
    case Nil
    then show ?case by simp
  next
    case (Cons c cs)
    show ?case using Cons.IH[of "s @ c"] by (simp add: step)
  qed
  from this[of "[]"] show ?thesis by simp
qed

lemma boundary_below_le: "boundary_below s n \<le> n"
  by (induction n) auto

lemma cap_utf8_bound: "length (fst (cap_utf8 s cap)) \<le> cap + 28"
  using boundary_below_le[of s cap] by (auto simp: cap_utf8_def)

text \<open>What a session shows has no line left that names a secret prompt.\<close>

lemma redact_screen_line_clean:
  "\<not> contains_any (to_ascii_lowercase (redact_screen_line line)) [''password'', ''passphrase'', ''api key'', ''access token'']"
proof -
  have "\<not> contains_any (to_ascii_lowercase ''[sensitive terminal prompt redacted]'')
      [''password'', ''passphrase'', ''api key'', ''access token'']" by code_simp
  then show ?thesis unfolding redact_screen_line_def by simp
qed

text \<open>Only a shell without its profile, or a line the executor accepts, is started, inside the workspace.\<close>

lemma resolve_cwd_Inr: "resolve_cwd fs is_dir base r = Inr c \<Longrightarrow> path_starts_with c base \<and> is_dir c"
  by (auto simp: resolve_cwd_def split: sum.splits if_splits)

lemma bounded_dimension_Inr: "bounded_dimension v d name = Inr n \<Longrightarrow> 4 \<le> n \<and> n \<le> 400"
  by (auto simp: bounded_dimension_def Let_def split: if_splits)

lemma start_checks_Inr:
  assumes "start_checks fs is_dir base read_only validate args = Inr plan"
  shows "path_starts_with (sp_cwd plan) base \<and> is_dir (sp_cwd plan) \<and>
    4 \<le> sp_rows plan \<and> sp_rows plan \<le> 400 \<and> 4 \<le> sp_cols plan \<and> sp_cols plan \<le> 400 \<and>
    \<not> list_ex looks_like_secret (sp_argv plan) \<and>
    (\<exists>argv. terminal_string_array (json_get args ''argv'') ''argv'' = Inr argv \<and> argv \<noteq> [] \<and>
       (if is_shell_program (hd argv) then \<not> read_only \<and> safe_shell_argv argv = Inr (sp_argv plan)
        else validate (join '' '' argv) = Inr () \<and> sp_argv plan = argv))"
proof -
  from assms obtain argv where argv: "terminal_string_array (json_get args ''argv'') ''argv'' = Inr argv"
    and ne: "argv \<noteq> []"
    unfolding start_checks_def r_bind_Inr by (auto split: if_splits)
  from assms argv ne obtain cwd used_argv rows cols where cwd: "resolve_cwd fs is_dir base (get_str args ''cwd'') = Inr cwd"
    and u: "(if is_shell_program (hd argv)
             then (if read_only
                   then Inl (TerminalDenied ''read-only roles cannot start an interactive shell'')
                   else safe_shell_argv argv)
             else r_map (\<lambda>_. argv) (validate (join '' '' argv))) = Inr used_argv"
    and sec: "\<not> list_ex looks_like_secret used_argv"
    and r: "bounded_dimension (json_get args ''rows'') 24 ''rows'' = Inr rows"
    and c: "bounded_dimension (json_get args ''cols'') 80 ''cols'' = Inr cols"
    and plan: "plan = \<lparr>sp_argv = used_argv, sp_cwd = cwd, sp_rows = rows, sp_cols = cols\<rparr>"
    unfolding start_checks_def by (simp add: r_bind_Inr split: if_split_asm) blast+
  have "if is_shell_program (hd argv) then \<not> read_only \<and> safe_shell_argv argv = Inr used_argv
        else validate (join '' '' argv) = Inr () \<and> used_argv = argv"
    using u by (auto simp: r_map_Inr split: if_splits)
  with resolve_cwd_Inr[OF cwd] bounded_dimension_Inr[OF r] bounded_dimension_Inr[OF c] sec argv ne plan
  show ?thesis by simp
qed

end
