(* ===== verification/Clarify.thy ===== *)
theory Clarify
  imports Protocol
begin

text \<open>
  Clarification of an issue (\<open>crates/minha-core/src/clarify.rs\<close>): a goal is read into five dimensions, a
  meter weighs what is unknown of them, rounds of questions confirm or delegate dimensions, and a brief
  is prepared from what is known. The reading of a model's questions from JSON is an argument. Sums of
  weights are naturals; they leave \<open>u32\<close> only past four million dimensions.
\<close>

definition INTAKE_SCHEMA_VERSION :: u16 where "INTAKE_SCHEMA_VERSION = 1"
definition READY_THRESHOLD :: u8 where "READY_THRESHOLD = 25"
definition MAX_CLARIFICATION_ROUNDS :: u32 where "MAX_CLARIFICATION_ROUNDS = 4"
definition GOAL :: str where "GOAL = ''goal''"
definition REPRODUCTION :: str where "REPRODUCTION = ''reproduction''"
definition SCOPE :: str where "SCOPE = ''scope''"
definition CONSTRAINTS :: str where "CONSTRAINTS = ''constraints''"
definition SUCCESS :: str where "SUCCESS = ''success''"

lemmas dimension_names = GOAL_def REPRODUCTION_def SCOPE_def CONSTRAINTS_def SUCCESS_def

section \<open>Reading a goal\<close>

definition classify_issue_kind :: "str \<Rightarrow> str \<Rightarrow> issue_kind" where
  "classify_issue_kind goal requested =
     (let lower = to_ascii_lowercase goal in
      if requested = ''audit'' \<or> contains lower ''audit'' then Audit
      else if requested = ''review'' \<or> contains lower ''review'' then ReviewIssue
      else if contains_any lower [''bug'', ''fix '', ''broken'', ''error'', ''fail'', ''crash'', ''panic'',
                ''doesn't work'', ''not working''] then Defect
      else if contains_any lower [''add '', ''build '', ''implement'', ''feature'', ''support ''] then Feature
      else if requested = ''auto'' \<and> (ends_with lower ''?'' \<or> starts_with lower ''how '') then QuestionIssue
      else UnknownIssue)"

definition is_vague :: "str \<Rightarrow> nat \<Rightarrow> bool" where
  "is_vague lower words =
     (words < 4 \<or> trim lower \<in> {''it is broken'', ''it's broken'', ''it doesnt work'', ''it doesn't work'',
        ''fix it'', ''help'', ''bad''})"

definition high_risk :: "str \<Rightarrow> bool" where
  "high_risk lower =
     contains_any lower [''security'', ''credential'', ''production'', ''database'', ''migration'', ''delete'',
       ''data loss'']"

definition path_punctuation :: "str \<Rightarrow> bool" where
  "path_punctuation g = (g \<in> (\<lambda>c. [c]) ` set ('',:;()[]{}'' @ [CHR 0x27, CHR 0x22, CHR 0x60]))"

definition looks_like_path :: "str \<Rightarrow> bool" where
  "looks_like_path word =
     (let trimmed = trim_matches path_punctuation word in
      CHR ''/'' \<in> set trimmed \<or>
      list_ex (ends_with (to_ascii_lowercase trimmed))
        [''.rs'', ''.toml'', ''.md'', ''.json'', ''.yaml'', ''.yml'', ''.log'', ''.heic'', ''.png'', ''.jpg'',
         ''.jpeg'', ''.webp''])"

fun status_factor :: "dimension_status \<Rightarrow> nat" where
  "status_factor DimUnknown = 4"
| "status_factor DimPartial = 2"
| "status_factor DimInferred = 1"
| "status_factor DimDelegated = 1"
| "status_factor DimConfirmed = 0"
| "status_factor DimNotApplicable = 0"

definition possible_of :: "ambiguity_dimension list \<Rightarrow> nat" where
  "possible_of ds = sum_list (map (\<lambda>d. dim_weight d * 4) (filter (\<lambda>d. dim_status d \<noteq> DimNotApplicable) ds))"

definition uncertain_of :: "ambiguity_dimension list \<Rightarrow> nat" where
  "uncertain_of ds =
     sum_list (map (\<lambda>d. dim_weight d * status_factor (dim_status d)) (filter (\<lambda>d. dim_status d \<noteq> DimNotApplicable) ds))"

definition div_ceil :: "nat \<Rightarrow> nat \<Rightarrow> nat" where
  "div_ceil a b = (a + b - 1) div b"

definition score :: "ambiguity_dimension list \<Rightarrow> ambiguity_meter" where
  "score ds =
     (let possible = possible_of ds; uncertain = uncertain_of ds in
      \<lparr>am_overall = (if possible = 0 then 0 else min (div_ceil (min (uncertain * 100) u32_max) possible) 100),
       am_dimensions = ds\<rparr>)"

definition dimension_new :: "str \<Rightarrow> str \<Rightarrow> u8 \<Rightarrow> dimension_status \<Rightarrow> str option \<Rightarrow> ambiguity_dimension" where
  "dimension_new did caption weight status detail =
     \<lparr>dim_id = did, dim_label = caption, dim_weight = weight, dim_status = status,
      dim_detail = take_chars 2000 (case detail of None \<Rightarrow> [] | Some d \<Rightarrow> d)\<rparr>"

text \<open>The findings about a goal that decide its dimensions.\<close>

definition goal_has_path :: "str \<Rightarrow> bool" where
  "goal_has_path goal =
     (list_ex looks_like_path (split_whitespace goal) \<or>
      contains_any (to_ascii_lowercase goal) [''tui'', ''cli'', ''parser'', ''runtime'', ''cache'', ''auth'', ''database'', ''api''])"

definition simple_scoped_edit :: "str \<Rightarrow> bool" where
  "simple_scoped_edit goal =
     (goal_has_path goal \<and> length (split_whitespace goal) \<le> 10 \<and>
      contains_any (to_ascii_lowercase goal) [''typo'', ''spelling'', ''wording'', ''format'', ''formatting'', ''docs''])"

definition explicit_broad_workflow :: "str \<Rightarrow> str \<Rightarrow> bool" where
  "explicit_broad_workflow goal requested =
     (requested \<in> {''audit'', ''review''} \<and>
      contains_any (to_ascii_lowercase goal) [''repository'', ''workspace'', ''current diff'', ''codebase''])"

definition goal_status :: "str \<Rightarrow> str \<Rightarrow> dimension_status" where
  "goal_status goal requested =
     (let words = length (split_whitespace goal) in
      if classify_issue_kind goal requested = QuestionIssue \<or> explicit_broad_workflow goal requested then DimConfirmed
      else if is_vague (to_ascii_lowercase goal) words then DimUnknown
      else if 8 \<le> words then DimConfirmed else DimPartial)"

definition reproduction_status :: "str \<Rightarrow> str \<Rightarrow> dimension_status" where
  "reproduction_status goal requested =
     (let lower = to_ascii_lowercase goal in
      if simple_scoped_edit goal \<or> classify_issue_kind goal requested \<notin> {Defect, UnknownIssue} then DimNotApplicable
      else if contains_any lower ['' when '', '' after '', '' before '', ''every time'', ''sometimes'', ''steps'', ''repro'',
                ''error:'', ''panic'', ''crash'', ''fails'', ''failed''] then DimConfirmed
      else if contains lower ''bug'' \<or> contains lower ''broken'' \<or> contains lower ''doesn't work'' then DimPartial
      else DimUnknown)"

definition scope_status :: "str \<Rightarrow> str \<Rightarrow> dimension_status" where
  "scope_status goal requested =
     (if goal_has_path goal \<or> explicit_broad_workflow goal requested then DimConfirmed
      else if classify_issue_kind goal requested = QuestionIssue \<or> 10 \<le> length (split_whitespace goal) then DimPartial
      else DimUnknown)"

definition constraints_status :: "str \<Rightarrow> str \<Rightarrow> dimension_status" where
  "constraints_status goal requested =
     (let lower = to_ascii_lowercase goal in
      if classify_issue_kind goal requested = QuestionIssue then DimNotApplicable
      else if contains_any lower [''do not'', ''don't'', ''must not'', ''preserve'', ''only'', ''without'', ''keep '']
      then DimConfirmed
      else if high_risk lower then DimUnknown else DimInferred)"

definition success_status :: "str \<Rightarrow> str \<Rightarrow> dimension_status" where
  "success_status goal requested =
     (if classify_issue_kind goal requested = QuestionIssue then DimNotApplicable
      else if contains_any (to_ascii_lowercase goal) [''should'', ''expected'', ''acceptance'', ''test'', ''passes'',
                ''works when'', ''done when''] then DimConfirmed
      else if simple_scoped_edit goal \<or> explicit_broad_workflow goal requested then DimInferred
      else if 12 \<le> length (split_whitespace goal) then DimPartial else DimUnknown)"

definition analyze :: "str \<Rightarrow> str \<Rightarrow> issue_clarification_view" where
  "analyze goal requested =
     (let vague = is_vague (to_ascii_lowercase goal) (length (split_whitespace goal));
          dims = [dimension_new GOAL ''goal'' 25 (goal_status goal requested) (if vague then None else Some goal),
                  dimension_new REPRODUCTION ''reproduction'' 25 (reproduction_status goal requested) None,
                  dimension_new SCOPE ''scope'' 20 (scope_status goal requested) None,
                  dimension_new CONSTRAINTS ''constraints'' 15 (constraints_status goal requested) None,
                  dimension_new SUCCESS ''success criteria'' 15 (success_status goal requested) None]
      in \<lparr>icv_schema_version = INTAKE_SCHEMA_VERSION, icv_status = Collecting,
          icv_issue_kind = classify_issue_kind goal requested, icv_round = 0, icv_meter = score dims,
          icv_pending_batch = None, icv_brief = None\<rparr>)"

definition find_dimension :: "str \<Rightarrow> issue_clarification_view \<Rightarrow> ambiguity_dimension option" where
  "find_dimension did v = find (\<lambda>d. dim_id d = did) (am_dimensions (icv_meter v))"

definition needs_clarification :: "issue_clarification_view \<Rightarrow> bool" where
  "needs_clarification v =
     (let unknown = (\<lambda>did. case find_dimension did v of None \<Rightarrow> False | Some d \<Rightarrow> dim_status d = DimUnknown)
      in unknown CONSTRAINTS \<and> (unknown GOAL \<or> unknown SCOPE))"

definition should_consult_terra :: "issue_clarification_view \<Rightarrow> str \<Rightarrow> bool" where
  "should_consult_terra v goal =
     (if icv_round v < 2 \<or> am_overall (icv_meter v) < 50 then False
      else contains_any (to_ascii_lowercase goal) [''security'', ''credential'', ''production'', ''database'',
             ''migration'', ''delete'', ''data loss'', ''architecture''])"
section \<open>Answers\<close>

fun update_first :: "('a \<Rightarrow> bool) \<Rightarrow> ('a \<Rightarrow> 'a) \<Rightarrow> 'a list \<Rightarrow> 'a list" where
  "update_first P f [] = []"
| "update_first P f (x # xs) = (if P x then f x # xs else x # update_first P f xs)"

definition map_dimensions ::
    "(ambiguity_dimension list \<Rightarrow> ambiguity_dimension list) \<Rightarrow> issue_clarification_view \<Rightarrow> issue_clarification_view"
    where
  "map_dimensions f v =
     v\<lparr>icv_meter := (icv_meter v)\<lparr>am_dimensions := f (am_dimensions (icv_meter v))\<rparr>\<rparr>"

definition rescore :: "issue_clarification_view \<Rightarrow> issue_clarification_view" where
  "rescore v = v\<lparr>icv_meter := score (am_dimensions (icv_meter v))\<rparr>"

definition delegate_open :: "ambiguity_dimension \<Rightarrow> ambiguity_dimension" where
  "delegate_open d =
     (if dim_status d \<in> {DimUnknown, DimPartial}
      then d\<lparr>dim_status := DimDelegated,
             dim_detail := (if dim_detail d = [] then ''Delegated to Minha.'' else dim_detail d)\<rparr>
      else d)"

definition apply_action :: "str \<Rightarrow> issue_clarification_view \<Rightarrow> issue_clarification_view" where
  "apply_action action v =
     (if action = ''use_best_judgment'' then map_dimensions (map delegate_open) v
      else if action = ''summarize'' then v\<lparr>icv_status := Reviewing\<rparr>
      else if action = ''cancel'' then v\<lparr>icv_status := ClarificationCancelled\<rparr>
      else if action = ''confirm'' then v\<lparr>icv_status := Confirmed\<rparr>
      else if action = ''keep_clarifying'' then v\<lparr>icv_status := Collecting\<rparr>
      else v)"

definition asked :: "issue_clarification_view \<Rightarrow> str \<Rightarrow> clarification_question option" where
  "asked v qid =
     (case icv_pending_batch v of None \<Rightarrow> None | Some b \<Rightarrow> find (\<lambda>q. cq_id q = qid) (cb_questions b))"

definition answered_dimension :: "issue_clarification_view \<Rightarrow> str \<Rightarrow> str" where
  "answered_dimension v qid =
     (case asked v qid of Some q \<Rightarrow> cq_dimension q | None \<Rightarrow> hd (split_on (CHR ''-'') qid))"

definition answer_detail :: "clarification_question option \<Rightarrow> str \<Rightarrow> str" where
  "answer_detail q answer =
     (case (case q of None \<Rightarrow> None | Some q \<Rightarrow> find (\<lambda>opt. eq_ignore_ascii_case (co_value opt) answer) (cq_options q)) of
        Some opt \<Rightarrow> co_label opt @ '': '' @ co_description opt
      | None \<Rightarrow> take_chars 2000 answer)"

definition answer_dimension :: "clarification_question option \<Rightarrow> str \<Rightarrow> ambiguity_dimension \<Rightarrow> ambiguity_dimension" where
  "answer_dimension q answer d =
     (if eq_ignore_ascii_case answer ''not sure'' \<or> answer = [] then d
      else if eq_ignore_ascii_case answer ''use your best judgment'' \<or> eq_ignore_ascii_case answer ''best judgment''
      then d\<lparr>dim_status := DimDelegated,
             dim_detail := ''Delegated to Minha; use the safest repository-supported assumption.''\<rparr>
      else d\<lparr>dim_status := DimConfirmed, dim_detail := answer_detail q answer\<rparr>)"

definition apply_answer :: "issue_clarification_view \<Rightarrow> str \<times> str \<Rightarrow> issue_clarification_view" where
  "apply_answer v qa =
     (case qa of (qid, raw) \<Rightarrow>
        if starts_with qid ''$note:'' then v
        else let answer = trim raw in
          if qid = ''$action'' then apply_action answer v
          else map_dimensions (update_first (\<lambda>d. dim_id d = answered_dimension v qid)
                 (answer_dimension (asked v qid) answer)) v)"

definition apply_note :: "issue_clarification_view \<Rightarrow> str \<times> str \<Rightarrow> issue_clarification_view" where
  "apply_note v qa =
     (case qa of (qid, remark) \<Rightarrow>
        case strip_prefix qid ''$note:'' of None \<Rightarrow> v
        | Some answered \<Rightarrow>
            if trim remark = [] then v
            else map_dimensions (update_first (\<lambda>d. dim_id d = hd (split_on (CHR ''-'') answered))
                   (\<lambda>d. d\<lparr>dim_detail := dim_detail d @ '' Note: '' @ take_chars 2000 (trim remark)\<rparr>)) v)"

definition ready_for_review :: "issue_clarification_view \<Rightarrow> bool" where
  "ready_for_review v =
     (am_overall (icv_meter v) \<le> READY_THRESHOLD \<and>
      \<not> list_ex (\<lambda>d. dim_status d = DimUnknown) (am_dimensions (icv_meter v)))"

definition apply_answers :: "(str \<times> str) list \<Rightarrow> issue_clarification_view \<Rightarrow> issue_clarification_view" where
  "apply_answers answers v =
     (let v = foldl apply_note (foldl apply_answer v answers) answers;
          v = (rescore v)\<lparr>icv_pending_batch := None\<rparr>
      in if icv_status v = Collecting \<and> ready_for_review v then v\<lparr>icv_status := Reviewing\<rparr> else v)"

fun position :: "('a \<Rightarrow> bool) \<Rightarrow> 'a list \<Rightarrow> nat option" where
  "position P [] = None"
| "position P (x # xs) = (if P x then Some 0 else map_option Suc (position P xs))"

definition reopen :: "str option \<Rightarrow> issue_clarification_view \<Rightarrow> issue_clarification_view" where
  "reopen remark v =
     (let v = v\<lparr>icv_status := Collecting, icv_brief := None, icv_pending_batch := None\<rparr>;
          remark = (case remark of None \<Rightarrow> None | Some n \<Rightarrow> if trim n = [] then None else Some n);
          ds = am_dimensions (icv_meter v);
          target = (case remark of
              Some _ \<Rightarrow> position (\<lambda>d. dim_id d = GOAL) ds
            | None \<Rightarrow> (case position (\<lambda>d. dim_status d \<in> {DimInferred, DimDelegated}) ds of
                Some i \<Rightarrow> Some i | None \<Rightarrow> position (\<lambda>d. dim_id d = SUCCESS) ds));
          reopened = (\<lambda>d. d\<lparr>dim_status := DimPartial,
            dim_detail := (case remark of None \<Rightarrow> dim_detail d | Some n \<Rightarrow> take_chars 2000 (trim n))\<rparr>)
      in rescore (case target of None \<Rightarrow> v
                  | Some i \<Rightarrow> map_dimensions (\<lambda>ds. if i < length ds then ds[i := reopened (ds ! i)] else ds) v))"

section \<open>The brief\<close>

text \<open>Words of a text with quotes and escapes taken off; \<open>\<backslash>\<close> escapes white space, itself and quotes.\<close>

fun shellish :: "str list \<Rightarrow> str \<Rightarrow> str option \<Rightarrow> str list" where
  "shellish [] token q = (if token = [] then [] else [token])"
| "shellish (c # cs) token (Some q) =
     (if c = q then shellish cs token None else shellish cs (token @ c) (Some q))"
| "shellish (c # cs) token None =
     (if c \<in> {[CHR 0x27], [CHR 0x22]} then shellish cs token (Some c)
      else if c = [CHR 0x5C] \<and> cs \<noteq> [] \<and>
              (is_whitespace (hd cs) \<or> hd cs \<in> {[CHR 0x5C], [CHR 0x27], [CHR 0x22]})
      then shellish (tl cs) (token @ hd cs) None
      else if is_whitespace c
      then if token = [] then shellish cs [] None else token # shellish cs [] None
      else shellish cs (token @ c) None)"

definition shellish_tokens :: "str \<Rightarrow> str list" where
  "shellish_tokens s = shellish (chars s) [] None"

text \<open>The ends of the occurrences of an extension in a line, each searched for after the one before.\<close>

function extension_ends :: "str \<Rightarrow> str \<Rightarrow> nat \<Rightarrow> nat list" where
  "extension_ends lower ext pos =
     (if ext = [] then []
      else case find_str (drop pos lower) ext of None \<Rightarrow> []
      | Some offset \<Rightarrow> (pos + offset + length ext) # extension_ends lower ext (pos + offset + length ext))"
  by pat_completeness auto
termination
proof (relation "measure (\<lambda>(lower, ext, pos). length lower - pos)")
  fix lower ext :: str and pos offset :: nat
  assume "ext \<noteq> []" and "find_str (drop pos lower) ext = Some offset"
  then have "offset + length ext \<le> length lower - pos" "0 < length ext" using find_str_Some by fastforce+
  then show "((lower, ext, pos + offset + length ext), (lower, ext, pos)) \<in>
      measure (\<lambda>(lower, ext, pos). length lower - pos)"
    by (cases ext) auto
qed simp

declare extension_ends.simps [simp del]

definition path_start :: "str \<Rightarrow> nat option" where
  "path_start before =
     (case filter (\<lambda>i. before ! i = CHR ''/'' \<and> (i = 0 \<or> is_whitespace (last (chars (take i before)))))
             [0..<length before] of
        [] \<Rightarrow> None | i # is \<Rightarrow> Some (last (i # is)))"

fun unescape_spaces :: "str \<Rightarrow> str" where
  "unescape_spaces (c # d # cs) =
     (if c = CHR 0x5C \<and> d = CHR '' '' then CHR '' '' # unescape_spaces cs else c # unescape_spaces (d # cs))"
| "unescape_spaces s = s"

definition push_new :: "str list \<Rightarrow> str \<Rightarrow> str list" where
  "push_new paths p = (if p \<in> set paths then paths else paths @ [p])"

definition spaced_paths_of_line :: "str \<Rightarrow> str list" where
  "spaced_paths_of_line line =
     concat (map (\<lambda>ext. List.map_filter (\<lambda>e. map_option (\<lambda>st. unescape_spaces (drop st (take e line)))
                  (path_start (take e line))) (extension_ends (to_ascii_lowercase line) ext 0))
       [''.heic'', ''.png'', ''.jpg'', ''.jpeg'', ''.webp'', ''.log''])"

definition absolute_spaced_paths :: "str \<Rightarrow> str list" where
  "absolute_spaced_paths txt = foldl push_new [] (concat (map spaced_paths_of_line (lines txt)))"

fun add_tokens :: "str list \<Rightarrow> str list \<Rightarrow> str list" where
  "add_tokens paths [] = paths"
| "add_tokens paths (t # ts) =
     (let t = trim_matches path_punctuation t;
          paths = (if looks_like_path t \<and> t \<notin> set paths \<and> \<not> list_ex (\<lambda>p. contains p t) paths
                   then paths @ [t] else paths)
      in if length paths = 12 then paths else add_tokens paths ts)"

definition referenced_paths :: "str \<Rightarrow> str list" where
  "referenced_paths txt = take 12 (add_tokens (absolute_spaced_paths txt) (shellish_tokens txt))"

definition nonempty_vec :: "str \<Rightarrow> str list" where
  "nonempty_vec value = (if trim value = [] then [] else [value])"

definition detail_of :: "issue_clarification_view \<Rightarrow> str \<Rightarrow> str" where
  "detail_of v did = (case find_dimension did v of None \<Rightarrow> [] | Some d \<Rightarrow> trim (dim_detail d))"

definition assumption_of :: "ambiguity_dimension \<Rightarrow> str" where
  "assumption_of d =
     (if dim_detail d = []
      then ''Use the safest repository-supported assumption for '' @ dim_label d @ ''.''
      else dim_label d @ '': '' @ dim_detail d)"

fun recommended_workflow :: "issue_kind \<Rightarrow> str" where
  "recommended_workflow Audit = ''audit''"
| "recommended_workflow ReviewIssue = ''review''"
| "recommended_workflow QuestionIssue = ''chat''"
| "recommended_workflow Defect = ''implement''"
| "recommended_workflow Feature = ''implement''"
| "recommended_workflow UnknownIssue = ''implement''"

definition build_brief :: "issue_clarification_view \<Rightarrow> str \<Rightarrow> issue_brief" where
  "build_brief v original_goal =
     \<lparr>ib_issue_kind = icv_issue_kind v,
      ib_observed = (if trim original_goal = [] then detail_of v GOAL else trim original_goal),
      ib_expected = (if detail_of v GOAL = [] then ''Resolve the observed problem without widening scope.''
                     else detail_of v GOAL),
      ib_reproduction = nonempty_vec (detail_of v REPRODUCTION),
      ib_evidence = referenced_paths original_goal,
      ib_scope = nonempty_vec (detail_of v SCOPE),
      ib_constraints = nonempty_vec (detail_of v CONSTRAINTS),
      ib_success_criteria = nonempty_vec (detail_of v SUCCESS),
      ib_assumptions = map assumption_of
        (filter (\<lambda>d. dim_status d \<in> {DimInferred, DimDelegated, DimUnknown}) (am_dimensions (icv_meter v))),
      ib_recommended_workflow = recommended_workflow (icv_issue_kind v),
      ib_meter = icv_meter v\<rparr>"

definition prepare_brief :: "str \<Rightarrow> issue_clarification_view \<Rightarrow> issue_clarification_view" where
  "prepare_brief original_goal v =
     (let v = v\<lparr>icv_status := Reviewing, icv_pending_batch := None\<rparr>
      in v\<lparr>icv_brief := Some (build_brief v original_goal)\<rparr>)"

definition confirm :: "issue_clarification_view \<Rightarrow> issue_clarification_view" where
  "confirm v = v\<lparr>icv_status := Confirmed, icv_pending_batch := None\<rparr>"

definition exhaust_dimension :: "ambiguity_dimension \<Rightarrow> ambiguity_dimension" where
  "exhaust_dimension d =
     (if dim_status d = DimUnknown
      then d\<lparr>dim_status := DimDelegated, dim_detail :=
        ''Clarification rounds exhausted; Minha used the safest repository-supported assumption.''\<rparr>
      else d)"

definition exhaust_rounds :: "str \<Rightarrow> issue_clarification_view \<Rightarrow> issue_clarification_view" where
  "exhaust_rounds original_goal v = prepare_brief original_goal (rescore (map_dimensions (map exhaust_dimension) v))"

definition brief_list :: "str list \<Rightarrow> str" where
  "brief_list values =
     (if values = [] then ''- none supplied'' else join [CHR 0x0A] (map (\<lambda>v. ''- '' @ v) values))"

definition brief_section :: "str \<Rightarrow> str \<Rightarrow> str" where
  "brief_section title body = title @ '':'' @ [CHR 0x0A] @ body @ [CHR 0x0A, CHR 0x0A]"

definition render_brief :: "issue_brief \<Rightarrow> str" where
  "render_brief b =
     ''Confirmed issue brief'' @ [CHR 0x0A, CHR 0x0A] @
     brief_section ''Observed'' (ib_observed b) @ brief_section ''Expected'' (ib_expected b) @
     brief_section ''Reproduction'' (brief_list (ib_reproduction b)) @
     brief_section ''Evidence'' (brief_list (ib_evidence b)) @
     brief_section ''Scope'' (brief_list (ib_scope b)) @
     brief_section ''Constraints'' (brief_list (ib_constraints b)) @
     brief_section ''Success criteria'' (brief_list (ib_success_criteria b)) @
     brief_section ''Assumptions'' (brief_list (ib_assumptions b)) @
     ''Recommended workflow: '' @ ib_recommended_workflow b @ [CHR 0x0A] @
     ''Ambiguity at confirmation: '' @ show_nat (am_overall (ib_meter b)) @ ''/100''"

section \<open>Questions\<close>

definition unresolved_dimensions :: "issue_clarification_view \<Rightarrow> ambiguity_dimension list" where
  "unresolved_dimensions v =
     sort_key (\<lambda>d. - int (dim_weight d))
       (filter (\<lambda>d. dim_status d \<in> {DimUnknown, DimPartial}) (am_dimensions (icv_meter v)))"

definition clarification_option_new :: "str \<Rightarrow> str \<Rightarrow> str \<Rightarrow> bool \<Rightarrow> clarification_option" where
  "clarification_option_new value caption description recommended =
     \<lparr>co_value = value, co_label = caption, co_description = description, co_recommended = recommended\<rparr>"

definition fallback_text :: "str \<Rightarrow> str \<times> str \<times> clarification_option list" where
  "fallback_text did =
     (let opt = clarification_option_new in
      if did = GOAL then (''What happened?'', ''Which description is closest to the problem you noticed?'',
        [opt ''fails'' ''Something fails'' ''An action errors, crashes, or never completes.'' True,
         opt ''wrong'' ''The result is wrong'' ''It completes, but the output or behavior is incorrect.'' False,
         opt ''missing'' ''Something is missing'' ''You expected a capability or control that is not there.'' False])
      else if did = REPRODUCTION then (''When?'', ''When are you able to notice the problem?'',
        [opt ''every_time'' ''Every time'' ''The same action reliably causes it.'' True,
         opt ''specific'' ''After a specific action'' ''It depends on a command, file, or sequence.'' False,
         opt ''sometimes'' ''Only sometimes'' ''It appears intermittent or timing-dependent.'' False])
      else if did = SCOPE then (''Where?'', ''Where do you notice the problem most clearly?'',
        [opt ''tui'' ''Terminal interface'' ''The visible TUI, input, navigation, or rendering.'' False,
         opt ''agents'' ''Agent work'' ''Planning, tools, branches, questions, or completion.'' True,
         opt ''cli'' ''Command line'' ''A Minha command, JSON response, login, or local operation.'' False])
      else if did = CONSTRAINTS then (''Keep safe'', ''What is most important not to disturb while fixing this?'',
        [opt ''behavior'' ''Existing behavior'' ''Keep unrelated commands and workflows compatible.'' True,
         opt ''data'' ''Local data'' ''Protect sessions, credentials, configuration, and recovery state.'' False,
         opt ''nothing'' ''No special constraint'' ''Use normal repository safety rules.'' False])
      else (''Done looks like'', ''What would make you confident the issue is fixed?'',
        [opt ''works'' ''The action works'' ''The original workflow completes normally.'' True,
         opt ''test'' ''A regression test passes'' ''The failure is reproduced and permanently covered.'' False,
         opt ''clear'' ''The result is clear'' ''The output or interface explains the state correctly.'' False]))"

definition fallback_question :: "ambiguity_dimension \<Rightarrow> u32 \<Rightarrow> clarification_question" where
  "fallback_question d rnd =
     (case fallback_text (dim_id d) of (header, q, options) \<Rightarrow>
        \<lparr>cq_id = dim_id d @ ''-'' @ show_nat rnd, cq_dimension = dim_id d, cq_header = header, cq_question = q,
         cq_options = options, cq_allow_free_text = True, cq_allow_not_sure = True\<rparr>)"

definition next_round :: "issue_clarification_view \<Rightarrow> u32" where
  "next_round v = min (icv_round v + 1) u32_max"

definition batch_actions :: "str list" where
  "batch_actions = [''use_best_judgment'', ''summarize'', ''cancel'']"

definition make_fallback_batch :: "issue_clarification_view \<Rightarrow> clarification_batch" where
  "make_fallback_batch v =
     \<lparr>cb_round = next_round v,
      cb_questions = map (\<lambda>d. fallback_question d (next_round v)) (take 3 (unresolved_dimensions v)),
      cb_actions = batch_actions\<rparr>"

definition tagged_payload :: "str \<Rightarrow> str \<Rightarrow> str option" where
  "tagged_payload txt tag =
     (let opening = ''<'' @ tag @ ''>''; closing = ''</'' @ tag @ ''>'' in
      case find_str txt opening of None \<Rightarrow> None
      | Some i \<Rightarrow> let tail = drop (i + length opening) txt in
          map_option (\<lambda>e. trim (take e tail)) (find_str tail closing))"

definition bound_option :: "clarification_option \<Rightarrow> clarification_option" where
  "bound_option opt =
     opt\<lparr>co_value := take_chars 80 (co_value opt), co_label := take_chars 80 (co_label opt),
         co_description := take_chars 180 (co_description opt)\<rparr>"

definition bound_question :: "u32 \<Rightarrow> clarification_question \<Rightarrow> clarification_question" where
  "bound_question rnd q =
     q\<lparr>cq_id := cq_dimension q @ ''-'' @ show_nat rnd, cq_header := take_chars 24 (cq_header q),
       cq_question := take_chars 300 (cq_question q), cq_options := map bound_option (take 3 (cq_options q))\<rparr>"

definition add_question ::
    "str list \<Rightarrow> u32 \<Rightarrow> clarification_question list \<Rightarrow> clarification_question \<Rightarrow> clarification_question list" where
  "add_question unresolved rnd questions q =
     (if length questions = 3 \<or> cq_dimension q \<notin> set unresolved \<or>
         list_ex (\<lambda>old. cq_dimension old = cq_dimension q) questions
      then questions
      else let q = bound_question rnd q in if 2 \<le> length (cq_options q) then questions @ [q] else questions)"

definition sanitize_model_batch ::
    "(str \<Rightarrow> clarification_question list option) \<Rightarrow> str \<Rightarrow> issue_clarification_view \<Rightarrow> clarification_batch option" where
  "sanitize_model_batch decode txt v =
     (case tagged_payload txt ''minha-clarification'' of None \<Rightarrow> None
      | Some payload \<Rightarrow>
          (case decode payload of None \<Rightarrow> None
           | Some decoded \<Rightarrow>
               let questions = foldl (add_question (map dim_id (unresolved_dimensions v)) (next_round v)) [] decoded in
               if questions = [] then None
               else Some \<lparr>cb_round = next_round v, cb_questions = questions, cb_actions = batch_actions\<rparr>))"

section \<open>The meter\<close>

lemma div_ceil_le: "0 < p \<Longrightarrow> x \<le> k * p \<Longrightarrow> div_ceil x p \<le> k"
proof -
  assume p: "0 < p" and x: "x \<le> k * p"
  then have "x + p - 1 < Suc k * p" by simp
  then have "(x + p - 1) div p < Suc k" by (simp add: less_mult_imp_div_less)
  then show ?thesis by (simp add: div_ceil_def)
qed

lemma score_le: "uncertain_of ds * 4 \<le> possible_of ds \<Longrightarrow> am_overall (score ds) \<le> READY_THRESHOLD"
proof -
  assume low: "uncertain_of ds * 4 \<le> possible_of ds"
  show ?thesis
  proof (cases "possible_of ds = 0")
    case False
    have "min (uncertain_of ds * 100) u32_max \<le> 25 * possible_of ds" using low by simp
    with False have "div_ceil (min (uncertain_of ds * 100) u32_max) (possible_of ds) \<le> 25"
      by (intro div_ceil_le) auto
    with False show ?thesis by (simp add: score_def Let_def READY_THRESHOLD_def)
  qed (simp add: score_def)
qed

lemma score_bounded: "am_overall (score ds) \<le> 100"
  by (simp add: score_def Let_def)

lemma score_dimensions [simp]: "am_dimensions (score ds) = ds"
  by (simp add: score_def Let_def)

text \<open>No dimension is open.\<close>

definition none_open :: "ambiguity_dimension list \<Rightarrow> bool" where
  "none_open ds \<longleftrightarrow> (\<forall>d \<in> set ds. dim_status d \<notin> {DimUnknown, DimPartial})"

lemma none_open_low: "none_open ds \<Longrightarrow> uncertain_of ds * 4 \<le> possible_of ds"
proof (induction ds)
  case (Cons d ds)
  have "none_open ds" using Cons.prems by (simp add: none_open_def)
  then have IH: "4 * uncertain_of ds \<le> possible_of ds" using Cons.IH by (simp add: mult.commute)
  have "status_factor (dim_status d) \<le> 1" using Cons.prems by (cases "dim_status d") (auto simp: none_open_def)
  then have "dim_weight d * status_factor (dim_status d) \<le> dim_weight d" by (metis mult_le_mono2 mult.right_neutral)
  then have one: "4 * (dim_weight d * status_factor (dim_status d)) \<le> 4 * dim_weight d" by (rule mult_le_mono2)
  show ?case
  proof (cases "dim_status d = DimNotApplicable")
    case True
    then show ?thesis using IH by (simp add: uncertain_of_def possible_of_def)
  next
    case False
    then have "uncertain_of (d # ds) = dim_weight d * status_factor (dim_status d) + uncertain_of ds"
      "possible_of (d # ds) = 4 * dim_weight d + possible_of ds"
      by (simp_all add: uncertain_of_def possible_of_def)
    then show ?thesis using add_mono[OF one IH] by (simp add: add_mult_distrib2 mult.commute)
  qed
qed (simp add: uncertain_of_def possible_of_def)

lemma none_open_ready: "none_open (am_dimensions (icv_meter v)) \<Longrightarrow> ready_for_review (rescore v)"
  using score_le[OF none_open_low, of "am_dimensions (icv_meter v)"]
  by (auto simp: ready_for_review_def rescore_def none_open_def list_ex_iff)

lemma set_update_first: "y \<in> set (update_first P f xs) \<Longrightarrow> y \<in> set xs \<or> (\<exists>x \<in> set xs. y = f x)"
  by (induction xs) (auto split: if_splits)

lemma map_update_first: "(\<And>x. g (f x) = g x) \<Longrightarrow> map g (update_first P f xs) = map g xs"
  by (induction xs) auto

lemma delegate_open_closes: "dim_status (delegate_open d) \<notin> {DimUnknown, DimPartial}"
  by (simp add: delegate_open_def)

lemma answer_keeps_closed:
  "dim_status d \<notin> {DimUnknown, DimPartial} \<Longrightarrow> dim_status (answer_dimension q a d) \<notin> {DimUnknown, DimPartial}"
  by (simp add: answer_dimension_def)

lemma map_dimensions_dims [simp]: "am_dimensions (icv_meter (map_dimensions f v)) = f (am_dimensions (icv_meter v))"
  by (simp add: map_dimensions_def)

lemma map_dimensions_status [simp]: "icv_status (map_dimensions f v) = icv_status v"
  by (simp add: map_dimensions_def)

lemma apply_answer_closed:
  assumes "none_open (am_dimensions (icv_meter v))"
  shows "none_open (am_dimensions (icv_meter (apply_answer v qa)))"
proof -
  have "none_open (update_first P (answer_dimension q a) (am_dimensions (icv_meter v)))" for P q a
    using assms answer_keeps_closed unfolding none_open_def by (fastforce dest!: set_update_first)
  moreover have "none_open (map delegate_open (am_dimensions (icv_meter v)))"
    using delegate_open_closes by (simp add: none_open_def)
  ultimately show ?thesis
    using assms by (auto simp: apply_answer_def apply_action_def Let_def split: prod.splits)
qed

lemma apply_note_closed:
  "none_open (am_dimensions (icv_meter v)) \<Longrightarrow> none_open (am_dimensions (icv_meter (apply_note v qa)))"
  by (auto simp: apply_note_def none_open_def split: prod.splits option.splits dest!: set_update_first)

lemma apply_note_status [simp]: "icv_status (apply_note v qa) = icv_status v"
  by (auto simp: apply_note_def split: prod.splits option.splits)

text \<open>An answer that asks for nothing but best judgement leaves the status alone.\<close>

definition only_judgment :: "(str \<times> str) list \<Rightarrow> bool" where
  "only_judgment answers \<longleftrightarrow> (\<forall>(q, a) \<in> set answers. q = ''$action'' \<longrightarrow> trim a = ''use_best_judgment'')"

lemma apply_answer_status:
  "q = ''$action'' \<longrightarrow> trim a = ''use_best_judgment'' \<Longrightarrow> icv_status (apply_answer v (q, a)) = icv_status v"
  by (auto simp: apply_answer_def apply_action_def Let_def)

lemma apply_judgment_closes:
  "trim a = ''use_best_judgment'' \<Longrightarrow> none_open (am_dimensions (icv_meter (apply_answer v (''$action'', a))))"
  using delegate_open_closes by (simp add: apply_answer_def apply_action_def Let_def none_open_def)

lemma foldl_answers_status:
  "only_judgment answers \<Longrightarrow> icv_status (foldl apply_answer v answers) = icv_status v"
  by (induction answers arbitrary: v) (auto simp: only_judgment_def apply_answer_status)

lemma foldl_answers_closed:
  "none_open (am_dimensions (icv_meter v)) \<Longrightarrow> none_open (am_dimensions (icv_meter (foldl apply_answer v answers)))"
  by (induction answers arbitrary: v) (simp_all add: apply_answer_closed)

lemma foldl_answers_judgment:
  assumes "(''$action'', a) \<in> set answers" and "trim a = ''use_best_judgment''"
  shows "none_open (am_dimensions (icv_meter (foldl apply_answer v answers)))"
proof -
  from assms(1) obtain xs ys where "answers = xs @ (''$action'', a) # ys" by (auto dest: split_list)
  then show ?thesis using apply_judgment_closes[OF assms(2)] by (simp add: foldl_answers_closed)
qed

lemma foldl_notes:
  "icv_status (foldl apply_note v answers) = icv_status v \<and>
   (none_open (am_dimensions (icv_meter v)) \<longrightarrow> none_open (am_dimensions (icv_meter (foldl apply_note v answers))))"
  by (induction answers arbitrary: v) (auto simp: apply_note_closed)

text \<open>C28: Best judgement ends the questions. Whatever dimensions a view has and whatever else is answered
  with it, as long as no other action is asked for, handing the rest to best judgement leaves no
  dimension open, brings the meter to the review threshold or below, and moves a view that is
  collecting to review.\<close>

theorem best_judgment_ends_questions:
  assumes "icv_status v = Collecting" and "(''$action'', a) \<in> set answers" and "only_judgment answers"
  shows "icv_status (apply_answers answers v) = Reviewing \<and>
    none_open (am_dimensions (icv_meter (apply_answers answers v))) \<and>
    am_overall (icv_meter (apply_answers answers v)) \<le> READY_THRESHOLD"
proof -
  let ?w = "foldl apply_note (foldl apply_answer v answers) answers"
  have "trim a = ''use_best_judgment''" using assms(2,3) by (auto simp: only_judgment_def)
  then have closed: "none_open (am_dimensions (icv_meter ?w))"
    using foldl_answers_judgment[OF assms(2)] foldl_notes by blast
  have st: "icv_status ?w = Collecting" using foldl_notes foldl_answers_status[OF assms(3)] assms(1) by metis
  have ready: "ready_for_review (rescore ?w)" by (rule none_open_ready[OF closed])
  then have "ready_for_review ((rescore ?w)\<lparr>icv_pending_batch := None\<rparr>)" by (simp add: ready_for_review_def)
  then have "apply_answers answers v = (rescore ?w)\<lparr>icv_pending_batch := None, icv_status := Reviewing\<rparr>"
    using st by (simp add: apply_answers_def Let_def rescore_def)
  then show ?thesis using closed ready by (simp add: rescore_def ready_for_review_def)
qed

lemma best_judgment_ends_questions_witness:
  "icv_status (apply_answers [(''scope-1'', ''tui''), (''$action'', ''use_best_judgment'')]
     (analyze ''delete it'' ''auto'')) = Reviewing"
proof -
  have "icv_status (analyze ''delete it'' ''auto'') = Collecting" by (simp add: analyze_def Let_def)
  moreover have "only_judgment [(''scope-1'', ''tui''), (''$action'', ''use_best_judgment'')]"
    unfolding only_judgment_def by simp code_simp
  ultimately show ?thesis
    using best_judgment_ends_questions[of "analyze ''delete it'' ''auto''" "''use_best_judgment''"] by simp
qed

section \<open>Questions of a model\<close>

definition question_ok :: "issue_clarification_view \<Rightarrow> clarification_question \<Rightarrow> bool" where
  "question_ok v q \<longleftrightarrow>
     cq_dimension q \<in> dim_id ` set (unresolved_dimensions v) \<and>
     cq_id q = cq_dimension q @ ''-'' @ show_nat (next_round v) \<and>
     char_count (cq_header q) \<le> 24 \<and> char_count (cq_question q) \<le> 300 \<and>
     length (cq_options q) \<in> {2, 3} \<and>
     (\<forall>opt \<in> set (cq_options q). char_count (co_value opt) \<le> 80 \<and> char_count (co_label opt) \<le> 80 \<and>
        char_count (co_description opt) \<le> 180)"

definition questions_ok :: "issue_clarification_view \<Rightarrow> clarification_question list \<Rightarrow> bool" where
  "questions_ok v qs \<longleftrightarrow> length qs \<le> 3 \<and> distinct (map cq_dimension qs) \<and> (\<forall>q \<in> set qs. question_ok v q)"

lemma add_question_ok:
  assumes "questions_ok v qs"
  shows "questions_ok v (add_question (map dim_id (unresolved_dimensions v)) (next_round v) qs q)"
proof (cases "length qs = 3 \<or> cq_dimension q \<notin> dim_id ` set (unresolved_dimensions v) \<or>
    list_ex (\<lambda>old. cq_dimension old = cq_dimension q) qs \<or> length (cq_options q) < 2")
  case True
  with assms show ?thesis by (auto simp: add_question_def Let_def bound_question_def)
next
  case False
  let ?q = "bound_question (next_round v) q"
  have "question_ok v ?q"
    using False
    by (auto simp: question_ok_def bound_question_def bound_option_def char_count_take_chars)
  moreover have "add_question (map dim_id (unresolved_dimensions v)) (next_round v) qs q = qs @ [?q]"
    using False by (auto simp: add_question_def Let_def bound_question_def)
  moreover have "cq_dimension ?q = cq_dimension q" by (simp add: bound_question_def)
  ultimately show ?thesis using assms False by (auto simp: questions_ok_def list_ex_iff)
qed

lemma add_questions_ok:
  "questions_ok v qs \<Longrightarrow>
   questions_ok v (foldl (add_question (map dim_id (unresolved_dimensions v)) (next_round v)) qs decoded)"
  by (induction decoded arbitrary: qs) (simp_all add: add_question_ok)

text \<open>Questions a model proposes are tamed. Whatever text the model writes and whatever its JSON is
  decoded to, an accepted batch has one to three questions about different dimensions that are still
  open, with identifiers of the next round, two or three options each, and every text within its cap.\<close>

theorem model_questions_are_bounded:
  assumes "sanitize_model_batch decode txt v = Some b"
  shows "cb_questions b \<noteq> [] \<and> questions_ok v (cb_questions b) \<and> cb_round b = next_round v \<and>
    cb_actions b = batch_actions"
proof -
  have "questions_ok v []" by (simp add: questions_ok_def)
  with assms show ?thesis
    by (auto simp: sanitize_model_batch_def Let_def add_questions_ok split: option.splits if_splits)
qed

definition example_option :: "str \<Rightarrow> clarification_option" where
  "example_option s = \<lparr>co_value = s, co_label = s, co_description = s, co_recommended = False\<rparr>"

definition example_question :: clarification_question where
  "example_question = \<lparr>cq_id = ''x'', cq_dimension = ''goal'', cq_header = ''h'', cq_question = ''w'',
     cq_options = map example_option [''a'', ''b'', ''c'', ''d''], cq_allow_free_text = True, cq_allow_not_sure = True\<rparr>"

lemma model_questions_are_bounded_witness:
  "\<exists>b. sanitize_model_batch (\<lambda>_. Some [example_question]) ''so <minha-clarification> q </minha-clarification>''
      (analyze ''delete it'' ''auto'') = Some b \<and> length (cb_questions b) \<in> {1, 2, 3}"
proof -
  let ?v = "analyze ''delete it'' ''auto''"
  have payload: "tagged_payload ''so <minha-clarification> q </minha-clarification>'' ''minha-clarification'' = Some ''q''"
    by code_simp
  have "goal_status ''delete it'' ''auto'' = DimUnknown" by code_simp
  then have "cq_dimension example_question \<in> set (map dim_id (unresolved_dimensions ?v))"
    by (simp add: unresolved_dimensions_def analyze_def dimension_new_def example_question_def GOAL_def Let_def)
  then have "add_question (map dim_id (unresolved_dimensions ?v)) (next_round ?v) [] example_question \<noteq> []"
    unfolding add_question_def by (simp add: bound_question_def example_question_def Let_def del: set_map)
  then obtain b where b: "sanitize_model_batch (\<lambda>_. Some [example_question])
      ''so <minha-clarification> q </minha-clarification>'' ?v = Some b"
    unfolding sanitize_model_batch_def payload by (simp add: Let_def)
  from model_questions_are_bounded[OF b] have "cb_questions b \<noteq> []" "length (cb_questions b) \<le> 3"
    by (auto simp: questions_ok_def)
  then have "length (cb_questions b) \<in> {1, 2, 3}" by (cases "length (cb_questions b)") auto
  with b show ?thesis by blast
qed

section \<open>Words\<close>

text \<open>Without quotes and backslashes the words of a text are its words between white space.\<close>

theorem plain_tokens_are_words:
  assumes "\<forall>c \<in> set (chars s). c \<notin> {[CHR 0x27], [CHR 0x22], [CHR 0x5C]}"
  shows "shellish_tokens s = split_whitespace s"
proof -
  have "shellish gs cur None = split_ws gs cur" if "\<forall>c \<in> set gs. c \<notin> {[CHR 0x27], [CHR 0x22], [CHR 0x5C]}" for gs cur
    using that by (induction gs arbitrary: cur) auto
  with assms show ?thesis by (simp add: shellish_tokens_def split_whitespace_def)
qed

lemma plain_tokens_are_words_witness: "shellish_tokens ''see a/b.rs  now'' = [''see'', ''a/b.rs'', ''now'']"
proof -
  have "\<forall>c \<in> set (chars ''see a/b.rs  now''). c \<notin> {[CHR 0x27], [CHR 0x22], [CHR 0x5C]}" by code_simp
  from plain_tokens_are_words[OF this] show ?thesis by (simp only:) code_simp
qed

text \<open>The evidence of a brief is at most a dozen paths.\<close>

lemma referenced_paths_bounded: "length (referenced_paths s) \<le> 12"
  by (simp add: referenced_paths_def)

text \<open>After the last round nothing is unknown and there is a brief.\<close>

lemma exhausted_view:
  "icv_status (exhaust_rounds g v) = Reviewing \<and> icv_brief (exhaust_rounds g v) \<noteq> None \<and>
   (\<forall>d \<in> set (am_dimensions (icv_meter (exhaust_rounds g v))). dim_status d \<noteq> DimUnknown) \<and>
   map dim_id (am_dimensions (icv_meter (exhaust_rounds g v))) = map dim_id (am_dimensions (icv_meter v))"
  by (auto simp: exhaust_rounds_def prepare_brief_def Let_def rescore_def exhaust_dimension_def)

text \<open>A workflow over the whole repository that was asked for is never stopped for questions.\<close>

lemma broad_workflow_needs_no_questions:
  "explicit_broad_workflow goal requested \<Longrightarrow> \<not> needs_clarification (analyze goal requested)"
  by (simp add: needs_clarification_def analyze_def find_dimension_def dimension_new_def goal_status_def
      scope_status_def dimension_names Let_def)

end
