(* ===== verification/Office.thy ===== *)
theory Office
  imports Json Store_Schema
begin

text \<open>
  The office (\<open>crates/minha-core/src/office.rs\<close>): addresses, private rooms, evidence receipts, typed
  envelopes and the reading of old message objects, and leases backed by evidence. What serde reads into a structure is an argument; the object it writes for an
  envelope is written out.
\<close>

definition HIVE_SCHEMA_VERSION :: u16 where "HIVE_SCHEMA_VERSION = 1"
definition RUN_ROOM_ID :: str where "RUN_ROOM_ID = ''run''"
definition BROADCAST_RECIPIENT :: str where "BROADCAST_RECIPIENT = ''group:all''"
definition EVIDENCE_RECEIPT_SCHEMA_VERSION :: u16 where "EVIDENCE_RECEIPT_SCHEMA_VERSION = 1"
definition MAX_EVIDENCE_RECEIPT_EXCERPT_BYTES :: usize where "MAX_EVIDENCE_RECEIPT_EXCERPT_BYTES = 480"
definition OFFICE_ENVELOPE_SCHEMA_VERSION :: u16 where "OFFICE_ENVELOPE_SCHEMA_VERSION = 1"
definition MAX_OFFICE_SUMMARY_BYTES :: usize where "MAX_OFFICE_SUMMARY_BYTES = 1200"
definition MAX_OFFICE_EVIDENCE_RECEIPTS :: usize where "MAX_OFFICE_EVIDENCE_RECEIPTS = 8"
definition MAX_OFFICE_ARTIFACT_REFS :: usize where "MAX_OFFICE_ARTIFACT_REFS = 16"

section \<open>Addresses\<close>

datatype coordination_kind =
  CFinding | CDecision | CBlocker | CRequest | CProgress | CHandoff | CArtifactReference

fun coordination_kind_str :: "coordination_kind \<Rightarrow> str" where
  "coordination_kind_str CFinding = ''finding''"
| "coordination_kind_str CDecision = ''decision''"
| "coordination_kind_str CBlocker = ''blocker''"
| "coordination_kind_str CRequest = ''request''"
| "coordination_kind_str CProgress = ''progress''"
| "coordination_kind_str CHandoff = ''handoff''"
| "coordination_kind_str CArtifactReference = ''artifact_reference''"

definition coordination_kind_parse :: "str \<Rightarrow> coordination_kind option" where
  "coordination_kind_parse value =
     (if value = ''finding'' then Some CFinding
      else if value = ''decision'' then Some CDecision
      else if value = ''blocker'' then Some CBlocker
      else if value = ''request'' then Some CRequest
      else if value = ''progress'' then Some CProgress
      else if value = ''handoff'' then Some CHandoff
      else if value = ''artifact_reference'' then Some CArtifactReference
      else None)"

lemma coordination_kind_parse_str [simp]: "coordination_kind_parse (coordination_kind_str k) = Some k"
  by (induction k) code_simp+

interpretation coordination_names: wire_format coordination_kind_str coordination_kind_parse "\<lambda>_. True"
  by unfold_locales simp

datatype recipient = ToAgent str | ToGroup str | Leader | Manager

definition recipient_parse :: "str \<Rightarrow> recipient option" where
  "recipient_parse wire =
     (let wire = trim wire in
      case strip_prefix wire ''agent:'' of
        Some a \<Rightarrow> if a \<noteq> [] then Some (ToAgent a) else None
      | None \<Rightarrow>
          (case strip_prefix wire ''group:'' of
             Some g \<Rightarrow> if g \<noteq> [] then Some (ToGroup g) else None
           | None \<Rightarrow> if wire = ''leader'' then Some Leader
                     else if wire = ''manager'' then Some Manager else None))"

fun to_wire :: "recipient \<Rightarrow> str" where
  "to_wire (ToAgent a) = ''agent:'' @ a"
| "to_wire (ToGroup g) = ''group:'' @ g"
| "to_wire Leader = ''leader''"
| "to_wire Manager = ''manager''"

fun recipient_agent_id :: "recipient \<Rightarrow> str option" where
  "recipient_agent_id (ToAgent a) = Some a"
| "recipient_agent_id _ = None"

section \<open>Rooms\<close>

record private_room =
  pr_id :: str
  pr_name :: str
  pr_members :: "str set"
  pr_created_at :: time

definition private_room_new :: "str \<Rightarrow> str \<Rightarrow> time \<Rightarrow> private_room" where
  "private_room_new rid name created = \<lparr>pr_id = rid, pr_name = name, pr_members = {}, pr_created_at = created\<rparr>"

definition add_member :: "str \<Rightarrow> private_room \<Rightarrow> bool \<times> private_room" where
  "add_member agent room = (agent \<notin> pr_members room, room\<lparr>pr_members := insert agent (pr_members room)\<rparr>)"

definition add_wire_member :: "private_room \<Rightarrow> str \<Rightarrow> private_room" where
  "add_wire_member room member =
     (case recipient_parse member of Some (ToAgent a) \<Rightarrow> snd (add_member a room) | _ \<Rightarrow> room)"

definition from_wire_members :: "str \<Rightarrow> str \<Rightarrow> time \<Rightarrow> str list \<Rightarrow> private_room" where
  "from_wire_members rid name created members = foldl add_wire_member (private_room_new rid name created) members"

fun permits :: "private_room \<Rightarrow> recipient \<Rightarrow> bool" where
  "permits room (ToAgent a) = (a \<in> pr_members room)"
| "permits room _ = True"

lemma from_wire_members_members:
  "pr_members (from_wire_members rid name created members) = {a. \<exists>m \<in> set members. recipient_parse m = Some (ToAgent a)}"
proof -
  have "pr_members (foldl add_wire_member room members) =
      pr_members room \<union> {a. \<exists>m \<in> set members. recipient_parse m = Some (ToAgent a)}" for room
    by (induction members arbitrary: room)
      (auto simp: add_wire_member_def add_member_def split: option.splits recipient.splits)
  then show ?thesis by (simp add: from_wire_members_def private_room_new_def)
qed

section \<open>Receipts and envelopes\<close>

record evidence_receipt =
  rv_schema_version :: u16
  rv_conclusion :: str
  rv_locator :: str
  rv_evidence_digest :: str
  rv_excerpt :: str

datatype evidence_receipt_error =
  ReceiptUnsupportedVersion u16 | MissingConclusion | MissingLocator | MissingDigest | ExcerptTooLarge usize usize

definition validate_receipt :: "evidence_receipt \<Rightarrow> evidence_receipt_error + unit" where
  "validate_receipt r =
     (if rv_schema_version r \<noteq> EVIDENCE_RECEIPT_SCHEMA_VERSION then Inl (ReceiptUnsupportedVersion (rv_schema_version r))
      else if trim (rv_conclusion r) = [] then Inl MissingConclusion
      else if trim (rv_locator r) = [] then Inl MissingLocator
      else if trim (rv_evidence_digest r) = [] then Inl MissingDigest
      else if MAX_EVIDENCE_RECEIPT_EXCERPT_BYTES < length (rv_excerpt r)
      then Inl (ExcerptTooLarge (length (rv_excerpt r)) MAX_EVIDENCE_RECEIPT_EXCERPT_BYTES)
      else Inr ())"

record office_envelope =
  oe_schema_version :: u16
  oe_id :: str
  oe_room_id :: str
  oe_sender :: str
  oe_recipient :: recipient
  oe_kind :: coordination_kind
  oe_task_id :: "str option"
  oe_summary :: str
  oe_artifact_refs :: "str list"
  oe_evidence :: "evidence_receipt list"
  oe_requested_action :: "str option"
  oe_sent_at :: time

datatype office_envelope_error =
  EnvelopeUnsupportedVersion u16 | MissingAddressing | MissingSummary | SummaryTooLarge usize usize
| InvalidArtifactReferences | TooManyEvidenceReceipts usize usize | InvalidEvidence evidence_receipt_error

fun validate_receipts :: "evidence_receipt list \<Rightarrow> office_envelope_error + unit" where
  "validate_receipts [] = Inr ()"
| "validate_receipts (r # rs) =
     (case validate_receipt r of Inl e \<Rightarrow> Inl (InvalidEvidence e) | Inr _ \<Rightarrow> validate_receipts rs)"

definition validate_envelope :: "office_envelope \<Rightarrow> office_envelope_error + unit" where
  "validate_envelope e =
     (if oe_schema_version e \<noteq> OFFICE_ENVELOPE_SCHEMA_VERSION then Inl (EnvelopeUnsupportedVersion (oe_schema_version e))
      else if trim (oe_id e) = [] \<or> trim (oe_room_id e) = [] \<or> trim (oe_sender e) = [] then Inl MissingAddressing
      else if trim (oe_summary e) = [] then Inl MissingSummary
      else if MAX_OFFICE_SUMMARY_BYTES < length (oe_summary e)
      then Inl (SummaryTooLarge (length (oe_summary e)) MAX_OFFICE_SUMMARY_BYTES)
      else if MAX_OFFICE_ARTIFACT_REFS < length (oe_artifact_refs e) \<or> list_ex (\<lambda>r. trim r = []) (oe_artifact_refs e)
      then Inl InvalidArtifactReferences
      else if MAX_OFFICE_EVIDENCE_RECEIPTS < length (oe_evidence e)
      then Inl (TooManyEvidenceReceipts (length (oe_evidence e)) MAX_OFFICE_EVIDENCE_RECEIPTS)
      else validate_receipts (oe_evidence e))"

text \<open>The object serde writes for a receipt and for an envelope: its keys in order, without what is skipped.\<close>

definition receipt_json :: "evidence_receipt \<Rightarrow> json" where
  "receipt_json r =
     JObject ([(''conclusion'', JString (rv_conclusion r)), (''evidence_digest'', JString (rv_evidence_digest r))] @
       (if rv_excerpt r = [] then [] else [(''excerpt'', JString (rv_excerpt r))]) @
       [(''locator'', JString (rv_locator r)), (''schema_version'', JNumber (PosInt (rv_schema_version r)))])"

definition optional_member :: "str \<Rightarrow> str option \<Rightarrow> (str \<times> json) list" where
  "optional_member k v = (case v of None \<Rightarrow> [] | Some s \<Rightarrow> [(k, JString s)])"

definition list_member :: "str \<Rightarrow> json list \<Rightarrow> (str \<times> json) list" where
  "list_member k vs = (if vs = [] then [] else [(k, JArray vs)])"

definition envelope_json :: "(time \<Rightarrow> json) \<Rightarrow> office_envelope \<Rightarrow> json" where
  "envelope_json time_json e =
     JObject (list_member ''artifact_refs'' (map JString (oe_artifact_refs e)) @
       list_member ''evidence'' (map receipt_json (oe_evidence e)) @
       [(''id'', JString (oe_id e)), (''kind'', JString (coordination_kind_str (oe_kind e))),
        (''recipient'', JString (to_wire (oe_recipient e)))] @
       optional_member ''requested_action'' (oe_requested_action e) @
       [(''room_id'', JString (oe_room_id e)), (''schema_version'', JNumber (PosInt (oe_schema_version e))),
        (''sender'', JString (oe_sender e)), (''sent_at'', time_json (oe_sent_at e)),
        (''summary'', JString (oe_summary e))] @
       optional_member ''task_id'' (oe_task_id e))"

section \<open>Old message objects\<close>

datatype envelope_decode_error =
  NotAnObject | MissingField str | InvalidField str str | InvalidJson str

text \<open>What serde reads from a JSON value.\<close>

record office_codec =
  of_envelope :: "json \<Rightarrow> str + office_envelope"
  of_recipient :: "json \<Rightarrow> str + recipient"
  of_time :: "json \<Rightarrow> str + time"
  of_receipts :: "json \<Rightarrow> str + evidence_receipt list"

definition field_err :: "str \<Rightarrow> str + 'a \<Rightarrow> envelope_decode_error + 'a" where
  "field_err field r = (case r of Inl detail \<Rightarrow> Inl (InvalidField field detail) | Inr x \<Rightarrow> Inr x)"

definition first_member :: "(str \<times> json) list \<Rightarrow> str list \<Rightarrow> json option" where
  "first_member obj names = find_map (\<lambda>k. map_of obj k) names"

definition legacy_required_value :: "(str \<times> json) list \<Rightarrow> str list \<Rightarrow> envelope_decode_error + json" where
  "legacy_required_value obj names = ok_or (first_member obj names) (MissingField (hd names))"

definition legacy_required_string :: "(str \<times> json) list \<Rightarrow> str list \<Rightarrow> envelope_decode_error + str" where
  "legacy_required_string obj names =
     r_bind (legacy_required_value obj names) (\<lambda>v. ok_or (as_str v) (InvalidField (hd names) ''must be a string''))"

definition legacy_optional_string :: "(str \<times> json) list \<Rightarrow> str list \<Rightarrow> envelope_decode_error + str option" where
  "legacy_optional_string obj names =
     (case first_member obj names of None \<Rightarrow> Inr None
      | Some JNull \<Rightarrow> Inr None
      | Some (JString s) \<Rightarrow> Inr (Some s)
      | Some _ \<Rightarrow> Inl (InvalidField (hd names) ''must be a string or null''))"

definition legacy_string_array :: "(str \<times> json) list \<Rightarrow> str list \<Rightarrow> envelope_decode_error + str list" where
  "legacy_string_array obj names =
     (case first_member obj names of None \<Rightarrow> Inr []
      | Some JNull \<Rightarrow> Inr []
      | Some (JArray vs) \<Rightarrow>
          r_mapm (\<lambda>v. ok_or (as_str v) (InvalidField (hd names) ''must contain only strings'')) vs
      | Some _ \<Rightarrow> Inl (InvalidField (hd names) ''must be an array''))"

definition legacy_sender :: "str \<Rightarrow> envelope_decode_error + str" where
  "legacy_sender sender =
     (let sender = trim sender in
      if sender = [] then Inl (InvalidField ''sender'' ''must not be empty'')
      else case recipient_parse sender of
        Some (ToAgent a) \<Rightarrow> Inr a
      | Some _ \<Rightarrow> Inl (InvalidField ''sender'' ''must address an agent'')
      | None \<Rightarrow> if starts_with sender ''agent:'' \<or> starts_with sender ''group:''
                then Inl (InvalidField ''sender'' ''has an invalid address'') else Inr sender)"

definition legacy_recipient :: "office_codec \<Rightarrow> json \<Rightarrow> envelope_decode_error + recipient" where
  "legacy_recipient K v =
     (case as_str v of
        Some wire \<Rightarrow> ok_or (recipient_parse wire) (InvalidField ''recipient'' ''has an invalid address'')
      | None \<Rightarrow> field_err ''recipient'' (of_recipient K v))"

definition legacy_datetime :: "office_codec \<Rightarrow> (str \<times> json) list \<Rightarrow> str list \<Rightarrow> envelope_decode_error + time" where
  "legacy_datetime K obj names =
     r_bind (legacy_required_value obj names) (\<lambda>v. field_err (hd names) (of_time K v))"

text \<open>Strings in the place of receipts are references to artifacts.\<close>

definition legacy_evidence ::
    "office_codec \<Rightarrow> (str \<times> json) list \<Rightarrow> str list \<Rightarrow> envelope_decode_error + evidence_receipt list \<times> str list" where
  "legacy_evidence K payload refs =
     (case or_else (map_of payload ''evidence_receipts'') (map_of payload ''evidence'') of
        None \<Rightarrow> Inr ([], refs)
      | Some JNull \<Rightarrow> Inr ([], refs)
      | Some v \<Rightarrow>
          (case as_array v of
             Some vs \<Rightarrow> if list_all (\<lambda>v. as_str v \<noteq> None) vs
                        then Inr ([], refs @ List.map_filter as_str vs)
                        else r_map (\<lambda>rs. (rs, refs)) (field_err ''evidence'' (of_receipts K v))
           | None \<Rightarrow> r_map (\<lambda>rs. (rs, refs)) (field_err ''evidence'' (of_receipts K v))))"

definition payload_of :: "(str \<times> json) list \<Rightarrow> envelope_decode_error + (str \<times> json) list" where
  "payload_of obj =
     (case map_of obj ''payload'' of None \<Rightarrow> Inr obj
      | Some p \<Rightarrow> ok_or (as_object p) (InvalidField ''payload'' ''must be an object''))"

definition from_legacy_raw :: "office_codec \<Rightarrow> json \<Rightarrow> envelope_decode_error + office_envelope" where
  "from_legacy_raw K raw =
     r_bind (ok_or (as_object raw) NotAnObject) (\<lambda>obj.
     if map_of obj ''schema_version'' \<noteq> None \<and> map_of obj ''room_id'' \<noteq> None
     then field_err ''office envelope'' (of_envelope K raw)
     else
       r_bind (payload_of obj) (\<lambda>payload.
       r_bind (legacy_required_string obj [''id'', ''message_id'']) (\<lambda>mid.
       r_bind (legacy_required_string obj [''room'', ''room_id'']) (\<lambda>room.
       r_bind (r_bind (legacy_required_string obj [''sender'', ''sender_id'']) legacy_sender) (\<lambda>sender.
       r_bind (r_bind (legacy_required_value obj [''recipient'']) (legacy_recipient K)) (\<lambda>recipient.
       r_bind (r_bind (legacy_required_string obj [''kind'']) (\<lambda>k.
          ok_or (coordination_kind_parse k) (InvalidField ''kind'' ''must be a supported coordination kind''))) (\<lambda>kind.
       r_bind (legacy_required_string payload [''body'', ''summary'']) (\<lambda>summary.
       r_bind (legacy_optional_string payload [''task_id'']) (\<lambda>task_id.
       r_bind (legacy_optional_string payload [''requested_action'']) (\<lambda>action.
       r_bind (legacy_string_array payload [''refs'', ''artifact_refs'']) (\<lambda>refs.
       r_bind (legacy_evidence K payload refs) (\<lambda>(evidence, refs).
       r_bind (legacy_datetime K obj [''occurred_at'', ''sent_at'']) (\<lambda>sent.
         Inr \<lparr>oe_schema_version = OFFICE_ENVELOPE_SCHEMA_VERSION, oe_id = mid, oe_room_id = room,
              oe_sender = sender, oe_recipient = recipient, oe_kind = kind, oe_task_id = task_id,
              oe_summary = summary, oe_artifact_refs = sort_dedup refs, oe_evidence = evidence,
              oe_requested_action = action, oe_sent_at = sent\<rparr>)))))))))))))"

definition from_legacy_json :: "office_codec \<Rightarrow> (str \<Rightarrow> str + json) \<Rightarrow> str \<Rightarrow> envelope_decode_error + office_envelope" where
  "from_legacy_json K parse raw =
     (case parse raw of Inl e \<Rightarrow> Inl (InvalidJson e) | Inr v \<Rightarrow> from_legacy_raw K v)"

section \<open>Addresses on the wire\<close>

text \<open>The addresses that survive the white space the parser takes off and are not empty.\<close>

fun canonical :: "recipient \<Rightarrow> bool" where
  "canonical (ToAgent a) = (a \<noteq> [] \<and> trim (''agent:'' @ a) = ''agent:'' @ a)"
| "canonical (ToGroup g) = (g \<noteq> [] \<and> trim (''group:'' @ g) = ''group:'' @ g)"
| "canonical _ = True"

lemma recipient_parse_agent: "recipient_parse w = Some (ToAgent a) \<longleftrightarrow> trim w = ''agent:'' @ a \<and> a \<noteq> []"
  by (auto simp: recipient_parse_def Let_def result_simps strip_prefix_None split: option.splits if_splits)

lemma recipient_parse_group: "recipient_parse w = Some (ToGroup g) \<longleftrightarrow> trim w = ''group:'' @ g \<and> g \<noteq> []"
  by (auto simp: recipient_parse_def Let_def result_simps strip_prefix_None split: option.splits if_splits)

text \<open>An address is read back from its wire form exactly when it is canonical: not an empty agent or
  group, and without white space that the parser takes off at the ends of the wire form.\<close>

theorem address_is_read_back: "recipient_parse (to_wire r) = Some r \<longleftrightarrow> canonical r"
proof (cases r)
  case (ToAgent a)
  then show ?thesis using recipient_parse_agent[of "to_wire r" a] by auto
next
  case (ToGroup g)
  then show ?thesis using recipient_parse_group[of "to_wire r" g] by auto
next
  case Leader
  moreover have "recipient_parse ''leader'' = Some Leader" by code_simp
  ultimately show ?thesis by simp
next
  case Manager
  moreover have "recipient_parse ''manager'' = Some Manager" by code_simp
  ultimately show ?thesis by simp
qed

section \<open>Leases backed by evidence\<close>

record artifact_ref =
  af_id :: str
  af_kind :: str
  af_uri :: str
  af_digest :: "str option"

record lease_evidence =
  lv_observation_id :: str
  lv_artifact :: artifact_ref
  lv_observed_at :: time

record office_lease =
  ol_id :: str
  ol_task_id :: str
  ol_holder :: str
  ol_generation :: u64
  ol_acquired_at :: time
  ol_expires_at :: time
  ol_evidence :: "lease_evidence list"

datatype office_lease_error = OfficeLeaseExpired | OfficeLeaseFenced | MissingEvidence

definition office_lease_expired :: "time \<Rightarrow> office_lease \<Rightarrow> bool" where
  "office_lease_expired now l = (ol_expires_at l \<le> now)"

definition has_evidence :: "office_lease \<Rightarrow> bool" where
  "has_evidence l = (ol_evidence l \<noteq> [])"

definition validate_office_lease :: "str \<Rightarrow> u64 \<Rightarrow> time \<Rightarrow> office_lease \<Rightarrow> office_lease_error + unit" where
  "validate_office_lease owner gen now l =
     (if office_lease_expired now l then Inl OfficeLeaseExpired
      else if ol_holder l \<noteq> owner \<or> ol_generation l \<noteq> gen then Inl OfficeLeaseFenced
      else if \<not> has_evidence l then Inl MissingEvidence
      else Inr ())"

definition renew_office_lease ::
    "str \<Rightarrow> u64 \<Rightarrow> lease_evidence \<Rightarrow> time \<Rightarrow> int \<Rightarrow> office_lease \<Rightarrow> office_lease_error + office_lease" where
  "renew_office_lease owner gen ev now duration l =
     r_map (\<lambda>_. l\<lparr>ol_evidence := ol_evidence l @ [ev], ol_expires_at := now + duration\<rparr>)
       (validate_office_lease owner gen now l)"

text \<open>A renewed lease is valid for the same holder and generation until it expires, and for no other.\<close>

lemma renewed_lease_is_fenced:
  "renew_office_lease owner gen ev now duration l = Inr l' \<Longrightarrow>
   validate_office_lease owner' gen' later l' = Inr () \<longleftrightarrow>
     later < now + duration \<and> owner' = owner \<and> gen' = gen"
  by (auto simp: renew_office_lease_def validate_office_lease_def office_lease_expired_def has_evidence_def
      result_simps split: if_splits)

end
