(* ===== verification/Store_Office.thy ===== *)
theory Store_Office
  imports Office Store_Runs
begin

text \<open>
  Rooms and messages of the office (\<open>crates/minha-core/src/store.rs\<close>): a message is posted into a room,
  a sender that is not a member of a private room is refused, equal messages are posted once, an
  inbox hands every message to an address once, and a consumer reads a room through a cursor. The
  database is the store with the tables of the office; the instants one operation reads are one
  instant. SHA-256 and the text of a JSON value are arguments.
\<close>

section \<open>Tables\<close>

record room_row =
  om_kind :: str
  om_purpose :: str
  om_owner :: "str option"
  om_state :: str
  om_created_at :: time
  om_closed_at :: "time option"
  om_closure_summary :: "str option"

record hive_row =
  hv_run_id :: str
  hv_room_id :: str
  hv_sender :: str
  hv_recipient :: str
  hv_kind :: str
  hv_payload :: str
  hv_occurred_at :: time
  hv_expires_at :: "time option"
  hv_sequence :: i64

record artifact_row =
  aw_run_id :: str
  aw_kind :: str
  aw_digest :: str
  aw_body :: str
  aw_provenance :: str
  aw_created_at :: time

record office_db = store_db +
  t_rooms :: "((str \<times> str) \<times> room_row) list"
  t_members :: "((str \<times> str \<times> str) \<times> time) list"
  t_cursors :: "((str \<times> str \<times> str) \<times> i64 \<times> time) list"
  t_hive :: "(str \<times> hive_row) list"
  t_consumed :: "((str \<times> str) \<times> time) list"
  t_dedup :: "((str \<times> str) \<times> str) list"
  t_artifacts :: "(str \<times> artifact_row) list"

section \<open>Posting\<close>

definition room_members :: "run_id \<Rightarrow> str \<Rightarrow> office_db \<Rightarrow> str list" where
  "room_members rid room db =
     map (\<lambda>((_, _, m), _). m) (filter (\<lambda>((r, q, _), _). r = rid \<and> q = room) (t_members db))"

definition load_private_room :: "run_id \<Rightarrow> str \<Rightarrow> office_db \<Rightarrow> private_room option" where
  "load_private_room rid room db =
     map_option (\<lambda>row. from_wire_members room room (om_created_at row) (room_members rid room db))
       (map_of (t_rooms db) (rid, room))"

definition payload_text :: "json \<Rightarrow> str" where
  "payload_text payload =
     (case or_else (json_get payload ''body'') (json_get payload ''summary'') of
        None \<Rightarrow> [] | Some v \<Rightarrow> unwrap_or (as_str v) [])"

definition normalized_text :: "json \<Rightarrow> str" where
  "normalized_text payload = to_ascii_lowercase (join '' '' (split_whitespace (payload_text payload)))"

definition payload_member :: "json \<Rightarrow> str \<Rightarrow> str \<Rightarrow> json" where
  "payload_member payload k k' = unwrap_or (or_else (json_get payload k) (json_get payload k')) JNull"

text \<open>What makes two messages equal: not the room they are posted into.\<close>

definition dedupe_text :: "(json \<Rightarrow> str) \<Rightarrow> str \<Rightarrow> str \<Rightarrow> str \<Rightarrow> json \<Rightarrow> str" where
  "dedupe_text show_json sender recipient kind payload =
     join [CHR 0x00] [sender, recipient, kind, unwrap_or (get_str payload ''task_id'') [], normalized_text payload,
       show_json (payload_member payload ''refs'' ''artifact_refs''),
       show_json (payload_member payload ''evidence_receipts'' ''evidence'')]"

definition dedupe_key :: "(str \<Rightarrow> str) \<Rightarrow> (json \<Rightarrow> str) \<Rightarrow> str \<Rightarrow> str \<Rightarrow> str \<Rightarrow> json \<Rightarrow> str" where
  "dedupe_key sha256 show_json sender recipient kind payload =
     hex (sha256 (dedupe_text show_json sender recipient kind payload))"

definition sender_of :: "str \<Rightarrow> recipient" where
  "sender_of sender = (case recipient_parse sender of Some r \<Rightarrow> r | None \<Rightarrow> ToAgent sender)"

definition may_post :: "run_id \<Rightarrow> str \<Rightarrow> str \<Rightarrow> office_db \<Rightarrow> bool" where
  "may_post rid room sender db =
     (room = RUN_ROOM_ID \<or>
      (case load_private_room rid room db of None \<Rightarrow> True | Some r \<Rightarrow> permits r (sender_of sender)))"

definition ensure_room :: "time \<Rightarrow> run_id \<Rightarrow> str \<Rightarrow> str \<Rightarrow> office_db \<Rightarrow> store_error + office_db" where
  "ensure_room now rid room sender db =
     (if map_of (t_rooms db) (rid, room) \<noteq> None then Inr db
      else references (t_runs db) rid (Inr (db\<lparr>t_rooms := bt_insert (rid, room)
        \<lparr>om_kind = (if room = RUN_ROOM_ID then ''run'' else ''temporary''),
         om_purpose = (if room = RUN_ROOM_ID then ''Run coordination'' else room), om_owner = Some sender,
         om_state = ''open'', om_created_at = now, om_closed_at = None, om_closure_summary = None\<rparr> (t_rooms db)\<rparr>)))"

definition ensure_member :: "time \<Rightarrow> run_id \<Rightarrow> str \<Rightarrow> str \<Rightarrow> office_db \<Rightarrow> office_db" where
  "ensure_member now rid room member db =
     (if map_of (t_members db) (rid, room, member) \<noteq> None then db
      else db\<lparr>t_members := bt_insert (rid, room, member) now (t_members db)\<rparr>)"

definition room_sequences :: "run_id \<Rightarrow> str \<Rightarrow> office_db \<Rightarrow> i64 list" where
  "room_sequences rid room db =
     map (hv_sequence \<circ> snd) (filter (\<lambda>(_, row). hv_run_id row = rid \<and> hv_room_id row = room) (t_hive db))"

definition next_room_sequence :: "run_id \<Rightarrow> str \<Rightarrow> office_db \<Rightarrow> store_error + i64" where
  "next_room_sequence rid room db =
     get_i64 (sql_add (SqlInteger (case room_sequences rid room db of [] \<Rightarrow> 0 | n # ns \<Rightarrow> foldl max n ns)) 1)"

definition post_message ::
    "codec \<Rightarrow> time \<Rightarrow> run_id \<Rightarrow> str \<Rightarrow> str \<Rightarrow> str \<Rightarrow> str \<Rightarrow> str \<Rightarrow> json \<Rightarrow> time option \<Rightarrow> str \<Rightarrow> office_db \<Rightarrow>
     store_error + office_db" where
  "post_message C now rid mid room sender recipient kind payload expires key db =
     r_bind (next_room_sequence rid room db) (\<lambda>n.
     r_bind (json_err (enc_value C payload)) (\<lambda>body.
     r_bind (references (t_runs db) rid (insert_row mid
         \<lparr>hv_run_id = rid, hv_room_id = room, hv_sender = sender, hv_recipient = recipient, hv_kind = kind,
          hv_payload = body, hv_occurred_at = now, hv_expires_at = expires, hv_sequence = n\<rparr> (t_hive db))) (\<lambda>hive.
     r_bind (insert_row (rid, key) mid (t_dedup db)) (\<lambda>dedup.
       Inr (db\<lparr>t_hive := hive, t_dedup := dedup\<rparr>)))))"

definition insert_hive_message ::
    "(str \<Rightarrow> str) \<Rightarrow> (json \<Rightarrow> str) \<Rightarrow> codec \<Rightarrow> time \<Rightarrow> run_id \<Rightarrow> str \<Rightarrow> str \<Rightarrow> str \<Rightarrow> str \<Rightarrow> str \<Rightarrow> json \<Rightarrow> time option \<Rightarrow>
     office_db \<Rightarrow> store_error + str \<times> office_db" where
  "insert_hive_message sha256 show_json C now rid mid room sender recipient kind payload expires db =
     (let key = dedupe_key sha256 show_json sender recipient kind payload in
      if \<not> may_post rid room sender db then Inl (RoomAccessDenied sender room)
      else r_bind (ensure_room now rid room sender db) (\<lambda>db.
        let db = ensure_member now rid room recipient (ensure_member now rid room sender db) in
        case map_of (t_dedup db) (rid, key) of
          Some existing \<Rightarrow> Inr (existing, db)
        | None \<Rightarrow> r_map (\<lambda>db. (mid, db)) (post_message C now rid mid room sender recipient kind payload expires key db)))"

definition envelope_error_text :: "office_envelope_error \<Rightarrow> str" where
  "envelope_error_text e =
     (case e of
        EnvelopeUnsupportedVersion v \<Rightarrow> ''unsupported office envelope schema version: '' @ show_nat v
      | MissingAddressing \<Rightarrow> ''office envelope requires id, room, and sender''
      | MissingSummary \<Rightarrow> ''office envelope requires a compact summary''
      | SummaryTooLarge n lim \<Rightarrow>
          ''office summary is '' @ show_nat n @ '' bytes, exceeding the '' @ show_nat lim @ ''-byte limit''
      | InvalidArtifactReferences \<Rightarrow> ''office envelope has invalid artifact references''
      | TooManyEvidenceReceipts n lim \<Rightarrow>
          ''office envelope has '' @ show_nat n @ '' evidence receipts, exceeding the '' @ show_nat lim @ ''-receipt limit''
      | InvalidEvidence r \<Rightarrow> ''office envelope has invalid evidence receipt: '' @
          (case r of
             ReceiptUnsupportedVersion v \<Rightarrow> ''unsupported evidence receipt schema version: '' @ show_nat v
           | MissingConclusion \<Rightarrow> ''evidence receipt requires a conclusion''
           | MissingLocator \<Rightarrow> ''evidence receipt requires an exact locator''
           | MissingDigest \<Rightarrow> ''evidence receipt requires an evidence digest''
           | ExcerptTooLarge n lim \<Rightarrow> ''evidence receipt excerpt is '' @ show_nat n @ '' bytes, exceeding the '' @
               show_nat lim @ ''-byte limit''))"

definition insert_office_envelope ::
    "(str \<Rightarrow> str) \<Rightarrow> (json \<Rightarrow> str) \<Rightarrow> codec \<Rightarrow> (time \<Rightarrow> json) \<Rightarrow> time \<Rightarrow> run_id \<Rightarrow> office_envelope \<Rightarrow> time option \<Rightarrow>
     office_db \<Rightarrow> store_error + str \<times> office_db" where
  "insert_office_envelope sha256 show_json C time_json now rid e expires db =
     (case validate_envelope e of
        Inl err \<Rightarrow> Inl (Coordination (''invalid office envelope: '' @ envelope_error_text err))
      | Inr _ \<Rightarrow> insert_hive_message sha256 show_json C now rid (oe_id e) (oe_room_id e)
          (''agent:'' @ oe_sender e) (to_wire (oe_recipient e)) (coordination_kind_str (oe_kind e))
          (envelope_json time_json e) expires db)"

section \<open>Reading\<close>

record inbox_item =
  ii_id :: str
  ii_room :: str
  ii_sender :: str
  ii_recipient :: str
  ii_kind :: str
  ii_payload :: json
  ii_occurred_at :: time

definition inbox_json :: "(time \<Rightarrow> json) \<Rightarrow> inbox_item \<Rightarrow> json" where
  "inbox_json time_json m =
     JObject [(''id'', JString (ii_id m)), (''kind'', JString (ii_kind m)),
       (''occurred_at'', time_json (ii_occurred_at m)), (''payload'', ii_payload m),
       (''recipient'', JString (ii_recipient m)), (''room'', JString (ii_room m)), (''sender'', JString (ii_sender m))]"

definition not_expired :: "time \<Rightarrow> hive_row \<Rightarrow> bool" where
  "not_expired now row = (case hv_expires_at row of None \<Rightarrow> True | Some t \<Rightarrow> now < t)"

definition deliverable :: "time \<Rightarrow> run_id \<Rightarrow> str \<Rightarrow> office_db \<Rightarrow> str \<times> hive_row \<Rightarrow> bool" where
  "deliverable now rid address db p =
     (case p of (mid, row) \<Rightarrow>
        hv_run_id row = rid \<and> (hv_recipient row = address \<or> hv_recipient row = ''group:all'') \<and> not_expired now row \<and>
        (hv_room_id row = RUN_ROOM_ID \<or> map_of (t_members db) (rid, hv_room_id row, address) \<noteq> None) \<and>
        map_of (t_consumed db) (mid, address) = None)"

definition item_of_row :: "codec \<Rightarrow> str \<times> hive_row \<Rightarrow> store_error + inbox_item" where
  "item_of_row C p =
     (case p of (mid, row) \<Rightarrow>
        r_map (\<lambda>payload. \<lparr>ii_id = mid, ii_room = hv_room_id row, ii_sender = hv_sender row,
                 ii_recipient = hv_recipient row, ii_kind = hv_kind row, ii_payload = payload,
                 ii_occurred_at = hv_occurred_at row\<rparr>)
          (json_err (dec_value C (hv_payload row))))"

definition consume :: "time \<Rightarrow> str \<Rightarrow> str \<Rightarrow> office_db \<Rightarrow> office_db" where
  "consume now address mid db =
     (if map_of (t_consumed db) (mid, address) \<noteq> None then db
      else db\<lparr>t_consumed := bt_insert (mid, address) now (t_consumed db)\<rparr>)"

definition inbox_rows :: "time \<Rightarrow> run_id \<Rightarrow> str \<Rightarrow> usize \<Rightarrow> office_db \<Rightarrow> (str \<times> hive_row) list" where
  "inbox_rows now rid address lim db =
     take (min lim 100) (sort_key (\<lambda>(mid, row). (hv_occurred_at row, mid)) (filter (deliverable now rid address db) (t_hive db)))"

definition hive_inbox ::
    "codec \<Rightarrow> time \<Rightarrow> run_id \<Rightarrow> str \<Rightarrow> usize \<Rightarrow> office_db \<Rightarrow> store_error + inbox_item list \<times> office_db" where
  "hive_inbox C now rid address lim db =
     r_map (\<lambda>items. (items, foldl (\<lambda>db m. consume now address (ii_id m) db) db items))
       (r_mapm (item_of_row C) (inbox_rows now rid address lim db))"

definition decode_error_text :: "envelope_decode_error \<Rightarrow> str" where
  "decode_error_text e =
     (case e of
        NotAnObject \<Rightarrow> ''legacy office envelope is not an object''
      | MissingField f \<Rightarrow> ''legacy office envelope is missing `'' @ f @ ''`''
      | InvalidField f d \<Rightarrow> ''legacy office envelope has invalid `'' @ f @ ''`: '' @ d
      | InvalidJson d \<Rightarrow> ''legacy office envelope JSON is invalid: '' @ d)"

text \<open>The inbox is read, and its messages consumed, in one transaction; they are decoded after it.\<close>

definition office_inbox ::
    "codec \<Rightarrow> office_codec \<Rightarrow> (time \<Rightarrow> json) \<Rightarrow> time \<Rightarrow> run_id \<Rightarrow> str \<Rightarrow> usize \<Rightarrow> office_db \<Rightarrow>
     (store_error + office_envelope list) \<times> office_db" where
  "office_inbox C K time_json now rid address lim db =
     (case hive_inbox C now rid address lim db of
        Inl e \<Rightarrow> (Inl e, db)
      | Inr (items, db') \<Rightarrow>
          (r_mapm (\<lambda>m. case from_legacy_raw K (inbox_json time_json m) of
              Inl e \<Rightarrow> Inl (Coordination (''could not decode office message: '' @ decode_error_text e))
            | Inr v \<Rightarrow> Inr v) items, db'))"

record room_message =
  rg_id :: str
  rg_sequence :: i64
  rg_room :: str
  rg_sender :: str
  rg_recipient :: str
  rg_kind :: str
  rg_payload :: json
  rg_occurred_at :: time

definition room_message_of :: "codec \<Rightarrow> str \<times> hive_row \<Rightarrow> room_message" where
  "room_message_of C p =
     (case p of (mid, row) \<Rightarrow>
        \<lparr>rg_id = mid, rg_sequence = hv_sequence row, rg_room = hv_room_id row, rg_sender = hv_sender row,
         rg_recipient = hv_recipient row, rg_kind = hv_kind row,
         rg_payload = (case dec_value C (hv_payload row) of Inl _ \<Rightarrow> JNull | Inr v \<Rightarrow> v),
         rg_occurred_at = hv_occurred_at row\<rparr>)"

definition read_cursor :: "run_id \<Rightarrow> str \<Rightarrow> str \<Rightarrow> office_db \<Rightarrow> i64" where
  "read_cursor rid room consumer db =
     (case map_of (t_cursors db) (rid, room, consumer) of None \<Rightarrow> 0 | Some (n, _) \<Rightarrow> n)"

definition move_cursor :: "time \<Rightarrow> run_id \<Rightarrow> str \<Rightarrow> str \<Rightarrow> i64 \<Rightarrow> office_db \<Rightarrow> store_error + office_db" where
  "move_cursor now rid room consumer n db =
     references (t_rooms db) (rid, room) (Inr (db\<lparr>t_cursors := bt_insert (rid, room, consumer)
       ((case map_of (t_cursors db) (rid, room, consumer) of None \<Rightarrow> n | Some (m, _) \<Rightarrow> max m n), now) (t_cursors db)\<rparr>))"

definition office_room_messages ::
    "codec \<Rightarrow> time \<Rightarrow> run_id \<Rightarrow> str \<Rightarrow> str \<Rightarrow> usize \<Rightarrow> office_db \<Rightarrow> store_error + room_message list \<times> office_db" where
  "office_room_messages C now rid room consumer lim db =
     (let rows = take (min lim 100) (sort_key (\<lambda>(_, row). hv_sequence row)
            (filter (\<lambda>(_, row). hv_run_id row = rid \<and> hv_room_id row = room \<and>
               read_cursor rid room consumer db < hv_sequence row \<and> not_expired now row) (t_hive db)));
          messages = map (room_message_of C) rows
      in if messages = [] then Inr ([], db)
         else r_map (\<lambda>db'. (messages, db')) (move_cursor now rid room consumer (rg_sequence (last messages)) db))"

definition close_row :: "time \<Rightarrow> str \<Rightarrow> room_row \<Rightarrow> room_row" where
  "close_row now summary row =
     (if om_state row = ''open''
      then row\<lparr>om_state := ''closed'', om_closed_at := Some now, om_closure_summary := Some summary\<rparr> else row)"

definition close_office_room :: "time \<Rightarrow> run_id \<Rightarrow> str \<Rightarrow> str \<Rightarrow> office_db \<Rightarrow> office_db" where
  "close_office_room now rid room summary db =
     db\<lparr>t_rooms := bt_update (rid, room) (close_row now summary) (t_rooms db)\<rparr>"

definition close_office_rooms :: "time \<Rightarrow> run_id \<Rightarrow> str \<Rightarrow> office_db \<Rightarrow> u64 \<times> office_db" where
  "close_office_rooms now rid summary db =
     (count_where (\<lambda>(r, _) row. r = rid \<and> om_state row = ''open'') (t_rooms db),
      db\<lparr>t_rooms := map (\<lambda>((r, q), row). ((r, q), if r = rid then close_row now summary row else row)) (t_rooms db)\<rparr>)"

definition put_office_artifact ::
    "(str \<Rightarrow> str) \<Rightarrow> codec \<Rightarrow> time \<Rightarrow> run_id \<Rightarrow> str \<Rightarrow> str \<Rightarrow> str \<Rightarrow> json \<Rightarrow> office_db \<Rightarrow> store_error + str \<times> office_db" where
  "put_office_artifact sha256 C now rid aid kind body provenance db =
     r_bind (json_err (enc_value C provenance)) (\<lambda>doc.
       case map_of (t_artifacts db) aid of
         Some row \<Rightarrow> Inr (aw_digest row, db)
       | None \<Rightarrow> references (t_runs db) rid (Inr (hex (sha256 body), db\<lparr>t_artifacts := bt_insert aid
           \<lparr>aw_run_id = rid, aw_kind = kind, aw_digest = hex (sha256 body), aw_body = body, aw_provenance = doc,
            aw_created_at = now\<rparr> (t_artifacts db)\<rparr>)))"

definition office_health :: "run_id \<Rightarrow> office_db \<Rightarrow> u64 \<times> u64 \<times> u64" where
  "office_health rid db =
     (length (filter (\<lambda>(_, row). ar_state row \<notin> {''completed'', ''failed'', ''cancelled''}) (rows_of_run rid (t_agents db))),
      length (filter (\<lambda>(_, row). tr_state row \<notin> {''completed'', ''failed''}) (rows_of_run rid (t_tasks db))),
      length (filter (\<lambda>(_, row). tr_state row \<in> {''blocked'', ''failed''}) (rows_of_run rid (t_tasks db))))"

section \<open>Histories\<close>

text \<open>The operations of the office, for any run, one after another; one that fails changes nothing.\<close>

datatype office_op =
  Post time run_id str str str str str json "time option"
| PostEnvelope time run_id office_envelope "time option"
| ReadInbox time run_id str usize
| ReadRoom time run_id str str usize
| CloseRoom time run_id str str
| CloseRooms time run_id str
| PutArtifact time run_id str str str json

definition kept :: "'s \<Rightarrow> 'e + 'a \<times> 's \<Rightarrow> 's" where
  "kept s r = (case r of Inl _ \<Rightarrow> s | Inr (_, s') \<Rightarrow> s')"

record office_env =
  en_sha256 :: "str \<Rightarrow> str"
  en_show_json :: "json \<Rightarrow> str"
  en_codec :: codec
  en_time_json :: "time \<Rightarrow> json"

fun office_op_step :: "office_env \<Rightarrow> office_op \<Rightarrow> office_db \<Rightarrow> office_db" where
  "office_op_step E (Post now rid mid room sender recipient kind payload expires) db =
     kept db (insert_hive_message (en_sha256 E) (en_show_json E) (en_codec E) now rid mid room sender recipient kind
       payload expires db)"
| "office_op_step E (PostEnvelope now rid e expires) db =
     kept db (insert_office_envelope (en_sha256 E) (en_show_json E) (en_codec E) (en_time_json E) now rid e expires db)"
| "office_op_step E (ReadInbox now rid address lim) db = kept db (hive_inbox (en_codec E) now rid address lim db)"
| "office_op_step E (ReadRoom now rid room consumer lim) db =
     kept db (office_room_messages (en_codec E) now rid room consumer lim db)"
| "office_op_step E (CloseRoom now rid room summary) db = close_office_room now rid room summary db"
| "office_op_step E (CloseRooms now rid summary) db = snd (close_office_rooms now rid summary db)"
| "office_op_step E (PutArtifact now rid aid kind body provenance) db =
     kept db (put_office_artifact (en_sha256 E) (en_codec E) now rid aid kind body provenance db)"

definition office_history :: "office_env \<Rightarrow> office_op list \<Rightarrow> office_db \<Rightarrow> office_db" where
  "office_history E ops db = foldl (\<lambda>db op. office_op_step E op db) db ops"

lemma office_history_inv:
  assumes "P db" and "\<And>op db. op \<in> set ops \<Longrightarrow> P db \<Longrightarrow> P (office_op_step E op db)"
  shows "P (office_history E ops db)"
  using assms by (induction ops arbitrary: db) (auto simp: office_history_def)

text \<open>The tables one operation may write.\<close>

definition quiet :: "office_db \<Rightarrow> office_db \<Rightarrow> bool" where
  "quiet db db' \<longleftrightarrow> t_members db' = t_members db \<and> t_dedup db' = t_dedup db \<and> t_hive db' = t_hive db \<and>
     (\<forall>k. map_of (t_rooms db) k \<noteq> None \<longrightarrow> map_of (t_rooms db') k \<noteq> None) \<and>
     (\<forall>k. map_of (t_consumed db) k \<noteq> None \<longrightarrow> map_of (t_consumed db') k \<noteq> None)"

lemma quiet_refl [simp]: "quiet db db" by (simp add: quiet_def)

lemma quiet_trans: "quiet a b \<Longrightarrow> quiet b c \<Longrightarrow> quiet a c" by (simp add: quiet_def)

lemma quiet_consume: "quiet db (consume now address mid db)"
  by (simp add: quiet_def consume_def)

lemma quiet_consume_all: "quiet db (foldl (\<lambda>db m. consume now address (f m) db) db ms)"
  by (induction ms arbitrary: db) (auto intro: quiet_trans quiet_consume)

lemma quiet_inbox: "hive_inbox C now rid address lim db = Inr (items, db') \<Longrightarrow> quiet db db'"
  by (auto simp: hive_inbox_def result_simps quiet_consume_all)

lemma quiet_room_messages: "office_room_messages C now rid room consumer lim db = Inr (ms, db') \<Longrightarrow> quiet db db'"
  by (auto simp: office_room_messages_def result_simps Let_def move_cursor_def quiet_def split: if_splits)

lemma map_of_map_rows: "map_of (map (\<lambda>(k, v). (k, f k v)) t) k = map_option (f k) (map_of t k)"
  by (induction t) auto

lemma quiet_close_rooms: "quiet db (snd (close_office_rooms now rid summary db))"
proof -
  have rows: "(\<lambda>((r, q), row). ((r, q), if r = rid then close_row now summary row else row)) =
      (\<lambda>(k, row). (k, (\<lambda>(r, _) row. if r = rid then close_row now summary row else row) k row))"
    by auto
  show ?thesis unfolding close_office_rooms_def snd_conv rows by (simp add: quiet_def map_of_map_rows)
qed

lemma quiet_artifact: "put_office_artifact sha256 C now rid aid kind body provenance db = Inr (x, db') \<Longrightarrow> quiet db db'"
  by (auto simp: put_office_artifact_def result_simps quiet_def split: option.splits)

text \<open>Every operation is quiet, or posts a message.\<close>

fun post_of :: "office_op \<Rightarrow> (run_id \<times> str \<times> str \<times> str) option" where
  "post_of (Post now rid mid room sender recipient kind payload expires) = Some (rid, room, sender, recipient)"
| "post_of (PostEnvelope now rid e expires) =
     Some (rid, oe_room_id e, ''agent:'' @ oe_sender e, to_wire (oe_recipient e))"
| "post_of _ = None"

lemma office_op_cases:
  "quiet db (office_op_step E op db) \<or>
   (\<exists>now rid mid room sender recipient kind payload expires key. post_of op = Some (rid, room, sender, recipient) \<and>
      insert_hive_message (en_sha256 E) (en_show_json E) (en_codec E) now rid mid room sender recipient kind payload
        expires db = Inr (key, office_op_step E op db))"
proof (cases op)
  case (Post now rid mid room sender recipient kind payload expires)
  show ?thesis
  proof (cases "insert_hive_message (en_sha256 E) (en_show_json E) (en_codec E) now rid mid room sender recipient kind
      payload expires db")
    case (Inr p)
    then show ?thesis by (cases p) (simp add: Post kept_def, blast)
  qed (simp add: Post kept_def)
next
  case (PostEnvelope now rid e expires)
  show ?thesis
  proof (cases "insert_office_envelope (en_sha256 E) (en_show_json E) (en_codec E) (en_time_json E) now rid e expires db")
    case (Inr p)
    then show ?thesis
      by (cases p) (simp add: PostEnvelope kept_def insert_office_envelope_def split: sum.splits, blast)
  qed (simp add: PostEnvelope kept_def)
next
  case (ReadInbox now rid address lim)
  then show ?thesis by (auto simp: kept_def quiet_inbox split: sum.splits)
next
  case (ReadRoom now rid room consumer lim)
  then show ?thesis by (auto simp: kept_def quiet_room_messages split: sum.splits)
next
  case (CloseRoom now rid room summary)
  then show ?thesis by (simp add: close_office_room_def quiet_def)
next
  case (CloseRooms now rid summary)
  then show ?thesis by (simp add: quiet_close_rooms)
next
  case (PutArtifact now rid aid kind body provenance)
  then show ?thesis by (auto simp: kept_def quiet_artifact split: sum.splits)
qed

section \<open>What a post does\<close>

lemma ensure_room_Inr:
  assumes "ensure_room now rid room sender db = Inr db'"
  shows "t_members db' = t_members db \<and> t_dedup db' = t_dedup db \<and> t_hive db' = t_hive db \<and>
    t_consumed db' = t_consumed db \<and> (\<forall>k. map_of (t_rooms db') k \<noteq> None \<longleftrightarrow> map_of (t_rooms db) k \<noteq> None \<or> k = (rid, room))"
  using assms by (auto simp: ensure_room_def result_simps split: if_splits)

lemma ensure_member_effect:
  "t_rooms (ensure_member now rid room m db) = t_rooms db \<and> t_dedup (ensure_member now rid room m db) = t_dedup db \<and>
   t_hive (ensure_member now rid room m db) = t_hive db \<and> t_consumed (ensure_member now rid room m db) = t_consumed db \<and>
   (\<forall>k. map_of (t_members (ensure_member now rid room m db)) k \<noteq> None \<longleftrightarrow>
      map_of (t_members db) k \<noteq> None \<or> k = (rid, room, m))"
  by (auto simp: ensure_member_def)

lemma post_message_Inr:
  assumes "post_message C now rid mid room sender recipient kind payload expires key db = Inr db'"
  shows "t_rooms db' = t_rooms db \<and> t_members db' = t_members db \<and> t_consumed db' = t_consumed db \<and>
    map_of (t_dedup db) (rid, key) = None \<and> map_of (t_dedup db') = (map_of (t_dedup db))((rid, key) \<mapsto> mid)"
  using assms by (auto simp: post_message_def result_simps)

lemma insert_hive_message_Inr:
  assumes "insert_hive_message sha256 show_json C now rid mid room sender recipient kind payload expires db = Inr (i, db')"
  shows "may_post rid room sender db"
    and "map_of (t_rooms db') k \<noteq> None \<longleftrightarrow> map_of (t_rooms db) k \<noteq> None \<or> k = (rid, room)"
    and "map_of (t_members db') q \<noteq> None \<longleftrightarrow>
      map_of (t_members db) q \<noteq> None \<or> q = (rid, room, sender) \<or> q = (rid, room, recipient)"
    and "t_consumed db' = t_consumed db"
    and "map_of (t_dedup db') (rid, dedupe_key sha256 show_json sender recipient kind payload) = Some i"
    and "map_of (t_dedup db) d = Some v \<Longrightarrow> map_of (t_dedup db') d = Some v"
    and "map_of (t_dedup db) (rid, dedupe_key sha256 show_json sender recipient kind payload) = Some v \<Longrightarrow>
      i = v \<and> t_hive db' = t_hive db"
proof -
  let ?key = "dedupe_key sha256 show_json sender recipient kind payload"
  from assms obtain db1 where allowed: "may_post rid room sender db"
    and room: "ensure_room now rid room sender db = Inr db1"
    and rest: "(let db = ensure_member now rid room recipient (ensure_member now rid room sender db1) in
        case map_of (t_dedup db) (rid, ?key) of Some existing \<Rightarrow> Inr (existing, db)
        | None \<Rightarrow> r_map (\<lambda>db. (mid, db)) (post_message C now rid mid room sender recipient kind payload expires ?key db))
      = Inr (i, db')"
    by (auto simp: insert_hive_message_def result_simps Let_def split: if_splits)
  define db2 where "db2 = ensure_member now rid room recipient (ensure_member now rid room sender db1)"
  have same: "t_dedup db2 = t_dedup db" "t_hive db2 = t_hive db" "t_consumed db2 = t_consumed db" "t_rooms db2 = t_rooms db1"
    using ensure_room_Inr[OF room] ensure_member_effect by (auto simp: db2_def)
  have members: "map_of (t_members db2) q \<noteq> None \<longleftrightarrow>
      map_of (t_members db) q \<noteq> None \<or> q = (rid, room, sender) \<or> q = (rid, room, recipient)" for q
    using ensure_room_Inr[OF room] ensure_member_effect[of now rid room recipient "ensure_member now rid room sender db1"]
      ensure_member_effect[of now rid room sender db1] unfolding db2_def by metis
  have rooms: "map_of (t_rooms db2) k \<noteq> None \<longleftrightarrow> map_of (t_rooms db) k \<noteq> None \<or> k = (rid, room)" for k
    using ensure_room_Inr[OF room] same(4) by metis
  show "may_post rid room sender db" by (rule allowed)
  have all: "(map_of (t_rooms db') k \<noteq> None \<longleftrightarrow> map_of (t_rooms db) k \<noteq> None \<or> k = (rid, room)) \<and>
    (map_of (t_members db') q \<noteq> None \<longleftrightarrow>
      map_of (t_members db) q \<noteq> None \<or> q = (rid, room, sender) \<or> q = (rid, room, recipient)) \<and>
    t_consumed db' = t_consumed db \<and> map_of (t_dedup db') (rid, ?key) = Some i \<and>
    (map_of (t_dedup db) d = Some v \<longrightarrow> map_of (t_dedup db') d = Some v) \<and>
    (map_of (t_dedup db) (rid, ?key) = Some v \<longrightarrow> i = v \<and> t_hive db' = t_hive db)"
  proof (cases "map_of (t_dedup db2) (rid, ?key)")
    case None
    with rest have "i = mid" and "post_message C now rid mid room sender recipient kind payload expires ?key db2 = Inr db'"
      by (auto simp: Let_def db2_def result_simps)
    with post_message_Inr[OF this(2)] None members rooms same show ?thesis by auto
  next
    case (Some e)
    with rest have "db' = db2" "i = e" by (auto simp: Let_def db2_def)
    with Some members rooms same show ?thesis by simp
  qed
  then show "map_of (t_rooms db') k \<noteq> None \<longleftrightarrow> map_of (t_rooms db) k \<noteq> None \<or> k = (rid, room)"
    and "map_of (t_members db') q \<noteq> None \<longleftrightarrow>
      map_of (t_members db) q \<noteq> None \<or> q = (rid, room, sender) \<or> q = (rid, room, recipient)"
    and "t_consumed db' = t_consumed db" and "map_of (t_dedup db') (rid, ?key) = Some i"
    and "map_of (t_dedup db) d = Some v \<Longrightarrow> map_of (t_dedup db') d = Some v"
    and "map_of (t_dedup db) (rid, ?key) = Some v \<Longrightarrow> i = v \<and> t_hive db' = t_hive db"
    by blast+
qed

section \<open>Private rooms stay private\<close>

text \<open>A message posted by someone else to the agent itself invites it into the room.\<close>

definition invites :: "run_id \<Rightarrow> str \<Rightarrow> str \<Rightarrow> office_op \<Rightarrow> bool" where
  "invites rid room a op =
     (case post_of op of None \<Rightarrow> False
      | Some (r, q, _, recipient) \<Rightarrow> r = rid \<and> q = room \<and> recipient_parse recipient = Some (ToAgent a))"

definition outside :: "run_id \<Rightarrow> str \<Rightarrow> str \<Rightarrow> office_db \<Rightarrow> bool" where
  "outside rid room a db \<longleftrightarrow> map_of (t_rooms db) (rid, room) \<noteq> None \<and>
     (\<forall>m \<in> set (room_members rid room db). recipient_parse m \<noteq> Some (ToAgent a))"

lemma room_members_iff: "m \<in> set (room_members rid room db) \<longleftrightarrow> map_of (t_members db) (rid, room, m) \<noteq> None"
  by (force simp: room_members_def map_of_eq_None_iff)

lemma outside_denied:
  assumes "outside rid room a db" and "room \<noteq> RUN_ROOM_ID" and "recipient_parse sender = Some (ToAgent a)"
  shows "\<not> may_post rid room sender db"
  using assms
  by (auto simp: outside_def may_post_def load_private_room_def sender_of_def from_wire_members_members)

lemma outside_step:
  assumes out: "outside rid room a db" and other: "room \<noteq> RUN_ROOM_ID" and no: "\<not> invites rid room a op"
  shows "outside rid room a (office_op_step E op db)"
  using office_op_cases[of db E op]
proof (elim disjE exE conjE)
  assume "quiet db (office_op_step E op db)"
  with out show ?thesis by (simp add: outside_def quiet_def room_members_iff)
next
  fix now r mid q sender recipient kind payload expires key
  assume post: "post_of op = Some (r, q, sender, recipient)"
    and run: "insert_hive_message (en_sha256 E) (en_show_json E) (en_codec E) now r mid q sender recipient kind payload
      expires db = Inr (key, office_op_step E op db)"
  note effect = insert_hive_message_Inr[OF run]
  have "recipient_parse sender \<noteq> Some (ToAgent a)" if "(r, q) = (rid, room)"
    using outside_denied[OF out other, of sender] effect(1) that by auto
  moreover have "recipient_parse recipient \<noteq> Some (ToAgent a)" if "(r, q) = (rid, room)"
    using no post that by (simp add: invites_def)
  ultimately show ?thesis
    using out unfolding outside_def room_members_iff Ball_def effect(2) effect(3) by blast
qed

lemma inbox_item_row:
  assumes "hive_inbox C now rid address lim db = Inr (items, db')" and "m \<in> set items"
  obtains p where "p \<in> set (inbox_rows now rid address lim db)" and "item_of_row C p = Inr m"
proof -
  have "list_all2 (\<lambda>p m. item_of_row C p = Inr m) (inbox_rows now rid address lim db) items"
    using assms(1) by (auto simp: hive_inbox_def result_simps)
  then have "\<exists>p \<in> set (inbox_rows now rid address lim db). item_of_row C p = Inr m"
    using assms(2) by (induction rule: list_all2_induct) auto
  then show thesis using that by blast
qed

lemma inbox_rows_deliverable:
  "p \<in> set (inbox_rows now rid address lim db) \<Longrightarrow> deliverable now rid address db p"
  by (auto simp: inbox_rows_def dest: in_set_takeD)

text \<open>C11: A private room is private. If a room other than the run's exists and no member's address is agent \<open>a\<close>,
  then, whatever is posted, read and closed by whomever in whatever run after that, as long as nobody posts a message to \<open>a\<close>
  in that room, no inbox of \<open>a\<close> hands out a message of the room: not one broadcast to everyone, and none after a tries to post
  there itself.\<close>

theorem private_room_stays_private:
  assumes "recipient_parse address = Some (ToAgent a)" and "room \<noteq> RUN_ROOM_ID" and "outside rid room a db"
    and "\<forall>op \<in> set ops. \<not> invites rid room a op"
    and "hive_inbox (en_codec E) now rid address lim (office_history E ops db) = Inr (items, db')"
  shows "room \<notin> ii_room ` set items"
proof
  have out: "outside rid room a (office_history E ops db)"
    using assms(2,3,4) by (intro office_history_inv[where P = "outside rid room a"]) (auto intro: outside_step)
  assume "room \<in> ii_room ` set items"
  then obtain m where m: "m \<in> set items" "ii_room m = room" by blast
  obtain p where "deliverable now rid address (office_history E ops db) p" "item_of_row (en_codec E) p = Inr m"
    using inbox_item_row[OF assms(5) m(1)] inbox_rows_deliverable by metis
  with m(2) assms(2) have "map_of (t_members (office_history E ops db)) (rid, room, address) \<noteq> None"
    by (auto simp: deliverable_def item_of_row_def result_simps)
  with out assms(1) show False by (auto simp: outside_def room_members_iff)
qed

section \<open>Delivery\<close>

definition consumed :: "str \<Rightarrow> str \<Rightarrow> office_db \<Rightarrow> bool" where
  "consumed mid address db \<longleftrightarrow> map_of (t_consumed db) (mid, address) \<noteq> None"

lemma consumed_history: "consumed mid address db \<Longrightarrow> consumed mid address (office_history E ops db)"
proof (rule office_history_inv)
  fix op and db :: office_db assume old: "consumed mid address db"
  show "consumed mid address (office_op_step E op db)"
    using office_op_cases[of db E op]
  proof (elim disjE exE conjE)
    fix now r mid' q sender recipient kind payload expires key
    assume "insert_hive_message (en_sha256 E) (en_show_json E) (en_codec E) now r mid' q sender recipient kind payload
      expires db = Inr (key, office_op_step E op db)"
    from insert_hive_message_Inr(4)[OF this] old show ?thesis by (simp add: consumed_def)
  qed (use old in \<open>simp add: quiet_def consumed_def\<close>)
qed

lemma consumed_not_returned:
  assumes "consumed mid address db" and "hive_inbox C now rid address lim db = Inr (items, db')"
  shows "mid \<notin> ii_id ` set items"
proof
  assume "mid \<in> ii_id ` set items"
  then obtain m where m: "m \<in> set items" "ii_id m = mid" by blast
  obtain p where "deliverable now rid address db p" "item_of_row C p = Inr m"
    using inbox_item_row[OF assms(2) m(1)] inbox_rows_deliverable by metis
  with m(2) assms(1) show False by (auto simp: deliverable_def item_of_row_def result_simps consumed_def)
qed

lemma foldl_consume:
  "consumed mid address (foldl (\<lambda>db m. consume now address (ii_id m) db) db items) \<longleftrightarrow>
   mid \<in> ii_id ` set items \<or> consumed mid address db"
  by (induction items arbitrary: db) (auto simp: consumed_def consume_def)

lemma r_mapm_Inl: "r_mapm f xs = Inl e \<Longrightarrow> \<exists>x \<in> set xs. f x = Inl e"
  by (induction xs) (auto simp: r_bind_def r_map_def split: sum.splits)

lemma inbox_error_is_json: "hive_inbox C now rid address lim db \<noteq> Inl (Coordination why)"
  by (auto simp: hive_inbox_def r_map_def item_of_row_def json_err_def split: sum.splits prod.splits dest!: r_mapm_Inl)

lemma inbox_consumes:
  assumes "hive_inbox C now rid address lim db = Inr (items, db')"
  shows "fst ` set (inbox_rows now rid address lim db) = ii_id ` set items"
    and "mid \<in> ii_id ` set items \<Longrightarrow> consumed mid address db'"
proof -
  from assms obtain "r_mapm (item_of_row C) (inbox_rows now rid address lim db) = Inr items"
    and db': "db' = foldl (\<lambda>db m. consume now address (ii_id m) db) db items"
    by (auto simp: hive_inbox_def result_simps)
  then have "list_all2 (\<lambda>p m. item_of_row C p = Inr m) (inbox_rows now rid address lim db) items"
    by (simp add: r_mapm_Inr)
  then have "map fst (inbox_rows now rid address lim db) = map ii_id items"
    by (induction rule: list_all2_induct) (auto simp: item_of_row_def result_simps)
  then show "fst ` set (inbox_rows now rid address lim db) = ii_id ` set items" by (metis list.set_map)
  show "consumed mid address db'" if "mid \<in> ii_id ` set items" using that by (simp add: db' foldl_consume)
qed

text \<open>An inbox that fails to decode one message loses the batch. When \<open>office_inbox\<close> ends with the error that a message
  could not be decoded, every message the read selected is gone for the address, the well-formed ones too: after any history
  no inbox of that address returns one of them.\<close>

theorem failed_decode_loses_the_batch:
  assumes "office_inbox (en_codec E) K (en_time_json E) now rid address lim db = (Inl (Coordination why), db')"
    and "mid \<in> fst ` set (inbox_rows now rid address lim db)"
    and "hive_inbox (en_codec E) later rid' address n (office_history E ops db') = Inr (items, db'')"
  shows "mid \<notin> ii_id ` set items"
proof -
  from assms(1) inbox_error_is_json obtain items0 where read: "hive_inbox (en_codec E) now rid address lim db = Inr (items0, db')"
    by (auto simp: office_inbox_def split: sum.splits prod.splits)
  have "consumed mid address db'" using inbox_consumes[OF read] assms(2) by simp
  from consumed_not_returned[OF consumed_history[OF this] assms(3)] show ?thesis .
qed

text \<open>An address is handed a message once: what an inbox has returned, no later inbox of the address returns, whatever
  happens in between.\<close>

theorem inbox_delivers_once:
  assumes "hive_inbox (en_codec E) now rid address lim db = Inr (items, db')"
    and "hive_inbox (en_codec E) later rid' address n (office_history E ops db') = Inr (items', db'')"
  shows "ii_id ` set items \<inter> ii_id ` set items' = {}"
proof -
  have "mid \<notin> ii_id ` set items'" if "mid \<in> ii_id ` set items" for mid
    using consumed_not_returned[OF consumed_history[OF inbox_consumes(2)[OF assms(1) that]] assms(2)] .
  then show ?thesis by blast
qed

section \<open>Equal messages\<close>

lemma dedup_history:
  "map_of (t_dedup db) d = Some v \<Longrightarrow> map_of (t_dedup (office_history E ops db)) d = Some v"
proof (rule office_history_inv[where P = "\<lambda>db. map_of (t_dedup db) d = Some v"])
  fix op and db :: office_db assume old: "map_of (t_dedup db) d = Some v"
  show "map_of (t_dedup (office_op_step E op db)) d = Some v"
    using office_op_cases[of db E op]
  proof (elim disjE exE conjE)
    fix now r mid' q sender recipient kind payload expires key
    assume "insert_hive_message (en_sha256 E) (en_show_json E) (en_codec E) now r mid' q sender recipient kind payload
      expires db = Inr (key, office_op_step E op db)"
    from insert_hive_message_Inr(6)[OF this old] show ?thesis .
  qed (use old in \<open>simp add: quiet_def\<close>)
qed

text \<open>A message said once in a run is never posted again. When a message has been posted, the same sender's message of the
  same words to the same recipient reports the first message's id and adds none, whatever happened in between, also when
  it is posted into another room, whose members never see it, and also when the first one has expired.\<close>

theorem equal_message_is_not_posted:
  assumes "insert_hive_message (en_sha256 E) (en_show_json E) (en_codec E) now rid mid room sender recipient kind payload
      expires db = Inr (i, db1)"
    and "insert_hive_message (en_sha256 E) (en_show_json E) (en_codec E) later rid mid' room' sender recipient kind payload
      expires' (office_history E ops db1) = Inr (i', db2)"
  shows "i' = i \<and> t_hive db2 = t_hive (office_history E ops db1)"
  using insert_hive_message_Inr(7)[OF assms(2) dedup_history[OF insert_hive_message_Inr(5)[OF assms(1)]]] .

section \<open>Examples\<close>

definition example_env :: office_env where
  "example_env = \<lparr>en_sha256 = (\<lambda>s. take 7 s), en_show_json = (\<lambda>_. []),
     en_codec = example_codec\<lparr>enc_value := (\<lambda>_. Inr ''null''), dec_value := (\<lambda>_. Inr JNull)\<rparr>,
     en_time_json = (\<lambda>_. JNull)\<rparr>"

definition example_office :: office_db where
  "example_office = store_db.extend example_db
     \<lparr>t_rooms = [((''r'', ''plan''), \<lparr>om_kind = ''temporary'', om_purpose = ''plan'', om_owner = Some ''agent:a'',
         om_state = ''open'', om_created_at = 0, om_closed_at = None, om_closure_summary = None\<rparr>)],
      t_members = [((''r'', ''plan'', ''agent:a''), 0), ((''r'', ''plan'', ''agent:b''), 0)],
      t_cursors = [], t_hive = [], t_consumed = [], t_dedup = [], t_artifacts = []\<rparr>"

definition example_post :: "time \<Rightarrow> str \<Rightarrow> str \<Rightarrow> str \<Rightarrow> office_op" where
  "example_post now mid room sender = Post now ''r'' mid room sender ''group:all'' ''finding'' (JObject []) None"

lemma example_addresses:
  "recipient_parse ''agent:a'' = Some (ToAgent ''a'')" "recipient_parse ''agent:b'' = Some (ToAgent ''b'')"
  "recipient_parse ''agent:c'' = Some (ToAgent ''c'')" "recipient_parse ''group:all'' = Some (ToGroup ''all'')"
  by code_simp+

definition example_history :: "office_op list" where
  "example_history =
     [example_post 1 ''1'' ''plan'' ''agent:b'', example_post 2 ''2'' ''plan'' ''agent:c'',
      example_post 3 ''3'' ''run'' ''agent:a'']"

lemma private_room_stays_private_witness:
  "\<exists>items db'. hive_inbox (en_codec example_env) 9 ''r'' ''agent:c'' 5
      (office_history example_env example_history example_office) = Inr (items, db') \<and>
    map ii_id items = [''3''] \<and> ''plan'' \<notin> ii_room ` set items"
proof -
  have "case hive_inbox (en_codec example_env) 9 ''r'' ''agent:c'' 5
      (office_history example_env example_history example_office) of
        Inl _ \<Rightarrow> False | Inr (items, _) \<Rightarrow> map ii_id items = [''3'']"
    by code_simp
  then obtain items db' where run: "hive_inbox (en_codec example_env) 9 ''r'' ''agent:c'' 5
      (office_history example_env example_history example_office) = Inr (items, db')"
    and ids: "map ii_id items = [''3'']"
    by (auto split: sum.splits prod.splits)
  have "outside ''r'' ''plan'' ''c'' example_office" by code_simp
  moreover have "\<forall>op \<in> set example_history. \<not> invites ''r'' ''plan'' ''c'' op" by code_simp
  moreover have "''plan'' \<noteq> RUN_ROOM_ID" by code_simp
  ultimately have "''plan'' \<notin> ii_room ` set items"
    using private_room_stays_private[OF example_addresses(3) _ _ _ run] by blast
  with run ids show ?thesis by (intro exI conjI)
qed

end
