(* ===== verification/Plans.thy ===== *)
theory Plans
  imports Store_Usage Rust_Path Provider_Models
begin

text \<open>
  Plans of branch work (\<open>crates/minha-core/src/runtime.rs\<close>): the plan a planner returns is read from its
  answer and validated, every task gets a contract with the resources it leases, and ready tasks are
  chosen so that their paths do not overlap. Reading the plan from its JSON text is an argument.
\<close>

definition MAX_PLAN_TASKS :: usize where "MAX_PLAN_TASKS = 8"

record branch_task =
  bk_id :: str
  bk_objective :: str
  bk_paths :: "str list"
  bk_dependencies :: "str list"
  bk_check :: str

record branch_plan =
  bp_summary :: str
  bp_consult :: "str option"
  bp_tasks :: "branch_task list"

definition bound_text :: "str \<Rightarrow> usize \<Rightarrow> str" where
  "bound_text s n =
     (if length s \<le> n then s else take (floor_boundary s n) s @ CHR 0x0A # ''[truncated]'')"

section \<open>Reading a plan\<close>

definition parse_plan :: "(str \<Rightarrow> str + branch_plan) \<Rightarrow> str \<Rightarrow> branch_plan option" where
  "parse_plan from_str answer =
     (case find_str answer ''<minha-plan>'' of None \<Rightarrow> None
      | Some n \<Rightarrow>
          (let tail = drop (n + length ''<minha-plan>'') answer;
               stop = unwrap_or (find_str tail ''</minha-plan>'') (length tail)
           in case from_str (trim (take stop tail)) of Inl _ \<Rightarrow> None
              | Inr plan \<Rightarrow>
                  (let plan = plan\<lparr>bp_tasks := take MAX_PLAN_TASKS (bp_tasks plan)\<rparr>
                   in if bp_tasks plan = [] then None else Some plan)))"

definition single_task_plan :: "str \<Rightarrow> branch_plan" where
  "single_task_plan goal =
     \<lparr>bp_summary = ''Single safe implementation lane'', bp_consult = None,
      bp_tasks = [\<lparr>bk_id = ''main'', bk_objective = goal, bk_paths = [], bk_dependencies = [],
        bk_check = ''Run the smallest relevant verification for this task and report its exact evidence.''\<rparr>]\<rparr>"

section \<open>Validation\<close>

definition safe_char :: "str \<Rightarrow> str" where
  "safe_char g =
     (case g of [c] \<Rightarrow> if is_ascii_alphanumeric c \<or> c = CHR ''-'' \<or> c = CHR ''_'' then g else ''-'' | _ \<Rightarrow> ''-'')"

definition safe_component :: "str \<Rightarrow> str" where
  "safe_component input =
     (let value = trim_matches (\<lambda>g. g = ''-'') (concat (map safe_char (chars input)))
      in if value = [] then ''task'' else take_chars 48 value)"

definition unsafe_path :: "str \<Rightarrow> bool" where
  "unsafe_path p = (path_is_absolute p \<or> has_parent_dir p)"

fun check_tasks :: "str list \<Rightarrow> str list \<Rightarrow> branch_task list \<Rightarrow> str + unit" where
  "check_tasks ids branches [] = Inr ()"
| "check_tasks ids branches (t # ts) =
     (if trim (bk_id t) = [] \<or> trim (bk_objective t) = [] then Inl ''task id and objective must be non-empty''
      else if bk_id t \<in> set ids then Inl (''duplicate task id '' @ bk_id t)
      else if safe_component (bk_id t) \<in> set branches
      then Inl (''task id '' @ bk_id t @ '' collides after branch normalization'')
      else case find unsafe_path (bk_paths t) of
        Some p \<Rightarrow> Inl (''task '' @ bk_id t @ '' has unsafe path '' @ p)
      | None \<Rightarrow> check_tasks (bk_id t # ids) (safe_component (bk_id t) # branches) ts)"

fun check_dependencies :: "str list \<Rightarrow> branch_task list \<Rightarrow> str + unit" where
  "check_dependencies ids [] = Inr ()"
| "check_dependencies ids (t # ts) =
     (case find (\<lambda>d. d = bk_id t \<or> d \<notin> set ids) (bk_dependencies t) of
        Some d \<Rightarrow> Inl (''task '' @ bk_id t @ '' has invalid dependency '' @ d)
      | None \<Rightarrow> check_dependencies ids ts)"

text \<open>One pass over the tasks: a task whose dependencies are resolved is resolved, for the tasks after it too.\<close>

definition resolve_task :: "str list \<Rightarrow> branch_task \<Rightarrow> str list" where
  "resolve_task resolved t =
     (if list_all (\<lambda>d. d \<in> set resolved) (bk_dependencies t) \<and> bk_id t \<notin> set resolved
      then resolved @ [bk_id t] else resolved)"

definition resolve_pass :: "branch_task list \<Rightarrow> str list \<Rightarrow> str list" where
  "resolve_pass tasks resolved = foldl resolve_task resolved tasks"

lemma resolve_pass_extends:
  "\<exists>new. resolve_pass tasks resolved = resolved @ new \<and> set new \<subseteq> bk_id ` set tasks - set resolved"
proof (induction tasks arbitrary: resolved)
  case Nil
  then show ?case by (simp add: resolve_pass_def)
next
  case (Cons t ts)
  show ?case
  proof (cases "resolve_task resolved t = resolved")
    case True
    with Cons[of resolved] show ?thesis by (auto simp: resolve_pass_def)
  next
    case False
    then have step: "resolve_task resolved t = resolved @ [bk_id t]" and fresh: "bk_id t \<notin> set resolved"
      by (auto simp: resolve_task_def split: if_splits)
    from Cons[of "resolved @ [bk_id t]"] obtain new where
      "resolve_pass ts (resolved @ [bk_id t]) = (resolved @ [bk_id t]) @ new"
      "set new \<subseteq> bk_id ` set ts - set (resolved @ [bk_id t])" by blast
    with fresh show ?thesis by (intro exI[of _ "bk_id t # new"]) (auto simp: resolve_pass_def step)
  qed
qed

function resolve_loop :: "branch_task list \<Rightarrow> str list \<Rightarrow> bool" where
  "resolve_loop tasks resolved =
     (let resolved' = resolve_pass tasks resolved in
      if length resolved' = length tasks then True
      else if length resolved' = length resolved then False
      else resolve_loop tasks resolved')"
  by pat_completeness auto
termination
proof (relation "measure (\<lambda>(tasks, resolved). card (bk_id ` set tasks - set resolved))")
  fix tasks and resolved resolved' :: "str list"
  assume pass: "resolved' = resolve_pass tasks resolved" and more: "length resolved' \<noteq> length resolved"
  obtain new where new: "resolved' = resolved @ new" "set new \<subseteq> bk_id ` set tasks - set resolved"
    using resolve_pass_extends[of tasks resolved] pass by auto
  with more have "new \<noteq> []" by auto
  then obtain k where "k \<in> set new" by (cases new) auto
  with new have "bk_id ` set tasks - set resolved' \<subset> bk_id ` set tasks - set resolved" by auto
  then show "((tasks, resolved'), tasks, resolved) \<in> measure (\<lambda>(tasks, resolved). card (bk_id ` set tasks - set resolved))"
    by (simp add: psubset_card_mono)
qed simp

declare resolve_loop.simps [simp del]

definition validate_branch_plan :: "branch_plan \<Rightarrow> str + branch_plan" where
  "validate_branch_plan plan =
     (let plan = plan\<lparr>bp_tasks := take MAX_PLAN_TASKS (bp_tasks plan)\<rparr>; tasks = bp_tasks plan in
      if tasks = [] then Inl ''plan has no tasks''
      else r_bind (check_tasks [] [] tasks) (\<lambda>_.
           r_bind (check_dependencies (map bk_id tasks) tasks) (\<lambda>_.
             if resolve_loop tasks [] then Inr plan else Inl ''task dependencies contain a cycle'')))"

section \<open>Leases and contracts\<close>

function strip_dots :: "str \<Rightarrow> str" where
  "strip_dots p = (if starts_with p ''./'' then strip_dots (drop 2 p) else p)"
  by pat_completeness auto
termination
proof (relation "measure length")
  fix p assume "starts_with p ''./''"
  then have "p \<noteq> []" by auto
  then show "(drop 2 p, p) \<in> measure length" by (cases p) auto
qed simp

declare strip_dots.simps [simp del]

definition normalize_lease_path :: "str \<Rightarrow> str" where
  "normalize_lease_path p = trim_matches (\<lambda>g. g = ''/'') (strip_dots p)"

definition lease_resources_for :: "str \<Rightarrow> str list \<Rightarrow> str list" where
  "lease_resources_for tid paths =
     (if paths = [] then [''task:'' @ tid] else map (\<lambda>p. ''path:'' @ normalize_lease_path p) paths)"

definition lease_resources :: "task_record \<Rightarrow> str list" where
  "lease_resources t = lease_resources_for (tk_task_id t) (tk_paths t)"

definition default_acceptance_check :: "str \<Rightarrow> str" where
  "default_acceptance_check goal =
     ''Run the smallest relevant verification for `'' @ bound_text goal 160 @
     ''` and report the exact command or inspected evidence.''"

definition microtask_contract_for_branch :: "branch_task \<Rightarrow> microtask_contract" where
  "microtask_contract_for_branch t =
     \<lparr>mc_schema_version = MICROTASK_CONTRACT_SCHEMA_VERSION, mc_task_id = bk_id t, mc_goal = bk_objective t,
      mc_lease_resources = lease_resources_for (bk_id t) (bk_paths t),
      mc_acceptance_check = (if trim (bk_check t) \<noteq> [] then trim (bk_check t)
         else default_acceptance_check (bk_objective t))\<rparr>"

definition microtask_contract_for_task :: "task_record \<Rightarrow> microtask_contract" where
  "microtask_contract_for_task t =
     \<lparr>mc_schema_version = MICROTASK_CONTRACT_SCHEMA_VERSION, mc_task_id = tk_task_id t, mc_goal = tk_objective t,
      mc_lease_resources = lease_resources t, mc_acceptance_check = default_acceptance_check (tk_objective t)\<rparr>"

definition below :: "str \<Rightarrow> str \<Rightarrow> bool" where
  "below p base = (case strip_prefix p base of None \<Rightarrow> False | Some rest \<Rightarrow> starts_with rest ''/'')"

definition paths_overlap :: "str \<Rightarrow> str \<Rightarrow> bool" where
  "paths_overlap l r =
     (let l = normalize_lease_path l; r = normalize_lease_path r in l = r \<or> below l r \<or> below r l)"

definition tasks_overlap :: "task_record \<Rightarrow> task_record \<Rightarrow> bool" where
  "tasks_overlap l r = list_ex (\<lambda>p. list_ex (paths_overlap p) (tk_paths r)) (tk_paths l)"

fun select_disjoint :: "usize \<Rightarrow> task_record list \<Rightarrow> task_record list \<Rightarrow> task_record list" where
  "select_disjoint lim selected [] = selected"
| "select_disjoint lim selected (t # ts) =
     (if lim \<le> length selected then selected
      else if list_all (\<lambda>other. \<not> tasks_overlap t other) selected then select_disjoint lim (selected @ [t]) ts
      else select_disjoint lim selected ts)"

definition disjoint_ready_tasks :: "task_record list \<Rightarrow> usize \<Rightarrow> task_record list" where
  "disjoint_ready_tasks tasks lim = select_disjoint lim [] tasks"

text \<open>The rows a plan is persisted as.\<close>

definition plan_records :: "run_id \<Rightarrow> time \<Rightarrow> branch_plan \<Rightarrow> task_record list" where
  "plan_records rid now plan =
     map (\<lambda>t. \<lparr>tk_run_id = rid, tk_task_id = bk_id t, tk_objective = bk_objective t, tk_state = TaskPending,
          tk_paths = bk_paths t, tk_dependencies = bk_dependencies t, tk_assigned = None, tk_attempt = 0,
          tk_max_attempts = 2, tk_generation = 0, tk_last_error = None, tk_created_at = now,
          tk_updated_at = now\<rparr>) (bp_tasks plan)"

section \<open>What a validated plan is\<close>

definition depends_on :: "branch_task list \<Rightarrow> (str \<times> str) set" where
  "depends_on tasks = {(d, bk_id t) | d t. t \<in> set tasks \<and> d \<in> set (bk_dependencies t)}"

definition task_shape_ok :: "branch_task \<Rightarrow> bool" where
  "task_shape_ok t \<longleftrightarrow> trim (bk_id t) \<noteq> [] \<and> trim (bk_objective t) \<noteq> [] \<and> list_all (\<lambda>p. \<not> unsafe_path p) (bk_paths t)"

lemma find_is_Some: "find P xs = Some x \<Longrightarrow> x \<in> set xs \<and> P x"
  by (induction xs) (auto split: if_splits)

lemma check_tasks_Inr:
  "check_tasks ids branches ts = Inr () \<longleftrightarrow>
     list_all task_shape_ok ts \<and> distinct (map bk_id ts) \<and> set (map bk_id ts) \<inter> set ids = {} \<and>
     distinct (map (safe_component \<circ> bk_id) ts) \<and> set (map (safe_component \<circ> bk_id) ts) \<inter> set branches = {}"
  by (induction ids branches ts rule: check_tasks.induct)
    (auto simp: task_shape_ok_def find_None_iff list_all_iff split: option.splits dest: find_is_Some)

lemma check_dependencies_Inr:
  "check_dependencies ids ts = Inr () \<longleftrightarrow>
     (\<forall>t \<in> set ts. \<forall>d \<in> set (bk_dependencies t). d \<noteq> bk_id t \<and> d \<in> set ids)"
  by (induction ids ts rule: check_dependencies.induct)
    (auto simp: find_None_iff split: option.splits dest: find_is_Some)

text \<open>What is resolved stands behind its dependencies.\<close>

definition in_order :: "branch_task list \<Rightarrow> str list \<Rightarrow> bool" where
  "in_order tasks resolved \<longleftrightarrow> distinct resolved \<and> set resolved \<subseteq> bk_id ` set tasks \<and>
     (\<forall>n < length resolved. \<forall>t \<in> set tasks. bk_id t = resolved ! n \<longrightarrow> set (bk_dependencies t) \<subseteq> set (take n resolved))"

lemma resolve_task_in_order:
  assumes "in_order tasks resolved" and "t \<in> set tasks" and "distinct (map bk_id tasks)"
  shows "in_order tasks (resolve_task resolved t)"
proof (cases "resolve_task resolved t = resolved")
  case False
  then have step: "resolve_task resolved t = resolved @ [bk_id t]" and fresh: "bk_id t \<notin> set resolved"
    and deps: "set (bk_dependencies t) \<subseteq> set resolved"
    by (auto simp: resolve_task_def list_all_iff split: if_splits)
  have same: "u = t" if "u \<in> set tasks" "bk_id u = bk_id t" for u
    using that assms(2,3) by (metis distinct_map inj_onD)
  show ?thesis
    using assms(1,2) fresh deps unfolding step in_order_def
    by (auto simp: nth_append less_Suc_eq dest: same)
qed (use assms in simp)

lemma resolve_pass_in_order:
  assumes "in_order tasks resolved" and "set ts \<subseteq> set tasks" and "distinct (map bk_id tasks)"
  shows "in_order tasks (resolve_pass ts resolved)"
  using assms
proof (induction ts arbitrary: resolved)
  case (Cons t ts)
  then have "in_order tasks (resolve_task resolved t)" by (intro resolve_task_in_order) auto
  with Cons show ?case by (simp add: resolve_pass_def)
qed (simp add: resolve_pass_def)

text \<open>A pass that adds nothing leaves only tasks with an unresolved dependency.\<close>

lemma resolve_pass_stuck:
  assumes "resolve_pass ts resolved = resolved" and "t \<in> set ts" and "bk_id t \<notin> set resolved"
  shows "\<exists>d \<in> set (bk_dependencies t). d \<notin> set resolved"
  using assms
proof (induction ts arbitrary: resolved)
  case (Cons u us)
  obtain new where new: "resolve_pass us (resolve_task resolved u) = resolve_task resolved u @ new"
    using resolve_pass_extends by blast
  with Cons.prems(1) have "length (resolve_task resolved u) \<le> length resolved"
    by (metis foldl_Cons length_append le_add1 resolve_pass_def)
  then have same: "resolve_task resolved u = resolved" by (auto simp: resolve_task_def split: if_splits)
  show ?case
  proof (cases "t = u")
    case True
    with same Cons.prems(3) show ?thesis by (auto simp: resolve_task_def list_all_iff split: if_splits)
  next
    case False
    then have "t \<in> set us" using Cons.prems(2) by simp
    with Cons.IH[of resolved] Cons.prems same show ?thesis by (simp add: resolve_pass_def)
  qed
qed simp

lemma in_order_acyclic:
  assumes "in_order tasks resolved" and "set resolved = bk_id ` set tasks"
  shows "acyclic (depends_on tasks)"
proof -
  have "\<forall>k \<in> set resolved. \<exists>n. n < length resolved \<and> resolved ! n = k" by (auto simp: in_set_conv_nth)
  from bchoice[OF this] obtain pos where pos: "\<forall>k \<in> set resolved. pos k < length resolved \<and> resolved ! pos k = k" ..
  have "depends_on tasks \<subseteq> inv_image less_than pos"
  proof
    fix e assume "e \<in> depends_on tasks"
    then obtain d t where e: "e = (d, bk_id t)" and t: "t \<in> set tasks" and d: "d \<in> set (bk_dependencies t)"
      by (auto simp: depends_on_def)
    have "bk_id t \<in> set resolved" using assms(2) t by auto
    with pos have p: "pos (bk_id t) < length resolved \<and> resolved ! pos (bk_id t) = bk_id t" by blast
    with assms(1) t have "set (bk_dependencies t) \<subseteq> set (take (pos (bk_id t)) resolved)"
      unfolding in_order_def by metis
    then have "d \<in> set (take (pos (bk_id t)) resolved)" using d by (rule subsetD)
    then obtain m where m: "m < pos (bk_id t)" "resolved ! m = d" "m < length resolved"
      using p by (auto simp: in_set_conv_nth)
    then have "d \<in> set resolved" by auto
    with pos have q: "pos d < length resolved \<and> resolved ! pos d = d" by blast
    have "distinct resolved" using assms(1) by (simp add: in_order_def)
    with q m have "pos d = m" using nth_eq_iff_index_eq[of resolved "pos d" m] by simp
    with m show "e \<in> inv_image less_than pos" by (simp add: e)
  qed
  then show ?thesis by (meson acyclic_subset wf_acyclic wf_inv_image wf_less_than)
qed

lemma resolve_loop_iff:
  assumes "in_order tasks resolved" and "distinct (map bk_id tasks)"
    and "\<forall>t \<in> set tasks. set (bk_dependencies t) \<subseteq> bk_id ` set tasks"
  shows "resolve_loop tasks resolved \<longleftrightarrow> acyclic (depends_on tasks)"
  using assms
proof (induction tasks resolved rule: resolve_loop.induct)
  case (1 tasks resolved)
  let ?next = "resolve_pass tasks resolved"
  have ord: "in_order tasks ?next" using 1(2,3) by (intro resolve_pass_in_order) simp_all
  have size: "card (bk_id ` set tasks) = length tasks" using 1(3) by (metis distinct_card length_map set_map)
  have full: "set ?next = bk_id ` set tasks" if "length ?next = length tasks"
    using ord that size by (metis card_subset_eq distinct_card finite_imageI finite_set in_order_def)
  consider "length ?next = length tasks" | "length ?next \<noteq> length tasks" "length ?next = length resolved"
    | "length ?next \<noteq> length tasks" "length ?next \<noteq> length resolved" by blast
  then show ?case
  proof cases
    case 1
    then show ?thesis using in_order_acyclic[OF ord full] by (subst resolve_loop.simps) (simp add: Let_def)
  next
    case 2
    obtain new where "?next = resolved @ new" using resolve_pass_extends by blast
    with 2(2) have stuck: "?next = resolved" by simp
    have "\<not> acyclic (depends_on tasks)"
    proof
      assume "acyclic (depends_on tasks)"
      moreover have "depends_on tasks \<subseteq> (bk_id ` set tasks) \<times> (bk_id ` set tasks)"
        using 1(4) by (auto simp: depends_on_def)
      then have "finite (depends_on tasks)" by (rule finite_subset) simp
      ultimately have wf: "wf (depends_on tasks)" by (rule finite_acyclic_wf[rotated])
      let ?left = "bk_id ` set tasks - set resolved"
      have "length resolved \<noteq> length tasks" using 2 stuck by simp
      with 1(2) size have "?left \<noteq> {}" unfolding in_order_def
        by (metis Diff_eq_empty_iff distinct_card subset_antisym)
      then obtain k where k: "k \<in> ?left" "\<forall>d. (d, k) \<in> depends_on tasks \<longrightarrow> d \<notin> ?left"
        using wf by (metis wf_eq_minimal ex_in_conv)
      then obtain t where t: "t \<in> set tasks" "bk_id t = k" by auto
      with resolve_pass_stuck[OF stuck] k(1) obtain d where "d \<in> set (bk_dependencies t)" "d \<notin> set resolved" by auto
      moreover have "(d, k) \<in> depends_on tasks" using \<open>d \<in> set (bk_dependencies t)\<close> t by (auto simp: depends_on_def)
      moreover have "d \<in> bk_id ` set tasks" using \<open>d \<in> set (bk_dependencies t)\<close> t(1) 1(4) by auto
      ultimately show False using k(2) by auto
    qed
    with 2 show ?thesis by (subst resolve_loop.simps) (simp add: Let_def)
  next
    case 3
    with 1(1)[OF refl 3(1) 3(2) ord 1(3) 1(4)] show ?thesis by (subst resolve_loop.simps) (simp add: Let_def)
  qed
qed

text \<open>C34: A plan is accepted exactly when it can be worked off. Cut to eight tasks, it has a task, every task has an identifier, an
  objective and paths inside the workspace, identifiers and branch names are distinct, every dependency is another task of
  the plan, and no task depends on itself through others.\<close>

theorem plan_is_valid_exactly:
  "is_ok (validate_branch_plan plan) \<longleftrightarrow>
     (let tasks = take MAX_PLAN_TASKS (bp_tasks plan) in
        tasks \<noteq> [] \<and> list_all task_shape_ok tasks \<and> distinct (map bk_id tasks) \<and>
        distinct (map (safe_component \<circ> bk_id) tasks) \<and>
        list_all (\<lambda>t. set (bk_dependencies t) \<subseteq> bk_id ` set tasks) tasks \<and> acyclic (depends_on tasks))"
proof -
  define tasks where "tasks = take MAX_PLAN_TASKS (bp_tasks plan)"
  have self: "acyclic (depends_on tasks) \<Longrightarrow> t \<in> set tasks \<Longrightarrow> d \<in> set (bk_dependencies t) \<Longrightarrow> d \<noteq> bk_id t" for t d
    by (auto simp: depends_on_def acyclic_def)
  have start: "in_order tasks []" by (simp add: in_order_def)
  have "is_ok (validate_branch_plan plan) \<longleftrightarrow> tasks \<noteq> [] \<and> check_tasks [] [] tasks = Inr () \<and>
      check_dependencies (map bk_id tasks) tasks = Inr () \<and> resolve_loop tasks []"
    by (auto simp: validate_branch_plan_def Let_def tasks_def[symmetric] is_ok_def r_bind_def split: sum.splits)
  also have "\<dots> \<longleftrightarrow> tasks \<noteq> [] \<and> list_all task_shape_ok tasks \<and> distinct (map bk_id tasks) \<and>
        distinct (map (safe_component \<circ> bk_id) tasks) \<and>
        list_all (\<lambda>t. set (bk_dependencies t) \<subseteq> bk_id ` set tasks) tasks \<and> acyclic (depends_on tasks)"
  proof -
    have "check_dependencies (map bk_id tasks) tasks = Inr () \<and> resolve_loop tasks [] \<longleftrightarrow>
        list_all (\<lambda>t. set (bk_dependencies t) \<subseteq> bk_id ` set tasks) tasks \<and> acyclic (depends_on tasks)"
      if "distinct (map bk_id tasks)"
    proof -
      have "check_dependencies (map bk_id tasks) tasks = Inr () \<longleftrightarrow>
          (\<forall>t \<in> set tasks. set (bk_dependencies t) \<subseteq> bk_id ` set tasks \<and> bk_id t \<notin> set (bk_dependencies t))"
        by (auto simp: check_dependencies_Inr)
      with resolve_loop_iff[OF start that] self show ?thesis by (auto simp: list_all_iff)
    qed
    then show ?thesis by (auto simp: check_tasks_Inr)
  qed
  finally show ?thesis by (simp add: tasks_def Let_def)
qed

end
