(* ===== verification/Turn_Items.thy ===== *)
theory Turn_Items
  imports Json Plans
begin

text \<open>
  The items of a conversation with a provider (\<open>crates/minha-core/src/runtime.rs\<close>): messages and outputs of
  function calls, the recent items that are kept with the calls their outputs answer, and the summaries
  that replace long outputs. SHA-256, the parser and the text of a JSON value are arguments.
\<close>

definition message_item :: "str \<Rightarrow> str \<Rightarrow> json" where
  "message_item role content =
     JObject [(''content'', JArray [JObject [(''text'', JString content), (''type'', JString ''input_text'')]]),
       (''role'', JString role), (''type'', JString ''message'')]"

definition function_output :: "str \<Rightarrow> str \<Rightarrow> json" where
  "function_output call_id reply =
     JObject [(''call_id'', JString call_id), (''output'', JString reply), (''type'', JString ''function_call_output'')]"

definition is_call_output :: "json \<Rightarrow> bool" where
  "is_call_output item = (get_str item ''type'' = Some ''function_call_output'')"

definition is_call :: "json \<Rightarrow> bool" where
  "is_call item = (get_str item ''type'' = Some ''function_call'')"

section \<open>Recent items with their calls\<close>

definition answers :: "str \<Rightarrow> json \<Rightarrow> bool" where
  "answers call_id candidate = (is_call candidate \<and> get_str candidate ''call_id'' = Some call_id)"

fun rposition :: "('a \<Rightarrow> bool) \<Rightarrow> 'a list \<Rightarrow> usize option" where
  "rposition P [] = None"
| "rposition P (x # xs) =
     (case rposition P xs of Some n \<Rightarrow> Some (Suc n) | None \<Rightarrow> if P x then Some 0 else None)"

text \<open>The call of an output, when it is before \<open>start\<close>.\<close>

definition call_before :: "json list \<Rightarrow> usize \<Rightarrow> json \<Rightarrow> usize option" where
  "call_before input start reply =
     (if is_call_output reply
      then (case get_str reply ''call_id'' of None \<Rightarrow> None
            | Some call_id \<Rightarrow> rposition (answers call_id) (take start input))
      else None)"

definition expand_start :: "json list \<Rightarrow> usize \<Rightarrow> usize" where
  "expand_start input start =
     foldl (\<lambda>expanded reply. case call_before input start reply of None \<Rightarrow> expanded | Some n \<Rightarrow> min expanded n)
       start (drop start input)"

lemma foldl_min_le:
  "foldl (\<lambda>e x. case f x of None \<Rightarrow> e | Some n \<Rightarrow> min e n) (s::nat) xs \<le> s"
proof (induction xs arbitrary: s)
  case (Cons x xs)
  show ?case
  proof (cases "f x")
    case (Some n)
    then show ?thesis using Cons[of "min s n"] by simp
  qed (use Cons[of s] in simp)
qed simp

function recent_start :: "json list \<Rightarrow> usize \<Rightarrow> usize" where
  "recent_start input start =
     (let expanded = expand_start input start in if expanded = start then start else recent_start input expanded)"
  by pat_completeness auto
termination
proof (relation "measure snd")
  fix input and start expanded :: usize
  assume "expanded = expand_start input start" and "expanded \<noteq> start"
  moreover have "expand_start input start \<le> start" unfolding expand_start_def by (rule foldl_min_le)
  ultimately show "((input, expanded), input, start) \<in> measure snd" by simp
qed simp

declare recent_start.simps [simp del]

definition paired_recent_items :: "json list \<Rightarrow> usize \<Rightarrow> json list" where
  "paired_recent_items input keep =
     (if input = [] then [] else drop (recent_start input (length input - max keep 1)) input)"

section \<open>Long outputs\<close>

definition RETAINED_BYTES :: usize where "RETAINED_BYTES = 2048"

text \<open>The names of the calls by their identifier; a later call with an identifier replaces an earlier one.\<close>

definition call_name :: "json \<Rightarrow> (str \<times> str) option" where
  "call_name item =
     (if is_call item
      then (case (get_str item ''call_id'', get_str item ''name'') of (Some c, Some n) \<Rightarrow> Some (c, n) | _ \<Rightarrow> None)
      else None)"

definition call_names :: "json list \<Rightarrow> (str \<times> str) list" where
  "call_names input = rev (List.map_filter call_name input)"

definition evidence_kind :: "str \<Rightarrow> str" where
  "evidence_kind tool =
     (if tool = ''read_files'' then ''read''
      else if tool = ''search'' then ''search''
      else if tool = ''exec'' \<or> tool = ''quality'' then ''command_or_test''
      else if tool = ''apply_patch'' then ''patch''
      else ''tool'')"

definition evidence_summary :: "(str \<Rightarrow> str) \<Rightarrow> (str \<Rightarrow> str + json) \<Rightarrow> str \<Rightarrow> str \<Rightarrow> json" where
  "evidence_summary sha256 parse tool reply =
     (let parsed = (case parse reply of Inl _ \<Rightarrow> None | Inr v \<Rightarrow> Some v) in
      JObject [(''bytes'', JNumber (PosInt (length reply))),
        (''evidence_kind'', JString (evidence_kind tool)),
        (''evidence_summary_version'', JNumber (PosInt 1)),
        (''exit_code'', unwrap_or (Option.bind parsed (\<lambda>v. json_get v ''exit_code'')) JNull),
        (''raw_output'', JString ''stored in the durable runtime event stream''),
        (''retained_excerpt'', JString (bound_text reply RETAINED_BYTES)),
        (''sha256'', JString (hex (sha256 reply))),
        (''tool'', JString tool),
        (''truncated'', JBool (unwrap_or (Option.bind parsed (\<lambda>v. get_bool v ''truncated'')) False))])"

text \<open>Assigning to a member of an object.\<close>

fun json_set :: "json \<Rightarrow> str \<Rightarrow> json \<Rightarrow> json" where
  "json_set (JObject kvs) k v = JObject (bt_insert k v kvs)"
| "json_set v _ _ = v"

definition condense_item ::
    "(str \<Rightarrow> str) \<Rightarrow> (str \<Rightarrow> str + json) \<Rightarrow> (json \<Rightarrow> str) \<Rightarrow> (str \<times> str) list \<Rightarrow> json \<Rightarrow> json" where
  "condense_item sha256 parse show_json names item =
     (if \<not> is_call_output item then item
      else case get_str item ''output'' of None \<Rightarrow> item
      | Some reply \<Rightarrow>
          if length reply \<le> RETAINED_BYTES then item
          else json_set item ''output'' (JString (show_json (evidence_summary sha256 parse
                 (unwrap_or (map_of names (unwrap_or (get_str item ''call_id'') [])) ''tool'') reply))))"

definition condense_consumed_tool_outputs ::
    "(str \<Rightarrow> str) \<Rightarrow> (str \<Rightarrow> str + json) \<Rightarrow> (json \<Rightarrow> str) \<Rightarrow> json list \<Rightarrow> json list" where
  "condense_consumed_tool_outputs sha256 parse show_json input =
     map (condense_item sha256 parse show_json (call_names input)) input"

section \<open>What is kept\<close>

lemma rposition_Some: "rposition P xs = Some n \<Longrightarrow> n < length xs \<and> P (xs ! n)"
  by (induction xs arbitrary: n) (auto split: option.splits if_splits)

lemma rposition_None: "rposition P xs = None \<longleftrightarrow> (\<forall>x \<in> set xs. \<not> P x)"
  by (induction xs) (auto split: option.splits)

text \<open>No output from \<open>start\<close> on answers a call before it.\<close>

definition closed_from :: "json list \<Rightarrow> usize \<Rightarrow> bool" where
  "closed_from input start \<longleftrightarrow>
     (\<forall>reply \<in> set (drop start input). \<forall>call_id. is_call_output reply \<and> get_str reply ''call_id'' = Some call_id \<longrightarrow>
        (\<forall>candidate \<in> set (take start input). \<not> answers call_id candidate))"

lemma closed_from_iff: "closed_from input start \<longleftrightarrow> (\<forall>reply \<in> set (drop start input). call_before input start reply = None)"
  unfolding closed_from_def call_before_def
  by (auto simp: rposition_None split: option.splits if_splits)

lemma foldl_min_fixed:
  "foldl (\<lambda>e x. case f x of None \<Rightarrow> e | Some n \<Rightarrow> min e n) s xs = (s::nat) \<Longrightarrow>
   x \<in> set xs \<Longrightarrow> f x = Some n \<Longrightarrow> s \<le> n"
proof (induction xs arbitrary: s)
  case (Cons y ys)
  let ?s = "case f y of None \<Rightarrow> s | Some n \<Rightarrow> min s n"
  have "?s \<le> s" by (simp split: option.split)
  moreover have "foldl (\<lambda>e x. case f x of None \<Rightarrow> e | Some n \<Rightarrow> min e n) ?s ys \<le> ?s" by (rule foldl_min_le)
  ultimately have same: "?s = s" using Cons.prems(1) by simp
  show ?case
  proof (cases "x = y")
    case True
    then show ?thesis using same Cons.prems(3) by simp
  next
    case False
    with Cons.IH[of s] Cons.prems same show ?thesis by simp
  qed
qed simp

lemma foldl_min_lower:
  assumes "(l::nat) \<le> s" and "\<And>x n. x \<in> set xs \<Longrightarrow> f x = Some n \<Longrightarrow> l \<le> n"
  shows "l \<le> foldl (\<lambda>e x. case f x of None \<Rightarrow> e | Some n \<Rightarrow> min e n) s xs"
  using assms
proof (induction xs arbitrary: s)
  case (Cons x xs)
  have "l \<le> (case f x of None \<Rightarrow> s | Some n \<Rightarrow> min s n)" using Cons.prems by (auto split: option.split)
  moreover have "\<And>y n. y \<in> set xs \<Longrightarrow> f y = Some n \<Longrightarrow> l \<le> n" by (rule Cons.prems(2)) simp_all
  ultimately have "l \<le> foldl (\<lambda>e x. case f x of None \<Rightarrow> e | Some n \<Rightarrow> min e n) (case f x of None \<Rightarrow> s | Some n \<Rightarrow> min s n) xs"
    by (rule Cons.IH)
  then show ?case by simp
qed simp

lemma call_before_less: "call_before input start reply = Some n \<Longrightarrow> n < start"
  by (auto simp: call_before_def split: option.splits if_splits dest!: rposition_Some)

lemma expand_start_fixed: "expand_start input start = start \<longleftrightarrow> closed_from input start"
proof
  assume fixed: "expand_start input start = start"
  have above: "start \<le> n" if "x \<in> set (drop start input)" "call_before input start x = Some n" for x n
    using foldl_min_fixed[OF fixed[unfolded expand_start_def] that] .
  show "closed_from input start" unfolding closed_from_iff
  proof (intro ballI, rule ccontr)
    fix x assume x: "x \<in> set (drop start input)" and "call_before input start x \<noteq> None"
    then obtain n where n: "call_before input start x = Some n" by blast
    from call_before_less[OF n] above[OF x n] show False by simp
  qed
next
  have "\<forall>x \<in> set xs. call_before input start x = None \<Longrightarrow>
      foldl (\<lambda>e x. case call_before input start x of None \<Rightarrow> e | Some n \<Rightarrow> min e n) s xs = s" for xs s
    by (induction xs) auto
  moreover assume "closed_from input start"
  ultimately show "expand_start input start = start" unfolding expand_start_def closed_from_iff by blast
qed

lemma expand_start_lower:
  assumes "closed_from input s" and "s \<le> start"
  shows "s \<le> expand_start input start"
  unfolding expand_start_def
proof (rule foldl_min_lower[OF assms(2)])
  fix reply n assume out: "reply \<in> set (drop start input)" and call: "call_before input start reply = Some n"
  then obtain call_id where is_out: "is_call_output reply" "get_str reply ''call_id'' = Some call_id"
    and pos: "rposition (answers call_id) (take start input) = Some n"
    by (auto simp: call_before_def split: option.splits if_splits)
  from rposition_Some[OF pos] have n: "n < start" "n < length input" "answers call_id (input ! n)" by auto
  have "reply \<in> set (drop s input)" using out assms(2) set_drop_subset_set_drop[of s start input] by auto
  with assms(1) is_out have none: "\<forall>candidate \<in> set (take s input). \<not> answers call_id candidate"
    unfolding closed_from_def by blast
  show "s \<le> n"
  proof (rule ccontr)
    assume "\<not> s \<le> n"
    with n have "input ! n \<in> set (take s input)" by (auto simp: in_set_conv_nth)
    with none n(3) show False by blast
  qed
qed

lemma recent_start_spec:
  "recent_start input start \<le> start \<and> closed_from input (recent_start input start) \<and>
   (\<forall>s \<le> start. closed_from input s \<longrightarrow> s \<le> recent_start input start)"
proof (induction input start rule: recent_start.induct)
  case (1 input start)
  show ?case
  proof (cases "expand_start input start = start")
    case True
    then show ?thesis using expand_start_fixed[of input start]
      by (subst (1 2 3) recent_start.simps) (simp add: Let_def)
  next
    case False
    have le: "expand_start input start \<le> start" unfolding expand_start_def by (rule foldl_min_le)
    have eq: "recent_start input start = recent_start input (expand_start input start)"
      using False by (subst recent_start.simps) (simp add: Let_def)
    show ?thesis unfolding eq using 1[OF refl False] le expand_start_lower by (meson le_trans)
  qed
qed

text \<open>C35: The items kept of a conversation are the shortest recent part that no call output leaves its call behind: it holds the
  last \<open>keep\<close> items, at least one, and begins at the latest place at or before them from which every call reply is kept
  together with the call it answers.\<close>

theorem recent_items_keep_their_calls:
  assumes "input \<noteq> []"
  shows "\<exists>start. paired_recent_items input keep = drop start input \<and> start \<le> length input - max keep 1 \<and>
     closed_from input start \<and> (\<forall>s \<le> length input - max keep 1. closed_from input s \<longrightarrow> s \<le> start)"
  using recent_start_spec[of input "length input - max keep 1"] assms
  by (auto simp: paired_recent_items_def)

definition example_call :: "str \<Rightarrow> json" where
  "example_call c = JObject [(''call_id'', JString c), (''name'', JString ''exec''), (''type'', JString ''function_call'')]"

definition example_items :: "json list" where
  "example_items = [message_item ''user'' ''a'', example_call ''1'', message_item ''user'' ''b'', function_output ''1'' ''out'']"

lemma recent_items_keep_their_calls_witness:
  "paired_recent_items example_items 1 = tl example_items \<and>
   (\<exists>start. paired_recent_items example_items 1 = drop start example_items \<and> closed_from example_items start)"
proof (rule conjI)
  show "paired_recent_items example_items 1 = tl example_items" by code_simp
  have "example_items \<noteq> []" by (simp add: example_items_def)
  from recent_items_keep_their_calls[OF this, of 1]
  show "\<exists>start. paired_recent_items example_items 1 = drop start example_items \<and> closed_from example_items start" by blast
qed

section \<open>Condensing twice\<close>

lemma floor_boundary_ge: "is_char_boundary s i \<Longrightarrow> i \<le> n \<Longrightarrow> i \<le> floor_boundary s n"
  by (induction n) (auto simp: le_Suc_eq)

lemma floor_boundary_le: "floor_boundary s n \<le> n"
  by (induction n) auto

lemma condensed_output:
  assumes "is_call_output (JObject kvs)" and "get_str (JObject kvs) ''output'' = Some reply" and "RETAINED_BYTES < length reply"
  shows "condense_item sha256 parse show_json names (JObject kvs) = JObject (bt_insert ''output'' (JString (show_json
      (evidence_summary sha256 parse (unwrap_or (map_of names (unwrap_or (get_str (JObject kvs) ''call_id'') [])) ''tool'') reply))) kvs)"
  using assms by (simp add: condense_item_def)

text \<open>Condensing forgets what it condensed. The summary of a long output keeps an excerpt of the output and is itself longer
  than the bytes retained, so the next turn condenses the summary: the digest and the length recorded then are those of the
  first summary, not of the output in the event stream. The text of a JSON object is taken to be at least as long as each
  string in it, and a character to be at most four bytes long.\<close>

theorem summaries_are_condensed_again:
  assumes "is_call_output (JObject kvs)" and "get_str (JObject kvs) ''output'' = Some reply" and "RETAINED_BYTES < length reply"
    and "\<exists>i. RETAINED_BYTES - 3 \<le> i \<and> i \<le> RETAINED_BYTES \<and> is_char_boundary reply i"
    and "\<forall>k s v. json_get v k = Some (JString s) \<longrightarrow> length s \<le> length (show_json v)"
  shows "\<exists>tool first. get_str (condense_item sha256 parse show_json names (JObject kvs)) ''output'' = Some first \<and>
    first = show_json (evidence_summary sha256 parse tool reply) \<and>
    get_str (condense_item sha256 parse show_json names (condense_item sha256 parse show_json names (JObject kvs))) ''output'' =
      Some (show_json (evidence_summary sha256 parse tool first))"
proof -
  define tool where "tool = unwrap_or (map_of names (unwrap_or (get_str (JObject kvs) ''call_id'') [])) ''tool''"
  define first where "first = show_json (evidence_summary sha256 parse tool reply)"
  define kvs' where "kvs' = bt_insert ''output'' (JString first) kvs"
  have once: "condense_item sha256 parse show_json names (JObject kvs) = JObject kvs'"
    unfolding kvs'_def first_def tool_def by (rule condensed_output[OF assms(1,2,3)])
  obtain i where i: "RETAINED_BYTES - 3 \<le> i" "i \<le> RETAINED_BYTES" "is_char_boundary reply i" using assms(4) by blast
  have "RETAINED_BYTES - 3 \<le> floor_boundary reply RETAINED_BYTES" using floor_boundary_ge[OF i(3,2)] i(1) by linarith
  then have "RETAINED_BYTES < length (bound_text reply RETAINED_BYTES)"
    using assms(3) floor_boundary_le[of reply RETAINED_BYTES] by (simp add: bound_text_def RETAINED_BYTES_def)
  also have "length (bound_text reply RETAINED_BYTES) \<le> length first"
    unfolding first_def by (rule assms(5)[rule_format, where k = "''retained_excerpt''"])
      (simp add: evidence_summary_def Let_def)
  finally have long: "RETAINED_BYTES < length first" .
  have same: "get_str (JObject kvs') k = (if k = ''output'' then Some first else get_str (JObject kvs) k)" for k
    by (simp add: kvs'_def get_str_def)
  have out: "is_call_output (JObject kvs')" using assms(1) by (simp add: is_call_output_def same)
  have "condense_item sha256 parse show_json names (JObject kvs') =
      JObject (bt_insert ''output'' (JString (show_json (evidence_summary sha256 parse tool first))) kvs')"
    using condensed_output[OF out _ long, of sha256 parse show_json names] by (simp add: same tool_def)
  then have "get_str (condense_item sha256 parse show_json names (JObject kvs')) ''output'' =
      Some (show_json (evidence_summary sha256 parse tool first))" by (simp add: get_str_def)
  with once same show ?thesis unfolding first_def by (intro exI[of _ tool] exI[of _ first]) (simp add: first_def)
qed

fun example_show :: "json \<Rightarrow> str" where
  "example_show (JObject kvs) = concat (map (\<lambda>(_, v). case v of JString s \<Rightarrow> s | _ \<Rightarrow> []) kvs)"
| "example_show _ = []"

lemma example_show_long: "json_get v k = Some (JString s) \<Longrightarrow> length s \<le> length (example_show v)"
proof (cases v)
  case (JObject kvs)
  assume "json_get v k = Some (JString s)"
  with JObject have "(k, JString s) \<in> set kvs" by (simp add: map_of_SomeD)
  then have "length s \<le> length (concat (map (\<lambda>(_, v). case v of JString s \<Rightarrow> s | _ \<Rightarrow> []) kvs))"
    by (induction kvs) auto
  then show ?thesis by (simp add: JObject)
qed auto

lemma summaries_are_condensed_again_witness:
  "\<exists>tool first. get_str (condense_item (\<lambda>_. []) (\<lambda>_. Inl []) example_show []
      (function_output ''1'' (replicate 3000 (CHR ''a'')))) ''output'' = Some first \<and>
    first = example_show (evidence_summary (\<lambda>_. []) (\<lambda>_. Inl []) tool (replicate 3000 (CHR ''a''))) \<and>
    get_str (condense_item (\<lambda>_. []) (\<lambda>_. Inl []) example_show [] (condense_item (\<lambda>_. []) (\<lambda>_. Inl []) example_show []
      (function_output ''1'' (replicate 3000 (CHR ''a''))))) ''output'' =
      Some (example_show (evidence_summary (\<lambda>_. []) (\<lambda>_. Inl []) tool first))"
proof -
  define long where "long = replicate 3000 (CHR ''a'')"
  have len: "length long = 3000" by (simp add: long_def)
  have "\<not> is_cont (long ! 2048)" by (simp add: long_def is_cont_def)
  then have "is_char_boundary long RETAINED_BYTES" by (simp add: is_char_boundary_def len RETAINED_BYTES_def)
  then have bnd: "\<exists>i. RETAINED_BYTES - 3 \<le> i \<and> i \<le> RETAINED_BYTES \<and> is_char_boundary long i"
    by (intro exI[of _ RETAINED_BYTES]) simp
  have "RETAINED_BYTES < length long" by (simp add: len RETAINED_BYTES_def)
  moreover have "is_call_output (function_output ''1'' long)" "get_str (function_output ''1'' long) ''output'' = Some long"
    by (simp_all add: is_call_output_def function_output_def get_str_def)
  ultimately show ?thesis
    unfolding long_def[symmetric] function_output_def
    by (intro summaries_are_condensed_again bnd allI impI example_show_long) (auto simp: function_output_def)
qed

end
