(* ===== verification/Run_Roles.thy ===== *)
theory Run_Roles
  imports Plans Auto_Routing Exec_Policy
begin

text \<open>
  Roles and routes of a run (\<open>crates/minha-core/src/runtime.rs\<close>): what a role may spend and do, how a goal is
  read (mode, complexity, delegation), which model leads and which models may work, how agents are
  named, and which permission a tool call needs. A \<open>HashSet\<close> of models is a list in some order; the
  non-ASCII part of \<open>char::is_alphanumeric\<close> is the argument \<open>uni\<close>.
\<close>

section \<open>Roles\<close>

datatype role_kind =
  RkAmbiguityConsultant | RkIssueClarifier | RkIntentClassifier | RkIntentRouter | RkManager | RkAuditor
| RkJudge | RkPlanner | RkIntegrator | RkWorker | RkLead

record role_policy =
  rl_kind :: role_kind
  rl_turn_limit :: usize
  rl_input_budget :: u64
  rl_tool_budget :: usize
  rl_can_ask_user :: bool
  rl_leadership_eligible :: bool
  rl_critical_work_eligible :: bool
  rl_initial_state :: agent_state

fun role_limits :: "role_kind \<Rightarrow> usize \<times> u64 \<times> usize \<times> bool \<times> agent_state" where
  "role_limits RkAmbiguityConsultant = (2, 12000, 0, False, AgentWorking)"
| "role_limits RkIssueClarifier = (4, 16000, 4, True, AgentWorking)"
| "role_limits RkIntentClassifier = (12, 200000, 32, False, AgentWorking)"
| "role_limits RkIntentRouter = (3, 24000, 4, True, AgentWorking)"
| "role_limits RkManager = (3, 32000, 0, False, AgentWorking)"
| "role_limits RkAuditor = (5, 80000, 12, False, AgentVerifying)"
| "role_limits RkJudge = (6, 80000, 12, False, AgentVerifying)"
| "role_limits RkPlanner = (8, 160000, 16, True, AgentPlanning)"
| "role_limits RkIntegrator = (12, 200000, 32, True, AgentIntegrating)"
| "role_limits RkWorker = (10, 160000, 32, True, AgentWorking)"
| "role_limits RkLead = (12, 200000, 32, True, AgentWorking)"

definition role_for_kind :: "role_kind \<Rightarrow> role_policy" where
  "role_for_kind kind =
     (case role_limits kind of (turns, input, tools, ask, st) \<Rightarrow>
        \<lparr>rl_kind = kind, rl_turn_limit = turns, rl_input_budget = input, rl_tool_budget = tools, rl_can_ask_user = ask,
         rl_leadership_eligible = (kind \<in> {RkLead, RkPlanner, RkIntegrator, RkIssueClarifier}),
         rl_critical_work_eligible = (kind \<in> {RkLead, RkIntegrator, RkJudge, RkAuditor}), rl_initial_state = st\<rparr>)"

definition classify_role :: "str \<Rightarrow> role_kind" where
  "classify_role role =
     (let role = to_ascii_lowercase role; has = contains role in
      if has ''ambiguity consultant'' then RkAmbiguityConsultant
      else if has ''clarifier'' then RkIssueClarifier
      else if has ''classifier'' then RkIntentClassifier
      else if has ''synthes'' \<or> has ''integrat'' then RkIntegrator
      else if has ''router'' then RkIntentRouter
      else if has ''manager'' then RkManager
      else if has ''auditor'' then RkAuditor
      else if has ''judge'' \<or> has ''review'' then RkJudge
      else if has ''plann'' then RkPlanner
      else if has ''worker'' then RkWorker
      else RkLead)"

definition role_for :: "str \<Rightarrow> role_policy" where "role_for role = role_for_kind (classify_role role)"

definition initial_agent_state :: "str \<Rightarrow> agent_state" where "initial_agent_state role = rl_initial_state (role_for role)"
definition agent_turn_limit :: "str \<Rightarrow> usize" where "agent_turn_limit role = rl_turn_limit (role_for role)"
definition agent_input_budget :: "str \<Rightarrow> u64" where "agent_input_budget role = rl_input_budget (role_for role)"
definition agent_tool_budget :: "str \<Rightarrow> usize" where "agent_tool_budget role = rl_tool_budget (role_for role)"
definition role_can_ask_user :: "str \<Rightarrow> bool" where "role_can_ask_user role = rl_can_ask_user (role_for role)"

definition worker_task_id :: "str \<Rightarrow> str option" where
  "worker_task_id role = or_else (strip_prefix role ''Spark worker '') (strip_prefix role ''Lead task '')"

definition is_affirmative :: "str \<Rightarrow> bool" where
  "is_affirmative answer =
     (to_ascii_lowercase (trim answer) \<in> {''y'', ''yes'', ''approve'', ''approved'', ''allow''})"

definition identity_label :: "str \<Rightarrow> str" where
  "identity_label role =
     (if contains role ''Spark'' then ''Spark'' else if contains role ''Terra'' then ''Terra''
      else if contains role ''Sol'' then ''Sol'' else ''Mina'')"

definition model_identity :: "str \<Rightarrow> str" where
  "model_identity model =
     (let r = parse_or_legacy_chatgpt model; slug = to_ascii_lowercase (mref_slug r) in
      if contains slug ''spark'' then ''Spark''
      else if contains slug ''terra'' then ''Terra''
      else if contains slug ''sol'' then ''Sol''
      else if contains slug ''luna'' then ''Mina''
      else case mref_provider r of
        DeepSeek \<Rightarrow> ''DeepSeek'' | XiaomiMiMo \<Rightarrow> ''MiMo'' | ChatGptCodex \<Rightarrow> mref_slug r)"

definition reasoning_for_turn :: "str \<Rightarrow> str \<Rightarrow> usize \<Rightarrow> str \<Rightarrow> str" where
  "reasoning_for_turn model role turn configured =
     (if provider_for_model model \<noteq> DeepSeek then configured else ''max'')"

section \<open>Reading a goal\<close>

datatype auto_mode = AmChat | AmImplement | AmPlan | AmAudit | AmReview

fun auto_mode_name :: "auto_mode \<Rightarrow> str" where
  "auto_mode_name AmChat = ''chat''"
| "auto_mode_name AmImplement = ''implement''"
| "auto_mode_name AmPlan = ''plan''"
| "auto_mode_name AmAudit = ''audit''"
| "auto_mode_name AmReview = ''review''"

definition parse_auto_mode :: "str \<Rightarrow> auto_mode" where
  "parse_auto_mode txt =
     (let lower = to_ascii_lowercase txt in
      case find (\<lambda>(tag, _). contains lower tag)
        [(''<minha-mode>implement</minha-mode>'', AmImplement), (''<minha-mode>plan</minha-mode>'', AmPlan),
         (''<minha-mode>audit</minha-mode>'', AmAudit), (''<minha-mode>review</minha-mode>'', AmReview),
         (''<minha-mode>chat</minha-mode>'', AmChat)] of
        Some (_, mode) \<Rightarrow> mode | None \<Rightarrow> AmChat)"

definition greetings :: "str list" where
  "greetings = [''hello'', ''hi'', ''hey'', ''hiya'', ''thanks'', ''thank you'', ''good morning'', ''good afternoon'',
     ''good evening'']"

definition local_auto_mode :: "(str \<Rightarrow> bool) \<Rightarrow> str \<Rightarrow> auto_mode option" where
  "local_auto_mode uni txt =
     (let txt = to_ascii_lowercase (trim txt); starts = starts_with_any txt in
      if txt = [] then Some AmChat
      else if trim_matches (\<lambda>g. \<not> is_alphanumeric uni g) txt \<in> set greetings then Some AmChat
      else if starts [''/plan'', ''plan '', ''make a plan'', ''design a plan''] then Some AmPlan
      else if starts [''/audit'', ''audit '', ''inspect for'', ''find bugs'', ''assess ''] then Some AmAudit
      else if starts [''/review'', ''review '', ''code review'', ''review the diff''] then Some AmReview
      else if starts [''/implement'', ''implement '', ''fix '', ''add '', ''change '', ''update '', ''remove '',
          ''refactor '', ''build '', ''create '', ''continue working'', ''keep working''] then Some AmImplement
      else if ends_with txt ''?'' \<or> starts [''what '', ''why '', ''how '', ''where '', ''when '', ''who '', ''tell me '',
          ''explain '', ''summarize '', ''is '', ''are ''] then Some AmChat
      else None)"

definition complexity_terms :: "str list list" where
  "complexity_terms =
     [[''architecture'', ''migration'', ''cross-cutting'', ''redesign''],
      [''security'', ''authentication'', ''permission'', ''secret''],
      [''concurrent'', ''race'', ''distributed'', ''hivemind''],
      [''database'', ''schema'', ''protocol'', ''compatibility''],
      [''release'', ''production'', ''destructive'', ''high-risk'']]"

definition complexity_score :: "str \<Rightarrow> u8" where
  "complexity_score txt =
     (let lower = to_ascii_lowercase txt in
      min 10 (of_bool (320 < length txt) + of_bool (1200 < length txt) + of_bool (8 < length (lines txt)) +
        of_bool (4 < length (filter (\<lambda>c. c = CHR ''/'') txt)) +
        length (filter (contains_any lower) complexity_terms)))"

definition should_delegate :: "str \<Rightarrow> execution_profile \<Rightarrow> bool" where
  "should_delegate goal profile =
     (let explicit = contains_any (to_ascii_lowercase goal) [''independent tasks'', ''in parallel'', ''parallel work'',
            ''multiple agents'', ''audit every'', ''across the workspace'']
      in case profile of Economy \<Rightarrow> False | BalancedProfile \<Rightarrow> explicit | Turbo \<Rightarrow> explicit \<or> 5 \<le> complexity_score goal)"

section \<open>Routes\<close>

definition ensure_model :: "str list \<Rightarrow> str \<Rightarrow> harness_error + unit" where
  "ensure_model available model = (if model \<in> set available then Inr () else Inl (ModelUnavailable model))"

definition first_available :: "str list \<Rightarrow> str list \<Rightarrow> harness_error + str" where
  "first_available available candidates =
     ok_or (find (\<lambda>m. m \<in> set available) candidates)
       (ModelUnavailable (case candidates of [] \<Rightarrow> ''supported Codex model'' | m # _ \<Rightarrow> m))"

record lead_route =
  lrt_model :: str
  lrt_degraded :: "str option"

text \<open>The first of equal elements stays.\<close>

definition keep_first :: "'a list \<Rightarrow> 'a list" where
  "keep_first xs = rev (remdups (rev xs))"

definition leadership_slots :: "config \<Rightarrow> bool \<Rightarrow> str list" where
  "leadership_slots cfg complex =
     (let ms = models_of cfg in
      keep_first (if complex then [mcf_complex_lead ms, mcf_lead ms, mcf_planner ms]
                  else [mcf_lead ms, mcf_complex_lead ms, mcf_planner ms]))"

definition deterministic_candidates :: "str list \<Rightarrow> str list" where
  "deterministic_candidates available = sort (filter (\<lambda>m. contains m ''/'') available)"

definition routed_lead_model :: "str \<Rightarrow> str list \<Rightarrow> config \<Rightarrow> harness_error + lead_route" where
  "routed_lead_model goal available cfg =
     (let slots = leadership_slots cfg (5 \<le> complexity_score goal);
          preferred = (case slots of [] \<Rightarrow> mcf_lead (models_of cfg) | m # _ \<Rightarrow> m)
      in if preferred \<in> set available then Inr \<lparr>lrt_model = preferred, lrt_degraded = None\<rparr>
         else case find (\<lambda>m. m \<in> set available) (drop 1 slots) of
           Some m \<Rightarrow> Inr \<lparr>lrt_model = m, lrt_degraded = Some (''preferred leader `'' @ preferred @
               ''` is unavailable; leading with `'' @ m @ ''`, which is also configured as leadership-capable'')\<rparr>
         | None \<Rightarrow>
             (case deterministic_candidates available of
                [] \<Rightarrow> Inl (ModelUnavailable preferred)
              | m # _ \<Rightarrow> Inr \<lparr>lrt_model = m, lrt_degraded = Some (
                  ''no configured leadership-capable model is available (preferred `'' @ preferred @
                  ''`); leading with `'' @ m @ ''` as a degraded route'')\<rparr>))"

definition worker_model_candidates :: "task_record \<Rightarrow> config \<Rightarrow> str list" where
  "worker_model_candidates t cfg =
     (let score = complexity_score (tk_objective t @ [CHR 0x0A] @ join '' '' (tk_paths t) @ [CHR 0x0A] @
            join '' '' (tk_dependencies t));
          escalate = (1 < tk_attempt t \<or> tk_last_error t \<noteq> None);
          ms = models_of cfg
      in keep_first
        (if escalate \<or> 7 \<le> score then [mcf_worker_deep ms, mcf_worker_medium ms, mcf_worker_fast ms]
         else if 4 \<le> score then [mcf_worker_medium ms, mcf_worker_fast ms, mcf_worker_deep ms]
         else [mcf_worker_fast ms, mcf_worker_medium ms, mcf_worker_deep ms]))"

definition fair_models :: "str list \<Rightarrow> str list \<Rightarrow> str list" where
  "fair_models configured available =
     (let observed = keep_first (map canonical_routing_model (deterministic_candidates available))
      in sort_dedup (filter (\<lambda>m. m \<in> set observed) (map canonical_routing_model configured) @ observed))"

definition fair_worker_models :: "task_record \<Rightarrow> str list \<Rightarrow> config \<Rightarrow> str list" where
  "fair_worker_models t available cfg = fair_models (worker_model_candidates t cfg) available"

definition fair_audit_models :: "str list \<Rightarrow> config \<Rightarrow> str list" where
  "fair_audit_models available cfg =
     (let ms = models_of cfg in fair_models [mcf_worker_fast ms, mcf_worker_medium ms, mcf_worker_deep ms] available)"

definition consultation_route :: "branch_plan \<Rightarrow> config \<Rightarrow> (str \<times> str) option" where
  "consultation_route plan cfg =
     (case bp_consult plan of None \<Rightarrow> None
      | Some c \<Rightarrow>
          (let c = to_ascii_lowercase (trim c) in
           if c = ''terra'' then Some (mcf_consult_ambiguous (models_of cfg), ''Terra ambiguity consultant'')
           else if c = ''sol'' then Some (mcf_consult_high_risk (models_of cfg), ''Sol high-risk consultant'')
           else None))"

section \<open>Tool calls\<close>

definition activity_kind_for_tool :: "str \<Rightarrow> str" where
  "activity_kind_for_tool name =
     (if name = ''read_files'' then ''explored'' else if name = ''search'' then ''searched''
      else if name = ''apply_patch'' then ''edited'' else if name = ''quality'' \<or> name = ''exec'' then ''ran_checks''
      else if name = ''hive'' then ''delegated'' else ''tool'')"

definition activity_summary_for_tool :: "str \<Rightarrow> json \<Rightarrow> str" where
  "activity_summary_for_tool name arguments =
     bound_text
       (if name = ''read_files'' then join '', '' (take 4 (List.map_filter (\<lambda>f. get_str f ''path'')
            (unwrap_or (get_array arguments ''files'') [])))
        else if name = ''search'' then unwrap_or (get_str arguments ''query'') ''workspace search''
        else if name = ''exec'' then join '' '' (take 8 (List.map_filter as_str (unwrap_or (get_array arguments ''argv'') [])))
        else if name = ''quality'' then unwrap_or (get_str arguments ''action'') ''quality''
        else if name = ''hive'' then unwrap_or (get_str arguments ''kind'') ''message'' @ '' to '' @
          unwrap_or (get_str arguments ''to'') ''manager''
        else name) 240"

definition curl_writes :: "str \<Rightarrow> bool" where
  "curl_writes a =
     (a \<in> {''-d'', ''--data'', ''--data-raw'', ''--data-binary'', ''-F'', ''--form'', ''-T'', ''--upload-file''} \<or>
      eq_ignore_ascii_case a ''POST'' \<or> eq_ignore_ascii_case a ''PUT'' \<or> eq_ignore_ascii_case a ''PATCH'' \<or>
      eq_ignore_ascii_case a ''DELETE'')"

definition is_remote_write_argv :: "str list \<Rightarrow> bool" where
  "is_remote_write_argv argv =
     (case Option.bind (case argv of [] \<Rightarrow> None | a # _ \<Rightarrow> Some a) path_file_name of
        None \<Rightarrow> False
      | Some program \<Rightarrow>
          let subcommand = (case argv of _ # s # _ \<Rightarrow> s | _ \<Rightarrow> []) in
          if program = ''git'' then subcommand = ''push''
          else if program \<in> {''gh'', ''ssh'', ''scp'', ''sftp'', ''rsync''} then True
          else if program \<in> {''npm'', ''pnpm'', ''yarn'', ''cargo''} then subcommand = ''publish''
          else if program = ''docker'' \<or> program = ''podman'' then subcommand = ''push''
          else if program = ''kubectl'' then subcommand \<in> {''apply'', ''create'', ''delete'', ''edit'', ''patch'',
            ''replace'', ''scale'', ''set''}
          else if program = ''curl'' then list_ex curl_writes (drop 1 argv)
          else False)"

definition permission_for_call :: "config \<Rightarrow> str \<Rightarrow> json \<Rightarrow> permission_level" where
  "permission_for_call cfg name arguments =
     (if name = ''exec'' \<and> (case get_array arguments ''argv'' of None \<Rightarrow> False
          | Some argv \<Rightarrow> is_remote_write_argv (List.map_filter as_str argv))
      then remote_writes (permissions_of cfg) else destructive (permissions_of cfg))"

section \<open>Kinds of runs\<close>

datatype run_kind = RunAuto | RunImplement | RunPlan | RunAudit | RunReview

fun run_kind_name :: "run_kind \<Rightarrow> str" where
  "run_kind_name RunAuto = ''auto''"
| "run_kind_name RunImplement = ''implement''"
| "run_kind_name RunPlan = ''plan''"
| "run_kind_name RunAudit = ''audit''"
| "run_kind_name RunReview = ''review''"

fun mode_for :: "run_kind \<Rightarrow> mode" where
  "mode_for RunReview = ReviewMode"
| "mode_for RunAudit = ReviewMode"
| "mode_for RunImplement = Batch"
| "mode_for RunPlan = Batch"
| "mode_for RunAuto = Interactive"

definition run_kind_from_name :: "str \<Rightarrow> run_kind option" where
  "run_kind_from_name s =
     (if s = ''auto'' then Some RunAuto else if s = ''implement'' then Some RunImplement
      else if s = ''plan'' then Some RunPlan else if s = ''audit'' then Some RunAudit
      else if s = ''review'' then Some RunReview else None)"

text \<open>The last routing decision, else the first event that says how the session began.\<close>

definition routed_kind :: "event_envelope \<Rightarrow> run_kind option" where
  "routed_kind env =
     (case env_event env of
        AccountEvent (EvRoutingDecision mode _ _ _) \<Rightarrow>
          if mode = ''chat'' then Some RunAuto else if mode = ''auto'' then None else run_kind_from_name mode
      | _ \<Rightarrow> None)"

definition started_kind :: "event_envelope \<Rightarrow> run_kind option" where
  "started_kind env =
     (case env_event env of
        Session (EvSessionStarted kind _) \<Rightarrow> run_kind_from_name kind
      | EvLegacy kind payload \<Rightarrow>
          if kind = ''run.started'' then Option.bind (get_str payload ''kind'') run_kind_from_name else None
      | _ \<Rightarrow> None)"

definition stored_run_kind :: "event_envelope list \<Rightarrow> run_kind option" where
  "stored_run_kind events = or_else (find_map routed_kind (rev events)) (find_map started_kind events)"

section \<open>Answers\<close>

definition free_action :: "(str \<times> str) list \<Rightarrow> str \<Rightarrow> str option" where
  "free_action answers verb =
     (if list_ex (\<lambda>(qid, value). \<not> starts_with qid ''$'' \<and> eq_ignore_ascii_case (trim value) verb) answers
      then Some verb else None)"

definition free_action_from_answers :: "(str \<times> str) list \<Rightarrow> str option" where
  "free_action_from_answers answers = or_else (free_action answers ''cancel'') (free_action answers ''confirm'')"

definition dispatch_receipt_id :: "run_id \<Rightarrow> str \<Rightarrow> u64 \<Rightarrow> event_agent_id \<Rightarrow> str" where
  "dispatch_receipt_id rid tid gen aid = ''dispatch:'' @ rid @ '':'' @ tid @ '':'' @ show_nat gen @ '':'' @ aid"

definition short_id :: "run_id \<Rightarrow> str" where "short_id rid = take_chars 8 rid"

definition prompt_cache_key :: "(str \<Rightarrow> str) \<Rightarrow> str \<Rightarrow> str" where
  "prompt_cache_key sha256 system = ''minha-'' @ take 24 (hex (sha256 system))"

section \<open>Leaders and workers\<close>

lemma set_keep_first [simp]: "set (keep_first xs) = set xs" by (simp add: keep_first_def)

lemma keep_first_Cons: "hd (keep_first (x # xs)) = x \<and> keep_first (x # xs) \<noteq> []"
proof -
  have "remdups (ys @ [x]) \<noteq> [] \<and> last (remdups (ys @ [x])) = x" for ys by (induction ys) auto
  then have "remdups (rev xs @ [x]) \<noteq> [] \<and> last (remdups (rev xs @ [x])) = x" .
  then show ?thesis by (simp add: keep_first_def hd_rev)
qed

lemma leadership_slots_ne: "leadership_slots cfg complex \<noteq> []"
  by (simp add: leadership_slots_def Let_def keep_first_Cons)

lemma find_mem: "find P xs = Some x \<Longrightarrow> x \<in> set xs \<and> P x"
  by (rule find_is_Some)

text \<open>The session is led by an available model or not at all, and a substitute is announced. A leader is found exactly when a
  configured leader or some model with a provider is available; the leader found is available, it is a configured one when
  any of them is, and the route says it is degraded exactly when it is not the preferred one.\<close>

theorem leader_is_available_and_announced:
  "(case routed_lead_model goal available cfg of
      Inl e \<Rightarrow> e = ModelUnavailable (hd (leadership_slots cfg (5 \<le> complexity_score goal))) \<and>
        (\<forall>m \<in> set available. m \<notin> set (leadership_slots cfg (5 \<le> complexity_score goal)) \<and> \<not> contains m ''/'')
    | Inr r \<Rightarrow> lrt_model r \<in> set available \<and>
        (lrt_degraded r = None \<longleftrightarrow> lrt_model r = hd (leadership_slots cfg (5 \<le> complexity_score goal))) \<and>
        (lrt_model r \<notin> set (leadership_slots cfg (5 \<le> complexity_score goal)) \<longrightarrow>
           set (leadership_slots cfg (5 \<le> complexity_score goal)) \<inter> set available = {}))"
proof -
  define slots where "slots = leadership_slots cfg (5 \<le> complexity_score goal)"
  obtain p ps where slots: "slots = p # ps" using leadership_slots_ne unfolding slots_def by (metis neq_Nil_conv)
  show ?thesis
  proof (cases "p \<in> set available")
    case True
    then show ?thesis by (simp add: routed_lead_model_def Let_def slots_def[symmetric] slots)
  next
    case False
    show ?thesis
    proof (cases "find (\<lambda>m. m \<in> set available) ps")
      case (Some m)
      with False find_mem[OF Some] show ?thesis
        by (auto simp: routed_lead_model_def Let_def slots_def[symmetric] slots)
    next
      case None
      then have none: "set slots \<inter> set available = {}" using False by (auto simp: slots find_None_iff)
      show ?thesis
      proof (cases "deterministic_candidates available")
        case Nil
        then have "set (deterministic_candidates available) = {}" by simp
        then have "\<forall>m \<in> set available. \<not> contains m ''/''" by (auto simp: deterministic_candidates_def)
        with Nil None False none show ?thesis
          by (auto simp: routed_lead_model_def Let_def slots_def[symmetric] slots)
      next
        case (Cons m ms)
        then have "m \<in> set (deterministic_candidates available)" by simp
        then have "m \<in> set available" by (simp add: deterministic_candidates_def)
        with Cons None False none show ?thesis
          by (auto simp: routed_lead_model_def Let_def slots_def[symmetric] slots)
      qed
    qed
  qed
qed

lemma sort_dedup_cong: "set xs = set ys \<Longrightarrow> sort_dedup xs = sort_dedup ys"
  by (rule sorted_distinct_set_unique) simp_all

text \<open>The pool of workers is the live catalogue. The models a worker or an auditor may be given are the canonical names of the
  qualified models that are available, whatever the task, its attempts, its errors and the configured slots.\<close>

theorem worker_pool_is_the_live_catalogue:
  "fair_worker_models t available cfg = sort_dedup (map canonical_routing_model (filter (\<lambda>m. contains m ''/'') available)) \<and>
   fair_audit_models available cfg = fair_worker_models t available cfg"
proof -
  have "fair_models configured available =
      sort_dedup (map canonical_routing_model (filter (\<lambda>m. contains m ''/'') available))" for configured
    unfolding fair_models_def Let_def deterministic_candidates_def
    by (rule sort_dedup_cong) auto
  then show ?thesis by (simp add: fair_worker_models_def fair_audit_models_def Let_def)
qed

section \<open>Names of workers\<close>

lemma strip_prefix_iff: "strip_prefix s p = Some t \<longleftrightarrow> s = p @ t"
  by (auto simp: result_simps)

text \<open>Only Spark is told its task. A worker's role is named after its model, and the task is read back from the role; it is
  found exactly when the model goes by the name Spark. Every other worker runs as an agent without a task.\<close>

theorem only_spark_workers_know_their_task:
  "worker_task_id (model_identity model @ '' worker '' @ tid) = Some tid \<longleftrightarrow> model_identity model = ''Spark''"
proof
  assume "model_identity model = ''Spark''"
  then have "strip_prefix (model_identity model @ '' worker '' @ tid) ''Spark worker '' = Some tid"
    by (simp add: strip_prefix_iff)
  then show "worker_task_id (model_identity model @ '' worker '' @ tid) = Some tid"
    by (simp add: worker_task_id_def or_else_def)
next
  assume "worker_task_id (model_identity model @ '' worker '' @ tid) = Some tid"
  then consider "strip_prefix (model_identity model @ '' worker '' @ tid) ''Spark worker '' = Some tid"
    | "strip_prefix (model_identity model @ '' worker '' @ tid) ''Lead task '' = Some tid"
    by (auto simp: worker_task_id_def or_else_def split: option.splits)
  then show "model_identity model = ''Spark''"
  proof cases
    case 1
    then have "model_identity model @ '' worker '' @ tid = (''Spark'' @ '' worker '') @ tid" by (simp add: strip_prefix_iff)
    then have "model_identity model @ '' worker '' = ''Spark'' @ '' worker ''"
      by (metis append.assoc append_same_eq)
    then show ?thesis by (metis append_same_eq)
  next
    case 2
    then have "model_identity model @ '' worker '' @ tid = ''Lead task '' @ tid" by (simp add: strip_prefix_iff)
    then have "model_identity model @ '' worker '' = ''Lead task ''" by (metis append.assoc append_same_eq)
    then have "last (model_identity model @ '' worker '') = last ''Lead task ''"
      "butlast (model_identity model @ '' worker '') = butlast ''Lead task ''" by simp_all
    then have "model_identity model @ '' worker'' = ''Lead task''" by (simp add: butlast_append)
    then have "last (model_identity model @ '' worker'') = last ''Lead task''" by simp
    then show ?thesis by simp
  qed
qed

text \<open>Remote writes slip past their permission. A push with an option before the subcommand, an upload whose option holds
  its value and every line of a terminal are judged by the permission for destructive commands, not by the one for remote
  writes.\<close>

theorem remote_writes_slip_past_their_permission:
  "permission_for_call cfg ''exec'' (JObject [(''argv'', JArray (map JString [''git'', ''push'']))]) = remote_writes (permissions_of cfg) \<and>
   permission_for_call cfg ''exec'' (JObject [(''argv'', JArray (map JString [''git'', ''-C'', ''.'', ''push'']))]) =
     destructive (permissions_of cfg) \<and>
   permission_for_call cfg ''exec'' (JObject [(''argv'', JArray (map JString [''curl'', ''-XPOST'', ''-dx=1'', ''http://h'']))]) =
     destructive (permissions_of cfg) \<and>
   permission_for_call cfg ''terminal'' arguments = destructive (permissions_of cfg)"
proof -
  have "is_remote_write_argv [''git'', ''push'']" "\<not> is_remote_write_argv [''git'', ''-C'', ''.'', ''push'']"
    "\<not> is_remote_write_argv [''curl'', ''-XPOST'', ''-dx=1'', ''http://h'']"
    by code_simp+
  then show ?thesis by (simp add: permission_for_call_def get_array_def List.map_filter_def)
qed

end
