(* ===== verification/Self_Update.thy ===== *)
theory Self_Update
  imports Cache_Core Provider_Models Rust_Path
begin

text \<open>
  Self update (\<open>crates/minha-core/src/update.rs\<close>): versions and their order, the names that may reach the
  \<open>gh\<close> program, the choice of the two assets of a release, the check of the digest and the replacement of
  the executable. The runs of \<open>gh\<close> with what they do to the files, SHA-256 and the reader of the release
  JSON are arguments. The file system is a map from paths to files, with the faults of its operations as
  an argument; it is the Unix variant of the code.
\<close>

section \<open>Diagnostics\<close>

definition MAX_DIAGNOSTIC_BYTES :: usize where "MAX_DIAGNOSTIC_BYTES = 512"
definition MAX_ASSET_BYTES :: u64 where "MAX_ASSET_BYTES = 256 * 1024 * 1024"
definition MAX_RELEASE_JSON_BYTES :: usize where "MAX_RELEASE_JSON_BYTES = 2 * 1024 * 1024"
definition DEFAULT_REPOSITORY :: str where "DEFAULT_REPOSITORY = ''bybrooklyn/minha''"

text \<open>\<open>str::replace\<close> for a pattern that is not empty: every occurrence, from the left.\<close>

function str_replace :: "str \<Rightarrow> str \<Rightarrow> str \<Rightarrow> str" where
  "str_replace p t [] = []"
| "str_replace p t (c # cs) =
     (if p \<noteq> [] \<and> starts_with (c # cs) p then t @ str_replace p t (drop (length p - 1) cs)
      else c # str_replace p t cs)"
  by pat_completeness auto
termination by (relation "measure (\<lambda>(_, _, s). length s)") auto

definition bounded_redacted :: "str \<Rightarrow> str" where
  "bounded_redacted bytes =
     (let shown = redact_secrets (str_replace ''github_pat_'' ''[redacted] ''
                    (str_replace ''ghp_'' ''[redacted] '' (from_utf8_lossy bytes)))
      in if length shown \<le> MAX_DIAGNOSTIC_BYTES then trim shown
         else trim (take (floor_boundary shown MAX_DIAGNOSTIC_BYTES) shown) @ ellipsis)"

definition short_error :: "str \<Rightarrow> str" where "short_error e = bounded_redacted e"
definition io_message :: "str \<Rightarrow> str" where "io_message e = short_error e"

section \<open>Versions\<close>

datatype pre_identifier = Numeric u64 | Textual str

record version_parts =
  v_core :: "u64 list"
  v_pre :: "pre_identifier list"

datatype ordering = Less | Equal | Greater

definition cmp :: "'a::linorder \<Rightarrow> 'a \<Rightarrow> ordering" where
  "cmp a b = (if a < b then Less else if a = b then Equal else Greater)"

definition bad_version :: "str \<Rightarrow> str" where
  "bad_version value = ''invalid release version: '' @ value"

text \<open>\<open>trim_start_matches('v')\<close>.\<close>

definition trim_v :: "str \<Rightarrow> str" where "trim_v s = dropWhile (\<lambda>c. c = CHR ''v'') s"

definition leading_zero :: "str \<Rightarrow> bool" where
  "leading_zero part = (1 < length part \<and> starts_with part ''0'')"

definition parse_core_part :: "str \<Rightarrow> str \<Rightarrow> str + u64" where
  "parse_core_part value part =
     (if part = [] \<or> leading_zero part then Inl (bad_version value)
      else ok_or (parse_unsigned u64_max part) (bad_version value))"

definition parse_pre_part :: "str \<Rightarrow> str \<Rightarrow> str + pre_identifier" where
  "parse_pre_part value part =
     (if part = [] then Inl (bad_version value)
      else if list_all is_ascii_digit part then
        if leading_zero part then Inl (bad_version value)
        else r_map Numeric (ok_or (parse_unsigned u64_max part) (bad_version value))
      else if list_all (\<lambda>c. is_ascii_alphanumeric c \<or> c = CHR ''-'') part then Inr (Textual part)
      else Inl (bad_version value))"

definition parse_version :: "str \<Rightarrow> str + version_parts" where
  "parse_version raw =
     (let value = trim_v (trim raw);
          without_build = (case split_once (CHR ''+'') value of Some (a, _) \<Rightarrow> a | None \<Rightarrow> value);
          (core, pre) = (case split_once (CHR ''-'') without_build of Some parts \<Rightarrow> parts | None \<Rightarrow> (without_build, []))
      in r_bind (r_mapm (parse_core_part value) (split_on (CHR ''.'') core)) (\<lambda>nums.
         if length nums \<noteq> 3 then Inl (bad_version value)
         else r_bind (if pre = [] then Inr [] else r_mapm (parse_pre_part value) (split_on (CHR ''.'') pre)) (\<lambda>ids.
         Inr \<lparr>v_core = nums, v_pre = ids\<rparr>)))"

fun compare_identifier :: "pre_identifier \<Rightarrow> pre_identifier \<Rightarrow> ordering" where
  "compare_identifier (Numeric a) (Numeric b) = cmp a b"
| "compare_identifier (Numeric a) (Textual b) = Less"
| "compare_identifier (Textual a) (Numeric b) = Greater"
| "compare_identifier (Textual a) (Textual b) = cmp a b"

definition compare_pre :: "pre_identifier list \<Rightarrow> pre_identifier list \<Rightarrow> ordering" where
  "compare_pre l r =
     (case filter (\<lambda>ord. ord \<noteq> Equal) (map (\<lambda>(a, b). compare_identifier a b) (zip l r)) of
        ord # _ \<Rightarrow> ord
      | [] \<Rightarrow> cmp (length l) (length r))"

fun then_with :: "ordering \<Rightarrow> ordering \<Rightarrow> ordering" where
  "then_with Equal b = b"
| "then_with a b = a"

definition compare_versions :: "str \<Rightarrow> str \<Rightarrow> str + ordering" where
  "compare_versions left right =
     r_bind (parse_version left) (\<lambda>l.
     r_bind (parse_version right) (\<lambda>r.
     Inr (then_with (cmp (v_core l) (v_core r))
            (if v_pre l = [] then (if v_pre r = [] then Equal else Greater)
             else if v_pre r = [] then Less else compare_pre (v_pre l) (v_pre r)))))"

section \<open>Names that reach the program\<close>

definition repository_component :: "str \<Rightarrow> bool" where
  "repository_component v =
     (v \<noteq> [] \<and> length v \<le> 100 \<and> \<not> starts_with v ''-'' \<and>
      list_all (\<lambda>c. is_ascii_alphanumeric c \<or> c \<in> set ''-_.'') v)"

definition validate_repository :: "str \<Rightarrow> str + unit" where
  "validate_repository repository =
     (case split_on (CHR ''/'') repository of
        [owner, name] \<Rightarrow>
          if repository_component owner \<and> repository_component name then Inr ()
          else Inl ''repository must be an owner/name value''
      | _ \<Rightarrow> Inl ''repository must be an owner/name value'')"

definition validate_asset_name :: "str \<Rightarrow> str + unit" where
  "validate_asset_name asset =
     (if asset = [] \<or> 512 < length asset then Inl ''release asset name is invalid''
      else if list_ex (\<lambda>c. c \<in> set (''*?[]{}/'' @ [CHR 0x5C, CHR 0x0D, CHR 0x0A, CHR 0x09])) asset then
        Inl ''release asset name contains unsupported characters''
      else if asset = ''.'' \<or> asset = ''..'' then Inl ''release asset name is invalid''
      else Inr ())"

definition target_triple :: "str \<Rightarrow> str \<Rightarrow> str" where
  "target_triple arch os =
     (if (arch, os) = (''x86_64'', ''macos'') then ''x86_64-apple-darwin''
      else if (arch, os) = (''aarch64'', ''macos'') then ''aarch64-apple-darwin''
      else if (arch, os) = (''x86_64'', ''linux'') then ''x86_64-unknown-linux-gnu''
      else if (arch, os) = (''aarch64'', ''linux'') then ''aarch64-unknown-linux-gnu''
      else if (arch, os) = (''x86_64'', ''windows'') then ''x86_64-pc-windows-msvc''
      else if (arch, os) = (''aarch64'', ''windows'') then ''aarch64-pc-windows-msvc''
      else arch @ ''-'' @ os)"

text \<open>The assets of a release, by their names.\<close>

definition select_assets :: "str list \<Rightarrow> str \<Rightarrow> str + str \<times> str" where
  "select_assets assets raw_target =
     (let target = to_ascii_lowercase raw_target;
          expected = (if contains target ''windows'' then ''minha-'' @ target @ ''.exe'' else ''minha-'' @ target)
      in r_bind (ok_or (find (\<lambda>asset. eq_ignore_ascii_case asset expected) assets)
                  (''release has no Minha binary for target '' @ target)) (\<lambda>binary.
         r_bind (ok_or (find (\<lambda>asset. eq_ignore_ascii_case asset (binary @ ''.sha256'')) assets)
                  (''release has no SHA-256 asset for '' @ binary)) (\<lambda>checksum.
         Inr (binary, checksum))))"

definition parse_checksum :: "str \<Rightarrow> str + str" where
  "parse_checksum content =
     (case split_whitespace content of
        value # _ \<Rightarrow>
          if length value = 64 \<and> list_all is_ascii_hexdigit value then Inr (to_ascii_lowercase value)
          else Inl ''checksum asset is not a SHA-256 digest''
      | [] \<Rightarrow> Inl ''checksum asset is not a SHA-256 digest'')"
section \<open>Files and the program\<close>

datatype file_node = FileNode str (node_mode: nat) | DirNode (node_mode: nat)

type_synonym disk = "str \<Rightarrow> file_node option"

text \<open>
  \<open>up_fault operation path\<close> is the error an operation meets on a path beyond what the map says,
  \<open>up_partial path\<close> what a failed copy leaves at its destination, \<open>up_kept path\<close> whether a failed removal
  leaves an entry.
\<close>

record gh_child =
  ch_spawn_error :: "str option"
  ch_wait_error :: "str option"
  ch_in_time :: bool
  ch_success :: bool
  ch_stdout :: "(str + str) list option"
  ch_stderr :: "(str + str) list option"

record gh_output =
  gh_success :: bool
  gh_stdout :: str
  gh_stderr :: str

record update_env =
  up_version :: str
  up_arch :: str
  up_os :: str
  up_exe :: "str + str"
  up_temp_dir :: str
  up_uuid :: str
  up_pid :: nat
  up_fault :: "str \<Rightarrow> str \<Rightarrow> str option"
  up_partial :: "str \<Rightarrow> file_node option"
  up_kept :: "str \<Rightarrow> bool"
  up_gh :: "str list \<Rightarrow> disk \<Rightarrow> gh_child \<times> disk"
  up_sha256 :: "str \<Rightarrow> str"
  up_read_release :: "str \<Rightarrow> str + str \<times> str list"

text \<open>\<open>read_capped\<close>: reads to the end and keeps the first \<open>cap\<close> bytes.\<close>

fun gh_read_capped :: "usize \<Rightarrow> (str + str) list \<Rightarrow> str \<Rightarrow> str + str" where
  "gh_read_capped cap [] kept = Inr kept"
| "gh_read_capped cap (Inl e # reads) kept = Inl e"
| "gh_read_capped cap (Inr chunk # reads) kept =
     (if chunk = [] then Inr kept
      else gh_read_capped cap reads (kept @ take (min (length chunk) (cap - length kept)) chunk))"

text \<open>What a reader thread delivers: nothing when it is not done within the grace time.\<close>

definition collected :: "usize \<Rightarrow> (str + str) list option \<Rightarrow> str + str" where
  "collected cap reads =
     (case reads of None \<Rightarrow> Inr []
      | Some rs \<Rightarrow> (case gh_read_capped cap rs [] of Inl e \<Rightarrow> Inl (io_message e) | Inr bytes \<Rightarrow> Inr bytes))"

definition run_gh :: "update_env \<Rightarrow> str list \<Rightarrow> nat \<Rightarrow> usize \<Rightarrow> disk \<Rightarrow> (str + gh_output) \<times> disk" where
  "run_gh env args timeout cap fs =
     (let (child, fs') = up_gh env args fs in
      case ch_spawn_error child of Some e \<Rightarrow> (Inl (''could not run gh: '' @ short_error e), fs)
      | None \<Rightarrow>
        (case ch_wait_error child of Some e \<Rightarrow> Inl (io_message e)
         | None \<Rightarrow>
             r_bind (collected cap (ch_stdout child)) (\<lambda>out.
             r_bind (collected cap (ch_stderr child)) (\<lambda>err.
             if \<not> ch_in_time child then Inl (''gh timed out after '' @ show_nat timeout @ '' seconds'')
             else Inr \<lparr>gh_success = ch_success child, gh_stdout = out, gh_stderr = err\<rparr>)),
         fs'))"

definition run_gh_release :: "update_env \<Rightarrow> str list \<Rightarrow> disk \<Rightarrow> (str + str \<times> str list) \<times> disk" where
  "run_gh_release env args fs =
     (let (answer, fs') = run_gh env args 30 MAX_RELEASE_JSON_BYTES fs
      in (r_bind answer (\<lambda>out.
            if \<not> gh_success out then Inl (''gh release query failed: '' @ bounded_redacted (gh_stderr out))
            else (case up_read_release env (gh_stdout out) of
                    Inl e \<Rightarrow> Inl (''gh returned invalid release JSON: '' @ short_error e)
                  | Inr release_view \<Rightarrow> Inr release_view)), fs'))"

definition download_args :: "str \<Rightarrow> str \<Rightarrow> str \<Rightarrow> str \<Rightarrow> str list" where
  "download_args repository tag asset directory =
     [''release'', ''download'', tag, ''--repo'', repository, ''--pattern'', asset, ''--dir'', directory, ''--clobber'']"

definition run_gh_download :: "update_env \<Rightarrow> str \<Rightarrow> str \<Rightarrow> str \<Rightarrow> str \<Rightarrow> disk \<Rightarrow> (str + unit) \<times> disk" where
  "run_gh_download env repository tag asset directory fs =
     (case validate_asset_name asset of
        Inl e \<Rightarrow> (Inl e, fs)
      | Inr _ \<Rightarrow>
          let (answer, fs') = run_gh env (download_args repository tag asset (from_utf8_lossy directory)) 120 (64 * 1024) fs
          in (r_bind answer (\<lambda>out.
                if gh_success out then Inr ()
                else Inl (''gh release download failed: '' @ bounded_redacted (gh_stderr out))), fs'))"

definition not_found :: str where "not_found = ''No such file or directory (os error 2)''"
definition is_directory :: str where "is_directory = ''Is a directory (os error 21)''"

definition fs_metadata :: "update_env \<Rightarrow> disk \<Rightarrow> str \<Rightarrow> str + file_node" where
  "fs_metadata env fs p =
     (case up_fault env ''metadata'' p of Some e \<Rightarrow> Inl (io_message e)
      | None \<Rightarrow> ok_or (fs p) (io_message not_found))"

definition fs_read :: "update_env \<Rightarrow> disk \<Rightarrow> str \<Rightarrow> str + str" where
  "fs_read env fs p =
     (case up_fault env ''read'' p of Some e \<Rightarrow> Inl (io_message e)
      | None \<Rightarrow> (case fs p of
            None \<Rightarrow> Inl (io_message not_found)
          | Some (DirNode _) \<Rightarrow> Inl (io_message is_directory)
          | Some (FileNode bytes _) \<Rightarrow> Inr bytes))"

definition fs_read_to_string :: "update_env \<Rightarrow> disk \<Rightarrow> str \<Rightarrow> str + str" where
  "fs_read_to_string env fs p =
     r_bind (fs_read env fs p) (\<lambda>bytes.
       if utf8_valid bytes then Inr bytes else Inl (io_message ''stream did not contain valid UTF-8''))"

text \<open>A file of the given kind and size.\<close>

definition size_ok :: "nat \<Rightarrow> file_node \<Rightarrow> bool" where
  "size_ok cap node =
     (case node of DirNode _ \<Rightarrow> False | FileNode bytes _ \<Rightarrow> bytes \<noteq> [] \<and> length bytes \<le> cap)"

definition sha256_file :: "update_env \<Rightarrow> disk \<Rightarrow> str \<Rightarrow> str + str" where
  "sha256_file env fs p = r_map (\<lambda>bytes. hex (up_sha256 env bytes)) (fs_read env fs p)"

definition with_file_name :: "str \<Rightarrow> str \<Rightarrow> str" where
  "with_file_name p name =
     path_join (if path_file_name p = None then p else unwrap_or (path_parent p) []) name"

definition sibling_temp_path :: "update_env \<Rightarrow> str \<Rightarrow> str" where
  "sibling_temp_path env exe =
     (let name = (case path_file_name exe of Some name \<Rightarrow> if utf8_valid name then name else ''minha'' | None \<Rightarrow> ''minha'')
      in with_file_name exe (''.'' @ name @ ''.update-'' @ show_nat (up_pid env)))"

text \<open>\<open>fs::copy\<close> takes the bytes and the permissions.\<close>

definition fs_copy :: "update_env \<Rightarrow> disk \<Rightarrow> str \<Rightarrow> str \<Rightarrow> (str + unit) \<times> disk" where
  "fs_copy env fs src dst =
     (case fs_read env fs src of
        Inl e \<Rightarrow> (Inl e, fs)
      | Inr bytes \<Rightarrow>
          (case (up_fault env ''copy'' dst, fs dst) of
             (Some e, _) \<Rightarrow> (Inl (io_message e), fs(dst := up_partial env dst))
           | (None, Some (DirNode _)) \<Rightarrow> (Inl (io_message is_directory), fs)
           | (None, _) \<Rightarrow> (Inr (), fs(dst := Some (FileNode bytes (node_mode (the (fs src))))))))"

definition copy_mode :: "update_env \<Rightarrow> disk \<Rightarrow> str \<Rightarrow> str \<Rightarrow> (str + unit) \<times> disk" where
  "copy_mode env fs src dst =
     (case fs_metadata env fs src of
        Inl e \<Rightarrow> (Inl e, fs)
      | Inr node \<Rightarrow>
          (case up_fault env ''set_permissions'' dst of
             Some e \<Rightarrow> (Inl (io_message e), fs)
           | None \<Rightarrow> (case fs dst of
                 Some (FileNode bytes _) \<Rightarrow> (Inr (), fs(dst := Some (FileNode bytes (node_mode node))))
               | Some (DirNode _) \<Rightarrow> (Inr (), fs(dst := Some (DirNode (node_mode node))))
               | None \<Rightarrow> (Inl (io_message not_found), fs))))"

definition fs_rename :: "update_env \<Rightarrow> disk \<Rightarrow> str \<Rightarrow> str \<Rightarrow> (str + unit) \<times> disk" where
  "fs_rename env fs src dst =
     (case up_fault env ''rename'' src of
        Some e \<Rightarrow> (Inl (io_message e), fs)
      | None \<Rightarrow> (case (fs src, fs dst) of
          (None, _) \<Rightarrow> (Inl (io_message not_found), fs)
        | (Some _, Some (DirNode _)) \<Rightarrow> (Inl (io_message is_directory), fs)
        | (Some node, _) \<Rightarrow> (Inr (), (fs(src := None))(dst := Some node))))"

definition create_dir :: "update_env \<Rightarrow> disk \<Rightarrow> str \<Rightarrow> (str + unit) \<times> disk" where
  "create_dir env fs p =
     (case up_fault env ''create_dir'' p of
        Some e \<Rightarrow> (Inl (io_message e), fs)
      | None \<Rightarrow> if fs p = None then (Inr (), fs(p := Some (DirNode 0)))
                 else (Inl (io_message ''File exists (os error 17)''), fs))"

definition unique_temp_dir :: "update_env \<Rightarrow> str \<Rightarrow> disk \<Rightarrow> (str + str) \<times> disk" where
  "unique_temp_dir env pre fs =
     (let p = path_join (up_temp_dir env) (pre @ ''-'' @ up_uuid env);
          (made, fs') = create_dir env fs p
      in (r_map (\<lambda>_. p) made, fs'))"

definition remove_dir_all :: "update_env \<Rightarrow> disk \<Rightarrow> str \<Rightarrow> disk" where
  "remove_dir_all env fs dir = (\<lambda>p. if path_starts_with p dir \<and> \<not> up_kept env p then None else fs p)"

text \<open>One step that may fail, then the rest on the files it leaves.\<close>

definition and_then :: "('e + 'a) \<times> disk \<Rightarrow> ('a \<Rightarrow> disk \<Rightarrow> ('e + 'b) \<times> disk) \<Rightarrow> ('e + 'b) \<times> disk" where
  "and_then step f = (case step of (Inl e, fs) \<Rightarrow> (Inl e, fs) | (Inr a, fs) \<Rightarrow> f a fs)"

section \<open>Installing\<close>

record install_outcome =
  io_updated :: bool
  io_restart_required :: bool
  io_text :: str

text \<open>The checks of what was downloaded: its sizes and its digest.\<close>

definition verify_download :: "update_env \<Rightarrow> disk \<Rightarrow> str \<Rightarrow> str \<Rightarrow> str + unit" where
  "verify_download env fs binary_path checksum_path =
     r_bind (fs_metadata env fs binary_path) (\<lambda>binary.
     if \<not> size_ok MAX_ASSET_BYTES binary then Inl ''downloaded release asset has an invalid size''
     else r_bind (fs_metadata env fs checksum_path) (\<lambda>checksum.
     if \<not> size_ok 4096 checksum then Inl ''downloaded checksum asset has an invalid size''
     else r_bind (r_bind (fs_read_to_string env fs checksum_path) parse_checksum) (\<lambda>expected.
     r_bind (sha256_file env fs binary_path) (\<lambda>actual.
     if expected \<noteq> actual then Inl ''release checksum does not match downloaded binary'' else Inr ()))))"

definition updated_atomically :: install_outcome where
  "updated_atomically = \<lparr>io_updated = True, io_restart_required = True,
     io_text = ''updated atomically; restart Minha to use the new binary''\<rparr>"

definition replace_executable :: "update_env \<Rightarrow> str \<Rightarrow> str \<Rightarrow> disk \<Rightarrow> (str + install_outcome) \<times> disk" where
  "replace_executable env binary_path executable fs =
     (let staged = sibling_temp_path env executable
      in and_then (fs_copy env fs binary_path staged) (\<lambda>_ fs.
      and_then (copy_mode env fs executable staged) (\<lambda>_ fs.
      and_then (fs_rename env fs staged executable) (\<lambda>_ fs.
      (Inr updated_atomically, fs)))))"

definition install_release ::
  "update_env \<Rightarrow> str \<Rightarrow> str \<Rightarrow> str \<Rightarrow> str \<Rightarrow> str \<Rightarrow> str \<Rightarrow> disk \<Rightarrow> (str + install_outcome) \<times> disk" where
  "install_release env repository tag binary checksum download_dir executable fs =
     and_then (run_gh_download env repository tag binary download_dir fs) (\<lambda>_ fs.
     and_then (run_gh_download env repository tag checksum download_dir fs) (\<lambda>_ fs.
     and_then (verify_download env fs (path_join download_dir binary) (path_join download_dir checksum), fs) (\<lambda>_ fs.
     replace_executable env (path_join download_dir binary) executable fs)))"

record update_options =
  uo_repository :: "str option"
  uo_check :: bool

record update_result =
  ur_repository :: str
  ur_current_version :: str
  ur_latest_version :: str
  ur_target :: str
  ur_binary_asset :: str
  ur_checksum_asset :: str
  ur_updated :: bool
  ur_restart_required :: bool
  ur_text :: "str option"

definition chosen_repository :: "update_options \<Rightarrow> str" where
  "chosen_repository options =
     (case uo_repository options of Some r \<Rightarrow> if blank r then DEFAULT_REPOSITORY else r | None \<Rightarrow> DEFAULT_REPOSITORY)"

definition release_args :: "str \<Rightarrow> str list" where
  "release_args repository = [''release'', ''view'', ''--repo'', repository, ''--json'', ''tagName,name,assets'']"

definition update_report :: "update_env \<Rightarrow> str \<Rightarrow> str \<Rightarrow> str \<Rightarrow> str \<Rightarrow> install_outcome \<Rightarrow> update_result" where
  "update_report env repository latest binary checksum oc =
     \<lparr>ur_repository = repository, ur_current_version = up_version env, ur_latest_version = latest,
      ur_target = target_triple (up_arch env) (up_os env), ur_binary_asset = binary, ur_checksum_asset = checksum,
      ur_updated = io_updated oc, ur_restart_required = io_restart_required oc, ur_text = Some (io_text oc)\<rparr>"

definition nothing_done :: "str \<Rightarrow> install_outcome" where
  "nothing_done words = \<lparr>io_updated = False, io_restart_required = False, io_text = words\<rparr>"

text \<open>The part after the checks: the downloads in a fresh directory, which is removed again.\<close>

definition perform_update :: "update_env \<Rightarrow> str \<Rightarrow> str \<Rightarrow> str \<Rightarrow> str \<Rightarrow> disk \<Rightarrow> (str + install_outcome) \<times> disk" where
  "perform_update env repository tag binary checksum fs =
     and_then (case up_exe env of Inl e \<Rightarrow> Inl (''could not locate current executable: '' @ short_error e)
               | Inr exe \<Rightarrow> Inr exe, fs) (\<lambda>executable fs.
     and_then (unique_temp_dir env ''minha-update'' fs) (\<lambda>download_dir fs.
     let (outcome, fs') = install_release env repository tag binary checksum download_dir executable fs
     in (outcome, remove_dir_all env fs' download_dir)))"

definition check_or_update :: "update_env \<Rightarrow> update_options \<Rightarrow> disk \<Rightarrow> (str + update_result) \<times> disk" where
  "check_or_update env options fs =
     (let repository = chosen_repository options;
          report = update_report env repository
      in and_then (validate_repository repository, fs) (\<lambda>_ fs.
      and_then (run_gh_release env (release_args repository) fs) (\<lambda>(tag_name, assets) fs.
      and_then (compare_versions (up_version env) (trim_v tag_name), fs) (\<lambda>order fs.
      if order \<noteq> Less then (Inr (report (trim_v tag_name) [] [] (nothing_done ''already up to date'')), fs)
      else and_then (select_assets assets (target_triple (up_arch env) (up_os env)), fs) (\<lambda>(binary, checksum) fs.
      if uo_check options
      then (Inr (report (trim_v tag_name) binary checksum (nothing_done ''update available; no files changed'')), fs)
      else and_then (perform_update env repository tag_name binary checksum fs) (\<lambda>oc fs.
      (Inr (report (trim_v tag_name) binary checksum oc), fs)))))))"

section \<open>The order of versions\<close>

instantiation pre_identifier :: linorder
begin

definition less_pre_identifier :: "pre_identifier \<Rightarrow> pre_identifier \<Rightarrow> bool" where
  "less_pre_identifier a b = (compare_identifier a b = Less)"

definition less_eq_pre_identifier :: "pre_identifier \<Rightarrow> pre_identifier \<Rightarrow> bool" where
  "less_eq_pre_identifier a b = (compare_identifier a b \<noteq> Greater)"

instance
proof
  fix x y z :: pre_identifier
  show "(x < y) = (x \<le> y \<and> \<not> y \<le> x)"
    by (cases x; cases y) (auto simp: less_pre_identifier_def less_eq_pre_identifier_def cmp_def)
  show "x \<le> x"
    by (cases x) (auto simp: less_eq_pre_identifier_def cmp_def)
  show "x \<le> y \<Longrightarrow> y \<le> z \<Longrightarrow> x \<le> z"
    by (cases x; cases y; cases z) (auto simp: less_eq_pre_identifier_def cmp_def split: if_splits)
  show "x \<le> y \<Longrightarrow> y \<le> x \<Longrightarrow> x = y"
    by (cases x; cases y) (auto simp: less_eq_pre_identifier_def cmp_def split: if_splits)
  show "x \<le> y \<or> y \<le> x"
    by (cases x; cases y) (auto simp: less_eq_pre_identifier_def cmp_def split: if_splits)
qed

end

lemma compare_identifier_cmp: "compare_identifier a b = cmp a b"
  by (cases a; cases b) (auto simp: cmp_def less_pre_identifier_def split: if_splits)

lemma cmp_Cons: "cmp (a # as) (b # bs) = then_with (cmp a b) (cmp as bs)"
  by (auto simp: cmp_def)

lemma cmp_Pair: "cmp (a, b) (c, d) = then_with (cmp a c) (cmp b d)"
  by (auto simp: cmp_def less_prod_def less_eq_prod_def)

lemma cmp_refl [simp]: "cmp a a = Equal"
  by (simp add: cmp_def)

lemma compare_pre_cmp: "compare_pre l r = cmp l r"
proof (induction l r rule: list_induct2')
  case (4 a as b bs)
  have "compare_pre (a # as) (b # bs) = then_with (cmp a b) (compare_pre as bs)"
    by (cases "cmp a b") (auto simp: compare_pre_def compare_identifier_cmp cmp_def split: list.splits if_splits)
  with 4 show ?case by (simp add: cmp_Cons)
qed (auto simp: compare_pre_def cmp_def)

text \<open>The precedence of a version: its core, then a release above its previews, then the identifiers.\<close>

definition precedence :: "version_parts \<Rightarrow> u64 list \<times> bool \<times> pre_identifier list" where
  "precedence v = (v_core v, v_pre v = [], v_pre v)"

text \<open>Versions compare as semantic versioning orders them: by the three numbers of the core, a release above its
  previews, previews by their identifiers with numbers below words, a prefix below what extends it. It is the linear
  order of the precedence, so updates cannot go round in a circle.\<close>

theorem versions_compare_by_precedence:
  assumes "parse_version a = Inr v" and "parse_version b = Inr w"
  shows "compare_versions a b =
    Inr (if precedence v < precedence w then Less else if precedence v = precedence w then Equal else Greater)"
proof -
  have "compare_versions a b = Inr (cmp (precedence v) (precedence w))"
    using assms by (auto simp: compare_versions_def r_bind_def precedence_def cmp_Pair compare_pre_cmp) (auto simp: cmp_def)
  then show ?thesis by (simp add: cmp_def)
qed

lemma versions_compare_by_precedence_witness:
  "compare_versions ''1.0.0-rc.2'' ''1.0.0-rc.10'' = Inr Less \<and> compare_versions ''1.0.0'' ''1.0.0-rc.10+x'' = Inr Greater"
proof -
  have trims: "trim ''1.0.0-rc.2'' = ''1.0.0-rc.2''" "trim ''1.0.0-rc.10'' = ''1.0.0-rc.10''"
    "trim ''1.0.0-rc.10+x'' = ''1.0.0-rc.10+x''" "trim ''1.0.0'' = ''1.0.0''" by code_simp+
  have numbers: "parse_unsigned u64_max ''0'' = Some 0" "parse_unsigned u64_max ''1'' = Some 1"
    "parse_unsigned u64_max ''2'' = Some 2" "parse_unsigned u64_max ''10'' = Some 10"
    by (simp_all add: parse_unsigned_def digits_value_def unsigned_part_def is_ascii_digit_def)
  note evaluate = parse_version_def trims trim_v_def split_once_def parse_core_part_def parse_pre_part_def numbers
    leading_zero_def ok_or_def r_bind_def r_map_def Let_def is_ascii_digit_def is_ascii_alphanumeric_def is_ascii_alphabetic_def
  have a: "parse_version ''1.0.0-rc.2'' = Inr \<lparr>v_core = [1, 0, 0], v_pre = [Textual ''rc'', Numeric 2]\<rparr>"
    by (simp add: evaluate)
  have b: "parse_version ''1.0.0-rc.10'' = Inr \<lparr>v_core = [1, 0, 0], v_pre = [Textual ''rc'', Numeric 10]\<rparr>"
    by (simp add: evaluate)
  have c: "parse_version ''1.0.0-rc.10+x'' = Inr \<lparr>v_core = [1, 0, 0], v_pre = [Textual ''rc'', Numeric 10]\<rparr>"
    by (simp add: evaluate)
  have d: "parse_version ''1.0.0'' = Inr \<lparr>v_core = [1, 0, 0], v_pre = []\<rparr>"
    by (simp add: evaluate)
  show ?thesis
    using versions_compare_by_precedence[OF a b] versions_compare_by_precedence[OF d c]
    by (simp add: precedence_def less_pre_identifier_def cmp_def)
qed

section \<open>The staged copy\<close>

lemma split_on_single: "d \<notin> set x \<Longrightarrow> split_on d x = [x]"
  by (induction x) auto

lemma file_name_join:
  assumes "CHR ''/'' \<notin> set x" and "x \<noteq> []" and "x \<noteq> ''.''" and "x \<noteq> ''..''"
  shows "path_file_name (path_join base x) = Some x"
proof -
  have abs: "\<not> path_is_absolute x" using assms(1,2) by (cases x) (auto simp: path_is_absolute_def)
  have single: "split_on (CHR ''/'') x = [x]" by (rule split_on_single[OF assms(1)])
  consider "base = []" | b where "base = b @ ''/''" | "base \<noteq> []" "last base \<noteq> CHR ''/''"
    by (metis append_butlast_last_id)
  then obtain pieces where "split_on (CHR ''/'') (path_join base x) = pieces @ [x]"
  proof cases
    case 1
    then show ?thesis using that[of "[]"] abs single by (simp add: path_join_def)
  next
    case 2
    then show ?thesis using that[of "split_on (CHR ''/'') b"] abs single by (simp add: path_join_def split_on_append)
  next
    case 3
    then show ?thesis using that[of "split_on (CHR ''/'') base"] abs single
      by (simp add: path_join_def split_on_append)
  qed
  then show ?thesis using assms by (simp add: path_file_name_def path_components_def Let_def)
qed

lemma file_name_no_slash:
  assumes "path_file_name p = Some name"
  shows "CHR ''/'' \<notin> set name"
proof -
  from assms have "NormalDir name \<in> set (path_components p)"
    by (auto simp: path_file_name_def split: list.splits path_component.splits)
  then have "name \<in> set (split_on (CHR ''/'') p)"
    by (auto simp: path_components_def Let_def split: if_splits)
  then show ?thesis by (rule split_on_no_sep)
qed

lemma utf8_valid_ascii: "list_all (\<lambda>c. byte c < (128::nat)) s \<Longrightarrow> utf8_valid s"
proof (induction s)
  case (Cons c cs)
  then show ?case by (subst utf8_valid.simps) (simp add: ascii_step del: utf8_step.simps)
qed simp

lemma staged_beside: "sibling_temp_path env exe \<noteq> exe"
proof -
  define name where "name = (case path_file_name exe of Some name \<Rightarrow> if utf8_valid name then name else ''minha'' | None \<Rightarrow> ''minha'')"
  define x where "x = ''.'' @ name @ ''.update-'' @ show_nat (up_pid env)"
  have digits: "c \<in> set (show_nat n) \<Longrightarrow> byte c < (128::nat) \<and> c \<noteq> CHR ''/''" for c n
    using show_nat_digits[of c n] by (auto simp: is_ascii_digit_def)
  have "CHR ''/'' \<notin> set name"
    using file_name_no_slash[of exe] by (auto simp: name_def split: option.splits if_splits)
  then have "CHR ''/'' \<notin> set x" using digits by (auto simp: x_def)
  moreover have "x \<noteq> []" "x \<noteq> ''.''" "x \<noteq> ''..''" by (simp_all add: x_def)
  ultimately have staged: "path_file_name (sibling_temp_path env exe) = Some x"
    using file_name_join by (simp add: sibling_temp_path_def with_file_name_def name_def x_def Let_def)
  have "path_file_name exe \<noteq> Some x"
  proof
    assume exe: "path_file_name exe = Some x"
    show False
    proof (cases "utf8_valid x")
      case True
      with exe have "name = x" by (simp add: name_def)
      then have "length name = length x" by simp
      then show False by (simp add: x_def)
    next
      case False
      with exe have "name = ''minha''" by (simp add: name_def)
      then have "list_all (\<lambda>c. byte c < (128::nat)) x" using digits by (auto simp: x_def list_all_iff)
      with False show False using utf8_valid_ascii by blast
    qed
  qed
  with staged show ?thesis by auto
qed

section \<open>What an update changes\<close>

lemma and_thenE:
  assumes "and_then step f = (r, fs')"
  obtains e where "step = (Inl e, fs')" "r = Inl e" | a fs1 where "step = (Inr a, fs1)" "f a fs1 = (r, fs')"
  using assms by (auto simp: and_then_def split: prod.splits sum.splits)

lemma and_then_simps: "and_then (Inl e, fs) f = (Inl e, fs)" "and_then (Inr a, fs) f = f a fs"
  by (simp_all add: and_then_def)

lemma and_then_changed:
  assumes "and_then (step, fs1) f = (r, fs')" and "fs1 p = x" and "fs' p \<noteq> x"
  obtains a where "step = Inr a" and "f a fs1 = (r, fs')"
  using assms by (cases step) (auto simp: and_then_simps)

lemma run_gh_keeps:
  assumes "\<forall>args fs. snd (up_gh env args fs) p = fs p"
  shows "snd (run_gh env args t cap fs) p = fs p"
proof -
  obtain child fs1 where run: "up_gh env args fs = (child, fs1)" by fastforce
  with assms have "fs1 p = fs p" by (metis snd_conv)
  with run show ?thesis by (simp add: run_gh_def split: option.splits)
qed

lemma run_gh_release_keeps:
  "\<forall>args fs. snd (up_gh env args fs) p = fs p \<Longrightarrow> snd (run_gh_release env args fs) p = fs p"
  using run_gh_keeps[of env p args] by (simp add: run_gh_release_def split_beta Let_def)

lemma run_gh_download_keeps:
  assumes "\<forall>args fs. snd (up_gh env args fs) p = fs p"
  shows "snd (run_gh_download env r t a d fs) p = fs p"
  using run_gh_keeps[OF assms] by (simp add: run_gh_download_def split_beta Let_def split: sum.splits)

lemma verified_download:
  assumes "verify_download env fs b c = Inr ()"
  shows "\<exists>words bytes. fs_read env fs c = Inr words \<and> fs_read env fs b = Inr bytes \<and>
    parse_checksum words = Inr (hex (up_sha256 env bytes))"
  using assms
  by (auto simp: verify_download_def fs_read_to_string_def sha256_file_def r_bind_def r_map_def
      split: sum.splits if_splits)

lemma fs_rename_result:
  "fs_rename env g src dst = (r, g') \<Longrightarrow>
    (\<exists>e. r = Inl e \<and> g' = g) \<or> (\<exists>node. r = Inr () \<and> g src = Some node \<and> g' = (g(src := None))(dst := Some node))"
  by (auto simp: fs_rename_def split: option.splits file_node.splits)

lemma replace_executable_changes:
  assumes run: "replace_executable env src exe fs = (r, fs')" and changed: "fs' exe \<noteq> fs exe"
    and src: "fs_read env fs src = Inr bytes"
  shows "(\<exists>oc. r = Inr oc \<and> io_updated oc) \<and> fs' exe = Some (FileNode bytes (node_mode (the (fs exe))))"
proof -
  define staged where "staged = sibling_temp_path env exe"
  have beside: "staged \<noteq> exe" using staged_beside by (simp add: staged_def)
  obtain a3 fs3 where d3: "fs_copy env fs src staged = (a3, fs3)" by fastforce
  obtain a4 fs4 where d4: "copy_mode env fs3 exe staged = (a4, fs4)" by fastforce
  have fs3: "fs3 exe = fs exe"
    using d3 beside by (auto simp: fs_copy_def split: sum.splits option.splits file_node.splits)
  have fs4: "fs4 exe = fs exe"
    using d4 fs3 beside by (auto simp: copy_mode_def split: sum.splits option.splits file_node.splits)
  note run = run[unfolded replace_executable_def Let_def staged_def[symmetric] d3]
  from and_then_changed[OF run fs3 changed] obtain u3 where a3: "a3 = Inr u3" and r4: "and_then (a4, fs4) (\<lambda>_ fs.
      and_then (fs_rename env fs staged exe) (\<lambda>_ fs. (Inr updated_atomically, fs))) = (r, fs')"
    unfolding d4 by metis
  from and_then_changed[OF r4 fs4 changed] obtain u4 where a4: "a4 = Inr u4" and
    rest: "and_then (fs_rename env fs4 staged exe) (\<lambda>_ fs. (Inr updated_atomically, fs)) = (r, fs')" by metis
  have copied: "\<exists>m. fs3 staged = Some (FileNode bytes m)"
    using d3 src a3 by (auto simp: fs_copy_def split: sum.splits option.splits file_node.splits)
  then obtain m where m: "fs3 staged = Some (FileNode bytes m)" by blast
  from d4 a4 m obtain node where node: "fs_metadata env fs3 exe = Inr node"
    and fs4': "fs4 = fs3(staged := Some (FileNode bytes (node_mode node)))"
    by (simp add: copy_mode_def split: sum.splits option.splits)
  from node have "fs3 exe = Some node" by (simp add: fs_metadata_def ok_or_def split: option.splits)
  then have "the (fs exe) = node" by (simp add: fs3)
  with fs4' have staged4: "fs4 staged = Some (FileNode bytes (node_mode (the (fs exe))))" by simp
  obtain a5 fs5 where d5: "fs_rename env fs4 staged exe = (a5, fs5)" by fastforce
  note rest' = rest[unfolded d5]
  show ?thesis
  proof (cases a5)
    case (Inl e)
    with fs_rename_result[OF d5] have "fs5 = fs4" by auto
    with rest' Inl have "fs' = fs4" by (simp add: and_then_simps)
    with changed fs4 show ?thesis by simp
  next
    case (Inr u)
    with fs_rename_result[OF d5] obtain node where node: "fs4 staged = Some node" "fs5 = (fs4(staged := None))(exe := Some node)" by blast
    then have "fs5 exe = fs4 staged" by simp
    moreover have "fs5 = fs'" using rest' unfolding Inr and_then_simps by simp
    moreover have "r = Inr updated_atomically" using rest' unfolding Inr and_then_simps by simp
    moreover have "io_updated updated_atomically" by (simp add: updated_atomically_def)
    ultimately show ?thesis using staged4 by metis
  qed
qed

lemma install_release_changes:
  assumes keeps: "\<forall>args fs. snd (up_gh env args fs) exe = fs exe"
    and run: "install_release env repository tag b c dir exe fs = (r, fs')"
    and changed: "fs' exe \<noteq> fs exe"
  shows "\<exists>before after words bytes oc. r = Inr oc \<and> io_updated oc \<and>
    run_gh_download env repository tag c dir before = (Inr (), after) \<and>
    fs_read env after (path_join dir c) = Inr words \<and> fs_read env after (path_join dir b) = Inr bytes \<and>
    parse_checksum words = Inr (hex (up_sha256 env bytes)) \<and>
    fs' exe = Some (FileNode bytes (node_mode (the (fs exe))))"
proof -
  obtain a1 fs1 where d1: "run_gh_download env repository tag b dir fs = (a1, fs1)" by fastforce
  obtain a2 fs2 where d2: "run_gh_download env repository tag c dir fs1 = (a2, fs2)" by fastforce
  have same: "fs1 exe = fs exe" "fs2 exe = fs exe"
    using run_gh_download_keeps[OF keeps] d1 d2 by (metis snd_conv)+
  note run = run[unfolded install_release_def d1]
  from and_then_changed[OF run same(1) changed] have r2: "and_then (a2, fs2) (\<lambda>_ fs.
      and_then (verify_download env fs (path_join dir b) (path_join dir c), fs) (\<lambda>_ fs.
      replace_executable env (path_join dir b) exe fs)) = (r, fs')"
    unfolding d2 by metis
  from and_then_changed[OF r2 same(2) changed] have a2: "a2 = Inr ()"
    and r3: "and_then (verify_download env fs2 (path_join dir b) (path_join dir c), fs2) (\<lambda>_ fs.
      replace_executable env (path_join dir b) exe fs) = (r, fs')" by (metis (full_types) unit.exhaust)+
  from and_then_changed[OF r3 same(2) changed] have v: "verify_download env fs2 (path_join dir b) (path_join dir c) = Inr ()"
    and r4: "replace_executable env (path_join dir b) exe fs2 = (r, fs')" by (metis (full_types) unit.exhaust)+
  obtain words bytes where w: "fs_read env fs2 (path_join dir c) = Inr words" "fs_read env fs2 (path_join dir b) = Inr bytes"
    "parse_checksum words = Inr (hex (up_sha256 env bytes))"
    using verified_download[OF v] by blast
  from changed same(2) have "fs' exe \<noteq> fs2 exe" by simp
  from replace_executable_changes[OF r4 this w(2)] same(2) w d2 a2 show ?thesis by metis
qed

lemma perform_update_changes:
  assumes exe: "up_exe env = Inr exe" and keeps: "\<forall>args fs. snd (up_gh env args fs) exe = fs exe"
    and outside: "\<not> path_starts_with exe (path_join (up_temp_dir env) (''minha-update-'' @ up_uuid env))"
    and run: "perform_update env repository tag binary checksum fs = (r, fs')" and changed: "fs' exe \<noteq> fs exe"
  shows "\<exists>before after words bytes oc. r = Inr oc \<and> io_updated oc \<and>
    run_gh_download env repository tag checksum (path_join (up_temp_dir env) (''minha-update-'' @ up_uuid env)) before = (Inr (), after) \<and>
    fs_read env after (path_join (path_join (up_temp_dir env) (''minha-update-'' @ up_uuid env)) checksum) = Inr words \<and>
    fs_read env after (path_join (path_join (up_temp_dir env) (''minha-update-'' @ up_uuid env)) binary) = Inr bytes \<and>
    parse_checksum words = Inr (hex (up_sha256 env bytes)) \<and>
    fs' exe = Some (FileNode bytes (node_mode (the (fs exe))))"
proof -
  define dir where "dir = path_join (up_temp_dir env) (''minha-update-'' @ up_uuid env)"
  have out: "\<not> path_starts_with exe dir" using outside by (simp add: dir_def)
  then have "exe \<noteq> dir" by auto
  obtain a2 fs2 where d2: "unique_temp_dir env ''minha-update'' fs = (a2, fs2)" by fastforce
  have fs2: "fs2 exe = fs exe" and a2: "a2 = Inr d \<Longrightarrow> d = dir" for d
    using d2 \<open>exe \<noteq> dir\<close>
    by (auto simp: unique_temp_dir_def create_dir_def Let_def r_map_def dir_def split: option.splits if_splits)
  have r1: "and_then (a2, fs2) (\<lambda>download_dir fs.
     let (outcome, fs') = install_release env repository tag binary checksum download_dir exe fs
     in (outcome, remove_dir_all env fs' download_dir)) = (r, fs')"
    using run by (simp add: perform_update_def exe and_then_simps d2)
  obtain d where a: "a2 = Inr d" and r2: "(let (outcome, fs') = install_release env repository tag binary checksum d exe fs2
     in (outcome, remove_dir_all env fs' d)) = (r, fs')" by (rule and_then_changed[OF r1 fs2 changed])
  have "d = dir" using a2 a by simp
  obtain oc fs3 where inst: "install_release env repository tag binary checksum dir exe fs2 = (oc, fs3)" by fastforce
  with r2 \<open>d = dir\<close> have "r = oc" and "fs' = remove_dir_all env fs3 dir" by simp_all
  then have "fs3 exe = fs' exe" using out by (simp add: remove_dir_all_def)
  with changed fs2 have "fs3 exe \<noteq> fs2 exe" by simp
  from install_release_changes[OF keeps inst this] fs2 \<open>fs3 exe = fs' exe\<close> \<open>r = oc\<close> show ?thesis
    unfolding dir_def[symmetric] by metis
qed

text \<open>C36: An update replaces the executable only with verified bytes of a newer release. When the file of the executable
  changes, the version compared as lower than the tag of the release, the bytes come from a download whose SHA-256 is the
  digest of the checksum file downloaded with it, and the permissions are those of the old executable. The program \<open>gh\<close>
  is taken not to write the executable, and the fresh directory of the downloads not to hold it.\<close>

theorem installed_update_is_verified_and_newer:
  assumes "check_or_update env options fs = (outcome, fs')" and "up_exe env = Inr exe"
    and "\<forall>args fs. snd (up_gh env args fs) exe = fs exe"
    and "\<not> path_starts_with exe (path_join (up_temp_dir env) (''minha-update-'' @ up_uuid env))"
    and "fs' exe \<noteq> fs exe"
  shows "\<exists>res tag before after words bytes. outcome = Inr res \<and> ur_updated res \<and> \<not> uo_check options \<and>
    ur_latest_version res = trim_v tag \<and> compare_versions (up_version env) (trim_v tag) = Inr Less \<and>
    run_gh_download env (ur_repository res) tag (ur_checksum_asset res)
      (path_join (up_temp_dir env) (''minha-update-'' @ up_uuid env)) before = (Inr (), after) \<and>
    fs_read env after (path_join (path_join (up_temp_dir env) (''minha-update-'' @ up_uuid env)) (ur_checksum_asset res)) = Inr words \<and>
    fs_read env after (path_join (path_join (up_temp_dir env) (''minha-update-'' @ up_uuid env)) (ur_binary_asset res)) = Inr bytes \<and>
    parse_checksum words = Inr (hex (up_sha256 env bytes)) \<and>
    fs' exe = Some (FileNode bytes (node_mode (the (fs exe))))"
proof -
  define dir where "dir = path_join (up_temp_dir env) (''minha-update-'' @ up_uuid env)"
  define repository where "repository = chosen_repository options"
  obtain a1 fs1 where d1: "run_gh_release env (release_args repository) fs = (a1, fs1)" by fastforce
  have fs1: "fs1 exe = fs exe" using run_gh_release_keeps[OF assms(3)] d1 by (metis snd_conv)
  note run = assms(1)[unfolded check_or_update_def Let_def repository_def[symmetric] d1]
  from and_then_changed[OF run refl assms(5)] have r1: "and_then (a1, fs1) (\<lambda>(tag, assets) fs.
      and_then (compare_versions (up_version env) (trim_v tag), fs) (\<lambda>order fs.
      if order \<noteq> Less then (Inr (update_report env repository (trim_v tag) [] [] (nothing_done ''already up to date'')), fs)
      else and_then (select_assets assets (target_triple (up_arch env) (up_os env)), fs) (\<lambda>(binary, checksum) fs.
      if uo_check options
      then (Inr (update_report env repository (trim_v tag) binary checksum (nothing_done ''update available; no files changed'')), fs)
      else and_then (perform_update env repository tag binary checksum fs) (\<lambda>oc fs.
      (Inr (update_report env repository (trim_v tag) binary checksum oc), fs))))) = (outcome, fs')"
    unfolding d1 by metis
  from and_then_changed[OF r1 fs1 assms(5)] obtain tag assets where r2: "and_then (compare_versions (up_version env) (trim_v tag), fs1) (\<lambda>order fs.
      if order \<noteq> Less then (Inr (update_report env repository (trim_v tag) [] [] (nothing_done ''already up to date'')), fs)
      else and_then (select_assets assets (target_triple (up_arch env) (up_os env)), fs) (\<lambda>(binary, checksum) fs.
      if uo_check options
      then (Inr (update_report env repository (trim_v tag) binary checksum (nothing_done ''update available; no files changed'')), fs)
      else and_then (perform_update env repository tag binary checksum fs) (\<lambda>oc fs.
      (Inr (update_report env repository (trim_v tag) binary checksum oc), fs)))) = (outcome, fs')"
    by (metis (no_types, lifting) case_prod_conv surj_pair)
  obtain order where
    order: "compare_versions (up_version env) (trim_v tag) = Inr order" and
    r3: "(if order \<noteq> Less then (Inr (update_report env repository (trim_v tag) [] [] (nothing_done ''already up to date'')), fs1)
      else and_then (select_assets assets (target_triple (up_arch env) (up_os env)), fs1) (\<lambda>(binary, checksum) fs.
      if uo_check options
      then (Inr (update_report env repository (trim_v tag) binary checksum (nothing_done ''update available; no files changed'')), fs)
      else and_then (perform_update env repository tag binary checksum fs) (\<lambda>oc fs.
      (Inr (update_report env repository (trim_v tag) binary checksum oc), fs)))) = (outcome, fs')" by (rule and_then_changed[OF r2 fs1 assms(5)])
  from r3 fs1 assms(5) have less: "order = Less" by (cases "order = Less") auto
  note r4 = r3[unfolded less, simplified]
  obtain binary checksum where r5: "(if uo_check options
      then (Inr (update_report env repository (trim_v tag) binary checksum (nothing_done ''update available; no files changed'')), fs1)
      else and_then (perform_update env repository tag binary checksum fs1) (\<lambda>oc fs.
      (Inr (update_report env repository (trim_v tag) binary checksum oc), fs))) = (outcome, fs')"
  proof (rule and_then_changed[OF r4 fs1 assms(5)])
    fix names :: "str \<times> str"
    assume "(case names of (binary, checksum) \<Rightarrow> \<lambda>fs. if uo_check options
      then (Inr (update_report env repository (trim_v tag) binary checksum (nothing_done ''update available; no files changed'')), fs)
      else and_then (perform_update env repository tag binary checksum fs) (\<lambda>oc fs.
      (Inr (update_report env repository (trim_v tag) binary checksum oc), fs))) fs1 = (outcome, fs')"
    then show thesis by (cases names) (use that in simp)
  qed
  from r5 fs1 assms(5) have check: "\<not> uo_check options" by auto
  obtain a2 fs2 where d2: "perform_update env repository tag binary checksum fs1 = (a2, fs2)" by fastforce
  from r5 check d2 have fs2: "fs2 = fs'" by (cases a2) (auto simp: and_then_simps)
  from perform_update_changes[OF assms(2,3,4) d2] fs1 assms(5) fs2 obtain before after words bytes oc where
    "a2 = Inr oc" "io_updated oc" "run_gh_download env repository tag checksum dir before = (Inr (), after)"
    "fs_read env after (path_join dir checksum) = Inr words" "fs_read env after (path_join dir binary) = Inr bytes"
    "parse_checksum words = Inr (hex (up_sha256 env bytes))"
    "fs' exe = Some (FileNode bytes (node_mode (the (fs exe))))"
    unfolding dir_def by metis
  note found = this
  define res where "res = update_report env repository (trim_v tag) binary checksum oc"
  have fields: "ur_repository res = repository" "ur_latest_version res = trim_v tag" "ur_binary_asset res = binary"
    "ur_checksum_asset res = checksum" "ur_updated res = io_updated oc" by (simp_all add: res_def update_report_def)
  have "outcome = Inr res" using r5 check d2 found(1) by (simp add: and_then_simps res_def)
  then show ?thesis
    unfolding dir_def[symmetric]
    using check order less found fields
    by - (rule exI[of _ res], rule exI[of _ tag], rule exI[of _ before], rule exI[of _ after],
        rule exI[of _ words], rule exI[of _ bytes], simp)
qed

text \<open>A release 0.2.0 for Linux, fetched by a version 0.1.0.\<close>

definition example_binary :: str where "example_binary = ''minha-x86_64-unknown-linux-gnu''"
definition example_checksum :: str where "example_checksum = example_binary @ ''.sha256''"
definition example_dir :: str where "example_dir = ''/t/minha-update-1''"

definition example_run :: gh_child where
  "example_run = \<lparr>ch_spawn_error = None, ch_wait_error = None, ch_in_time = True, ch_success = True,
     ch_stdout = Some [], ch_stderr = Some []\<rparr>"

definition example_gh :: "str list \<Rightarrow> disk \<Rightarrow> gh_child \<times> disk" where
  "example_gh args fs =
     (example_run,
      if args = download_args DEFAULT_REPOSITORY ''v0.2.0'' example_binary example_dir
      then fs(path_join example_dir example_binary := Some (FileNode ''new'' 420))
      else if args = download_args DEFAULT_REPOSITORY ''v0.2.0'' example_checksum example_dir
      then fs(path_join example_dir example_checksum := Some (FileNode (replicate 64 (CHR ''0'')) 420))
      else fs)"

definition example_env :: update_env where
  "example_env = \<lparr>up_version = ''0.1.0'', up_arch = ''x86_64'', up_os = ''linux'', up_exe = Inr ''/b/minha'', up_temp_dir = ''/t'',
     up_uuid = ''1'', up_pid = 7, up_fault = \<lambda>_ _. None, up_partial = \<lambda>_. None, up_kept = \<lambda>_. False, up_gh = example_gh,
     up_sha256 = \<lambda>_. replicate 32 (CHR 0x00), up_read_release = \<lambda>_. Inr (''v0.2.0'', [example_checksum, example_binary])\<rparr>"

definition example_options :: update_options where
  "example_options = \<lparr>uo_repository = None, uo_check = False\<rparr>"

definition example_disk :: disk where
  "example_disk = [''/b/minha'' \<mapsto> FileNode ''old'' 493]"

lemma example_paths:
  "path_join example_dir example_binary = ''/t/minha-update-1/minha-x86_64-unknown-linux-gnu''"
  "path_join example_dir example_checksum = ''/t/minha-update-1/minha-x86_64-unknown-linux-gnu.sha256''"
  "sibling_temp_path example_env ''/b/minha'' = ''/b/.minha.update-7''"
  "path_join (up_temp_dir example_env) (''minha-update-'' @ up_uuid example_env) = example_dir"
  "\<not> path_starts_with ''/b/minha'' example_dir"
  by code_simp+

lemma example_runs:
  "run_gh example_env args t cap fs = (Inr \<lparr>gh_success = True, gh_stdout = [], gh_stderr = []\<rparr>, snd (example_gh args fs))"
  by (simp add: run_gh_def example_env_def example_gh_def example_run_def collected_def r_bind_def)

lemma example_downloads:
  "run_gh_download example_env DEFAULT_REPOSITORY ''v0.2.0'' example_binary example_dir fs =
     (Inr (), fs(''/t/minha-update-1/minha-x86_64-unknown-linux-gnu'' \<mapsto> FileNode ''new'' 420))"
  "run_gh_download example_env DEFAULT_REPOSITORY ''v0.2.0'' example_checksum example_dir fs =
     (Inr (), fs(''/t/minha-update-1/minha-x86_64-unknown-linux-gnu.sha256'' \<mapsto> FileNode (replicate 64 (CHR ''0'')) 420))"
proof -
  have names: "validate_asset_name example_binary = Inr ()" "validate_asset_name example_checksum = Inr ()"
    "from_utf8_lossy example_dir = example_dir" "example_checksum \<noteq> example_binary" by code_simp+
  show "run_gh_download example_env DEFAULT_REPOSITORY ''v0.2.0'' example_binary example_dir fs =
     (Inr (), fs(''/t/minha-update-1/minha-x86_64-unknown-linux-gnu'' \<mapsto> FileNode ''new'' 420))"
    by (simp add: run_gh_download_def names example_runs example_gh_def example_paths r_bind_def download_args_def)
  show "run_gh_download example_env DEFAULT_REPOSITORY ''v0.2.0'' example_checksum example_dir fs =
     (Inr (), fs(''/t/minha-update-1/minha-x86_64-unknown-linux-gnu.sha256'' \<mapsto> FileNode (replicate 64 (CHR ''0'')) 420))"
    using names(4) by (simp add: run_gh_download_def names example_runs example_gh_def example_paths r_bind_def download_args_def)
qed

lemma chars_replicate: "\<not> is_cont c \<Longrightarrow> chars (replicate n c) = replicate n [c]"
proof (induction n)
  case (Suc n)
  then have "takeWhile is_cont (replicate n c) = []" "dropWhile is_cont (replicate n c) = replicate n c"
    by (cases n; simp)+
  with Suc show ?case by simp
qed simp

lemma split_ws_replicate:
  "\<not> is_whitespace [c] \<Longrightarrow> split_ws (replicate n [c]) cur = (if cur @ replicate n c = [] then [] else [cur @ replicate n c])"
  by (induction n arbitrary: cur) auto

lemma example_checksum_line: "parse_checksum (replicate 64 (CHR ''0'')) = Inr (replicate 64 (CHR ''0''))"
proof -
  have "\<not> is_whitespace ''0''" "\<not> is_cont (CHR ''0'')" "is_ascii_hexdigit (CHR ''0'')" "lower_char (CHR ''0'') = CHR ''0''"
    by code_simp+
  then show ?thesis
    by (simp add: parse_checksum_def split_whitespace_def chars_replicate split_ws_replicate to_ascii_lowercase_def
        list_all_iff)
qed

lemma example_verified:
  assumes "fs ''/t/minha-update-1/minha-x86_64-unknown-linux-gnu'' = Some (FileNode ''new'' 420)"
    and "fs ''/t/minha-update-1/minha-x86_64-unknown-linux-gnu.sha256'' = Some (FileNode (replicate 64 (CHR ''0'')) 420)"
  shows "verify_download example_env fs ''/t/minha-update-1/minha-x86_64-unknown-linux-gnu''
    ''/t/minha-update-1/minha-x86_64-unknown-linux-gnu.sha256'' = Inr ()"
proof -
  have zeros: "utf8_valid (replicate 64 (CHR ''0''))" "hex (replicate 32 (CHR 0x00)) = replicate 64 (CHR ''0'')" by code_simp+
  have env: "up_fault example_env op p = None" "up_sha256 example_env bytes = replicate 32 (CHR 0x00)" for op p bytes
    by (simp_all add: example_env_def)
  show ?thesis
    by (simp add: verify_download_def fs_metadata_def fs_read_to_string_def fs_read_def sha256_file_def env assms zeros example_checksum_line
        size_ok_def MAX_ASSET_BYTES_def ok_or_def r_bind_def r_map_def)
qed

lemma example_replaced:
  assumes "fs ''/t/minha-update-1/minha-x86_64-unknown-linux-gnu'' = Some (FileNode ''new'' 420)"
    and "fs ''/b/minha'' = Some (FileNode ''old'' 493)" and "fs ''/b/.minha.update-7'' = None"
  shows "\<exists>fs'. replace_executable example_env ''/t/minha-update-1/minha-x86_64-unknown-linux-gnu'' ''/b/minha'' fs =
    (Inr updated_atomically, fs') \<and> fs' ''/b/minha'' = Some (FileNode ''new'' 493)"
proof -
  have env: "up_fault example_env op p = None" for op p by (simp add: example_env_def)
  show ?thesis
    by (simp add: replace_executable_def example_paths fs_copy_def copy_mode_def fs_rename_def fs_read_def fs_metadata_def
        and_then_simps env assms ok_or_def Let_def)
qed

lemma example_order: "compare_versions ''0.1.0'' (trim_v ''v0.2.0'') = Inr Less"
proof -
  have trims: "trim ''0.1.0'' = ''0.1.0''" "trim ''0.2.0'' = ''0.2.0''" by code_simp+
  have numbers: "parse_unsigned u64_max ''0'' = Some 0" "parse_unsigned u64_max ''1'' = Some 1"
    "parse_unsigned u64_max ''2'' = Some 2"
    by (simp_all add: parse_unsigned_def digits_value_def unsigned_part_def is_ascii_digit_def)
  show ?thesis
    by (simp add: compare_versions_def parse_version_def trims trim_v_def split_once_def parse_core_part_def numbers
        leading_zero_def ok_or_def r_bind_def cmp_def Let_def)
qed

lemma example_update:
  "\<exists>outcome fs'. check_or_update example_env example_options example_disk = (outcome, fs') \<and>
    fs' ''/b/minha'' = Some (FileNode ''new'' 493)"
proof -
  let ?b = "''/t/minha-update-1/minha-x86_64-unknown-linux-gnu''"
  let ?c = "''/t/minha-update-1/minha-x86_64-unknown-linux-gnu.sha256''"
  let ?start = "example_disk(example_dir \<mapsto> DirNode 0)"
  let ?down = "?start(?b \<mapsto> FileNode ''new'' 420, ?c \<mapsto> FileNode (replicate 64 (CHR ''0'')) 420)"
  have dir: "unique_temp_dir example_env ''minha-update'' example_disk = (Inr example_dir, ?start)"
    using example_paths(4) by (simp add: unique_temp_dir_def create_dir_def example_env_def example_disk_def example_dir_def
        r_map_def Let_def path_join_def path_is_absolute_def)
  have down: "?down ?b = Some (FileNode ''new'' 420)" "?down ?c = Some (FileNode (replicate 64 (CHR ''0'')) 420)"
    "?down ''/b/minha'' = Some (FileNode ''old'' 493)" "?down ''/b/.minha.update-7'' = None"
    by (simp_all add: example_disk_def example_dir_def)
  obtain fs' where replaced: "replace_executable example_env ?b ''/b/minha'' ?down = (Inr updated_atomically, fs')"
    "fs' ''/b/minha'' = Some (FileNode ''new'' 493)" using example_replaced[OF down(1,3,4)] by blast
  have install: "install_release example_env DEFAULT_REPOSITORY ''v0.2.0'' example_binary example_checksum example_dir ''/b/minha'' ?start =
    (Inr updated_atomically, fs')"
    by (simp only: install_release_def example_downloads and_then_simps example_paths example_verified[OF down(1,2)] replaced(1))
  have performed: "perform_update example_env DEFAULT_REPOSITORY ''v0.2.0'' example_binary example_checksum example_disk =
    (Inr updated_atomically, remove_dir_all example_env fs' example_dir)"
    using install dir by (simp add: perform_update_def and_then_simps example_env_def)
  have names: "chosen_repository example_options = DEFAULT_REPOSITORY" "validate_repository DEFAULT_REPOSITORY = Inr ()"
    "select_assets [example_checksum, example_binary] (target_triple (up_arch example_env) (up_os example_env)) =
      Inr (example_binary, example_checksum)" by code_simp+
  have "run_gh_release example_env (release_args DEFAULT_REPOSITORY) example_disk =
    (Inr (''v0.2.0'', [example_checksum, example_binary]), example_disk)"
    by (simp add: run_gh_release_def example_runs r_bind_def example_gh_def release_args_def download_args_def)
      (simp add: example_env_def)
  moreover have "up_version example_env = ''0.1.0''" "\<not> uo_check example_options"
    by (simp_all add: example_env_def example_options_def)
  moreover have "remove_dir_all example_env fs' example_dir ''/b/minha'' = Some (FileNode ''new'' 493)"
    using replaced(2) example_paths(5) by (simp add: remove_dir_all_def)
  ultimately show ?thesis
    by (simp add: check_or_update_def names and_then_simps example_order performed)
qed

lemma installed_update_is_verified_and_newer_witness:
  "\<exists>res fs' tag words. check_or_update example_env example_options example_disk = (Inr res, fs') \<and> ur_updated res \<and>
    compare_versions (up_version example_env) (trim_v tag) = Inr Less \<and>
    parse_checksum words = Inr (hex (up_sha256 example_env ''new'')) \<and> fs' ''/b/minha'' = Some (FileNode ''new'' 493)"
proof -
  obtain outcome fs' where run: "check_or_update example_env example_options example_disk = (outcome, fs')"
    and new: "fs' ''/b/minha'' = Some (FileNode ''new'' 493)" using example_update by blast
  have exe: "up_exe example_env = Inr ''/b/minha''" by (simp add: example_env_def)
  have apart: "path_join example_dir example_binary \<noteq> ''/b/minha''" "path_join example_dir example_checksum \<noteq> ''/b/minha''"
    by (simp_all add: example_paths)
  have keeps: "\<forall>args fs. snd (up_gh example_env args fs) ''/b/minha'' = fs ''/b/minha''"
    using apart by (simp add: example_env_def example_gh_def)
  have outside: "\<not> path_starts_with ''/b/minha'' (path_join (up_temp_dir example_env) (''minha-update-'' @ up_uuid example_env))"
    unfolding example_paths(4) by (rule example_paths(5))
  have changed: "fs' ''/b/minha'' \<noteq> example_disk ''/b/minha''" by (simp add: new example_disk_def)
  obtain res tag before after words bytes where res: "outcome = Inr res" "ur_updated res"
    "compare_versions (up_version example_env) (trim_v tag) = Inr Less"
    "parse_checksum words = Inr (hex (up_sha256 example_env bytes))"
    "fs' ''/b/minha'' = Some (FileNode bytes (node_mode (the (example_disk ''/b/minha''))))"
    using installed_update_is_verified_and_newer[OF run exe keeps outside changed] by blast
  from res(5) new have "bytes = ''new''" by simp
  with res run new show ?thesis by blast
qed


end
