(* ===== verification/Books.thy ===== *)
theory Books
  imports Rust_Base Rust_Search Rust_Utf8 "HOL-Library.Multiset"
begin

text \<open>
  The library of books (\<open>crates/minha-core/src/books.rs\<close>): what a book is, its verification, and the
  catalog with its states of trust and its search. The non-ASCII part of \<open>char::is_alphanumeric\<close> is the
  argument \<open>uni\<close>; scores are \<open>i32\<close> in the code and would leave it only for a query of more than two
  hundred million words.
\<close>

section \<open>Data\<close>

definition BOOK_SCHEMA_VERSION :: u16 where "BOOK_SCHEMA_VERSION = 1"

datatype trust_state = TsUnverified | TsDraft | TsVerified | TsPromoted | TsStale | TsRejected

definition searchable :: "trust_state \<Rightarrow> bool" where
  "searchable t = (t \<in> {TsVerified, TsPromoted, TsStale})"

fun trust_rank :: "trust_state \<Rightarrow> u8" where
  "trust_rank TsPromoted = 3"
| "trust_rank TsVerified = 2"
| "trust_rank TsStale = 1"
| "trust_rank _ = 0"

datatype taxonomy = Programming | Systems | DataTopic | Security | Product | Design | Management | Research | Writing | Operations

datatype book_language = English | Spanish | French | German | Japanese

datatype freshness = FrUnknown | FrCurrent | FrReviewDue | FrStale

record staleness =
  sl_status :: freshness
  sl_checked_at :: "str option"
  sl_review_after :: "str option"
  sl_reason :: str

definition staleness_current :: staleness where
  "staleness_current = \<lparr>sl_status = FrCurrent, sl_checked_at = Some ''2026-07-29'', sl_review_after = Some ''2027-01-29'',
     sl_reason = ''Curated against the listed source metadata; recheck before relying on time-sensitive details.''\<rparr>"

record token_budget =
  tb_index :: u32
  tb_compact :: u32
  tb_detailed :: u32

definition token_budget_default :: token_budget where
  "token_budget_default = \<lparr>tb_index = 160, tb_compact = 900, tb_detailed = 2400\<rparr>"

definition token_budget_valid :: "token_budget \<Rightarrow> bool" where
  "token_budget_valid b = (0 < tb_index b \<and> tb_index b \<le> tb_compact b \<and> tb_compact b \<le> tb_detailed b)"

datatype source_kind = CuratedEditorial | OfficialDocumentation | Standard | ResearchPaper | PublishedBook

record source_metadata =
  so_kind :: source_kind
  so_title :: str
  so_publisher :: str
  so_url :: "str option"
  so_accessed :: "str option"
  so_license :: "str option"
  so_note :: str

datatype model_tier = TierStart | TierSpark | TierLarger

record retrieval_budget =
  rb_input_tokens :: u32
  rb_output_tokens :: u32

definition START :: retrieval_budget where "START = \<lparr>rb_input_tokens = 4000, rb_output_tokens = 1000\<rparr>"
definition SPARK :: retrieval_budget where "SPARK = \<lparr>rb_input_tokens = 16000, rb_output_tokens = 4000\<rparr>"
definition LARGER :: retrieval_budget where "LARGER = \<lparr>rb_input_tokens = 32000, rb_output_tokens = 8000\<rparr>"

fun for_tier :: "model_tier \<Rightarrow> retrieval_budget" where
  "for_tier TierStart = START"
| "for_tier TierSpark = SPARK"
| "for_tier TierLarger = LARGER"

definition for_model :: "str \<Rightarrow> retrieval_budget" where
  "for_model model =
     (if model \<in> {''spark'', ''gpt-5.3-codex-spark''} then SPARK
      else if model \<in> {''larger'', ''luna'', ''terra'', ''sol''} then LARGER
      else START)"

record book_metadata =
  bm_schema_version :: u16
  bm_id :: str
  bm_version :: str
  bm_title :: str
  bm_authors :: "str list"
  bm_language :: book_language
  bm_taxonomy :: "taxonomy list"
  bm_tags :: "str list"
  bm_path :: str
  bm_abstract_text :: str
  bm_trust :: trust_state
  bm_staleness :: staleness
  bm_token_budget :: token_budget
  bm_source :: source_metadata

record book_section =
  sc_id :: str
  sc_title :: str
  sc_summary :: str
  sc_key_facts :: "str list"

record book_chapter =
  cp_id :: str
  cp_title :: str
  cp_summary :: str
  cp_sections :: "book_section list"

record key_fact =
  kf_id :: str
  kf_statement :: str
  kf_tags :: "str list"
  kf_citation_ids :: "str list"

record citation =
  ci_id :: str
  ci_locator :: str
  ci_source :: str
  ci_note :: str
  ci_kind :: source_kind
  ci_url :: "str option"
  ci_accessed :: "str option"

record book =
  bk_metadata :: book_metadata
  bk_chapters :: "book_chapter list"
  bk_key_facts :: "key_fact list"
  bk_citations :: "citation list"

abbreviation bk_id :: "book \<Rightarrow> str" where "bk_id b \<equiv> bm_id (bk_metadata b)"
abbreviation bk_trust :: "book \<Rightarrow> trust_state" where "bk_trust b \<equiv> bm_trust (bk_metadata b)"
abbreviation bk_status :: "book \<Rightarrow> freshness" where "bk_status b \<equiv> sl_status (bm_staleness (bk_metadata b))"

section \<open>Verification\<close>

record verification_report =
  vr_errors :: "str list"
  vr_warnings :: "str list"

definition report_valid :: "verification_report \<Rightarrow> bool" where "report_valid r = (vr_errors r = [])"

abbreviation err_if :: "bool \<Rightarrow> str \<Rightarrow> str list" where "err_if b words \<equiv> (if b then [words] else [])"

definition none_or_empty :: "str option \<Rightarrow> bool" where
  "none_or_empty v = (case v of None \<Rightarrow> True | Some s \<Rightarrow> s = [])"

definition metadata_errors :: "book_metadata \<Rightarrow> str list" where
  "metadata_errors m =
     (let st = bm_staleness m; so = bm_source m in
      err_if (bm_schema_version m \<noteq> BOOK_SCHEMA_VERSION) ''unsupported schema version'' @
      err_if (blank (bm_id m) \<or> blank (bm_title m) \<or> blank (bm_version m)) ''id, title, and version are required'' @
      err_if (blank (bm_path m) \<or> blank (bm_abstract_text m)) ''path and abstract are required'' @
      err_if (bm_authors m = [] \<or> bm_taxonomy m = [] \<or> bm_tags m = []) ''author, taxonomy, and tags are required'' @
      err_if (\<not> token_budget_valid (bm_token_budget m)) ''token budget must be positive and ordered'' @
      err_if (blank (so_title so) \<or> blank (so_publisher so) \<or> blank (so_note so)) ''source title, publisher, and note are required'' @
      err_if (bm_trust m = TsStale \<and> sl_status st \<noteq> FrStale) ''stale trust requires stale freshness'' @
      err_if (bm_trust m = TsStale) ''stale books require refresh before verification'' @
      err_if (bm_trust m \<noteq> TsStale \<and> sl_status st = FrStale) ''stale freshness requires stale trust'' @
      err_if (sl_status st = FrCurrent \<and> (none_or_empty (sl_checked_at st) \<or> none_or_empty (sl_review_after st)))
        ''current freshness requires checked_at and review_after'' @
      err_if (sl_status st = FrStale \<and> blank (sl_reason st)) ''stale freshness requires a reason'')"

text \<open>The sections of a chapter, with the identifiers met so far: errors, warnings, identifiers, facts named.\<close>

fun scan_sections :: "str list \<Rightarrow> book_section list \<Rightarrow> str list \<times> str list \<times> str list \<times> str list" where
  "scan_sections seen [] = ([], [], seen, [])"
| "scan_sections seen (s # ss) =
     (let (es, ws, seen', facts) = scan_sections (bs_insert (sc_id s) seen) ss in
      (err_if (blank (sc_id s) \<or> blank (sc_title s) \<or> blank (sc_summary s)) ''section id, title, and summary are required'' @
       err_if (sc_id s \<in> set seen) (''duplicate section '' @ sc_id s) @ es,
       err_if (sc_key_facts s = []) (''section '' @ sc_id s @ '' has no key facts'') @ ws,
       seen', sc_key_facts s @ facts))"

fun scan_chapters :: "str list \<Rightarrow> str list \<Rightarrow> book_chapter list \<Rightarrow> str list \<times> str list \<times> str list" where
  "scan_chapters chapter_ids section_ids [] = ([], [], [])"
| "scan_chapters chapter_ids section_ids (c # cs) =
     (let (es, ws, section_ids', facts) = scan_sections section_ids (cp_sections c);
          (es', ws', facts') = scan_chapters (bs_insert (cp_id c) chapter_ids) section_ids' cs in
      (err_if (blank (cp_id c) \<or> blank (cp_title c) \<or> blank (cp_summary c)) ''chapter id, title, and summary are required'' @
       err_if (cp_id c \<in> set chapter_ids) (''duplicate chapter '' @ cp_id c) @
       err_if (cp_sections c = []) (''chapter '' @ cp_id c @ '' has no sections'') @ es @ es',
       ws @ ws', facts @ facts'))"

definition citation_errors :: "citation \<Rightarrow> str list" where
  "citation_errors c =
     err_if (blank (ci_locator c) \<or> blank (ci_source c) \<or> blank (ci_note c)) (''citation '' @ ci_id c @ '' is incomplete'') @
     err_if (ci_kind c \<noteq> CuratedEditorial \<and> none_or_empty (ci_url c)) (''citation '' @ ci_id c @ '' needs a source URL'')"

text \<open>A fact counts as known when it is complete; a repeated one is an error.\<close>

fun scan_facts :: "str list \<Rightarrow> str list \<Rightarrow> key_fact list \<Rightarrow> str list \<times> str list" where
  "scan_facts citation_ids known [] = ([], known)"
| "scan_facts citation_ids known (f # fs) =
     (let incomplete = (blank (kf_id f) \<or> blank (kf_statement f));
          (es, known') = scan_facts citation_ids (if incomplete then known else bs_insert (kf_id f) known) fs in
      (err_if (incomplete \<or> kf_id f \<in> set known) (''invalid or duplicate fact '' @ kf_id f) @
       map (\<lambda>c. ''fact '' @ kf_id f @ '' cites missing '' @ c) (filter (\<lambda>c. c \<notin> set citation_ids) (kf_citation_ids f)) @ es,
       known'))"

definition verify_draft :: "book \<Rightarrow> verification_report" where
  "verify_draft b =
     (let citation_ids = foldl (\<lambda>s c. bs_insert (ci_id c) s) [] (bk_citations b);
          (chapter_errors, section_warnings, section_facts) = scan_chapters [] [] (bk_chapters b);
          (fact_errors, fact_ids) = scan_facts citation_ids [] (bk_key_facts b)
      in \<lparr>vr_errors =
            metadata_errors (bk_metadata b) @
            err_if (bk_chapters b = []) ''at least one chapter is required'' @
            err_if (bk_citations b = []) ''at least one citation is required'' @
            chapter_errors @
            err_if (length citation_ids \<noteq> length (bk_citations b)) ''citation IDs must be unique'' @
            concat (map citation_errors (bk_citations b)) @
            fact_errors @
            map (\<lambda>f. ''section cites missing fact '' @ f) (filter (\<lambda>f. f \<notin> set fact_ids) section_facts),
          vr_warnings = err_if (bk_key_facts b = []) ''book has no key facts'' @ section_warnings\<rparr>)"
section \<open>Search text\<close>

text \<open>\<open>split\<close> at the characters a predicate picks, on the characters of a string.\<close>

fun split_chars :: "(str \<Rightarrow> bool) \<Rightarrow> str list \<Rightarrow> str list" where
  "split_chars P [] = [[]]"
| "split_chars P (g # gs) =
     (if P g then [] # split_chars P gs
      else (case split_chars P gs of [] \<Rightarrow> [g] | w # ws \<Rightarrow> (g @ w) # ws))"

definition terms :: "(str \<Rightarrow> bool) \<Rightarrow> str \<Rightarrow> str list" where
  "terms uni txt =
     map to_ascii_lowercase (filter (\<lambda>w. w \<noteq> []) (split_chars (\<lambda>g. \<not> is_alphanumeric uni g) (chars txt)))"

definition compact_retrieval :: "book \<Rightarrow> str" where
  "compact_retrieval b =
     join '' '' ([bm_title (bk_metadata b), bm_abstract_text (bk_metadata b)] @
       concat (map (\<lambda>c. [cp_title c, cp_summary c] @ concat (map (\<lambda>s. [sc_title s, sc_summary s]) (cp_sections c))) (bk_chapters b)) @
       map kf_statement (bk_key_facts b) @ [so_title (bm_source (bk_metadata b))])"

definition compact_text :: "book \<Rightarrow> str" where "compact_text b = compact_retrieval b"

definition compact_token_count :: "(str \<Rightarrow> bool) \<Rightarrow> book \<Rightarrow> u32" where
  "compact_token_count uni b = length (terms uni (compact_text b)) mod 4294967296"

section \<open>Catalog\<close>

datatype catalog_error = DuplicateId str | InvalidDraft "str list" | NotPromotable str | MissingBook str

record catalog =
  ca_books :: "(str \<times> book) list"
  ca_revisions :: "(str \<times> str) list"

definition catalog_new :: catalog where "catalog_new = \<lparr>ca_books = [], ca_revisions = []\<rparr>"
definition catalog_len :: "catalog \<Rightarrow> usize" where "catalog_len c = length (ca_books c)"
definition catalog_is_empty :: "catalog \<Rightarrow> bool" where "catalog_is_empty c = (ca_books c = [])"
definition catalog_get :: "catalog \<Rightarrow> str \<Rightarrow> book option" where "catalog_get c k = map_of (ca_books c) k"
definition catalog_iter :: "catalog \<Rightarrow> book list" where "catalog_iter c = map snd (ca_books c)"

definition set_trust :: "trust_state \<Rightarrow> book \<Rightarrow> book" where
  "set_trust t b = b\<lparr>bk_metadata := (bk_metadata b)\<lparr>bm_trust := t\<rparr>\<rparr>"

definition put_book :: "str \<Rightarrow> book \<Rightarrow> catalog \<Rightarrow> catalog" where
  "put_book k b c = c\<lparr>ca_books := bt_insert k b (ca_books c)\<rparr>"

definition insert_draft :: "catalog \<Rightarrow> book \<Rightarrow> (catalog_error + verification_report) \<times> catalog" where
  "insert_draft c b =
     (if catalog_get c (bk_id b) \<noteq> None then (Inl (DuplicateId (bk_id b)), c)
      else
        let draft = set_trust TsDraft b; report = verify_draft draft
        in if \<not> report_valid report then (Inl (InvalidDraft (vr_errors report)), c)
           else (Inr report,
             put_book (bk_id b) draft (c\<lparr>ca_revisions := bt_insert (bk_id b) (bm_version (bk_metadata b)) (ca_revisions c)\<rparr>)))"

definition catalog_verify :: "catalog \<Rightarrow> str \<Rightarrow> (catalog_error + verification_report) \<times> catalog" where
  "catalog_verify c k =
     (case catalog_get c k of
        None \<Rightarrow> (Inl (MissingBook k), c)
      | Some b \<Rightarrow>
          let report = verify_draft b
          in (Inr report, if report_valid report then put_book k (set_trust TsVerified b) c else c))"

definition promote :: "catalog \<Rightarrow> str \<Rightarrow> (catalog_error + unit) \<times> catalog" where
  "promote c k =
     (case catalog_get c k of
        None \<Rightarrow> (Inl (MissingBook k), c)
      | Some b \<Rightarrow>
          if bk_trust b \<noteq> TsVerified \<or> bk_status b \<noteq> FrCurrent then (Inl (NotPromotable k), c)
          else if \<not> report_valid (verify_draft b) then (Inl (NotPromotable k), c)
          else (Inr (), put_book k (set_trust TsPromoted b) c))"

definition make_stale :: "str \<Rightarrow> book \<Rightarrow> book" where
  "make_stale current b =
     b\<lparr>bk_metadata := (bk_metadata b)\<lparr>bm_trust := TsStale,
        bm_staleness := (bm_staleness (bk_metadata b))\<lparr>sl_status := FrStale,
          sl_reason := ''Indexed version '' @ bm_version (bk_metadata b) @ '' differs from current version '' @ current @ ''.''\<rparr>\<rparr>\<rparr>"

definition demote_stale :: "catalog \<Rightarrow> str \<Rightarrow> str \<Rightarrow> (catalog_error + unit) \<times> catalog" where
  "demote_stale c k current =
     (case catalog_get c k of
        None \<Rightarrow> (Inl (MissingBook k), c)
      | Some b \<Rightarrow> (Inr (), if bm_version (bk_metadata b) \<noteq> current then put_book k (make_stale current b) c else c))"

record search_hit =
  hit_book :: book
  hit_score :: nat

definition score_book :: "(str \<Rightarrow> bool) \<Rightarrow> str list \<Rightarrow> book_language option \<Rightarrow> str list \<Rightarrow> book \<Rightarrow> search_hit" where
  "score_book uni query_terms language tags b =
     (let m = bk_metadata b;
          haystack = terms uni (join '' '' [bm_title m, bm_abstract_text m, bm_path m, join '' '' (bm_tags m), compact_text b]);
          lexical = length (filter (\<lambda>term. term \<in> set haystack) query_terms);
          path = (if list_ex (\<lambda>term. contains (to_ascii_lowercase (bm_path m)) term) query_terms then 3 else 0);
          language_score = (if language = Some (bm_language m) then 4 else 0);
          tag_score = length (filter (\<lambda>tag. list_ex (\<lambda>candidate. eq_ignore_ascii_case candidate tag) (bm_tags m)) tags) * 5
      in \<lparr>hit_book = b, hit_score = lexical * 10 + path + language_score + tag_score + trust_rank (bm_trust m)\<rparr>)"

definition hit_order :: "search_hit \<Rightarrow> int \<times> str \<times> str" where
  "hit_order h = (- int (hit_score h), bm_path (bk_metadata (hit_book h)), bk_id (hit_book h))"

definition catalog_search ::
  "(str \<Rightarrow> bool) \<Rightarrow> catalog \<Rightarrow> str \<Rightarrow> book_language option \<Rightarrow> str list \<Rightarrow> usize \<Rightarrow> search_hit list" where
  "catalog_search uni c query language tags limit =
     (let query_terms = terms uni query
      in take limit (sort_key hit_order (filter (\<lambda>h. 0 < hit_score h)
           (map (score_book uni query_terms language tags) (filter (\<lambda>b. searchable (bk_trust b)) (catalog_iter c))))))"

section \<open>Trust\<close>

text \<open>The only way trust enters the verification is staleness.\<close>

lemma verify_set_trust:
  assumes "t \<noteq> TsStale" and "bk_trust b \<noteq> TsStale"
  shows "verify_draft (set_trust t b) = verify_draft b"
  using assms by (simp add: verify_draft_def set_trust_def metadata_errors_def Let_def)

lemma valid_not_stale:
  assumes "report_valid (verify_draft b)"
  shows "bk_trust b \<noteq> TsStale \<and> bk_status b \<noteq> FrStale"
proof -
  have "metadata_errors (bk_metadata b) = []"
    using assms by (simp add: report_valid_def verify_draft_def Let_def split: prod.splits)
  then show ?thesis by (auto simp: metadata_errors_def Let_def split: if_splits)
qed

definition book_ok :: "book \<Rightarrow> bool" where
  "book_ok b =
     (case bk_trust b of
        TsUnverified \<Rightarrow> False
      | TsRejected \<Rightarrow> False
      | TsDraft \<Rightarrow> report_valid (verify_draft b)
      | TsVerified \<Rightarrow> report_valid (verify_draft b)
      | TsPromoted \<Rightarrow> report_valid (verify_draft b) \<and> bk_status b = FrCurrent
      | TsStale \<Rightarrow> \<exists>checked v. report_valid (verify_draft checked) \<and> b = make_stale v checked)"

definition catalog_ok :: "catalog \<Rightarrow> bool" where
  "catalog_ok c =
     (bt_ok (ca_books c) \<and>
      (\<forall>k b. catalog_get c k = Some b \<longrightarrow>
         k = bk_id b \<and> map_of (ca_revisions c) k = Some (bm_version (bk_metadata b)) \<and> book_ok b))"

lemma catalog_get_put:
  "catalog_get (put_book k b c) = (catalog_get c)(k \<mapsto> b)" "ca_revisions (put_book k b c) = ca_revisions c"
  by (auto simp: catalog_get_def put_book_def)

lemma catalog_ok_put:
  assumes "catalog_ok c" and "k = bk_id b" and "map_of (ca_revisions c) k = Some (bm_version (bk_metadata b))" and "book_ok b"
  shows "catalog_ok (put_book k b c)"
  using assms by (auto simp: catalog_ok_def catalog_get_put) (simp add: put_book_def bt_ok_insert)

lemma set_trust_simps [simp]:
  "bk_trust (set_trust t b) = t" "bk_id (set_trust t b) = bk_id b" "bk_status (set_trust t b) = bk_status b"
  "bm_version (bk_metadata (set_trust t b)) = bm_version (bk_metadata b)"
  by (simp_all add: set_trust_def)

lemma make_stale_simps [simp]:
  "bk_trust (make_stale v b) = TsStale" "bk_id (make_stale v b) = bk_id b" "bk_status (make_stale v b) = FrStale"
  "bm_version (bk_metadata (make_stale v b)) = bm_version (bk_metadata b)"
  by (simp_all add: make_stale_def)

lemma valid_book_ok: "report_valid (verify_draft b) \<Longrightarrow> t \<in> {TsDraft, TsVerified} \<Longrightarrow> book_ok (set_trust t b)"
  using valid_not_stale[of b] by (auto simp: book_ok_def verify_set_trust)

lemma promoted_book_ok: "report_valid (verify_draft b) \<Longrightarrow> bk_status b = FrCurrent \<Longrightarrow> book_ok (set_trust TsPromoted b)"
  using valid_not_stale[of b] by (simp add: book_ok_def verify_set_trust)

lemma make_stale_again [simp]: "make_stale v (make_stale w b) = make_stale v b"
  by (simp add: make_stale_def)

lemma stale_book_ok: "book_ok b \<Longrightarrow> book_ok (make_stale v b)"
  unfolding book_ok_def by (cases "bk_trust b") (auto, blast+)

lemma insert_draft_ok:
  assumes "catalog_ok c"
  shows "catalog_ok (snd (insert_draft c b))"
proof -
  let ?c = "c\<lparr>ca_revisions := bt_insert (bk_id b) (bm_version (bk_metadata b)) (ca_revisions c)\<rparr>"
  have "catalog_ok (put_book (bk_id b) (set_trust TsDraft b) ?c)"
    if new: "catalog_get c (bk_id b) = None" and valid: "report_valid (verify_draft (set_trust TsDraft b))"
  proof (rule catalog_ok_put)
    show "catalog_ok ?c"
      using assms new by (auto simp: catalog_ok_def catalog_get_def)
    show "book_ok (set_trust TsDraft b)" using valid by (simp add: book_ok_def)
  qed simp_all
  then show ?thesis using assms by (simp add: insert_draft_def Let_def)
qed

lemma catalog_verify_ok: "catalog_ok c \<Longrightarrow> catalog_ok (snd (catalog_verify c k))"
  by (auto simp: catalog_verify_def Let_def split: option.splits intro!: catalog_ok_put valid_book_ok)
    (auto simp: catalog_ok_def)

lemma promote_ok: "catalog_ok c \<Longrightarrow> catalog_ok (snd (promote c k))"
  by (auto simp: promote_def split: option.splits intro!: catalog_ok_put promoted_book_ok) (auto simp: catalog_ok_def)

lemma demote_stale_ok: "catalog_ok c \<Longrightarrow> catalog_ok (snd (demote_stale c k v))"
  by (auto simp: demote_stale_def split: option.splits intro!: catalog_ok_put stale_book_ok) (auto simp: catalog_ok_def)

text \<open>The catalogs that the operations reach from the empty one.\<close>

inductive catalog_step :: "catalog \<Rightarrow> catalog \<Rightarrow> bool" where
  step_insert: "catalog_step c (snd (insert_draft c b))"
| step_verify: "catalog_step c (snd (catalog_verify c k))"
| step_promote: "catalog_step c (snd (promote c k))"
| step_demote: "catalog_step c (snd (demote_stale c k v))"

inductive_cases catalog_stepE: "catalog_step c c'"

inductive catalog_reachable :: "catalog \<Rightarrow> bool" where
  reach_new: "catalog_reachable catalog_new"
| reach_step: "catalog_reachable c \<Longrightarrow> catalog_step c c' \<Longrightarrow> catalog_reachable c'"

lemma catalog_reachable_ok: "catalog_reachable c \<Longrightarrow> catalog_ok c"
proof (induction rule: catalog_reachable.induct)
  case reach_new
  show ?case by (simp add: catalog_ok_def catalog_new_def catalog_get_def)
next
  case (reach_step c c')
  from \<open>catalog_step c c'\<close> \<open>catalog_ok c\<close> show ?case
    by (elim catalog_stepE) (simp_all add: insert_draft_ok catalog_verify_ok promote_ok demote_stale_ok)
qed

text \<open>C37: A search offers books that passed the verification. Every hit of a search on a catalog the operations reach is the
  book the catalog keeps under its identifier and version. Its trust is verified, promoted or stale, never draft; a stale one is
  a book that passed the verification, changed by nothing but being marked stale (trust, freshness and its reason), and any
  other hit passes the verification as it stands. A promoted one is current as well.\<close>

theorem catalog_offers_checked_books:
  assumes "catalog_reachable c" and "h \<in> set (catalog_search uni c query language tags limit)"
  shows "catalog_get c (bk_id (hit_book h)) = Some (hit_book h) \<and>
    map_of (ca_revisions c) (bk_id (hit_book h)) = Some (bm_version (bk_metadata (hit_book h))) \<and>
    bk_trust (hit_book h) \<in> {TsVerified, TsPromoted, TsStale} \<and>
    (if bk_trust (hit_book h) = TsStale
     then bk_status (hit_book h) = FrStale \<and> (\<exists>b v. report_valid (verify_draft b) \<and> hit_book h = make_stale v b)
     else report_valid (verify_draft (hit_book h))) \<and>
    (bk_trust (hit_book h) = TsPromoted \<longrightarrow> bk_status (hit_book h) = FrCurrent)"
proof -
  from assms(2) obtain k where k: "(k, hit_book h) \<in> set (ca_books c)" and s: "searchable (bk_trust (hit_book h))"
    by (auto simp: catalog_search_def Let_def catalog_iter_def score_book_def dest!: in_set_takeD)
  have ok: "catalog_ok c" by (rule catalog_reachable_ok[OF assms(1)])
  then have got: "catalog_get c k = Some (hit_book h)"
    using k by (simp add: catalog_ok_def catalog_get_def bt_ok_distinct)
  with ok have "k = bk_id (hit_book h)" "map_of (ca_revisions c) k = Some (bm_version (bk_metadata (hit_book h)))"
    and b: "book_ok (hit_book h)" by (simp_all add: catalog_ok_def)
  moreover have "bk_status (hit_book h) = FrStale" if "bk_trust (hit_book h) = TsStale"
    using b that by (auto simp: book_ok_def)
  ultimately show ?thesis
    using got s by (auto simp: book_ok_def searchable_def split: trust_state.splits)
qed

definition example_book :: book where
  "example_book = \<lparr>bk_metadata = \<lparr>bm_schema_version = 1, bm_id = ''b'', bm_version = ''1'', bm_title = ''Rust'',
       bm_authors = [''a''], bm_language = English, bm_taxonomy = [Systems], bm_tags = [''t''], bm_path = ''p'',
       bm_abstract_text = ''x'', bm_trust = TsUnverified, bm_staleness = staleness_current, bm_token_budget = \<lparr>tb_index = 1, tb_compact = 1, tb_detailed = 1\<rparr>,
       bm_source = \<lparr>so_kind = CuratedEditorial, so_title = ''s'', so_publisher = ''p'', so_url = None, so_accessed = None,
         so_license = None, so_note = ''n''\<rparr>\<rparr>,
     bk_chapters = [\<lparr>cp_id = ''c'', cp_title = ''c'', cp_summary = ''c'',
       cp_sections = [\<lparr>sc_id = ''s'', sc_title = ''s'', sc_summary = ''s'', sc_key_facts = [''f'']\<rparr>]\<rparr>],
     bk_key_facts = [\<lparr>kf_id = ''f'', kf_statement = ''f'', kf_tags = [], kf_citation_ids = [''q'']\<rparr>],
     bk_citations = [\<lparr>ci_id = ''q'', ci_locator = ''l'', ci_source = ''s'', ci_note = ''n'', ci_kind = CuratedEditorial,
       ci_url = None, ci_accessed = None\<rparr>]\<rparr>"

definition example_catalog :: catalog where
  "example_catalog = snd (promote (snd (catalog_verify (snd (insert_draft catalog_new example_book)) ''b'')) ''b'')"

lemma example_catalog_reachable: "catalog_reachable example_catalog"
  unfolding example_catalog_def
  by (intro reach_step[OF reach_step[OF reach_step[OF reach_new step_insert] step_verify] step_promote])

lemma catalog_offers_checked_books_witness:
  "\<exists>h. catalog_search (\<lambda>_. False) example_catalog ''rust'' None [] 5 = [h] \<and>
     catalog_get example_catalog ''b'' = Some (hit_book h) \<and> bk_trust (hit_book h) = TsPromoted \<and> report_valid (verify_draft (hit_book h))"
proof -
  define hits where "hits = catalog_search (\<lambda>_. False) example_catalog ''rust'' None [] 5"
  have "map (\<lambda>h. (bk_id (hit_book h), bk_trust (hit_book h))) hits = [(''b'', TsPromoted)]"
    unfolding hits_def by code_simp
  then obtain h where h: "hits = [h]" "bk_id (hit_book h) = ''b''" "bk_trust (hit_book h) = TsPromoted" by auto
  then have "h \<in> set (catalog_search (\<lambda>_. False) example_catalog ''rust'' None [] 5)" by (simp add: hits_def)
  from catalog_offers_checked_books[OF example_catalog_reachable this] h show ?thesis by (auto simp: hits_def)
qed

section \<open>Search\<close>

lemma searchable_scores: "searchable (bk_trust b) \<Longrightarrow> 0 < hit_score (score_book uni ts l tags b)"
  by (cases "bk_trust b") (auto simp: searchable_def score_book_def Let_def)

text \<open>A search ranks every book that may be returned and drops none of them for matching nothing, because trust alone
  already gives a positive score. The hits are the first ones, as many as the limit allows, of all such books in the order of
  falling score, then path, then identifier.\<close>

theorem search_ranks_every_book:
  "\<exists>rest. mset (catalog_search uni c query language tags limit @ rest) =
      mset (map (score_book uni (terms uni query) language tags) (filter (\<lambda>b. searchable (bk_trust b)) (catalog_iter c))) \<and>
    sorted (map hit_order (catalog_search uni c query language tags limit @ rest)) \<and>
    length (catalog_search uni c query language tags limit) =
      min limit (length (filter (\<lambda>b. searchable (bk_trust b)) (catalog_iter c)))"
proof -
  define all where "all = map (score_book uni (terms uni query) language tags) (filter (\<lambda>b. searchable (bk_trust b)) (catalog_iter c))"
  have "filter (\<lambda>h. 0 < hit_score h) all = all"
    by (auto simp: all_def filter_id_conv searchable_scores)
  then have hits: "catalog_search uni c query language tags limit = take limit (sort_key hit_order all)"
    by (simp add: catalog_search_def all_def Let_def)
  have "mset (take limit (sort_key hit_order all) @ drop limit (sort_key hit_order all)) = mset all"
    "sorted (map hit_order (take limit (sort_key hit_order all) @ drop limit (sort_key hit_order all)))"
    by (simp_all only: append_take_drop_id mset_sort sorted_sort_key)
  then show ?thesis
    unfolding hits all_def[symmetric]
    by (intro exI[of _ "drop limit (sort_key hit_order all)"]) (simp add: all_def min.commute)
qed


end
