(* ===== verification/Book_Registry.thy ===== *)
theory Book_Registry
  imports Books Cache_Core
begin

text \<open>
  Cards, levels of detail, specialists and the bundled registry (\<open>crates/minha-core/src/books.rs\<close>). The
  texts compiled into the program, the readers of their JSON and SHA-256 are arguments.
\<close>

section \<open>Cards\<close>

definition BOOK_CARD_SCHEMA_VERSION :: u16 where "BOOK_CARD_SCHEMA_VERSION = 1"

record book_card =
  bcd_schema_version :: u16
  bcd_book_id :: str
  bcd_book_version :: str
  bcd_section_id :: "str option"
  bcd_specialty :: str
  bcd_summary :: str

definition card_glossary :: "book \<Rightarrow> book_card" where
  "card_glossary b =
     \<lparr>bcd_schema_version = BOOK_CARD_SCHEMA_VERSION, bcd_book_id = bk_id b, bcd_book_version = bm_version (bk_metadata b),
      bcd_section_id = None, bcd_specialty = bm_title (bk_metadata b), bcd_summary = bm_abstract_text (bk_metadata b)\<rparr>"

definition card_section :: "book \<Rightarrow> str \<Rightarrow> book_card option" where
  "card_section b section_id =
     map_option (\<lambda>s. \<lparr>bcd_schema_version = BOOK_CARD_SCHEMA_VERSION, bcd_book_id = bk_id b,
         bcd_book_version = bm_version (bk_metadata b), bcd_section_id = Some (sc_id s),
         bcd_specialty = bm_title (bk_metadata b) @ '' / '' @ sc_title s, bcd_summary = sc_summary s\<rparr>)
       (find (\<lambda>s. sc_id s = section_id) (concat (map cp_sections (bk_chapters b))))"

definition card_source :: "book_card \<Rightarrow> str" where
  "card_source c =
     (case bcd_section_id c of
        Some section_id \<Rightarrow> bcd_book_id c @ ''@'' @ bcd_book_version c @ ''#'' @ section_id
      | None \<Rightarrow> bcd_book_id c @ ''@'' @ bcd_book_version c)"

datatype book_card_error = UnsupportedCardVersion u16 | MissingBookId | MissingBookVersion | InvalidSectionId
  | MissingSpecialty | MissingSummary

definition card_validate :: "book_card \<Rightarrow> book_card_error + unit" where
  "card_validate c =
     (if bcd_schema_version c \<noteq> BOOK_CARD_SCHEMA_VERSION then Inl (UnsupportedCardVersion (bcd_schema_version c))
      else if blank (bcd_book_id c) then Inl MissingBookId
      else if blank (bcd_book_version c) then Inl MissingBookVersion
      else if (case bcd_section_id c of Some i \<Rightarrow> blank i | None \<Rightarrow> False) then Inl InvalidSectionId
      else if blank (bcd_specialty c) then Inl MissingSpecialty
      else if blank (bcd_summary c) then Inl MissingSummary
      else Inr ())"

fun book_card_error_text :: "book_card_error \<Rightarrow> str" where
  "book_card_error_text (UnsupportedCardVersion v) = ''unsupported book card schema version: '' @ show_nat v"
| "book_card_error_text MissingBookId = ''book card requires a book id''"
| "book_card_error_text MissingBookVersion = ''book card requires a book version''"
| "book_card_error_text InvalidSectionId = ''book card section id must not be empty''"
| "book_card_error_text MissingSpecialty = ''book card requires a specialty''"
| "book_card_error_text MissingSummary = ''book card requires a summary''"

section \<open>Levels of detail\<close>

datatype book_detail_level = DetailIndex | DetailSection | DetailFull

fun detail_str :: "book_detail_level \<Rightarrow> str" where
  "detail_str DetailIndex = ''index''"
| "detail_str DetailSection = ''section''"
| "detail_str DetailFull = ''full''"

definition detail_parse :: "str \<Rightarrow> book_detail_level option" where
  "detail_parse v =
     (if v = ''index'' then Some DetailIndex
      else if v = ''section'' then Some DetailSection
      else if v = ''full'' then Some DetailFull else None)"

datatype book_retrieval_reason = NoGap | TrueGap | ExceptionalFull

fun reason_str :: "book_retrieval_reason \<Rightarrow> str" where
  "reason_str NoGap = ''no_gap''"
| "reason_str TrueGap = ''true_gap''"
| "reason_str ExceptionalFull = ''exceptional_full''"

definition reason_parse :: "str \<Rightarrow> book_retrieval_reason option" where
  "reason_parse v =
     (if v = ''no_gap'' then Some NoGap
      else if v = ''true_gap'' then Some TrueGap
      else if v = ''exceptional_full'' then Some ExceptionalFull else None)"

interpretation detail_wire: strict_wire_format detail_str detail_parse "\<lambda>_. True"
proof
  show "detail_parse (detail_str d) = Some d" for d by (cases d) (simp_all add: detail_parse_def)
  show "detail_parse w = Some d \<Longrightarrow> detail_str d = w \<and> True" for w d
    by (auto simp: detail_parse_def split: if_splits)
qed

interpretation reason_wire: strict_wire_format reason_str reason_parse "\<lambda>_. True"
proof
  show "reason_parse (reason_str r) = Some r" for r by (cases r) (simp_all add: reason_parse_def)
  show "reason_parse w = Some r \<Longrightarrow> reason_str r = w \<and> True" for w r
    by (auto simp: reason_parse_def split: if_splits)
qed

fun recommended_book_detail :: "book_retrieval_reason \<Rightarrow> book_detail_level" where
  "recommended_book_detail NoGap = DetailIndex"
| "recommended_book_detail TrueGap = DetailSection"
| "recommended_book_detail ExceptionalFull = DetailFull"

fun allows_book_detail :: "book_retrieval_reason \<Rightarrow> book_detail_level \<Rightarrow> bool" where
  "allows_book_detail NoGap d = (d = DetailIndex)"
| "allows_book_detail TrueGap d = (d \<in> {DetailIndex, DetailSection})"
| "allows_book_detail ExceptionalFull d = True"

datatype book_detail_admission_error = UnknownReason str | UnknownDetail str
  | DetailNotAllowed book_retrieval_reason book_detail_level

fun reason_debug :: "book_retrieval_reason \<Rightarrow> str" where
  "reason_debug NoGap = ''NoGap''"
| "reason_debug TrueGap = ''TrueGap''"
| "reason_debug ExceptionalFull = ''ExceptionalFull''"

fun detail_debug :: "book_detail_level \<Rightarrow> str" where
  "detail_debug DetailIndex = ''Index''"
| "detail_debug DetailSection = ''Section''"
| "detail_debug DetailFull = ''Full''"

fun book_detail_admission_error_text :: "book_detail_admission_error \<Rightarrow> str" where
  "book_detail_admission_error_text (UnknownReason r) = ''unknown book retrieval reason: '' @ r"
| "book_detail_admission_error_text (UnknownDetail d) = ''unknown book detail level: '' @ d"
| "book_detail_admission_error_text (DetailNotAllowed r d) =
     ''book detail '' @ detail_debug d @ '' is not allowed for retrieval reason '' @ reason_debug r"

definition validate_book_detail_admission ::
  "str \<Rightarrow> book_detail_level \<Rightarrow> book_detail_admission_error + book_retrieval_reason" where
  "validate_book_detail_admission reason detail =
     r_bind (ok_or (reason_parse reason) (UnknownReason reason)) (\<lambda>r.
     if \<not> allows_book_detail r detail then Inl (DetailNotAllowed r detail) else Inr r)"

definition validate_book_detail_strings :: "str \<Rightarrow> str \<Rightarrow> book_detail_admission_error + book_retrieval_reason" where
  "validate_book_detail_strings reason detail =
     r_bind (ok_or (detail_parse detail) (UnknownDetail detail)) (validate_book_detail_admission reason)"

section \<open>Specialists\<close>

definition SPECIALIST_IDENTITY_SCHEMA_VERSION :: u16 where "SPECIALIST_IDENTITY_SCHEMA_VERSION = 1"

record specialist_identity =
  si_schema_version :: u16
  si_id :: str
  si_role :: str
  si_task_id :: str
  si_display_name :: str
  si_book_sources :: "str list"

datatype specialist_identity_error = MissingRole | MissingTaskId | InvalidCard book_card_error

fun specialist_identity_error_text :: "specialist_identity_error \<Rightarrow> str" where
  "specialist_identity_error_text MissingRole = ''specialist identity requires a role''"
| "specialist_identity_error_text MissingTaskId = ''specialist identity requires a task id''"
| "specialist_identity_error_text (InvalidCard e) = ''invalid book card: '' @ book_card_error_text e"

text \<open>The smallest of the labels given to one source.\<close>

definition add_specialty :: "book_card \<Rightarrow> (str \<times> str) list \<Rightarrow> (str \<times> str) list" where
  "add_specialty c m =
     (let source = card_source c; specialty = trim (bcd_specialty c)
      in case map_of m source of
           Some existing \<Rightarrow> if specialty < existing then bt_insert source specialty m else m
         | None \<Rightarrow> bt_insert source specialty m)"

fun collect_specialties :: "book_card list \<Rightarrow> (str \<times> str) list \<Rightarrow> specialist_identity_error + (str \<times> str) list" where
  "collect_specialties [] m = Inr m"
| "collect_specialties (c # cs) m =
     (case card_validate c of Inl e \<Rightarrow> Inl (InvalidCard e) | Inr _ \<Rightarrow> collect_specialties cs (add_specialty c m))"

definition middle_dot :: str where "middle_dot = [CHR '' '', CHR 0xC2, CHR 0xB7, CHR '' '']"

definition specialist_hash_input :: "str \<Rightarrow> str \<Rightarrow> str list \<Rightarrow> str" where
  "specialist_hash_input role task_id sources =
     ''minha.specialist.v1'' @ [CHR 0x00] @ concat (map (\<lambda>p. p @ [CHR 0x00]) (role # task_id # sources))"

definition from_cards :: "(str \<Rightarrow> str) \<Rightarrow> str \<Rightarrow> str \<Rightarrow> book_card list \<Rightarrow> specialist_identity_error + specialist_identity" where
  "from_cards sha256 raw_role raw_task cards =
     (let role = trim raw_role; task_id = trim raw_task in
      if role = [] then Inl MissingRole
      else if task_id = [] then Inl MissingTaskId
      else r_bind (collect_specialties cards []) (\<lambda>m.
        let sources = map fst m;
            specialty_label = join '' + '' (map snd m);
            display_name = (if specialty_label = [] then role @ middle_dot @ task_id
                            else role @ middle_dot @ specialty_label @ middle_dot @ task_id)
        in Inr \<lparr>si_schema_version = SPECIALIST_IDENTITY_SCHEMA_VERSION,
                si_id = ''specialist-v1:'' @ hex (sha256 (specialist_hash_input role task_id sources)),
                si_role = role, si_task_id = task_id, si_display_name = display_name, si_book_sources = sources\<rparr>))"

definition book_sources :: "book_card list \<Rightarrow> str list" where
  "book_sources cards = foldl (\<lambda>s c. bs_insert (card_source c) s) [] cards"
lemma bt_ok_unique:
  assumes "bt_ok m" and "bt_ok n" and "map_of m = map_of n"
  shows "m = n"
proof -
  have dist: "distinct (map fst m)" "distinct (map fst n)" using assms(1,2) by (simp_all add: bt_ok_distinct)
  then have "set m = set n" using assms(3) map_of_inject_set by blast
  then have "fst ` set m = fst ` set n" by simp
  moreover have "sorted (map fst m)" "sorted (map fst n)"
    using assms(1,2) by (auto simp: bt_ok_def strict_sorted_iff)
  ultimately have keys: "map fst m = map fst n"
    using dist by (intro sorted_distinct_set_unique) simp_all
  show ?thesis
  proof (rule nth_equalityI)
    show len: "length m = length n" using keys by (metis length_map)
    fix i assume i: "i < length m"
    with keys len have k: "fst (m ! i) = fst (n ! i)" by (metis nth_map)
    have "map_of m (fst (m ! i)) = Some (snd (m ! i))" using dist i by (simp add: map_of_eq_Some_iff)
    moreover have "map_of n (fst (n ! i)) = Some (snd (n ! i))" using dist i len by (simp add: map_of_eq_Some_iff)
    ultimately have "snd (m ! i) = snd (n ! i)" using assms(3) k by simp
    with k show "m ! i = n ! i" by (simp add: prod_eq_iff)
  qed
qed

lemma bs_ok_unique: "bs_ok xs \<Longrightarrow> bs_ok ys \<Longrightarrow> set xs = set ys \<Longrightarrow> xs = ys"
  unfolding bs_ok_def by (simp add: sorted_distinct_set_unique strict_sorted_iff)

text \<open>The labels of the cards of one source.\<close>

definition labels_of :: "book_card set \<Rightarrow> str \<Rightarrow> str set" where
  "labels_of cards source = (\<lambda>c. trim (bcd_specialty c)) ` {c \<in> cards. card_source c = source}"

definition least_label :: "book_card set \<Rightarrow> str \<Rightarrow> str option" where
  "least_label cards source = (if labels_of cards source = {} then None else Some (Min (labels_of cards source)))"

lemma labels_of_insert:
  "labels_of (insert c cards) source =
    (if card_source c = source then insert (trim (bcd_specialty c)) (labels_of cards source) else labels_of cards source)"
  by (auto simp: labels_of_def)

lemma add_specialty_least:
  assumes "map_of m = least_label cards" and "finite cards"
  shows "map_of (add_specialty c m) = least_label (insert c cards)"
proof
  fix source
  have fin: "finite (labels_of cards source)" using assms(2) by (simp add: labels_of_def)
  show "map_of (add_specialty c m) source = least_label (insert c cards) source"
  proof (cases "card_source c = source \<and> labels_of cards source \<noteq> {}")
    case True
    define least where "least = Min (labels_of cards source)"
    from True assms(1) have "map_of m source = Some least" by (simp add: least_label_def least_def)
    moreover have "least_label (insert c cards) source = Some (min (trim (bcd_specialty c)) least)"
      using True fin by (simp add: least_label_def labels_of_insert least_def Min_insert)
    ultimately show ?thesis using True by (auto simp: add_specialty_def Let_def min_def)
  next
    case False
    with assms(1) show ?thesis
      by (auto simp: add_specialty_def least_label_def labels_of_insert Let_def split: option.splits if_splits)
  qed
qed

lemma bt_ok_add_specialty: "bt_ok m \<Longrightarrow> bt_ok (add_specialty c m)"
  by (auto simp: add_specialty_def Let_def bt_ok_insert split: option.splits)

lemma collect_specialties_result:
  assumes "collect_specialties cards m = Inr m'" and "bt_ok m" and "map_of m = least_label seen" and "finite seen"
  shows "bt_ok m' \<and> map_of m' = least_label (set cards \<union> seen) \<and> (\<forall>c \<in> set cards. card_validate c = Inr ())"
  using assms
proof (induction cards arbitrary: m seen)
  case (Cons c cs)
  from Cons.prems(1) have ok: "card_validate c = Inr ()" and rest: "collect_specialties cs (add_specialty c m) = Inr m'"
    by (auto split: sum.splits)
  have "bt_ok m' \<and> map_of m' = least_label (set cs \<union> insert c seen) \<and> (\<forall>c \<in> set cs. card_validate c = Inr ())"
    using Cons.prems by (intro Cons.IH[OF rest] bt_ok_add_specialty add_specialty_least) simp_all
  with ok show ?case by simp
qed simp

lemma collect_specialties_valid:
  "(\<forall>c \<in> set cards. card_validate c = Inr ()) \<Longrightarrow> \<exists>m'. collect_specialties cards m = Inr m'"
  by (induction cards arbitrary: m) auto

lemma least_label_empty: "least_label {} = map_of []"
  by (auto simp: least_label_def labels_of_def)

text \<open>C38: A specialist does not depend on the order of its cards or on repeating one. Two lists with the same cards give the
  same identity, or neither gives one, and the sources on it are those a receipt keeps.\<close>

theorem specialist_ignores_card_order:
  assumes "from_cards sha256 role task cards = Inr s" and "set cards' = set cards"
  shows "from_cards sha256 role task cards' = Inr s \<and> si_book_sources s = book_sources cards'"
proof -
  from assms(1) obtain m where m: "collect_specialties cards [] = Inr m" and sources: "si_book_sources s = map fst m"
    by (auto simp: from_cards_def r_bind_def Let_def split: if_splits sum.splits)
  from collect_specialties_result[OF m bt_ok_Nil least_label_empty[symmetric]] have r: "bt_ok m"
    "map_of m = least_label (set cards)" "\<forall>c \<in> set cards. card_validate c = Inr ()" by simp_all
  with assms(2) obtain m' where m': "collect_specialties cards' [] = Inr m'"
    using collect_specialties_valid[of cards' "[]"] by auto
  from collect_specialties_result[OF m' bt_ok_Nil least_label_empty[symmetric]] assms(2)
  have r': "bt_ok m'" "map_of m' = least_label (set cards)" by simp_all
  have "m' = m" by (rule bt_ok_unique[OF r'(1) r(1)]) (simp add: r(2) r'(2))
  have same: "collect_specialties cards' [] = collect_specialties cards []" unfolding m m' \<open>m' = m\<close> ..
  have "from_cards sha256 role task cards' = from_cards sha256 role task cards" unfolding from_cards_def same ..
  with assms(1) have "from_cards sha256 role task cards' = Inr s" by simp
  moreover have "map fst m = book_sources cards'"
  proof (rule bs_ok_unique)
    show "bs_ok (map fst m)" using r(1) by (simp add: bs_ok_def bt_ok_def)
    show "bs_ok (book_sources cards')" unfolding book_sources_def by (intro bs_ok_foldl bs_ok_Nil)
    have "set (map fst m) = dom (map_of m)" by (simp add: dom_map_of_conv_image_fst)
    also have "\<dots> = card_source ` set cards" by (auto simp: r(2) least_label_def labels_of_def dom_def)
    finally show "set (map fst m) = set (book_sources cards')"
      by (simp add: book_sources_def set_foldl_bs_insert assms(2))
  qed
  ultimately show ?thesis by (simp add: sources)
qed

lemma specialist_ignores_card_order_witness:
  "\<exists>s. from_cards (\<lambda>_. []) ''worker'' ''t1'' [card_glossary example_book, the (card_section example_book ''s'')] = Inr s \<and>
    from_cards (\<lambda>_. []) ''worker'' ''t1''
      [the (card_section example_book ''s''), card_glossary example_book, card_glossary example_book] = Inr s"
proof -
  let ?cards = "[card_glossary example_book, the (card_section example_book ''s'')]"
  have "is_ok (from_cards (\<lambda>_. []) ''worker'' ''t1'' ?cards)" by code_simp
  then obtain s where "from_cards (\<lambda>_. []) ''worker'' ''t1'' ?cards = Inr s" by (auto simp: is_ok_def split: sum.splits)
  with specialist_ignores_card_order[OF this, of "[the (card_section example_book ''s''), card_glossary example_book, card_glossary example_book]"]
  show ?thesis by auto
qed

section \<open>The bundled registry\<close>

record manifest_entry =
  me_id :: str
  me_title :: str
  me_pack_id :: str
  me_version :: str
  me_language :: book_language
  me_taxonomy :: "taxonomy list"
  me_tags :: "str list"
  me_path :: str
  me_abstract_text :: str
  me_trust :: trust_state
  me_staleness :: staleness
  me_token_budget :: token_budget

record manifest_pack =
  mp_id :: str
  mp_title :: str
  mp_entries :: "manifest_entry list"

record bundled_pack =
  bp_schema_version :: u16
  bp_pack_id :: str
  bp_title :: str
  bp_books :: "book list"

record signed_registry_manifest =
  rm_schema_version :: u16
  rm_registry_id :: str
  rm_key_id :: str
  rm_content_digest :: str
  rm_signature :: str
  rm_packs :: "manifest_pack list"

datatype manifest_error = SchemaVersion u16 | MissingSignature | EmptyPack str | InvalidEntry str | InvalidPack str
  | InvalidRegistry | UnsupportedSignatureScheme

datatype bundled_books_error = BadJson str | BadManifest manifest_error | BadIntegrity str

definition BUNDLED_PACK_COUNT :: usize where "BUNDLED_PACK_COUNT = 10"
definition MIN_BUNDLED_ENTRY_COUNT :: usize where "MIN_BUNDLED_ENTRY_COUNT = 100"
definition BUILTIN_BOOK_KEY_ID :: str where "BUILTIN_BOOK_KEY_ID = ''builtin:minha-books-v2''"
definition BUILTIN_BOOK_SIGNATURE :: str where "BUILTIN_BOOK_SIGNATURE = ''builtin:sha256-content-digest-v2''"

definition BUNDLED_PACKS :: "str list" where
  "BUNDLED_PACKS = [''foundations'', ''systems'', ''data'', ''security'', ''product'', ''design'', ''management'', ''research'',
     ''writing'', ''operations'']"

fun check_entries :: "manifest_pack \<Rightarrow> str list \<Rightarrow> manifest_entry list \<Rightarrow> manifest_error + str list" where
  "check_entries p ids [] = Inr ids"
| "check_entries p ids (e # es) =
     (if me_pack_id e \<noteq> mp_id p \<or> blank (me_id e) \<or> blank (me_title e) \<or> me_id e \<in> set ids \<or> me_path e = [] \<or>
         blank (me_abstract_text e) \<or> \<not> token_budget_valid (me_token_budget e)
      then Inl (InvalidEntry (me_id e))
      else check_entries p (bs_insert (me_id e) ids) es)"

fun check_manifest_packs :: "str list \<Rightarrow> str list \<Rightarrow> manifest_pack list \<Rightarrow> manifest_error + unit" where
  "check_manifest_packs pack_ids ids [] = Inr ()"
| "check_manifest_packs pack_ids ids (p # ps) =
     (if blank (mp_id p) \<or> blank (mp_title p) \<or> mp_id p \<in> set pack_ids then Inl (InvalidPack (mp_id p))
      else if mp_entries p = [] then Inl (EmptyPack (mp_id p))
      else r_bind (check_entries p ids (mp_entries p)) (\<lambda>ids'. check_manifest_packs (bs_insert (mp_id p) pack_ids) ids' ps))"

definition manifest_validate :: "signed_registry_manifest \<Rightarrow> manifest_error + unit" where
  "manifest_validate m =
     (if rm_schema_version m \<noteq> BOOK_SCHEMA_VERSION then Inl (SchemaVersion (rm_schema_version m))
      else if rm_key_id m = [] \<or> rm_signature m = [] \<or> rm_content_digest m = [] then Inl MissingSignature
      else if \<not> starts_with (rm_key_id m) ''builtin:'' \<or> \<not> starts_with (rm_signature m) ''builtin:''
      then Inl UnsupportedSignatureScheme
      else if blank (rm_registry_id m) \<or> rm_packs m = [] then Inl InvalidRegistry
      else check_manifest_packs [] [] (rm_packs m))"

definition entry_count :: "signed_registry_manifest \<Rightarrow> usize" where
  "entry_count m = sum_list (map (\<lambda>p. length (mp_entries p)) (rm_packs m))"

text \<open>\<open>texts\<close> are the embedded texts, by the identifier of their pack.\<close>

definition bundled_content_digest :: "(str \<Rightarrow> str) \<Rightarrow> (str \<Rightarrow> str) \<Rightarrow> str" where
  "bundled_content_digest sha256 texts =
     ''sha256:'' @ hex (sha256 (concat (map (\<lambda>p. p @ [CHR 0x00] @ texts p) BUNDLED_PACKS)))"

definition bundled_packs :: "(str \<Rightarrow> str + bundled_pack) \<Rightarrow> (str \<Rightarrow> str) \<Rightarrow> bundled_books_error + bundled_pack list" where
  "bundled_packs read_pack texts =
     r_mapm (\<lambda>p. case read_pack (texts p) of Inl e \<Rightarrow> Inl (BadJson e) | Inr pack \<Rightarrow> Inr pack) BUNDLED_PACKS"

definition check_book :: "bundled_pack \<Rightarrow> manifest_pack \<Rightarrow> str list \<Rightarrow> book \<Rightarrow> bundled_books_error + str list" where
  "check_book pack mp ids b =
     (let m = bk_metadata b in
      if \<not> report_valid (verify_draft b) \<or> bm_trust m = TsDraft \<or> bm_trust m = TsUnverified
      then Inl (BadIntegrity (''book '' @ bm_id m @ '' failed content verification''))
      else if bk_status b \<noteq> FrCurrent then Inl (BadIntegrity (''book '' @ bm_id m @ '' is not current''))
      else (case find (\<lambda>e. me_id e = bm_id m) (mp_entries mp) of
          None \<Rightarrow> Inl (BadIntegrity (''book '' @ bm_id m @ '' is not in the manifest''))
        | Some e \<Rightarrow>
            if me_path e \<noteq> ''bundled/books/'' @ bp_pack_id pack @ ''.json'' \<or> me_path e \<noteq> bm_path m \<or>
               me_version e \<noteq> bm_version m \<or> me_abstract_text e \<noteq> bm_abstract_text m \<or> me_trust e \<noteq> bm_trust m \<or>
               me_staleness e \<noteq> bm_staleness m \<or> me_token_budget e \<noteq> bm_token_budget m
            then Inl (BadIntegrity (''manifest metadata mismatch for '' @ bm_id m))
            else if bm_id m \<in> set ids then Inl (BadIntegrity (''duplicate bundled book '' @ bm_id m))
            else Inr (bs_insert (bm_id m) ids)))"

fun check_books :: "bundled_pack \<Rightarrow> manifest_pack \<Rightarrow> str list \<Rightarrow> book list \<Rightarrow> bundled_books_error + str list" where
  "check_books pack mp ids [] = Inr ids"
| "check_books pack mp ids (b # bs) = r_bind (check_book pack mp ids b) (\<lambda>ids'. check_books pack mp ids' bs)"

fun check_bundle ::
  "signed_registry_manifest \<Rightarrow> str list \<Rightarrow> (bundled_pack \<times> str) list \<Rightarrow> bundled_books_error + str list" where
  "check_bundle m ids [] = Inr ids"
| "check_bundle m ids ((pack, path_id) # rest) =
     (if bp_schema_version pack \<noteq> BOOK_SCHEMA_VERSION \<or> bp_pack_id pack \<noteq> path_id
      then Inl (BadIntegrity (''invalid bundled pack '' @ bp_pack_id pack))
      else (case find (\<lambda>p. mp_id p = bp_pack_id pack) (rm_packs m) of
          None \<Rightarrow> Inl (BadIntegrity (''pack '' @ bp_pack_id pack @ '' is not in the manifest''))
        | Some mp \<Rightarrow>
            if length (mp_entries mp) \<noteq> length (bp_books pack)
            then Inl (BadIntegrity (''pack '' @ bp_pack_id pack @ '' entry count mismatch''))
            else r_bind (check_books pack mp ids (bp_books pack)) (\<lambda>ids'. check_bundle m ids' rest)))"

definition validate_bundled_registry ::
  "(str \<Rightarrow> str) \<Rightarrow> (str \<Rightarrow> str + signed_registry_manifest) \<Rightarrow> (str \<Rightarrow> str + bundled_pack) \<Rightarrow> str \<Rightarrow> (str \<Rightarrow> str) \<Rightarrow>
    bundled_books_error + bundled_pack list" where
  "validate_bundled_registry sha256 read_manifest read_pack manifest_text texts =
     (case read_manifest manifest_text of
        Inl e \<Rightarrow> Inl (BadJson e)
      | Inr m \<Rightarrow>
          (case manifest_validate m of
             Inl e \<Rightarrow> Inl (BadManifest e)
           | Inr _ \<Rightarrow>
               if rm_key_id m \<noteq> BUILTIN_BOOK_KEY_ID \<or> rm_signature m \<noteq> BUILTIN_BOOK_SIGNATURE
               then Inl (BadIntegrity ''bundled registry must use the explicit builtin provenance scheme'')
               else if rm_content_digest m \<noteq> bundled_content_digest sha256 texts
               then Inl (BadIntegrity ''bundled pack bytes do not match manifest content_digest'')
               else if length (rm_packs m) \<noteq> BUNDLED_PACK_COUNT \<or> entry_count m < MIN_BUNDLED_ENTRY_COUNT
               then Inl (BadIntegrity ''bundled catalog does not meet its pack or entry floor'')
               else r_bind (bundled_packs read_pack texts) (\<lambda>packs.
                 if length packs \<noteq> length (rm_packs m)
                 then Inl (BadIntegrity ''manifest pack count does not match bundled pack files'')
                 else r_bind (check_bundle m [] (zip packs BUNDLED_PACKS)) (\<lambda>ids.
                   if length ids \<noteq> entry_count m then Inl (BadIntegrity ''manifest and bundled book IDs differ'')
                   else Inr packs))))"

definition bundled_books where
  "bundled_books sha256 read_manifest read_pack manifest_text texts =
     r_map (\<lambda>packs. concat (map bp_books packs)) (validate_bundled_registry sha256 read_manifest read_pack manifest_text texts)"

lemma check_books_result:
  assumes "check_books pack mp ids bs = Inr ids'"
  shows "set ids' = set ids \<union> bk_id ` set bs \<and> distinct (map bk_id bs) \<and> bk_id ` set bs \<inter> set ids = {} \<and>
    (bs_ok ids \<longrightarrow> bs_ok ids') \<and>
    (\<forall>b \<in> set bs. report_valid (verify_draft b) \<and> bk_status b = FrCurrent \<and> bk_trust b \<notin> {TsDraft, TsUnverified} \<and>
      (\<exists>e \<in> set (mp_entries mp). me_id e = bk_id b \<and> me_version e = bm_version (bk_metadata b)))"
  using assms
proof (induction bs arbitrary: ids)
  case (Cons b bs)
  from Cons.prems obtain ids1 where one: "check_book pack mp ids b = Inr ids1" and rest: "check_books pack mp ids1 bs = Inr ids'"
    by (auto simp: r_bind_def split: sum.splits)
  from one have b: "ids1 = bs_insert (bk_id b) ids" "bk_id b \<notin> set ids" "report_valid (verify_draft b)" "bk_status b = FrCurrent"
    "bk_trust b \<notin> {TsDraft, TsUnverified}" "\<exists>e \<in> set (mp_entries mp). me_id e = bk_id b \<and> me_version e = bm_version (bk_metadata b)"
    by (auto simp: check_book_def Let_def find_Some_iff split: if_splits option.splits)
  from Cons.IH[OF rest] b show ?case by (auto simp: bs_ok_insert)
qed simp

text \<open>What a validated bundle holds.\<close>

lemma check_bundle_result:
  assumes "check_bundle m ids packs = Inr ids'"
  shows "set ids' = set ids \<union> bk_id ` set (concat (map (bp_books \<circ> fst) packs)) \<and>
    distinct (map bk_id (concat (map (bp_books \<circ> fst) packs))) \<and>
    bk_id ` set (concat (map (bp_books \<circ> fst) packs)) \<inter> set ids = {} \<and> (bs_ok ids \<longrightarrow> bs_ok ids') \<and>
    (\<forall>b \<in> set (concat (map (bp_books \<circ> fst) packs)). report_valid (verify_draft b) \<and> bk_status b = FrCurrent \<and>
      bk_trust b \<notin> {TsDraft, TsUnverified} \<and>
      (\<exists>mp \<in> set (rm_packs m). \<exists>e \<in> set (mp_entries mp). me_id e = bk_id b \<and> me_version e = bm_version (bk_metadata b)))"
  using assms
proof (induction packs arbitrary: ids)
  case (Cons p packs)
  obtain pack path_id where p: "p = (pack, path_id)" by fastforce
  from Cons.prems obtain mp ids1 where mp: "find (\<lambda>q. mp_id q = bp_pack_id pack) (rm_packs m) = Some mp"
    and one: "check_books pack mp ids (bp_books pack) = Inr ids1" and rest: "check_bundle m ids1 packs = Inr ids'"
    by (auto simp: p r_bind_def split: if_splits option.splits sum.splits)
  have "mp \<in> set (rm_packs m)" using mp by (auto simp: find_Some_iff)
  define bs where "bs = bp_books pack"
  define rs where "rs = concat (map (bp_books \<circ> fst) packs)"
  have all: "concat (map (bp_books \<circ> fst) ((pack, path_id) # packs)) = bs @ rs" by (simp add: bs_def rs_def)
  from check_books_result[OF one] have b: "set ids1 = set ids \<union> bk_id ` set bs" "distinct (map bk_id bs)"
    "bk_id ` set bs \<inter> set ids = {}" "bs_ok ids \<longrightarrow> bs_ok ids1" and bq: "\<forall>b \<in> set bs. report_valid (verify_draft b) \<and>
      bk_status b = FrCurrent \<and> bk_trust b \<notin> {TsDraft, TsUnverified} \<and>
      (\<exists>e \<in> set (mp_entries mp). me_id e = bk_id b \<and> me_version e = bm_version (bk_metadata b))"
    unfolding bs_def by blast+
  from Cons.IH[OF rest] have r: "set ids' = set ids1 \<union> bk_id ` set rs" "distinct (map bk_id rs)"
    "bk_id ` set rs \<inter> set ids1 = {}" "bs_ok ids1 \<longrightarrow> bs_ok ids'" and rq: "\<forall>b \<in> set rs. report_valid (verify_draft b) \<and>
      bk_status b = FrCurrent \<and> bk_trust b \<notin> {TsDraft, TsUnverified} \<and>
      (\<exists>mp \<in> set (rm_packs m). \<exists>e \<in> set (mp_entries mp). me_id e = bk_id b \<and> me_version e = bm_version (bk_metadata b))"
    unfolding rs_def by blast+
  have "set ids' = set ids \<union> bk_id ` set (bs @ rs)" using b(1) r(1) by auto
  moreover have "distinct (map bk_id (bs @ rs))" using b r by auto
  moreover have "bk_id ` set (bs @ rs) \<inter> set ids = {}" using b r by auto
  moreover have "bs_ok ids \<longrightarrow> bs_ok ids'" using b(4) r(4) by simp
  moreover have "\<forall>b \<in> set (bs @ rs). report_valid (verify_draft b) \<and> bk_status b = FrCurrent \<and>
      bk_trust b \<notin> {TsDraft, TsUnverified} \<and>
      (\<exists>mp \<in> set (rm_packs m). \<exists>e \<in> set (mp_entries mp). me_id e = bk_id b \<and> me_version e = bm_version (bk_metadata b))"
    using bq rq \<open>mp \<in> set (rm_packs m)\<close> by (simp only: set_append ball_Un) blast
  ultimately show ?case unfolding p all by blast
qed simp

text \<open>The bundled library is consistent. When the packs pass the check against the manifest, their books have distinct
  identifiers, as many as are counted, and each book passes the verification, is current, is no draft, and stands in the
  manifest with its version.\<close>

theorem bundled_packs_are_consistent:
  assumes "check_bundle m [] packs = Inr ids"
  shows "distinct (map bk_id (concat (map (bp_books \<circ> fst) packs))) \<and>
    length ids = length (concat (map (bp_books \<circ> fst) packs)) \<and>
    (\<forall>b \<in> set (concat (map (bp_books \<circ> fst) packs)). report_valid (verify_draft b) \<and> bk_status b = FrCurrent \<and>
      bk_trust b \<notin> {TsDraft, TsUnverified} \<and>
      (\<exists>mp \<in> set (rm_packs m). \<exists>e \<in> set (mp_entries mp). me_id e = bk_id b \<and> me_version e = bm_version (bk_metadata b)))"
proof -
  note found = check_bundle_result[OF assms]
  define bs where "bs = concat (map (bp_books \<circ> fst) packs)"
  from found have "distinct ids" "set ids = bk_id ` set bs" "distinct (map bk_id bs)" by (simp_all add: bs_ok_distinct bs_def)
  then have "length ids = length bs" by (metis distinct_card length_map set_map)
  with found show ?thesis unfolding bs_def by blast
qed

definition example_entry :: manifest_entry where
  "example_entry = (let m = bk_metadata example_book in
     \<lparr>me_id = bm_id m, me_title = bm_title m, me_pack_id = ''data'', me_version = bm_version m, me_language = bm_language m,
      me_taxonomy = bm_taxonomy m, me_tags = bm_tags m, me_path = ''bundled/books/data.json'', me_abstract_text = bm_abstract_text m,
      me_trust = TsVerified, me_staleness = bm_staleness m, me_token_budget = bm_token_budget m\<rparr>)"

definition example_manifest :: signed_registry_manifest where
  "example_manifest = \<lparr>rm_schema_version = 1, rm_registry_id = ''r'', rm_key_id = BUILTIN_BOOK_KEY_ID,
     rm_content_digest = ''sha256:'', rm_signature = BUILTIN_BOOK_SIGNATURE,
     rm_packs = [\<lparr>mp_id = ''data'', mp_title = ''data'', mp_entries = [example_entry]\<rparr>]\<rparr>"

definition example_bundled :: book where
  "example_bundled = example_book\<lparr>bk_metadata := (bk_metadata example_book)\<lparr>bm_trust := TsVerified,
     bm_path := ''bundled/books/data.json''\<rparr>\<rparr>"

lemma bundled_packs_are_consistent_witness:
  "check_bundle example_manifest []
      [(\<lparr>bp_schema_version = 1, bp_pack_id = ''data'', bp_title = ''data'', bp_books = [example_bundled]\<rparr>, ''data'')] = Inr [''b''] \<and>
    report_valid (verify_draft example_bundled)"
proof -
  have "check_bundle example_manifest []
      [(\<lparr>bp_schema_version = 1, bp_pack_id = ''data'', bp_title = ''data'', bp_books = [example_bundled]\<rparr>, ''data'')] = Inr [''b'']"
    by code_simp
  with bundled_packs_are_consistent[OF this] show ?thesis by simp
qed

end
