(* ===== verification/Books_Tool.thy ===== *)
theory Books_Tool
  imports Book_Registry Exec_Policy
begin

text \<open>
  The books tool of the executor (\<open>crates/minha-core/src/executor.rs\<close>): the search over the bundled books,
  the views of a book as JSON, and a read that is cut to its budget of words. The validated books of the
  program are an argument.
\<close>

section \<open>Values\<close>

definition MAX_BOOK_READ_TOKENS :: usize where "MAX_BOOK_READ_TOKENS = 32000"

text \<open>An object literal: the members in key order.\<close>

definition obj :: "(str \<times> json) list \<Rightarrow> json" where
  "obj kvs = JObject (foldl (\<lambda>m (k, v). bt_insert k v m) [] kvs)"

abbreviation jnat :: "nat \<Rightarrow> json" where "jnat n \<equiv> JNumber (PosInt n)"

definition jstrs :: "str list \<Rightarrow> json" where "jstrs xs = JArray (map JString xs)"

definition jopt :: "str option \<Rightarrow> json" where
  "jopt v = (case v of None \<Rightarrow> JNull | Some s \<Rightarrow> JString s)"

fun language_name :: "book_language \<Rightarrow> str" where
  "language_name English = ''english''" | "language_name Spanish = ''spanish''" | "language_name French = ''french''"
| "language_name German = ''german''" | "language_name Japanese = ''japanese''"

fun taxonomy_name :: "taxonomy \<Rightarrow> str" where
  "taxonomy_name Programming = ''programming''" | "taxonomy_name Systems = ''systems''" | "taxonomy_name DataTopic = ''data''"
| "taxonomy_name Security = ''security''" | "taxonomy_name Product = ''product''" | "taxonomy_name Design = ''design''"
| "taxonomy_name Management = ''management''" | "taxonomy_name Research = ''research''"
| "taxonomy_name Writing = ''writing''" | "taxonomy_name Operations = ''operations''"

fun trust_name :: "trust_state \<Rightarrow> str" where
  "trust_name TsUnverified = ''unverified''" | "trust_name TsDraft = ''draft''" | "trust_name TsVerified = ''verified''"
| "trust_name TsPromoted = ''promoted''" | "trust_name TsStale = ''stale''" | "trust_name TsRejected = ''rejected''"

fun freshness_name :: "freshness \<Rightarrow> str" where
  "freshness_name FrUnknown = ''unknown''" | "freshness_name FrCurrent = ''current''"
| "freshness_name FrReviewDue = ''review_due''" | "freshness_name FrStale = ''stale''"

fun source_kind_name :: "source_kind \<Rightarrow> str" where
  "source_kind_name CuratedEditorial = ''curated_editorial''" | "source_kind_name OfficialDocumentation = ''official_documentation''"
| "source_kind_name Standard = ''standard''" | "source_kind_name ResearchPaper = ''research_paper''"
| "source_kind_name PublishedBook = ''book''"

definition staleness_json :: "staleness \<Rightarrow> json" where
  "staleness_json s = obj [(''status'', JString (freshness_name (sl_status s))), (''checked_at'', jopt (sl_checked_at s)),
     (''review_after'', jopt (sl_review_after s)), (''reason'', JString (sl_reason s))]"

definition token_budget_json :: "token_budget \<Rightarrow> json" where
  "token_budget_json b = obj [(''index_tokens'', jnat (tb_index b)), (''compact_tokens'', jnat (tb_compact b)),
     (''detailed_tokens'', jnat (tb_detailed b))]"

definition source_json :: "source_metadata \<Rightarrow> json" where
  "source_json s = obj [(''kind'', JString (source_kind_name (so_kind s))), (''title'', JString (so_title s)),
     (''publisher'', JString (so_publisher s)), (''url'', jopt (so_url s)), (''accessed'', jopt (so_accessed s)),
     (''license'', jopt (so_license s)), (''note'', JString (so_note s))]"

definition section_json :: "book_section \<Rightarrow> json" where
  "section_json s = obj [(''id'', JString (sc_id s)), (''title'', JString (sc_title s)), (''summary'', JString (sc_summary s)),
     (''key_facts'', jstrs (sc_key_facts s))]"

definition chapter_json :: "book_chapter \<Rightarrow> json" where
  "chapter_json c = obj [(''id'', JString (cp_id c)), (''title'', JString (cp_title c)), (''summary'', JString (cp_summary c)),
     (''sections'', JArray (map section_json (cp_sections c)))]"

definition key_fact_json :: "key_fact \<Rightarrow> json" where
  "key_fact_json f = obj [(''id'', JString (kf_id f)), (''statement'', JString (kf_statement f)), (''tags'', jstrs (kf_tags f)),
     (''citation_ids'', jstrs (kf_citation_ids f))]"

definition citation_json :: "citation \<Rightarrow> json" where
  "citation_json c = obj [(''id'', JString (ci_id c)), (''locator'', JString (ci_locator c)), (''source'', JString (ci_source c)),
     (''note'', JString (ci_note c)), (''kind'', JString (source_kind_name (ci_kind c))), (''url'', jopt (ci_url c)),
     (''accessed'', jopt (ci_accessed c))]"

definition card_json :: "book_card \<Rightarrow> json" where
  "card_json c = obj ([(''schema_version'', jnat (bcd_schema_version c)), (''book_id'', JString (bcd_book_id c)),
     (''book_version'', JString (bcd_book_version c)), (''specialty'', JString (bcd_specialty c)),
     (''summary'', JString (bcd_summary c))] @
     (case bcd_section_id c of None \<Rightarrow> [] | Some i \<Rightarrow> [(''section_id'', JString i)]))"

section \<open>Search\<close>

definition search_terms :: "(str \<Rightarrow> bool) \<Rightarrow> str \<Rightarrow> str list" where
  "search_terms uni query =
     map to_ascii_lowercase (filter (\<lambda>w. w \<noteq> []) (split_chars (\<lambda>g. \<not> is_alphanumeric uni g) (chars query)))"

abbreviation points :: "bool \<Rightarrow> nat \<Rightarrow> nat" where "points b n \<equiv> (if b then n else 0)"

definition book_search_score :: "book \<Rightarrow> str \<Rightarrow> str list \<Rightarrow> nat" where
  "book_search_score b raw_query query_terms =
     (if query_terms = [] then 0
      else
        let m = bk_metadata b; query = to_ascii_lowercase raw_query; title = to_ascii_lowercase (bm_title m);
            abstract_text = to_ascii_lowercase (bm_abstract_text m); tags = to_ascii_lowercase (join '' '' (bm_tags m));
            path = to_ascii_lowercase (bm_path m)
        in points (contains title query) 20 +
           sum_list (map (\<lambda>term. points (contains title term) 8 + points (contains abstract_text term) 3 +
             points (contains tags term) 5 + points (contains path term) 1) query_terms))"

definition pack_id :: "book \<Rightarrow> tool_error + str" where
  "pack_id b =
     (case Option.bind (strip_prefix (bm_path (bk_metadata b)) ''bundled/books/'') (\<lambda>p. strip_suffix p ''.json'') of
        Some i \<Rightarrow> if i \<noteq> [] then Inr i else
          Inl (ToolCoordination (''bundled book '' @ bk_id b @ '' has an invalid content path '' @ bm_path (bk_metadata b)))
      | None \<Rightarrow> Inl (ToolCoordination (''bundled book '' @ bk_id b @ '' has an invalid content path '' @ bm_path (bk_metadata b))))"

definition book_members :: "book \<Rightarrow> str \<Rightarrow> (str \<times> json) list" where
  "book_members b pack =
     (let m = bk_metadata b in
      [(''id'', JString (bm_id m)), (''title'', JString (bm_title m)), (''pack_id'', JString pack), (''version'', JString (bm_version m)),
       (''language'', JString (language_name (bm_language m))), (''taxonomy'', jstrs (map taxonomy_name (bm_taxonomy m))),
       (''tags'', jstrs (bm_tags m)), (''path'', JString (bm_path m)), (''abstract_text'', JString (bm_abstract_text m)),
       (''trust'', JString (trust_name (bm_trust m))), (''staleness'', staleness_json (bm_staleness m)),
       (''token_budget'', token_budget_json (bm_token_budget m))])"

definition book_search_view :: "book \<Rightarrow> tool_error + json" where
  "book_search_view b = r_bind (pack_id b) (\<lambda>pack. Inr (obj (book_members b pack)))"

definition book_index_view :: "book \<Rightarrow> tool_error + json" where
  "book_index_view b = r_bind (pack_id b) (\<lambda>pack. Inr (obj (book_members b pack @
     [(''authors'', jstrs (bm_authors (bk_metadata b))), (''source'', source_json (bm_source (bk_metadata b)))])))"

definition books_search :: "(str \<Rightarrow> bool) \<Rightarrow> book list \<Rightarrow> str \<Rightarrow> usize \<Rightarrow> tool_error + json" where
  "books_search uni books query limit =
     (let query_terms = search_terms uni query;
          entries = filter (\<lambda>(s, _). query_terms = [] \<or> 0 < s) (map (\<lambda>b. (book_search_score b query query_terms, b)) books)
      in r_map JArray (r_mapm (\<lambda>(_, b). book_search_view b)
           (take limit (sort_key (\<lambda>(s, b). (- int s, bk_id b)) entries))))"

section \<open>Reading\<close>

definition section_book_content :: "book \<Rightarrow> str \<Rightarrow> tool_error + json" where
  "section_book_content b section_id =
     r_bind (ok_or (find_map (\<lambda>c. map_option (\<lambda>s. (c, s)) (find (\<lambda>s. sc_id s = section_id) (cp_sections c))) (bk_chapters b))
       (InvalidArguments ''section_id was not found in this book'')) (\<lambda>(c, s).
     Inr (obj [(''chapter'', obj [(''id'', JString (cp_id c)), (''title'', JString (cp_title c)), (''summary'', JString (cp_summary c))]),
       (''section'', section_json s), (''source'', source_json (bm_source (bk_metadata b)))]))"

definition detailed_book_content :: "book \<Rightarrow> json" where
  "detailed_book_content b =
     obj [(''abstract'', JString (bm_abstract_text (bk_metadata b))), (''chapters'', JArray (map chapter_json (bk_chapters b))),
       (''key_facts'', JArray (map key_fact_json (bk_key_facts b))), (''citations'', JArray (map citation_json (bk_citations b))),
       (''source'', source_json (bm_source (bk_metadata b)))]"

definition book_read_limit :: "json option \<Rightarrow> book_detail_level \<Rightarrow> book \<Rightarrow> tool_error + usize" where
  "book_read_limit value detail b =
     (case value of
        None \<Rightarrow> Inr (clamp (case detail of DetailIndex \<Rightarrow> 1
            | DetailSection \<Rightarrow> tb_compact (bm_token_budget (bk_metadata b))
            | DetailFull \<Rightarrow> tb_detailed (bm_token_budget (bk_metadata b))) 1 MAX_BOOK_READ_TOKENS)
      | Some v \<Rightarrow> (case as_u64 v of
            None \<Rightarrow> Inl (InvalidArguments ''max_tokens must be an integer'')
          | Some n \<Rightarrow> if n = 0 \<or> MAX_BOOK_READ_TOKENS < n
                      then Inl (InvalidArguments ''max_tokens must be between 1 and 32000'') else Inr n))"

fun value_token_count :: "json \<Rightarrow> usize" where
  "value_token_count (JString s) = length (split_whitespace s)"
| "value_token_count (JArray vs) = sum_list (map value_token_count vs)"
| "value_token_count (JObject kvs) = sum_list (map (\<lambda>(_, v). value_token_count v) kvs)"
| "value_token_count _ = 0"

text \<open>A value cut to the words that remain, and what then remains. Elements of an array after the budget is used up are
  dropped, and so are members of an object.\<close>

fun truncate_value :: "json \<Rightarrow> usize \<Rightarrow> json \<times> usize"
  and truncate_values :: "json list \<Rightarrow> usize \<Rightarrow> json list \<times> usize"
  and truncate_members :: "(str \<times> json) list \<Rightarrow> usize \<Rightarrow> (str \<times> json) list \<times> usize" where
  "truncate_value (JString s) n =
     (if n < length (split_whitespace s) then (JString (join '' '' (take n (split_whitespace s))), 0)
      else (JString s, n - length (split_whitespace s)))"
| "truncate_value (JArray vs) n = (let (vs', n') = truncate_values vs n in (JArray vs', n'))"
| "truncate_value (JObject kvs) n = (let (kvs', n') = truncate_members kvs n in (JObject kvs', n'))"
| "truncate_value v n = (v, n)"
| "truncate_values [] n = ([], n)"
| "truncate_values (v # vs) n =
     (if n = 0 then ([], 0)
      else let (v', n') = truncate_value v n; (vs', n'') = truncate_values vs n' in (v' # vs', n''))"
| "truncate_members [] n = ([], n)"
| "truncate_members (kv # kvs) n =
     (if n = 0 then truncate_members kvs 0
      else let (v', n') = truncate_value (snd kv) n; (kvs', n'') = truncate_members kvs n' in ((fst kv, v') # kvs', n''))"
section \<open>Words put together are taken apart again\<close>

definition word_ok :: "str \<Rightarrow> bool" where
  "word_ok w = (w \<noteq> [] \<and> (\<forall>g \<in> set (chars w). \<not> is_whitespace g))"

abbreviation started :: "str \<Rightarrow> bool" where "started w \<equiv> \<not> is_cont (hd w)"

lemma chars_append_starter: "\<not> is_cont c \<Longrightarrow> chars (x @ c # y) = chars x @ chars (c # y)"
proof (induction x rule: chars.induct)
  case (2 b bs)
  have "takeWhile is_cont (bs @ c # y) = takeWhile is_cont bs"
    using "2.prems" by (induction bs) auto
  moreover have "dropWhile is_cont (bs @ c # y) = dropWhile is_cont bs @ c # y"
    using "2.prems" by (induction bs) auto
  ultimately show ?case using 2 by simp
qed simp

lemma split_ws_word: "\<forall>g \<in> set gs. \<not> is_whitespace g \<Longrightarrow> split_ws (gs @ hs) cur = split_ws hs (cur @ concat gs)"
  by (induction gs arbitrary: cur) auto

lemma split_ws_word_ok:
  assumes "groups_ok (cs @ gs)" and "\<forall>g \<in> set cs. \<not> is_whitespace g" and "w \<in> set (split_ws gs (concat cs))"
  shows "word_ok w"
  using assms
proof (induction gs arbitrary: cs)
  case Nil
  then have "w = concat cs" "w \<noteq> []" by (auto split: if_splits)
  with Nil show ?case by (simp add: word_ok_def chars_concat)
next
  case (Cons g gs)
  show ?case
  proof (cases "is_whitespace g")
    case True
    with Cons.prems(3) have "w = concat cs \<and> w \<noteq> [] \<or> w \<in> set (split_ws gs (concat []))" by (auto split: if_splits)
    then show ?thesis
    proof
      assume "w = concat cs \<and> w \<noteq> []"
      moreover have "chars (concat cs) = cs" using Cons.prems(1) groups_ok_append chars_concat by blast
      ultimately show ?thesis using Cons.prems(2) unfolding word_ok_def by metis
    next
      assume "w \<in> set (split_ws gs (concat []))"
      moreover have "groups_ok ([] @ gs)" using Cons.prems(1) groups_ok_append[of cs "g # gs"] groups_ok_tail by fastforce
      ultimately show ?thesis using Cons.IH[of "[]"] by simp
    qed
  next
    case False
    with Cons.prems Cons.IH[of "cs @ [g]"] show ?thesis by simp
  qed
qed

lemma in_tl: "x \<in> set (tl xs) \<Longrightarrow> x \<in> set xs"
  by (cases xs) auto

lemma split_ws_started:
  "\<forall>g \<in> set gs. starter g \<Longrightarrow> cur = [] \<or> started cur \<Longrightarrow> w \<in> set (split_ws gs cur) \<Longrightarrow> started w"
proof (induction gs arbitrary: cur)
  case (Cons g gs)
  have "cur @ g = [] \<or> started (cur @ g)" using Cons.prems(1,2) by (cases cur) (auto simp: starter_def)
  with Cons show ?case by (auto split: if_splits)
qed (auto split: if_splits)

lemma split_ws_started_tl:
  "\<forall>g \<in> set gs. starter g \<Longrightarrow> w \<in> set (tl (split_ws gs cur)) \<Longrightarrow> started w"
proof (induction gs arbitrary: cur)
  case (Cons g gs)
  show ?case
  proof (cases "is_whitespace g")
    case True
    with Cons.prems(2) have "w \<in> set (split_ws gs [])" by (auto split: if_splits dest: in_tl)
    with Cons.prems(1) show ?thesis using split_ws_started[of gs "[]" w] by simp
  next
    case False
    with Cons show ?thesis by simp
  qed
qed (auto split: if_splits)

lemma split_whitespace_words:
  assumes "w \<in> set (split_whitespace s)"
  shows "word_ok w"
  using split_ws_word_ok[of "[]" "chars s" w] assms by (simp add: split_whitespace_def)

lemma split_whitespace_started:
  assumes "w \<in> set (tl (split_whitespace s))"
  shows "started w"
proof (cases "chars s")
  case (Cons g gs)
  have starters: "\<forall>h \<in> set gs. starter h" using groups_ok_chars[of s] Cons by simp
  show ?thesis
  proof (cases "is_whitespace g")
    case True
    with assms Cons have "w \<in> set (split_ws gs [])" by (auto simp: split_whitespace_def dest: in_tl)
    with starters show ?thesis using split_ws_started[of gs "[]" w] by simp
  next
    case False
    with assms Cons have "w \<in> set (tl (split_ws gs g))" by (simp add: split_whitespace_def)
    with starters show ?thesis by (rule split_ws_started_tl)
  qed
qed (use assms in \<open>simp add: split_whitespace_def\<close>)

lemma space_white: "is_whitespace '' ''" "\<not> is_cont (CHR '' '')"
  by code_simp+

lemma split_joined:
  assumes "\<forall>w \<in> set ws. word_ok w" and "\<forall>w \<in> set (tl ws). started w"
  shows "split_whitespace (join '' '' ws) = ws"
  using assms
proof (induction "'' '' :: str" ws rule: join.induct)
  case (2 w)
  then show ?case using split_ws_word[of "chars w" "[]" "[]"] by (simp add: split_whitespace_def word_ok_def)
next
  case (3 v w ws)
  let ?rest = "join '' '' (w # ws)"
  from 3(2,3) have "w \<noteq> []" "started w" by (auto simp: word_ok_def)
  then have "started ?rest" by (cases ws) simp_all
  then have rest: "chars ('' '' @ ?rest) = '' '' # chars ?rest"
    by (cases ?rest) auto
  have "split_whitespace (v @ '' '' @ ?rest) = split_ws (chars v @ chars ('' '' @ ?rest)) []"
    using chars_append_starter[OF space_white(2), of v ?rest] by (simp add: split_whitespace_def)
  also have "\<dots> = split_ws ('' '' # chars ?rest) v"
    using 3(2) unfolding rest by (subst split_ws_word) (auto simp: word_ok_def)
  also have "\<dots> = v # split_whitespace ?rest"
    using 3(2) space_white(1) by (simp add: split_whitespace_def word_ok_def)
  finally show ?case using 3 by (cases ws) simp_all
qed (simp add: split_whitespace_def)

lemma split_truncated: "split_whitespace (join '' '' (take n (split_whitespace s))) = take n (split_whitespace s)"
proof (rule split_joined)
  show "\<forall>w \<in> set (take n (split_whitespace s)). word_ok w"
    using split_whitespace_words by (metis in_set_takeD)
  show "\<forall>w \<in> set (tl (take n (split_whitespace s))). started w"
    using split_whitespace_started by (metis tl_take in_set_takeD)
qed

section \<open>The budget of a read\<close>

lemma truncate_counts:
  "value_token_count (fst (truncate_value v n)) = min (value_token_count v) n \<and> snd (truncate_value v n) = n - value_token_count v"
  "sum_list (map value_token_count (fst (truncate_values vs n))) = min (sum_list (map value_token_count vs)) n \<and>
    snd (truncate_values vs n) = n - sum_list (map value_token_count vs)"
  "sum_list (map (\<lambda>(_, v). value_token_count v) (fst (truncate_members kvs n))) =
      min (sum_list (map (\<lambda>(_, v). value_token_count v) kvs)) n \<and>
    snd (truncate_members kvs n) = n - sum_list (map (\<lambda>(_, v). value_token_count v) kvs)"
proof (induction v n and vs n and kvs n rule: truncate_value_truncate_values_truncate_members.induct)
  case (1 s n)
  then show ?case by (auto simp: split_truncated)
next
  case (2 vs n)
  then show ?case by (simp add: split_beta)
next
  case (3 kvs n)
  then show ?case by (auto split: prod.splits)
next
  case (6 v vs n)
  show ?case
  proof (cases "n = 0")
    case False
    obtain v' n' where t: "truncate_value v n = (v', n')" by fastforce
    from 6(1)[OF False] 6(2)[OF False t[symmetric] refl] show ?thesis
      by (auto simp: t False split_beta min_def)
  qed simp
next
  case (8 kv kvs n)
  show ?case
  proof (cases "n = 0")
    case True
    with 8(1) show ?thesis by simp
  next
    case False
    obtain v' n' where t: "truncate_value (snd kv) n = (v', n')" by fastforce
    from 8(2)[OF False] 8(3)[OF False t[symmetric] refl] show ?thesis
      by (auto simp: t False split_beta min_def)
  qed
qed auto
definition book_card_for_read :: "book \<Rightarrow> book_detail_level \<Rightarrow> str option \<Rightarrow> tool_error + book_card" where
  "book_card_for_read b detail section_id =
     (case detail of
        DetailSection \<Rightarrow>
          r_bind (ok_or section_id (InvalidArguments ''section detail requires section_id'')) (\<lambda>i.
          ok_or (card_section b i) (InvalidArguments ''section_id was not found in this book''))
      | _ \<Rightarrow> Inr (card_glossary b))"

definition with_member :: "json \<Rightarrow> str \<Rightarrow> json \<Rightarrow> json" where
  "with_member v k w = (case v of JObject kvs \<Rightarrow> JObject (bt_insert k w kvs) | _ \<Rightarrow> v)"

definition read_content :: "book \<Rightarrow> book_detail_level \<Rightarrow> str option \<Rightarrow> tool_error + json" where
  "read_content b detail section_id =
     (case detail of
        DetailIndex \<Rightarrow> Inr JNull
      | DetailSection \<Rightarrow>
          r_bind (ok_or section_id (InvalidArguments ''section detail requires section_id'')) (section_book_content b)
      | DetailFull \<Rightarrow> Inr (detailed_book_content b))"

definition book_read_view ::
  "book \<Rightarrow> book_retrieval_reason \<Rightarrow> book_detail_level \<Rightarrow> str option \<Rightarrow> usize \<Rightarrow> book_card \<Rightarrow> tool_error + json" where
  "book_read_view b reason detail section_id max_tokens bc =
     r_bind (book_index_view b) (\<lambda>index.
     let out = obj [(''reason'', JString (reason_str reason)), (''detail'', JString (detail_str detail)),
           (''max_tokens'', jnat max_tokens), (''book'', index), (''card'', card_json bc)]
     in if detail = DetailIndex then Inr out
        else r_bind (read_content b detail section_id) (\<lambda>whole.
          let truncated = (max_tokens < value_token_count whole);
              content = (if truncated then fst (truncate_value whole max_tokens) else whole)
          in Inr (with_member (with_member (with_member out ''content'' content)
               ''content_tokens'' (jnat (value_token_count content))) ''truncated'' (JBool truncated))))"

lemma obj_members:
  "obj kvs = JObject (foldl (\<lambda>m (k, v). bt_insert k v m) [] kvs)"
  "map_of (foldl (\<lambda>m (k, v). bt_insert k v m) m0 kvs) = map_of (rev kvs @ m0)"
proof -
  show "map_of (foldl (\<lambda>m (k, v). bt_insert k v m) m0 kvs) = map_of (rev kvs @ m0)"
    by (induction kvs arbitrary: m0) (auto simp: map_of_append)
qed (simp add: obj_def)

lemma json_get_obj: "json_get (obj kvs) k = map_of (rev kvs) k"
  by (simp add: obj_members)

text \<open>C39: A read of a book keeps to its budget and uses it up. The content that is returned has as many words as the section
  or book has, or exactly the budget when it has more; the count and the mark of truncation returned with it are true.\<close>

theorem book_read_keeps_its_budget:
  assumes "book_read_view b reason detail section_id max_tokens bc = Inr out"
    and "read_content b detail section_id = Inr whole" and "detail \<noteq> DetailIndex"
  shows "\<exists>content. json_get out ''content'' = Some content \<and>
    value_token_count content = min (value_token_count whole) max_tokens \<and>
    json_get out ''content_tokens'' = Some (jnat (value_token_count content)) \<and>
    json_get out ''truncated'' = Some (JBool (max_tokens < value_token_count whole)) \<and>
    json_get out ''max_tokens'' = Some (jnat max_tokens)"
proof -
  define content where "content = (if max_tokens < value_token_count whole then fst (truncate_value whole max_tokens) else whole)"
  from assms obtain index where out: "out = with_member (with_member (with_member
      (obj [(''reason'', JString (reason_str reason)), (''detail'', JString (detail_str detail)),
        (''max_tokens'', jnat max_tokens), (''book'', index), (''card'', card_json bc)]) ''content'' content)
      ''content_tokens'' (jnat (value_token_count content))) ''truncated'' (JBool (max_tokens < value_token_count whole))"
    by (auto simp: book_read_view_def r_bind_def Let_def content_def split: sum.splits)
  have "value_token_count content = min (value_token_count whole) max_tokens"
    using truncate_counts(1)[of whole max_tokens] by (auto simp: content_def min_def)
  then show ?thesis
    unfolding out by (intro exI[of _ content]) (simp add: with_member_def obj_members)
qed

definition example_section :: book_section where
  "example_section = \<lparr>sc_id = ''s'', sc_title = ''one two'', sc_summary = ''three four five'', sc_key_facts = []\<rparr>"

definition example_read :: book where
  "example_read = example_bundled\<lparr>bk_chapters := [\<lparr>cp_id = ''c'', cp_title = ''c'', cp_summary = ''c'', cp_sections = [example_section]\<rparr>]\<rparr>"

lemma book_read_keeps_its_budget_witness:
  "\<exists>out content. book_read_view example_read TrueGap DetailSection (Some ''s'') 5 (card_glossary example_read) = Inr out \<and>
    json_get out ''content'' = Some content \<and> value_token_count content = 5"
proof -
  have "is_ok (book_read_view example_read TrueGap DetailSection (Some ''s'') 5 (card_glossary example_read))"
    "is_ok (read_content example_read DetailSection (Some ''s''))"
    "(case read_content example_read DetailSection (Some ''s'') of Inr whole \<Rightarrow> 5 < value_token_count whole | _ \<Rightarrow> False)"
    by code_simp+
  then obtain out whole where out: "book_read_view example_read TrueGap DetailSection (Some ''s'') 5 (card_glossary example_read) = Inr out"
    and whole: "read_content example_read DetailSection (Some ''s'') = Inr whole" and "5 < value_token_count whole"
    by (auto simp: is_ok_def split: sum.splits)
  with book_read_keeps_its_budget[OF out whole] show ?thesis by auto
qed


end
