(* ===== verification/Agent_Tools.thy ===== *)
theory Agent_Tools
  imports Store_Office Store_Board Store_Usage Books_Tool
begin

text \<open>
  The tools through which an agent of a run works with the others (\<open>crates/minha-core/src/executor.rs\<close>):
  its todo list, messages, the board, artifacts, books and the question to the user. They run against
  the store, and a tool that fails part-way keeps what its earlier calls wrote. The texts serde writes
  for structures, \<open>{:?}\<close> of a string and the display of a store error are arguments, as are the clock
  (the instants a call reads, in order) and a fresh UUID.
\<close>

section \<open>Calls\<close>

type_synonym 'a tool_m = "office_db \<Rightarrow> (tool_error + 'a) \<times> office_db"

definition tm_return :: "'a \<Rightarrow> 'a tool_m" where "tm_return x db = (Inr x, db)"

definition tm_bind :: "'a tool_m \<Rightarrow> ('a \<Rightarrow> 'b tool_m) \<Rightarrow> 'b tool_m" where
  "tm_bind m f db = (case m db of (Inl e, db') \<Rightarrow> (Inl e, db') | (Inr x, db') \<Rightarrow> f x db')"

definition tm_of :: "tool_error + 'a \<Rightarrow> 'a tool_m" where "tm_of r db = (r, db)"

record tool_env =
  ev_codec :: codec
  ev_office :: office_codec
  ev_time_json :: "time \<Rightarrow> json"
  ev_show_json :: "json \<Rightarrow> str"
  ev_show_envelopes :: "office_envelope list \<Rightarrow> str"
  ev_show_view :: "board_entry_view \<Rightarrow> str"
  ev_show_views :: "board_entry_view list \<Rightarrow> str"
  ev_debug :: "str \<Rightarrow> str"
  ev_error_text :: "store_error \<Rightarrow> str"
  ev_sha256 :: "str \<Rightarrow> str"
  ev_lower :: "str \<Rightarrow> str"
  ev_uni :: "str \<Rightarrow> bool"
  ev_scan_board :: "(str \<times> board_row) list \<Rightarrow> (str \<times> board_row) list"
  ev_scan_todos :: "((str \<times> str \<times> str) \<times> todo_row) list \<Rightarrow> ((str \<times> str \<times> str) \<times> todo_row) list"
  ev_day_after :: "time \<Rightarrow> time"
  ev_books :: "str + book list"

record tool_context =
  cx_workspace_id :: str
  cx_run_id :: run_id
  cx_agent_id :: event_agent_id
  cx_task_id :: "str option"
  cx_can_write :: bool

definition coordination_error :: "tool_env \<Rightarrow> store_error + 'a \<Rightarrow> tool_error + 'a" where
  "coordination_error E r = (case r of Inl e \<Rightarrow> Inl (ToolCoordination (ev_error_text E e)) | Inr x \<Rightarrow> Inr x)"

definition on_store :: "tool_env \<Rightarrow> 'a store_m \<Rightarrow> 'a tool_m" where
  "on_store E m db =
     (case m (store_db.truncate db) of (r, base) \<Rightarrow> (coordination_error E r, store_db.extend base (store_db.more db)))"

definition on_office :: "tool_env \<Rightarrow> (office_db \<Rightarrow> store_error + 'a \<times> office_db) \<Rightarrow> 'a tool_m" where
  "on_office E f db =
     (case f db of Inl e \<Rightarrow> (coordination_error E (Inl e), db) | Inr (x, db') \<Rightarrow> (Inr x, db'))"

definition text_output :: "str \<Rightarrow> tool_outcome" where
  "text_output words = Output \<lparr>out_stdout = words, out_stderr = [], out_exit_code = Some 0, out_truncated = False\<rparr>"

abbreviation invalid_args :: "str \<Rightarrow> tool_error + 'a" where "invalid_args m \<equiv> Inl (InvalidArguments m)"

definition record_event_tm :: "tool_env \<Rightarrow> time \<Rightarrow> run_id \<Rightarrow> runtime_event \<Rightarrow> unit tool_m" where
  "record_event_tm E now rid e =
     tm_bind (on_store E (txn (record_runtime_event (ev_codec E) now rid e))) (\<lambda>_. tm_return ())"

definition ask_user :: "json \<Rightarrow> tool_error + tool_outcome" where
  "ask_user args =
     r_bind (ok_or (get_str args ''question'') (InvalidArguments ''question is required'')) (\<lambda>question.
       Inr (NeedsInput question (case string_array (json_get args ''options'') ''options'' of Inl _ \<Rightarrow> [] | Inr xs \<Rightarrow> xs)))"

section \<open>Todos\<close>

definition todo_item_json :: "todo_item \<Rightarrow> json" where
  "todo_item_json t = obj [(''id'', JString (ti_id t)), (''objective'', JString (ti_objective t)),
     (''state'', JString (todo_state_name (ti_state t))), (''order'', jnat (ti_order t)), (''blocker'', jopt (ti_blocker t)),
     (''evidence'', jstrs (ti_evidence t)), (''revision'', jnat (ti_revision t))]"

definition todo_action_state :: "str \<Rightarrow> tool_error + todo_state" where
  "todo_action_state action =
     (if action = ''start'' then Inr TodoInProgress
      else if action = ''complete'' then Inr TodoCompleted
      else if action = ''block'' then Inr TodoBlocked
      else if action = ''drop'' then Inr TodoDropped
      else if action = ''add'' \<or> action = ''replace'' then Inr TodoPending
      else invalid_args ''todo action must be list, replace, add, start, complete, block, or drop'')"

definition todo_item_from :: "json \<Rightarrow> str \<Rightarrow> todo_item option \<Rightarrow> todo_state \<Rightarrow> tool_error + todo_item" where
  "todo_item_from args tid existing st =
     r_bind (ok_or (or_else (get_str args ''objective'') (map_option ti_objective existing))
        (InvalidArguments ''new todo items need objective'')) (\<lambda>objective.
     Inr \<lparr>ti_id = tid, ti_objective = objective, ti_state = st,
       ti_order = unwrap_or (get_u64 args ''order'') (case existing of None \<Rightarrow> 0 | Some t \<Rightarrow> ti_order t) mod 4294967296,
       ti_blocker = get_str args ''blocker'',
       ti_evidence = List.map_filter as_str (unwrap_or (get_array args ''evidence'') []), ti_revision = 0\<rparr>)"

definition todo_tool :: "tool_env \<Rightarrow> tool_context option \<Rightarrow> (nat \<Rightarrow> time) \<Rightarrow> json \<Rightarrow> tool_outcome tool_m" where
  "todo_tool E ctx clock args =
     tm_bind (tm_of (ok_or ctx (InvalidArguments ''todo requires a coordinated agent context''))) (\<lambda>cx.
     let action = unwrap_or (get_str args ''action'') ''list'';
         listed = on_store E (query (\<lambda>db. Inr (todos_of (ev_codec E) (cx_run_id cx) (cx_agent_id cx) db))) in
     if action = ''list'' then
       tm_bind listed (\<lambda>items.
       tm_return (text_output (ev_show_json E (obj [(''schema_version'', jnat 1), (''items'', JArray (map todo_item_json items))]))))
     else
       tm_bind (if action = ''replace''
         then on_store E (clear_todos (ev_codec E) (ev_scan_todos E) (clock 0) (cx_run_id cx) (cx_agent_id cx))
         else tm_return ()) (\<lambda>_.
       let tid = unwrap_or (get_str args ''id'') ''todo-1'' in
       tm_bind listed (\<lambda>items.
       tm_bind (tm_of (todo_action_state action)) (\<lambda>st.
       tm_bind (tm_of (todo_item_from args tid (find (\<lambda>t. ti_id t = tid) items) st)) (\<lambda>item.
       tm_bind (on_store E (upsert_todo (ev_codec E) (ev_scan_todos E) (clock 1) (clock 2) (clock 3) (cx_run_id cx)
         (cx_agent_id cx) item)) (\<lambda>item.
       tm_return (text_output (ev_show_json E (obj [(''schema_version'', jnat 1), (''item'', todo_item_json item)])))))))))"

section \<open>Recipients\<close>

definition HIVE_SEND_KINDS :: "str list" where
  "HIVE_SEND_KINDS = [''finding'', ''decision'', ''blocker'', ''request'', ''progress'', ''handoff'', ''artifact_reference'']"

definition HIVE_BOARD_KINDS :: "str list" where
  "HIVE_BOARD_KINDS = [''decision'', ''constraint'', ''finding'', ''blocker'', ''artifact'', ''progress'']"

definition hive_kind_enum :: "str list" where
  "hive_kind_enum = foldl (\<lambda>kinds k. if k \<in> set kinds then kinds else kinds @ [k]) HIVE_SEND_KINDS HIVE_BOARD_KINDS"

definition agent_address :: "agent_record \<Rightarrow> str" where "agent_address a = ''agent:'' @ an_agent_id a"

definition hive_roster :: "agent_record list \<Rightarrow> event_agent_id \<Rightarrow> json" where
  "hive_roster agents self_id =
     obj [(''schema_version'', jnat 1),
       (''agents'', JArray (map (\<lambda>a. obj [(''id'', JString (an_agent_id a)), (''to'', JString (agent_address a)),
          (''role'', JString (an_role a)), (''state'', JString (agent_state_name (an_state a))),
          (''task_id'', jopt (an_task_id a)), (''is_self'', JBool (an_agent_id a = self_id))]) agents)),
       (''broadcast'', JString BROADCAST_RECIPIENT), (''default_room'', JString RUN_ROOM_ID)]"

definition agent_with_role :: "agent_record \<Rightarrow> str" where
  "agent_with_role a = agent_address a @ '' ('' @ an_role a @ '')''"

definition hive_roster_hint :: "agent_record list \<Rightarrow> str" where
  "hive_roster_hint agents =
     (if agents = [] then ''; no other agents are registered in this run yet''
      else ''; known recipients: '' @ join '', '' (map agent_with_role (take 12 agents)) @ '', or '' @ BROADCAST_RECIPIENT)"

definition looks_like_agent_id :: "str \<Rightarrow> bool" where
  "looks_like_agent_id value = (length value = 36 \<and> list_all (\<lambda>c. is_ascii_hexdigit c \<or> c = CHR ''-'') value)"

text \<open>The agents a role name finds: the lead, or an equal role; else a role that contains the name.\<close>

definition agents_by_role :: "str \<Rightarrow> agent_record list \<Rightarrow> agent_record list" where
  "agents_by_role raw agents =
     (let lowered = to_ascii_lowercase raw;
          found = (if lowered \<in> {''leader'', ''lead'', ''manager''}
                   then filter (\<lambda>a. contains (to_ascii_lowercase (an_role a)) ''lead'') agents
                   else filter (\<lambda>a. eq_ignore_ascii_case (an_role a) raw) agents)
      in if found = [] then filter (\<lambda>a. contains (to_ascii_lowercase (an_role a)) lowered) agents else found)"

definition resolve_hive_recipient :: "tool_env \<Rightarrow> str option \<Rightarrow> agent_record list \<Rightarrow> tool_error + str" where
  "resolve_hive_recipient E raw agents =
     (case map_option trim raw of
        None \<Rightarrow> invalid_args ''hive send requires `to`; broadcasts are exceptional and need to=group:all plus broadcast_reason''
      | Some raw \<Rightarrow>
          if raw = [] then invalid_args ''hive send requires `to`; broadcasts are exceptional and need to=group:all plus broadcast_reason''
          else if to_ascii_lowercase raw \<in> {''all'', ''everyone'', ''room'', ''broadcast'', BROADCAST_RECIPIENT}
          then Inr BROADCAST_RECIPIENT
          else (case recipient_parse raw of
              Some (ToGroup g) \<Rightarrow> Inr (to_wire (ToGroup g))
            | _ \<Rightarrow>
                let candidate = trim (unwrap_or (strip_prefix raw ''agent:'') raw) in
                (case find (\<lambda>a. eq_ignore_ascii_case (an_agent_id a) candidate) agents of
                   Some a \<Rightarrow> Inr (agent_address a)
                 | None \<Rightarrow>
                     if starts_with raw ''agent:'' \<or> looks_like_agent_id candidate
                     then invalid_args (''hive recipient '' @ ev_debug E raw @
                       '' is not an agent in this run; call hive with action=roster'' @ hive_roster_hint agents)
                     else (case agents_by_role raw agents of
                         [a] \<Rightarrow> Inr (agent_address a)
                       | [] \<Rightarrow> invalid_args (''hive recipient '' @ ev_debug E raw @
                           '' matches no agent id or role in this run; call hive with action=roster'' @ hive_roster_hint agents)
                       | ambiguous \<Rightarrow> invalid_args (''hive recipient '' @ ev_debug E raw @ '' matches '' @
                           show_nat (length ambiguous) @ '' agents; address one by id: '' @
                           join '', '' (map agent_with_role (take 12 ambiguous)))))))"

section \<open>The board\<close>

definition board_kind_arg :: "str \<Rightarrow> tool_error + board_kind" where
  "board_kind_arg value =
     (if value = ''decision'' then Inr BDecision
      else if value = ''constraint'' then Inr BConstraint
      else if value = ''finding'' then Inr BFinding
      else if value = ''blocker'' then Inr BBlocker
      else if value = ''artifact'' then Inr BArtifact
      else if value = ''progress'' then Inr BProgress
      else invalid_args (''unsupported board kind '' @ value))"

definition board_read :: "tool_env \<Rightarrow> tool_context option \<Rightarrow> json \<Rightarrow> tool_outcome tool_m" where
  "board_read E ctx args =
     tm_bind (tm_of (ok_or ctx (InvalidArguments ''board is unavailable outside a coordinated run''))) (\<lambda>cx.
     tm_bind (on_store E (query (board_entries (ev_codec E) (ev_lower E) (ev_scan_board E) (cx_workspace_id cx)
        (Some (cx_run_id cx)) (get_str args ''query'') (min (unwrap_or (get_u64 args ''limit'') 20) 50)))) (\<lambda>entries.
     tm_return (text_output (ev_show_views E (map board_view entries)))))"

definition posted_entry :: "tool_context \<Rightarrow> time \<Rightarrow> str \<Rightarrow> json \<Rightarrow> tool_error + board_entry" where
  "posted_entry cx now uuid args =
     r_bind (r_bind (ok_or (get_str args ''kind'') (InvalidArguments ''kind is required for post'')) board_kind_arg) (\<lambda>kind.
     r_bind (ok_or (get_str args ''subject'') (InvalidArguments ''subject is required for post'')) (\<lambda>subject.
     r_bind (ok_or (get_str args ''body'') (InvalidArguments ''body is required for post'')) (\<lambda>body.
     r_bind (string_array (json_get args ''evidence'') ''evidence'') (\<lambda>evidence.
     Inr ((board_entry_session now uuid (cx_workspace_id cx) (cx_run_id cx) kind subject body)
       \<lparr>be_task_id := or_else (get_str args ''task_id'') (cx_task_id cx), be_author_agent_id := Some (cx_agent_id cx),
        be_confidence := min (unwrap_or (get_u64 args ''confidence'') 100) 100, be_evidence := evidence,
        be_supersedes_id := get_str args ''supersedes_id''\<rparr>)))))"

definition board_write ::
  "tool_env \<Rightarrow> bool \<Rightarrow> tool_context option \<Rightarrow> (nat \<Rightarrow> time) \<Rightarrow> str \<Rightarrow> json \<Rightarrow> tool_outcome tool_m" where
  "board_write E read_only ctx clock uuid args =
     tm_bind (tm_of (ok_or ctx (InvalidArguments ''board is unavailable outside a coordinated run''))) (\<lambda>cx.
     if read_only \<or> \<not> cx_can_write cx then tm_of (Inl ReadOnlyDenied) else
     tm_bind (tm_of (ok_or (get_str args ''action'') (InvalidArguments ''action is required''))) (\<lambda>action.
     tm_bind (if action = ''post'' then
         tm_bind (tm_of (posted_entry cx (clock 0) uuid args)) (\<lambda>e.
         tm_bind (on_store E (exec (insert_board_entry (ev_codec E) e))) (\<lambda>_. tm_return e))
       else if action = ''resolve'' then
         tm_bind (tm_of (ok_or (get_str args ''entry_id'') (InvalidArguments ''entry_id is required for resolve''))) (\<lambda>eid.
         tm_bind (on_store E (txn (revise_board_entry (ev_codec E) (clock 0) eid None (Some Resolved) (Some (cx_agent_id cx)))))
           (\<lambda>found. tm_of (ok_or found (InvalidArguments ''board entry was not found''))))
       else tm_of (invalid_args (''unsupported board action '' @ action))) (\<lambda>e.
     tm_bind (record_event_tm E (clock 1) (cx_run_id cx) (PlanEvent (EvBoardChanged (board_view e)))) (\<lambda>_.
     tm_return (text_output (ev_show_view E (board_view e)))))))"

section \<open>Messages\<close>

definition hive_inbox_tool :: "tool_env \<Rightarrow> tool_context \<Rightarrow> time \<Rightarrow> json \<Rightarrow> tool_outcome tool_m" where
  "hive_inbox_tool E cx now args db =
     (case office_inbox (ev_codec E) (ev_office E) (ev_time_json E) now (cx_run_id cx) (''agent:'' @ cx_agent_id cx)
         (unwrap_or (get_u64 args ''limit'') 20) db of
        (r, db') \<Rightarrow> (r_map (\<lambda>ms. text_output (ev_show_envelopes E ms)) (coordination_error E r), db'))"

definition office_message :: "tool_env \<Rightarrow> tool_context \<Rightarrow> time \<Rightarrow> str \<Rightarrow> json \<Rightarrow> str \<Rightarrow> str \<Rightarrow> str \<Rightarrow> str \<Rightarrow> tool_error + office_envelope" where
  "office_message E cx now uuid args body kind recipient room =
     r_bind (case json_get args ''evidence_receipts'' of None \<Rightarrow> Inr []
       | Some v \<Rightarrow> (case of_receipts (ev_office E) v of
             Inl e \<Rightarrow> invalid_args (''invalid evidence receipt: '' @ e) | Inr rs \<Rightarrow> Inr rs)) (\<lambda>evidence.
     r_bind (string_array (json_get args ''refs'') ''refs'') (\<lambda>refs.
     r_bind (ok_or (coordination_kind_parse kind) (InvalidArguments ''unsupported typed office message kind'')) (\<lambda>message_kind.
     r_bind (ok_or (recipient_parse recipient) (InvalidArguments ''resolved hive recipient is not a typed recipient'')) (\<lambda>to.
     Inr \<lparr>oe_schema_version = OFFICE_ENVELOPE_SCHEMA_VERSION, oe_id = uuid, oe_room_id = room, oe_sender = cx_agent_id cx,
       oe_recipient = to, oe_kind = message_kind, oe_task_id = cx_task_id cx, oe_summary = body, oe_artifact_refs = sort_dedup refs,
       oe_evidence = evidence, oe_requested_action = get_str args ''requested_action'', oe_sent_at = now\<rparr>))))"

text \<open>A room that is named blank is the run's own.\<close>

definition room_of_args :: "json \<Rightarrow> str" where
  "room_of_args args =
     (case map_option trim (get_str args ''room'') of None \<Rightarrow> RUN_ROOM_ID | Some r \<Rightarrow> if r = [] then RUN_ROOM_ID else r)"

definition check_broadcast :: "json \<Rightarrow> str \<Rightarrow> tool_error + unit" where
  "check_broadcast args recipient =
     (if recipient = BROADCAST_RECIPIENT
      then r_bind (required_string args ''broadcast_reason'') (\<lambda>reason.
        if 480 < length reason then invalid_args ''broadcast_reason exceeds 480 bytes'' else Inr ())
      else Inr ())"

definition post_office_message ::
  "tool_env \<Rightarrow> tool_context \<Rightarrow> (nat \<Rightarrow> time) \<Rightarrow> office_envelope \<Rightarrow> str \<Rightarrow> str \<Rightarrow> tool_outcome tool_m" where
  "post_office_message E cx clock e kind recipient =
     tm_bind (on_office E (insert_office_envelope (ev_sha256 E) (ev_show_json E) (ev_codec E) (ev_time_json E) (clock 2)
       (cx_run_id cx) e (Some (ev_day_after E (clock 1))))) (\<lambda>stored.
     tm_bind (record_event_tm E (clock 3) (cx_run_id cx) (OfficeEvent (EvOfficeMessageChanged stored (oe_room_id e)
       (''agent:'' @ cx_agent_id cx) recipient kind (take_chars 240 (oe_summary e)) (stored \<noteq> oe_id e)))) (\<lambda>_.
     tm_return (text_output (ev_show_json E (obj [(''id'', JString stored), (''delivered'', JBool True), (''to'', JString recipient),
       (''room'', JString (oe_room_id e)), (''deduplicated'', JBool (stored \<noteq> oe_id e))])))))"

definition hive_send :: "tool_env \<Rightarrow> tool_context \<Rightarrow> (nat \<Rightarrow> time) \<Rightarrow> str \<Rightarrow> json \<Rightarrow> tool_outcome tool_m" where
  "hive_send E cx clock uuid args =
     tm_bind (tm_of (required_string args ''body'')) (\<lambda>body.
     if 1200 < length body then tm_of (invalid_args ''hive message body exceeds 1200 bytes; store an artifact'') else
     let kind = unwrap_or (get_str args ''kind'') ''progress'' in
     if kind \<notin> set HIVE_SEND_KINDS then tm_of (invalid_args (''hive send kind must be one of '' @ join '', '' HIVE_SEND_KINDS @
       ''; '' @ ev_debug E kind @ '' is a board kind, use action=board_post for it'')) else
     tm_bind (on_store E (query (agents_of (cx_run_id cx)))) (\<lambda>agents.
     tm_bind (tm_of (resolve_hive_recipient E (get_str args ''to'') agents)) (\<lambda>recipient.
     tm_bind (tm_of (check_broadcast args recipient)) (\<lambda>_.
     tm_bind (tm_of (office_message E cx (clock 0) uuid args body kind recipient (room_of_args args))) (\<lambda>e.
     post_office_message E cx clock e kind recipient)))))"

definition artifact_put :: "tool_env \<Rightarrow> tool_context \<Rightarrow> time \<Rightarrow> str \<Rightarrow> json \<Rightarrow> tool_outcome tool_m" where
  "artifact_put E cx now uuid args =
     (let body = unwrap_or (get_str args ''body'') []; aid = unwrap_or (get_str args ''artifact_id'') uuid in
      if body = [] \<or> 256 * 1024 < length body then tm_of (invalid_args ''artifact body must be between 1 and 262144 bytes'')
      else tm_bind (on_office E (put_office_artifact (ev_sha256 E) (ev_codec E) now (cx_run_id cx) aid
          (unwrap_or (get_str args ''kind'') ''note'') body
          (obj [(''agent_id'', JString (cx_agent_id cx)), (''task_id'', jopt (cx_task_id cx))]))) (\<lambda>digest.
        tm_return (text_output (ev_show_json E (obj [(''id'', JString aid), (''digest'', JString digest)])))))"

definition hive ::
  "tool_env \<Rightarrow> bool \<Rightarrow> tool_context option \<Rightarrow> (nat \<Rightarrow> time) \<Rightarrow> str \<Rightarrow> json \<Rightarrow> tool_outcome tool_m" where
  "hive E read_only ctx clock uuid args =
     tm_bind (tm_of (ok_or ctx (InvalidArguments ''hive is unavailable outside a coordinated run''))) (\<lambda>cx.
     let action = unwrap_or (get_str args ''action'') ''inbox'' in
     if action = ''inbox'' then hive_inbox_tool E cx (clock 0) args
     else if action = ''roster'' then
       tm_bind (on_store E (query (agents_of (cx_run_id cx)))) (\<lambda>agents.
       tm_return (text_output (ev_show_json E (hive_roster agents (cx_agent_id cx)))))
     else if action = ''send'' then hive_send E cx clock uuid args
     else if action = ''board_read'' then board_read E ctx args
     else if action = ''board_post'' \<or> action = ''board_resolve'' then
       (if read_only \<or> \<not> cx_can_write cx then tm_of (Inl ReadOnlyDenied)
        else case (if action = ''board_post'' then get_str args ''kind'' else None) of
          Some kind \<Rightarrow>
            if kind \<notin> set HIVE_BOARD_KINDS
            then tm_of (invalid_args (''hive board_post kind must be one of '' @ join '', '' HIVE_BOARD_KINDS @ ''; '' @
              ev_debug E kind @ '' is a message kind, use action=send for it''))
            else board_write E read_only ctx clock uuid (with_member args ''action'' (JString ''post''))
        | None \<Rightarrow> board_write E read_only ctx clock uuid
            (with_member args ''action'' (JString (if action = ''board_post'' then ''post'' else ''resolve''))))
     else if action = ''artifact_put'' then artifact_put E cx (clock 0) uuid args
     else tm_of (invalid_args ''unknown hive action''))"

section \<open>Books\<close>

definition bundled_book_catalog :: "tool_env \<Rightarrow> tool_error + book list" where
  "bundled_book_catalog E =
     (case ev_books E of Inr bs \<Rightarrow> Inr bs
      | Inl e \<Rightarrow> Inl (ToolCoordination (''bundled book catalog failed integrity validation: '' @ e)))"

definition record_book_card_for_dispatch ::
  "tool_env \<Rightarrow> bool \<Rightarrow> tool_context option \<Rightarrow> time \<Rightarrow> book_card \<Rightarrow> unit tool_m" where
  "record_book_card_for_dispatch E read_only ctx now c =
     (if read_only then tm_return ()
      else case ctx of None \<Rightarrow> tm_return ()
      | Some cx \<Rightarrow> (case cx_task_id cx of None \<Rightarrow> tm_return ()
          | Some tid \<Rightarrow>
              tm_bind (on_store E (txn (append_dispatch_book_sources (ev_codec E) (cx_run_id cx) tid (cx_agent_id cx)
                [card_source c]))) (\<lambda>found.
              case found of None \<Rightarrow> tm_return ()
              | Some receipt \<Rightarrow> record_event_tm E now (cx_run_id cx) (PlanEvent (EvDispatchReceipt receipt)))))"

definition detail_or_default :: "json \<Rightarrow> str \<Rightarrow> str" where
  "detail_or_default args reason_name =
     unwrap_or (get_str args ''detail'') (case reason_parse reason_name of
        Some NoGap \<Rightarrow> ''index'' | Some TrueGap \<Rightarrow> ''section'' | _ \<Rightarrow> ''full'')"

definition books_read :: "tool_env \<Rightarrow> bool \<Rightarrow> tool_context option \<Rightarrow> time \<Rightarrow> json \<Rightarrow> tool_outcome tool_m" where
  "books_read E read_only ctx now args =
     tm_bind (tm_of (
       r_bind (ok_or (get_str args ''id'') (InvalidArguments ''book id is required'')) (\<lambda>bid.
       r_bind (bundled_book_catalog E) (\<lambda>books.
       r_bind (ok_or (find (\<lambda>b. bk_id b = bid) books) (InvalidArguments ''book not found'')) (\<lambda>b.
       r_bind (required_string args ''reason'') (\<lambda>reason_name.
       r_bind (case validate_book_detail_strings reason_name (detail_or_default args reason_name) of
           Inl e \<Rightarrow> invalid_args (book_detail_admission_error_text e) | Inr r \<Rightarrow> Inr r) (\<lambda>reason.
       r_bind (ok_or (detail_parse (detail_or_default args reason_name)) (InvalidArguments ''book detail was not admitted'')) (\<lambda>detail.
       r_bind (if detail = DetailSection then r_map Some (required_string args ''section_id'') else Inr None) (\<lambda>section_id.
       r_bind (book_read_limit (json_get args ''max_tokens'') detail b) (\<lambda>max_tokens.
       r_bind (book_card_for_read b detail section_id) (\<lambda>c.
       Inr (b, reason, detail, section_id, max_tokens, c)))))))))))) (\<lambda>(b, reason, detail, section_id, max_tokens, c).
     tm_bind (record_book_card_for_dispatch E read_only ctx now c) (\<lambda>_.
     tm_bind (tm_of (book_read_view b reason detail section_id max_tokens c)) (\<lambda>out.
     tm_return (text_output (ev_show_json E out)))))"

definition books_draft :: "tool_env \<Rightarrow> tool_context option \<Rightarrow> time \<Rightarrow> str \<Rightarrow> json \<Rightarrow> tool_outcome tool_m" where
  "books_draft E ctx now uuid args =
     tm_bind (tm_of (ok_or ctx (InvalidArguments ''book drafts require a coordinated run''))) (\<lambda>cx.
     tm_bind (tm_of (ok_or (get_str args ''body'') (InvalidArguments ''draft body is required''))) (\<lambda>body.
     if 64 * 1024 < length body then tm_of (invalid_args ''book draft exceeds 65536 bytes'') else
     let aid = ''book-draft-'' @ uuid in
     tm_bind (on_office E (put_office_artifact (ev_sha256 E) (ev_codec E) now (cx_run_id cx) aid ''book_draft'' body
       (obj [(''agent_id'', JString (cx_agent_id cx)), (''state'', JString ''draft'')]))) (\<lambda>digest.
     tm_return (text_output (ev_show_json E (obj [(''id'', JString aid), (''digest'', JString digest), (''trust'', JString ''draft'')]))))))"

definition books_tool ::
  "tool_env \<Rightarrow> bool \<Rightarrow> tool_context option \<Rightarrow> time \<Rightarrow> str \<Rightarrow> json \<Rightarrow> tool_outcome tool_m" where
  "books_tool E read_only ctx now uuid args =
     (let action = unwrap_or (get_str args ''action'') ''search'' in
      if action = ''search'' then
        tm_bind (tm_of (r_bind (bundled_book_catalog E) (\<lambda>books. books_search (ev_uni E) books
          (unwrap_or (get_str args ''query'') []) (min (unwrap_or (get_u64 args ''limit'') 8) 20)))) (\<lambda>entries.
        tm_return (text_output (ev_show_json E entries)))
      else if action = ''read'' then books_read E read_only ctx now args
      else if action = ''draft'' then books_draft E ctx now uuid args
      else if action = ''feedback'' then tm_return (text_output (''{'' @ [CHR 0x22] @ ''recorded'' @ [CHR 0x22] @ '':true}''))
      else tm_of (invalid_args ''unknown books action''))"

section \<open>What calls change\<close>

lemma tm_bind_Inr:
  "tm_bind m f db = (Inr y, db') \<longleftrightarrow> (\<exists>x db1. m db = (Inr x, db1) \<and> f x db1 = (Inr y, db'))"
  by (auto simp: tm_bind_def split: prod.splits sum.splits)

lemma tm_run [simp]: "tm_of r db = (r, db)" "tm_return x db = (Inr x, db)"
  by (simp_all add: tm_of_def tm_return_def)

lemma coordination_error_Inr [simp]: "coordination_error E r = Inr x \<longleftrightarrow> r = Inr x"
  by (auto simp: coordination_error_def split: sum.splits)

lemma store_extend_fields [simp]:
  "t_rooms (store_db.extend base (store_db.more (db :: office_db))) = t_rooms db"
  "t_members (store_db.extend base (store_db.more db)) = t_members db"
  "t_hive (store_db.extend base (store_db.more db)) = t_hive db"
  "t_consumed (store_db.extend base (store_db.more db)) = t_consumed db"
  "t_dedup (store_db.extend base (store_db.more db)) = t_dedup db"
  "t_board (store_db.extend base more') = t_board base"
  by (cases db; simp add: store_db.defs)+

lemma store_extend_truncate [simp]: "store_db.extend (store_db.truncate db) (store_db.more db) = (db :: office_db)"
  by (cases db) (simp add: store_db.defs)

lemma on_store_fields:
  assumes "on_store E m db = (r, db')"
  shows "t_rooms db' = t_rooms db \<and> t_members db' = t_members db \<and> t_hive db' = t_hive db \<and> t_consumed db' = t_consumed db \<and>
    t_dedup db' = t_dedup db"
  using assms by (auto simp: on_store_def split: prod.splits)

lemma on_store_query [simp]: "on_store E (query f) db = (coordination_error E (f (store_db.truncate db)), db)"
  by (simp add: on_store_def)

lemma on_office_Inr: "on_office E f db = (Inr x, db') \<longleftrightarrow> f db = Inr (x, db')"
  by (auto simp: on_office_def coordination_error_def split: sum.splits)

lemma record_event_fields:
  assumes "record_event_tm E now rid e db = (r, db')"
  shows "t_members db' = t_members db \<and> t_hive db' = t_hive db \<and> t_consumed db' = t_consumed db \<and> t_dedup db' = t_dedup db"
  using assms by (auto simp: record_event_tm_def tm_bind_def split: prod.splits sum.splits dest: on_store_fields)

section \<open>Recipients are known\<close>

lemma group_address:
  "recipient_parse w = Some (ToGroup g) \<Longrightarrow> trim w = ''group:'' @ g \<and> g \<noteq> []"
  by (auto simp: recipient_parse_def Let_def strip_prefix_def starts_with_iff split: if_splits option.splits)

text \<open>C31: Only a name that is written as a group becomes a group; every other name must find an agent of the run. What a name
  resolves to is the broadcast address, for one of its five spellings; or the name itself, for one of the form
  \<open>group:g\<close>, which is not compared with anything; or the address of an agent of the run, whose id the name is, or which is
  the only one that goes by it as a role, no id matching. A name that is none of these is an error.\<close>

theorem resolved_recipient_is_known:
  assumes "resolve_hive_recipient E (Some raw) agents = Inr r"
  shows "(to_ascii_lowercase (trim raw) \<in> {''all'', ''everyone'', ''room'', ''broadcast'', ''group:all''} \<and> r = ''group:all'') \<or>
    (\<exists>g. g \<noteq> [] \<and> trim raw = ''group:'' @ g \<and> r = trim raw) \<or>
    (\<exists>a \<in> set agents. r = agent_address a \<and>
      (eq_ignore_ascii_case (an_agent_id a) (trim (unwrap_or (strip_prefix (trim raw) ''agent:'') (trim raw))) \<or>
       agents_by_role (trim raw) agents = [a] \<and> \<not> starts_with (trim raw) ''agent:'' \<and>
       (\<forall>b \<in> set agents. \<not> eq_ignore_ascii_case (an_agent_id b) (trim raw))))"
proof -
  have in_agents: "a \<in> set agents" if "agents_by_role w agents = [a]" for w a
  proof -
    have "set (agents_by_role w agents) \<subseteq> set agents" by (auto simp: agents_by_role_def Let_def)
    with that show ?thesis by simp
  qed
  define name where "name = trim raw"
  let ?candidate = "trim (unwrap_or (strip_prefix name ''agent:'') name)"
  have bare: "?candidate = name" if "\<not> starts_with name ''agent:''"
    using that by (simp add: strip_prefix_def name_def)
  show ?thesis
  proof (cases "to_ascii_lowercase name \<in> {''all'', ''everyone'', ''room'', ''broadcast'', ''group:all''}")
    case True
    then have "r = ''group:all''"
      using assms unfolding resolve_hive_recipient_def name_def[symmetric] option.map option.case
      by (simp add: BROADCAST_RECIPIENT_def split: if_splits)
    with True show ?thesis by (simp add: name_def)
  next
    case plain: False
    show ?thesis
    proof (cases "\<exists>g. recipient_parse name = Some (ToGroup g)")
      case True
      then obtain g where g: "recipient_parse name = Some (ToGroup g)" by blast
      have shape: "name = ''group:'' @ g" "g \<noteq> []" using group_address[OF g] by (simp_all add: name_def)
      then have "r = ''group:'' @ g"
        using assms plain g unfolding resolve_hive_recipient_def name_def[symmetric] option.map option.case
        by (simp add: BROADCAST_RECIPIENT_def split: if_splits)
      with shape show ?thesis by (simp add: name_def)
    next
      case False
      then have rest: "(case find (\<lambda>a. eq_ignore_ascii_case (an_agent_id a) ?candidate) agents of
          Some a \<Rightarrow> r = agent_address a
        | None \<Rightarrow> \<not> starts_with name ''agent:'' \<and> (\<exists>a. agents_by_role name agents = [a] \<and> r = agent_address a))"
        using assms plain unfolding resolve_hive_recipient_def name_def[symmetric] option.map option.case
        by (auto simp: BROADCAST_RECIPIENT_def Let_def split: if_splits option.splits recipient.splits list.splits)
      show ?thesis
      proof (cases "find (\<lambda>a. eq_ignore_ascii_case (an_agent_id a) ?candidate) agents")
        case None
        with rest obtain a where a: "agents_by_role name agents = [a]" "r = agent_address a" "\<not> starts_with name ''agent:''" by auto
        moreover have "\<forall>b \<in> set agents. \<not> eq_ignore_ascii_case (an_agent_id b) name"
          using None bare[OF a(3)] by (simp add: find_None_iff)
        ultimately show ?thesis using in_agents[OF a(1)] unfolding name_def by blast
      next
        case (Some a)
        with rest have "r = agent_address a" by simp
        moreover have "a \<in> set agents" "eq_ignore_ascii_case (an_agent_id a) ?candidate"
          using Some by (auto simp: find_Some_iff)
        ultimately show ?thesis unfolding name_def by blast
      qed
    qed
  qed
qed

section \<open>Messages arrive\<close>

lemma insert_hive_message_row:
  assumes "insert_hive_message sha256 show_json C now rid mid room sender recipient kind payload expires db = Inr (i, db')"
    and "map_of (t_dedup db) (rid, dedupe_key sha256 show_json sender recipient kind payload) = None"
  shows "i = mid \<and> (\<exists>row. map_of (t_hive db') mid = Some row \<and> hv_run_id row = rid \<and> hv_room_id row = room \<and>
      hv_sender row = sender \<and> hv_recipient row = recipient \<and> hv_expires_at row = expires)"
  using assms
  by (auto simp: insert_hive_message_def post_message_def Let_def result_simps ensure_member_def ensure_room_def
      insert_row_def references_def split: if_splits option.splits)

lemma posted_message_is_deliverable:
  assumes "insert_hive_message sha256 show_json C now rid mid room sender recipient kind payload (Some expires) db = Inr (i, db')"
    and "map_of (t_dedup db) (rid, dedupe_key sha256 show_json sender recipient kind payload) = None"
    and "\<And>reader. map_of (t_consumed db) (mid, reader) = None" and "t < expires"
  shows "i = mid \<and> (\<exists>row. map_of (t_hive db') mid = Some row \<and> hv_sender row = sender \<and> deliverable t rid recipient db' (mid, row))"
proof -
  from insert_hive_message_row[OF assms(1,2)] obtain row where row: "i = mid" "map_of (t_hive db') mid = Some row"
    "hv_run_id row = rid" "hv_room_id row = room" "hv_sender row = sender" "hv_recipient row = recipient"
    "hv_expires_at row = Some expires" by blast
  have "map_of (t_members db') (rid, room, recipient) \<noteq> None" using insert_hive_message_Inr(3)[OF assms(1)] by blast
  with row assms(3,4) insert_hive_message_Inr(4)[OF assms(1)] have "deliverable t rid recipient db' (mid, row)"
    by (simp add: deliverable_def not_expired_def)
  with row show ?thesis by blast
qed

text \<open>The envelope a send builds, and the key under which the store knows a message it has seen.\<close>

definition sent_envelope :: "tool_env \<Rightarrow> tool_context \<Rightarrow> (nat \<Rightarrow> time) \<Rightarrow> str \<Rightarrow> json \<Rightarrow> str \<Rightarrow> office_envelope \<Rightarrow> bool" where
  "sent_envelope E cx clock uuid args recipient e \<longleftrightarrow>
     (\<exists>body. required_string args ''body'' = Inr body \<and>
        office_message E cx (clock 0) uuid args body (unwrap_or (get_str args ''kind'') ''progress'') recipient (room_of_args args) = Inr e)"

definition message_key :: "tool_env \<Rightarrow> tool_context \<Rightarrow> office_envelope \<Rightarrow> str" where
  "message_key E cx e = dedupe_key (ev_sha256 E) (ev_show_json E) (''agent:'' @ cx_agent_id cx) (to_wire (oe_recipient e))
     (coordination_kind_str (oe_kind e)) (envelope_json (ev_time_json E) e)"

lemma hive_send_posts:
  assumes "hive_send E cx clock uuid args db = (Inr out, db')"
  shows "\<exists>agents recipient e stored db1. agents_of (cx_run_id cx) (store_db.truncate db) = Inr agents \<and>
    resolve_hive_recipient E (get_str args ''to'') agents = Inr recipient \<and> recipient_parse recipient = Some (oe_recipient e) \<and>
    sent_envelope E cx clock uuid args recipient e \<and>
    insert_hive_message (ev_sha256 E) (ev_show_json E) (ev_codec E) (clock 2) (cx_run_id cx) uuid (room_of_args args)
      (''agent:'' @ cx_agent_id cx) (to_wire (oe_recipient e)) (coordination_kind_str (oe_kind e)) (envelope_json (ev_time_json E) e)
      (Some (ev_day_after E (clock 1))) db = Inr (stored, db1) \<and>
    t_members db' = t_members db1 \<and> t_hive db' = t_hive db1 \<and> t_consumed db' = t_consumed db1 \<and> t_dedup db' = t_dedup db1"
proof -
  from assms obtain body where body: "hive_send E cx clock uuid args db = (Inr out, db')" "required_string args ''body'' = Inr body"
    by (auto simp: hive_send_def tm_bind_Inr)
  let ?kind = "unwrap_or (get_str args ''kind'') ''progress''"
  from body obtain agents recipient e where agents: "agents_of (cx_run_id cx) (store_db.truncate db) = Inr agents"
    and recipient: "resolve_hive_recipient E (get_str args ''to'') agents = Inr recipient"
    and e: "office_message E cx (clock 0) uuid args body ?kind recipient (room_of_args args) = Inr e"
    and post: "post_office_message E cx clock e ?kind recipient db = (Inr out, db')"
    by (auto simp: hive_send_def tm_bind_Inr Let_def split: if_splits)
  from e have fields: "oe_id e = uuid" "oe_room_id e = room_of_args args" "oe_sender e = cx_agent_id cx"
    "recipient_parse recipient = Some (oe_recipient e)"
    by (auto simp: office_message_def result_simps)
  from e body(2) have sent: "sent_envelope E cx clock uuid args recipient e" by (auto simp: sent_envelope_def)
  from post obtain stored db1 r where ins: "insert_office_envelope (ev_sha256 E) (ev_show_json E) (ev_codec E) (ev_time_json E)
      (clock 2) (cx_run_id cx) e (Some (ev_day_after E (clock 1))) db = Inr (stored, db1)"
    and rest: "record_event_tm E (clock 3) (cx_run_id cx) (OfficeEvent (EvOfficeMessageChanged stored (oe_room_id e)
       (''agent:'' @ cx_agent_id cx) recipient ?kind (take_chars 240 (oe_summary e)) (stored \<noteq> oe_id e))) db1 = (r, db')"
    by (auto simp: post_office_message_def tm_bind_Inr on_office_Inr)
  from ins fields have "insert_hive_message (ev_sha256 E) (ev_show_json E) (ev_codec E) (clock 2) (cx_run_id cx) uuid
      (room_of_args args) (''agent:'' @ cx_agent_id cx) (to_wire (oe_recipient e)) (coordination_kind_str (oe_kind e))
      (envelope_json (ev_time_json E) e) (Some (ev_day_after E (clock 1))) db = Inr (stored, db1)"
    by (auto simp: insert_office_envelope_def split: sum.splits)
  with agents recipient fields(4) sent record_event_fields[OF rest] show ?thesis by blast
qed

text \<open>C32: A message sent to an agent waits for it. A send to an agent of the run that succeeds, in whatever room, posts the
  message unless the store already knew its key, which is then why nothing is posted. Posted, it stands under its fresh
  identifier with the sender's address, its key is known from then on, and the inbox of the agent may deliver it until the day
  after.\<close>

theorem sent_message_waits_for_its_recipient:
  assumes "hive_send E cx clock uuid args db = (Inr out, db')"
    and "agents_of (cx_run_id cx) (store_db.truncate db) = Inr agents"
    and "resolve_hive_recipient E (get_str args ''to'') agents = Inr (''agent:'' @ a)" and "trim (''agent:'' @ a) = ''agent:'' @ a"
    and "\<forall>reader. map_of (t_consumed db) (uuid, reader) = None" and "t < ev_day_after E (clock 1)"
  shows "\<exists>e. sent_envelope E cx clock uuid args (''agent:'' @ a) e \<and> oe_recipient e = ToAgent a \<and>
    (case map_of (t_dedup db) (cx_run_id cx, message_key E cx e) of
       Some known \<Rightarrow> t_hive db' = t_hive db
     | None \<Rightarrow> map_of (t_dedup db') (cx_run_id cx, message_key E cx e) = Some uuid \<and>
         (\<exists>row. map_of (t_hive db') uuid = Some row \<and> hv_sender row = ''agent:'' @ cx_agent_id cx \<and>
            deliverable t (cx_run_id cx) (''agent:'' @ a) db' (uuid, row)))"
proof -
  from hive_send_posts[OF assms(1)] assms(2,3) obtain e stored db1 where to: "recipient_parse (''agent:'' @ a) = Some (oe_recipient e)"
    and sent: "sent_envelope E cx clock uuid args (''agent:'' @ a) e"
    and ins: "insert_hive_message (ev_sha256 E) (ev_show_json E) (ev_codec E) (clock 2) (cx_run_id cx) uuid (room_of_args args)
      (''agent:'' @ cx_agent_id cx) (to_wire (oe_recipient e)) (coordination_kind_str (oe_kind e)) (envelope_json (ev_time_json E) e)
      (Some (ev_day_after E (clock 1))) db = Inr (stored, db1)"
    and same: "t_members db' = t_members db1" "t_hive db' = t_hive db1" "t_consumed db' = t_consumed db1" "t_dedup db' = t_dedup db1"
    by auto
  from to assms(4) have agent: "oe_recipient e = ToAgent a"
    by (auto simp: recipient_parse_def Let_def strip_prefix_def split: if_splits option.splits)
  let ?key = "(cx_run_id cx, message_key E cx e)"
  show ?thesis
  proof (intro exI[of _ e] conjI)
    show "case map_of (t_dedup db) ?key of
       Some known \<Rightarrow> t_hive db' = t_hive db
     | None \<Rightarrow> map_of (t_dedup db') ?key = Some uuid \<and>
         (\<exists>row. map_of (t_hive db') uuid = Some row \<and> hv_sender row = ''agent:'' @ cx_agent_id cx \<and>
            deliverable t (cx_run_id cx) (''agent:'' @ a) db' (uuid, row))"
    proof (cases "map_of (t_dedup db) ?key")
      case None
      from posted_message_is_deliverable[OF ins None[unfolded message_key_def] _ assms(6)] assms(5)
      obtain row where row: "stored = uuid" "map_of (t_hive db1) uuid = Some row" "hv_sender row = ''agent:'' @ cx_agent_id cx"
        "deliverable t (cx_run_id cx) (to_wire (oe_recipient e)) db1 (uuid, row)" by blast
      have "map_of (t_dedup db1) ?key = Some uuid"
        using insert_hive_message_Inr(5)[OF ins] row(1) by (simp add: message_key_def)
      moreover have "deliverable t (cx_run_id cx) (''agent:'' @ a) db' (uuid, row)"
        using row(4) same by (simp add: agent deliverable_def)
      ultimately show ?thesis using row(2,3) None same by auto
    next
      case (Some known)
      with insert_hive_message_Inr(7)[OF ins] same show ?thesis by (simp add: message_key_def)
    qed
  qed (use sent agent in simp_all)
qed

definition example_tools :: tool_env where
  "example_tools =
     \<lparr>ev_codec = (en_codec example_env)\<lparr>enc_event := (\<lambda>_. Inr [])\<rparr>, ev_office = \<lparr>of_envelope = (\<lambda>_. Inl []), of_recipient = (\<lambda>_. Inl []),
        of_time = (\<lambda>_. Inl []), of_receipts = (\<lambda>_. Inl [])\<rparr>, ev_time_json = (\<lambda>_. JNull), ev_show_json = (\<lambda>_. []),
      ev_show_envelopes = (\<lambda>_. []), ev_show_view = (\<lambda>_. []), ev_show_views = (\<lambda>_. []), ev_debug = id,
      ev_error_text = (\<lambda>_. []), ev_sha256 = (\<lambda>s. take 7 s), ev_lower = id, ev_uni = (\<lambda>_. False), ev_scan_board = id,
      ev_scan_todos = id, ev_day_after = (\<lambda>t. t + 86400), ev_books = Inr []\<rparr>"

definition example_member :: tool_context where
  "example_member = \<lparr>cx_workspace_id = ''w'', cx_run_id = ''r'', cx_agent_id = ''a'', cx_task_id = None, cx_can_write = False\<rparr>"

definition example_agent :: "time \<Rightarrow> str \<Rightarrow> agent_row" where
  "example_agent now role = \<lparr>ar_parent = None, ar_role = role, ar_model = ''sol'', ar_state = ''working'', ar_task_id = None,
     ar_attempt = 0, ar_generation = 0, ar_started_at = now, ar_updated_at = now, ar_finished_at = None\<rparr>"

definition example_team :: office_db where
  "example_team = example_office\<lparr>t_agents := [((''r'', ''a''), example_agent 0 ''Spark worker t1''),
     ((''r'', ''b''), example_agent 1 ''Sol session lead'')]\<rparr>"

definition example_send :: json where
  "example_send = obj [(''body'', JString ''done''), (''to'', JString ''Lead'')]"

lemma example_agents:
  "agents_of ''r'' (store_db.truncate example_team) = Inr (map (\<lambda>(aid, now, role).
     \<lparr>an_run_id = ''r'', an_agent_id = aid, an_parent = None, an_role = role, an_model = ''sol'', an_state = AgentWorking, an_task_id = None,
      an_attempt = 0, an_generation = 0, an_started_at = now, an_updated_at = now, an_finished_at = None\<rparr>)
     [(''a'', 0, ''Spark worker t1''), (''b'', 1, ''Sol session lead'')])"
  by code_simp

definition example_team_agents :: "agent_record list" where
  "example_team_agents = (case agents_of ''r'' (store_db.truncate example_team) of Inl _ \<Rightarrow> [] | Inr agents \<Rightarrow> agents)"

lemma example_agents_listed: "agents_of ''r'' (store_db.truncate example_team) = Inr example_team_agents"
  by (simp add: example_team_agents_def example_agents)

lemma example_lead: "resolve_hive_recipient example_tools (Some ''Lead'') example_team_agents = Inr (''agent:'' @ ''b'')"
  by code_simp

lemma resolved_recipient_is_known_witness:
  "\<exists>a \<in> set example_team_agents. resolve_hive_recipient example_tools (Some ''Lead'') example_team_agents = Inr (agent_address a) \<and>
    an_agent_id a = ''b''"
proof -
  have "to_ascii_lowercase (trim ''Lead'') \<notin> {''all'', ''everyone'', ''room'', ''broadcast'', ''group:all''}" by code_simp
  moreover have "trim ''Lead'' = ''Lead''" by code_simp
  then have "''agent:'' @ ''b'' \<noteq> ''group:all''" "\<nexists>g. trim ''Lead'' = ''group:'' @ g" by simp_all
  ultimately obtain a where "a \<in> set example_team_agents" "''agent:'' @ ''b'' = agent_address a"
    using resolved_recipient_is_known[OF example_lead] by blast
  with example_lead show ?thesis by (intro bexI[of _ a]) (simp_all add: agent_address_def)
qed

lemma sent_message_waits_for_its_recipient_witness:
  "\<exists>out db'. hive_send example_tools example_member int ''m1'' example_send example_team = (Inr out, db') \<and>
    (\<exists>row. map_of (t_hive db') ''m1'' = Some row \<and> deliverable 5 ''r'' ''agent:b'' db' (''m1'', row))"
proof -
  define run where "run = hive_send example_tools example_member int ''m1'' example_send example_team"
  have "is_ok (fst run)" unfolding run_def by code_simp
  then obtain out db' where run: "run = (Inr out, db')" by (cases run) (auto simp: is_ok_iff)
  have ctx: "cx_run_id example_member = ''r''" "get_str example_send ''to'' = Some ''Lead''" "trim (''agent:'' @ ''b'') = ''agent:'' @ ''b''"
    "t_dedup example_team = []" "t_consumed example_team = []" "5 < ev_day_after example_tools (int 1)"
    by code_simp+
  from sent_message_waits_for_its_recipient[OF run[unfolded run_def], unfolded ctx(1,2,4,5), OF example_agents_listed example_lead ctx(3) _ ctx(6)]
  have "\<exists>row. map_of (t_hive db') ''m1'' = Some row \<and> deliverable 5 ''r'' ''agent:b'' db' (''m1'', row)"
    by auto
  with run run_def show ?thesis by auto
qed

section \<open>Who may write the board\<close>

definition spares_board :: "'a tool_m \<Rightarrow> bool" where
  "spares_board m = (\<forall>db. t_board (snd (m db)) = t_board db)"

lemma spares_board_bind: "spares_board m \<Longrightarrow> (\<And>x. spares_board (f x)) \<Longrightarrow> spares_board (tm_bind m f)"
  by (auto simp: spares_board_def tm_bind_def split: prod.splits sum.splits) (metis snd_conv)+

lemma spares_board_pure [simp]: "spares_board (tm_of r)" "spares_board (tm_return x)"
  by (simp_all add: spares_board_def)

lemma spares_board_query [simp]: "spares_board (on_store E (query f))"
  by (simp add: spares_board_def)

lemma truncate_board: "t_board (store_db.truncate db) = t_board db"
  by (simp add: store_db.defs)

lemma spares_board_event: "spares_board (record_event_tm E now rid e)"
proof -
  have "t_board (snd (txn (record_runtime_event C now rid e) db)) = t_board db" for C db
    by (auto simp: txn_def record_runtime_event_def Let_def r_bind_def split: sum.splits)
  then have "spares_board (on_store E (txn (record_runtime_event (ev_codec E) now rid e)))"
    by (simp add: spares_board_def on_store_def truncate_board split: prod.splits) (metis snd_conv truncate_board)
  then show ?thesis unfolding record_event_tm_def by (intro spares_board_bind) simp_all
qed

lemma ensure_keeps_board:
  "t_board (ensure_member now rid room member db) = t_board db"
  "ensure_room now rid room sender db = Inr db' \<Longrightarrow> t_board db' = t_board db"
  by (auto simp: ensure_member_def ensure_room_def result_simps split: if_splits)

lemma spares_board_message: "spares_board (on_office E (insert_office_envelope sha256 show_json C time_json now rid e expires))"
proof -
  have "t_board db' = t_board db" if "insert_office_envelope sha256 show_json C time_json now rid e expires db = Inr (x, db')" for x db db'
    using that
    by (auto simp: insert_office_envelope_def insert_hive_message_def post_message_def Let_def result_simps ensure_keeps_board
        split: sum.splits if_splits option.splits dest: ensure_keeps_board(2))
  then show ?thesis by (auto simp: spares_board_def on_office_def split: sum.splits)
qed

lemma spares_board_artifact: "spares_board (on_office E (put_office_artifact sha256 C now rid aid kind body provenance))"
  by (auto simp: spares_board_def on_office_def put_office_artifact_def references_def r_bind_def split: sum.splits option.splits)

lemma spares_board_inbox: "spares_board (hive_inbox_tool E cx now args)"
proof -
  have "t_board (foldl (\<lambda>db m. consume now address (ii_id m) db) db items) = t_board db" for address db and items :: "inbox_item list"
    by (induction items arbitrary: db) (auto simp: consume_def)
  then show ?thesis
    by (auto simp: spares_board_def hive_inbox_tool_def office_inbox_def hive_inbox_def r_map_def split: sum.splits)
qed

lemma spares_board_send: "spares_board (hive_send E cx clock uuid args)"
  unfolding hive_send_def post_office_message_def Let_def
  by (auto intro!: spares_board_bind spares_board_message spares_board_event)

lemma spares_board_read: "spares_board (board_read E ctx args)"
  unfolding board_read_def by (auto intro!: spares_board_bind)

lemma spares_board_put: "spares_board (artifact_put E cx now uuid args)"
  unfolding artifact_put_def Let_def by (auto intro!: spares_board_bind spares_board_artifact)

lemma spares_board_store:
  assumes "\<And>db. t_board (snd (m db)) = t_board db"
  shows "spares_board (on_store E m)"
  using assms by (simp add: spares_board_def on_store_def truncate_board split: prod.splits) (metis snd_conv truncate_board)

lemma keeps_board: "keeps (\<lambda>db. t_board db = b) m \<Longrightarrow> t_board db = b \<Longrightarrow> t_board (snd (m db)) = b"
  by (simp add: keeps_def)

lemma spares_board_todo: "spares_board (todo_tool E ctx clock args)"
proof -
  have ev: "keeps (\<lambda>db. t_board db = b) (txn (record_runtime_event C now rid e))" for b C now rid e
    by (rule keeps_txn) (auto simp: record_runtime_event_def Let_def result_simps)
  have "keeps (\<lambda>db. t_board db = b) (clear_todos C scan now rid aid)" for b C scan now rid aid
    unfolding clear_todos_def
    by (intro keeps_intros keeps_exec ev) (auto simp: delete_todos_def)
  then have clear: "spares_board (on_store E (clear_todos C scan now rid aid))" for C scan now rid aid
    by (intro spares_board_store) (blast intro: keeps_board)
  have "keeps (\<lambda>db. t_board db = b) (upsert_todo C scan t1 t2 t3 rid aid item)" for b C scan t1 t2 t3 rid aid item
    unfolding upsert_todo_def Let_def
    by (intro keeps_intros keeps_exec ev) (auto simp: put_todo_def references_def result_simps split: if_splits)
  then have upsert: "spares_board (on_store E (upsert_todo C scan t1 t2 t3 rid aid item))" for C scan t1 t2 t3 rid aid item
    by (intro spares_board_store) (blast intro: keeps_board)
  show ?thesis
    unfolding todo_tool_def Let_def by (auto intro!: spares_board_bind clear upsert)
qed

lemma spares_board_dispatch: "spares_board (record_book_card_for_dispatch E read_only ctx now c)"
proof -
  have amend: "amend_receipt C rid key r db = Inr db' \<Longrightarrow> t_board db' = t_board db" for C rid key r db db'
    by (auto simp: amend_receipt_def Let_def result_simps split: if_splits option.splits)
  have "t_board db' = t_board db" if "append_dispatch_book_sources C rid tid aid srcs db = Inr (x, db')" for C rid tid aid srcs x db db'
  proof (cases "sort_dedup (filter (\<lambda>s. s \<noteq> []) (map trim srcs)) = []")
    case True
    then show ?thesis using that by (simp add: append_dispatch_book_sources_def)
  next
    case False
    with that obtain decoded where run: "(case find (\<lambda>(_, r). r2_agent_id r = aid) decoded of
          None \<Rightarrow> Inr (None, db)
        | Some (key, r) \<Rightarrow>
            let r' = r\<lparr>r2_book_sources := sort_dedup (r2_book_sources r @ sort_dedup (filter (\<lambda>s. s \<noteq> []) (map trim srcs)))\<rparr> in
            if length (r2_book_sources r') = length (r2_book_sources r) then Inr (None, db)
            else r_map (\<lambda>db'. (Some (receipt_to_v1 r'), db')) (amend_receipt C rid key r' db)) = Inr (x, db')"
      by (auto simp: append_dispatch_book_sources_def Let_def r_bind_Inr)
    show ?thesis
    proof (cases "find (\<lambda>(_, r). r2_agent_id r = aid) decoded")
      case None
      with run show ?thesis by simp
    next
      case (Some found)
      with run show ?thesis by (cases found) (auto simp: Let_def r_map_Inr dest: amend split: if_splits)
    qed
  qed
  then have "spares_board (on_store E (txn (append_dispatch_book_sources C rid tid aid srcs)))" for C rid tid aid srcs
    by (intro spares_board_store) (auto simp: txn_def split: sum.splits)
  then show ?thesis
    unfolding record_book_card_for_dispatch_def
    by (auto intro!: spares_board_bind spares_board_event split: option.split)
qed

lemma spares_board_books: "spares_board (books_tool E read_only ctx now uuid args)"
  unfolding books_tool_def books_read_def books_draft_def Let_def
  by (auto intro!: spares_board_bind spares_board_dispatch spares_board_artifact split: prod.split)

section \<open>Dispatch\<close>

text \<open>
  One call of a tool by its name. The tools that work on files and processes do not reach the store of
  the run; their results are an argument here, and their policies are in \<open>Exec_Policy\<close>.
\<close>

definition execute ::
  "tool_env \<Rightarrow> (str \<Rightarrow> json \<Rightarrow> tool_error + tool_outcome) \<Rightarrow> bool \<Rightarrow> tool_context option \<Rightarrow> (nat \<Rightarrow> time) \<Rightarrow> str \<Rightarrow>
   str \<Rightarrow> json \<Rightarrow> tool_outcome tool_m" where
  "execute E work read_only ctx clock uuid name args =
     (if name \<in> {''read_files'', ''search'', ''apply_patch'', ''exec'', ''terminal'', ''just'', ''github'', ''quality''}
      then tm_of (work name args)
      else if name = ''ask_user'' then tm_of (ask_user args)
      else if name = ''hive'' then hive E read_only ctx clock uuid args
      else if name = ''todo'' then todo_tool E ctx clock args
      else if name = ''books'' then books_tool E read_only ctx (clock 0) uuid args
      else if name = ''board_read'' then board_read E ctx args
      else if name = ''board_write'' then board_write E read_only ctx clock uuid args
      else tm_of (invalid_args (''unknown tool '' @ name)))"

text \<open>C33: Only agents that may write change the board. Whatever tool a read-only agent calls, or one whose context may not
  write, by whatever name and arguments, the board keeps every row; and an attempt to post or to resolve, through the board tool
  or the message tool, is refused before anything is read.\<close>

theorem read_only_agents_leave_the_board:
  assumes "read_only \<or> \<not> cx_can_write cx"
  shows "t_board (snd (execute E work read_only (Some cx) clock uuid name args db)) = t_board db \<and>
    (name = ''board_write'' \<or>
     name = ''hive'' \<and> get_str args ''action'' \<in> {Some ''board_post'', Some ''board_resolve''} \<longrightarrow>
      execute E work read_only (Some cx) clock uuid name args db = (Inl ReadOnlyDenied, db))"
proof
  have known: "tm_bind (tm_of (ok_or (Some cx) e)) f = f cx" for e and f :: "tool_context \<Rightarrow> tool_outcome tool_m"
    by (simp add: fun_eq_iff tm_bind_def ok_or_def)
  have denied: "board_write E read_only (Some cx) clock uuid args' = tm_of (Inl ReadOnlyDenied)" for args'
    using assms unfolding board_write_def known by auto
  have hive: "spares_board (hive E read_only (Some cx) clock uuid args)"
    using assms unfolding hive_def Let_def known
    by (auto intro!: spares_board_bind spares_board_inbox spares_board_send spares_board_read spares_board_put)
  have "spares_board (execute E work read_only (Some cx) clock uuid name args)"
    by (simp add: execute_def denied hive spares_board_todo spares_board_books spares_board_read)
  then show "t_board (snd (execute E work read_only (Some cx) clock uuid name args db)) = t_board db"
    by (simp add: spares_board_def)
  show "name = ''board_write'' \<or>
     name = ''hive'' \<and> get_str args ''action'' \<in> {Some ''board_post'', Some ''board_resolve''} \<longrightarrow>
      execute E work read_only (Some cx) clock uuid name args db = (Inl ReadOnlyDenied, db)"
    using assms by (auto simp: execute_def denied hive_def tm_bind_def ok_or_def)
qed

lemma read_only_agents_leave_the_board_witness:
  "execute example_tools (\<lambda>_ _. Inl ReadOnlyDenied) False (Some example_member) int ''m1'' ''board_write''
     (obj [(''action'', JString ''resolve''), (''entry_id'', JString ''1'')]) example_team = (Inl ReadOnlyDenied, example_team)"
proof -
  have "\<not> cx_can_write example_member" by code_simp
  with read_only_agents_leave_the_board[of False example_member] show ?thesis by blast
qed

end
