(* ===== verification/Tui_Commands.thy ===== *)
theory Tui_Commands
  imports Rust_Search
begin

text \<open>
  The slash commands of the terminal interface (\<open>crates/minha-tui/src/commands.rs\<close>): the registry, the
  lookup of a typed name, the ranked list of matches, and the suggestion for a mistyped command by edit
  distance.
\<close>

section \<open>The registry\<close>

datatype category = CatConversation | CatWork | CatInspect | CatProviders | CatUsage | CatAppearance | CatInput | CatMaintenance

definition CATEGORIES :: "category list" where
  "CATEGORIES = [CatConversation, CatWork, CatInspect, CatProviders, CatUsage, CatAppearance, CatInput, CatMaintenance]"

fun category_label :: "category \<Rightarrow> str" where
  "category_label CatConversation = ''conversation''" | "category_label CatWork = ''work''" | "category_label CatInspect = ''inspect''"
| "category_label CatProviders = ''providers''" | "category_label CatUsage = ''usage''" | "category_label CatAppearance = ''appearance''"
| "category_label CatInput = ''input''" | "category_label CatMaintenance = ''maintenance''"

record command_spec =
  cs_name :: str
  cs_aliases :: "str list"
  cs_args :: "str option"
  cs_description :: str
  cs_category :: category
  cs_needs_run :: bool
  cs_needs_argument :: bool
  cs_network :: bool

definition command_display :: "command_spec \<Rightarrow> str" where
  "command_display c =
     (case cs_args c of Some args \<Rightarrow> ''/'' @ cs_name c @ '' '' @ args | None \<Rightarrow> ''/'' @ cs_name c)"

datatype availability = Available | Unavailable str

fun availability_reason :: "availability \<Rightarrow> str option" where
  "availability_reason Available = None"
| "availability_reason (Unavailable r) = Some r"

text \<open>The context is whether there is an active run.\<close>

definition availability_of :: "command_spec \<Rightarrow> bool \<Rightarrow> availability" where
  "availability_of c active_run =
     (if cs_needs_run c \<and> \<not> active_run then Unavailable ''needs an active session'' else Available)"

abbreviation command :: "str \<Rightarrow> str list \<Rightarrow> str option \<Rightarrow> str \<Rightarrow> category \<Rightarrow> bool \<Rightarrow> bool \<Rightarrow> bool \<Rightarrow> command_spec" where
  "command n al ar d c nr na net \<equiv> \<lparr>cs_name = n, cs_aliases = al, cs_args = ar, cs_description = d, cs_category = c,
     cs_needs_run = nr, cs_needs_argument = na, cs_network = net\<rparr>"

definition REGISTRY :: "command_spec list" where
  "REGISTRY = [
   command ''help'' [] None
     ''Show shortcuts, commands, and keymap'' CatInspect False False False,
   command ''new'' [] None
     ''Start a fresh conversation'' CatConversation False False False,
   command ''status'' [] None
     ''Inspect models, context, usage, and cost'' CatInspect False False False,
   command ''work'' [] None
     ''Open tasks and agent TODOs'' CatWork False False False,
   command ''activity'' [''agents''] None
     ''Open agent activity'' CatWork False False False,
   command ''plan'' [] (Some ''[TASK]'')
     ''Start read-only planning mode'' CatWork False False True,
   command ''implement'' [] (Some ''[TASK]'')
     ''Start implementation mode'' CatWork False False True,
   command ''review'' [] (Some ''[TASK]'')
     ''Review the workspace'' CatWork False False True,
   command ''audit'' [] (Some ''[TASK]'')
     ''Run read-only audit lenses'' CatWork False False True,
   command ''auto'' [] None
     ''Let Minha choose the work mode'' CatWork False False False,
   command ''diff'' [] None
     ''Show the current workspace diff'' CatInspect False False False,
   command ''problems'' [] None
     ''Open failures and recovery'' CatWork False False False,
   command ''board'' [] None
     ''Open the coordination board'' CatWork False False False,
   command ''route'' [''routing''] None
     ''Inspect route evidence and worker dispatch receipts'' CatInspect False False False,
   command ''resume'' [] None
     ''Reopen a saved session'' CatConversation False False False,
   command ''retry'' [] (Some ''[--fresh]'')
     ''Re-run the current session'' CatConversation True False True,
   command ''fork'' [] None
     ''Branch the current session'' CatConversation True False False,
   command ''rename'' [] (Some ''TITLE'')
     ''Rename the current session'' CatConversation True True False,
   command ''archive'' [] None
     ''Archive the current session'' CatConversation True False False,
   command ''compact'' [] None
     ''Compact context at the next model boundary'' CatConversation True False True,
   command ''transcript'' [] (Some ''[PATH]'')
     ''Export the transcript to Markdown'' CatConversation False False False,
   command ''quit'' [''exit''] None
     ''Leave Minha'' CatConversation False False False,
   command ''to'' [] (Some ''[AGENT]'')
     ''Target the next message at an agent'' CatWork False False False,
   command ''note'' [] (Some ''TEXT'')
     ''Add a note to the coordination board'' CatWork False True False,
   command ''pin'' [] (Some ''[ID]'')
     ''Pin a board entry'' CatWork False False False,
   command ''resolve'' [] (Some ''[ID]'')
     ''Resolve a board entry'' CatWork False False False,
   command ''context'' [] None
     ''Inspect per-agent context'' CatInspect False False False,
   command ''memory'' [] (Some ''[QUERY | pin ID | delete ID]'')
     ''Search or manage durable memory'' CatInspect False False False,
   command ''memories'' [] (Some ''[SETTING on|off]'')
     ''Review and toggle memory controls'' CatInspect False False False,
   command ''books'' [] None
     ''Browse verified references'' CatInspect False False False,
   command ''skills'' [] None
     ''List available skills'' CatInspect False False False,
   command ''ask'' [] (Some ''QUESTION'')
     ''Answer from session state, without a model call'' CatInspect False True False,
   command ''doctor'' [] None
     ''Run local diagnostics'' CatInspect False False False,
   command ''model'' [] None
     ''Show provider-aware models'' CatProviders False False False,
   command ''provider'' [] (Some ''[list]'')
     ''Show configured providers and how to change them'' CatProviders False False False,
   command ''login'' [] None
     ''Authenticate with the model provider'' CatProviders False False True,
   command ''usage'' [] None
     ''Show token and context usage'' CatUsage False False False,
   command ''settings'' [] (Some ''[ACTION]'')
     ''Open or edit user-local TUI settings'' CatAppearance False False False,
   command ''theme'' [] (Some ''[NAME|import|export|contrast|preview]'')
     ''Preview, validate, import, or save a local theme'' CatAppearance False False False,
   command ''keymap'' [] None
     ''Show the resolved editor keymap'' CatInput False False False,
   command ''quality'' [] (Some ''[ACTION]'')
     ''Run the workspace quality gates'' CatMaintenance False False False,
   command ''check'' [] None
     ''Run the build/typecheck gate'' CatMaintenance False False False,
   command ''lint'' [] None
     ''Run the lint gate'' CatMaintenance False False False,
   command ''test'' [] None
     ''Run the test gate'' CatMaintenance False False False,
   command ''docs'' [] None
     ''Run the docs gate'' CatMaintenance False False False,
   command ''security'' [] None
     ''Run the security gate'' CatMaintenance False False False,
   command ''gh'' [''github''] (Some ''[ACTION] [NUMBER]'')
     ''Read GitHub repo, issue, or pull-request context'' CatMaintenance False False True,
   command ''clean'' [] None
     ''Clean generated workspace artifacts'' CatMaintenance False False False]"

definition find_command :: "str \<Rightarrow> command_spec option" where
  "find_command name =
     find (\<lambda>c. eq_ignore_ascii_case (cs_name c) name \<or> list_ex (\<lambda>alias. eq_ignore_ascii_case alias name) (cs_aliases c)) REGISTRY"

definition by_category :: "category \<Rightarrow> command_spec list" where
  "by_category c = filter (\<lambda>s. cs_category s = c) REGISTRY"

section \<open>Matches\<close>

datatype rank = RankExact | RankPrefix | RankAliasPrefix | RankSubstring | RankFuzzy | RankDescription

fun match_order :: "rank \<Rightarrow> nat" where
  "match_order RankExact = 0" | "match_order RankPrefix = 1" | "match_order RankAliasPrefix = 2" | "match_order RankSubstring = 3"
| "match_order RankFuzzy = 4" | "match_order RankDescription = 5"

text \<open>\<open>all\<close> over the query and \<open>any\<close> over an iterator of the candidate that goes on where it stopped.\<close>

fun subsequence_of :: "str list \<Rightarrow> str list \<Rightarrow> bool" where
  "subsequence_of [] cs = True"
| "subsequence_of (q # qs) [] = False"
| "subsequence_of (q # qs) (c # cs) = (if q = c then subsequence_of qs cs else subsequence_of (q # qs) cs)"

definition is_subsequence :: "str \<Rightarrow> str \<Rightarrow> bool" where
  "is_subsequence query candidate = subsequence_of (chars query) (chars candidate)"

definition rank_of :: "command_spec \<Rightarrow> str \<Rightarrow> rank option" where
  "rank_of spec query =
     (if query = [] then Some RankPrefix
      else
        let query = to_ascii_lowercase query; name = to_ascii_lowercase (cs_name spec) in
        if name = query then Some RankExact
        else if starts_with name query then Some RankPrefix
        else if list_ex (\<lambda>alias. to_ascii_lowercase alias = query \<or> starts_with (to_ascii_lowercase alias) query) (cs_aliases spec)
        then Some RankAliasPrefix
        else if contains name query then Some RankSubstring
        else if is_subsequence query name then Some RankFuzzy
        else if contains (to_ascii_lowercase (cs_description spec)) query then Some RankDescription
        else None)"

record command_match =
  cm_spec :: command_spec
  cm_rank :: rank
  cm_availability :: availability

definition command_matches :: "str \<Rightarrow> bool \<Rightarrow> command_match list" where
  "command_matches query active_run =
     (let query = dropWhile (\<lambda>c. c = CHR ''/'') query in
      map snd (sort_key (\<lambda>(i, m). (match_order (cm_rank m), i))
        (List.map_filter (\<lambda>(i, spec). map_option (\<lambda>r. (i, \<lparr>cm_spec = spec, cm_rank = r,
             cm_availability = availability_of spec active_run\<rparr>)) (rank_of spec query))
          (enumerate 0 REGISTRY))))"

section \<open>Edit distance\<close>

text \<open>One row: the cells after the first, from the row before and the cell to the left.\<close>

fun distance_cells :: "'a \<Rightarrow> 'a list \<Rightarrow> nat list \<Rightarrow> nat \<Rightarrow> nat list" where
  "distance_cells l [] prev cell = []"
| "distance_cells l (r # rs) prev cell =
     (let cell' = min (min (prev ! 0 + (if l \<noteq> r then 1 else 0)) (prev ! 1 + 1)) (cell + 1)
      in cell' # distance_cells l rs (tl prev) cell')"

fun distance_rows :: "nat \<Rightarrow> 'a list \<Rightarrow> 'a list \<Rightarrow> nat list \<Rightarrow> nat list" where
  "distance_rows i [] right prev = prev"
| "distance_rows i (l # ls) right prev = distance_rows (i + 1) ls right ((i + 1) # distance_cells l right prev (i + 1))"

definition edit_distance :: "str \<Rightarrow> str \<Rightarrow> nat" where
  "edit_distance left right =
     (let right = chars right in distance_rows 0 (chars left) right [0..<length right + 1] ! length right)"

text \<open>\<open>first_min\<close> returns the first of several minima.\<close>

fun first_min :: "('a \<Rightarrow> nat) \<Rightarrow> 'a list \<Rightarrow> 'a option" where
  "first_min f [] = None"
| "first_min f (x # xs) = (case first_min f xs of None \<Rightarrow> Some x | Some y \<Rightarrow> Some (if f x \<le> f y then x else y))"

definition suggestion :: "str \<Rightarrow> command_spec option" where
  "suggestion name =
     (if name = [] then None
      else case command_matches name False of
        m # _ \<Rightarrow> Some (cm_spec m)
      | [] \<Rightarrow>
          let name = to_ascii_lowercase name; budget = max 1 (min (char_count name div 3) 3) in
          first_min (\<lambda>c. edit_distance name (cs_name c)) (filter (\<lambda>c. edit_distance name (cs_name c) \<le> budget) REGISTRY))"

section \<open>The distance is the least number of edits\<close>

inductive edits :: "nat \<Rightarrow> 'a list \<Rightarrow> 'a list \<Rightarrow> bool" where
  edits_none: "edits 0 [] []"
| edits_keep: "edits n xs ys \<Longrightarrow> edits n (x # xs) (x # ys)"
| edits_change: "edits n xs ys \<Longrightarrow> edits (Suc n) (x # xs) (y # ys)"
| edits_insert: "edits n xs ys \<Longrightarrow> edits (Suc n) xs (y # ys)"
| edits_delete: "edits n xs ys \<Longrightarrow> edits (Suc n) (x # xs) ys"

text \<open>The same steps at the end of the lists.\<close>

lemma edits_at_end:
  assumes "edits n xs ys"
  shows "edits n (xs @ [x]) (ys @ [x])" and "edits (Suc n) (xs @ [x]) (ys @ [y])"
    and "edits (Suc n) xs (ys @ [y])" and "edits (Suc n) (xs @ [x]) ys"
  using assms
proof (induction rule: edits.induct)
  case edits_none
  { case 1 show ?case using edits.edits_keep[OF edits.edits_none] by simp next
    case 2 show ?case using edits.edits_change[OF edits.edits_none] by simp next
    case 3 show ?case using edits.edits_insert[OF edits.edits_none] by simp next
    case 4 show ?case using edits.edits_delete[OF edits.edits_none] by simp }
qed (auto intro: edits.intros)

lemma edits_rev: "edits n xs ys \<Longrightarrow> edits n (rev xs) (rev ys)"
  by (induction rule: edits.induct) (auto intro: edits_at_end edits.edits_none)

fun lev :: "'a list \<Rightarrow> 'a list \<Rightarrow> nat" where
  "lev [] ys = length ys"
| "lev xs [] = length xs"
| "lev (x # xs) (y # ys) = min (min (lev xs ys + (if x \<noteq> y then 1 else 0)) (lev (x # xs) ys + 1)) (lev xs (y # ys) + 1)"

lemma lev_Nil2 [simp]: "lev xs [] = length xs" by (cases xs) simp_all

lemma min3: "P a \<Longrightarrow> P b \<Longrightarrow> P c \<Longrightarrow> P (min (min a b) (c :: nat))"
  by (simp add: min_def)

lemma edits_lev: "edits (lev xs ys) xs ys"
proof (induction xs ys rule: lev.induct)
  case (1 ys)
  show ?case by (induction ys) (auto intro: edits.intros)
next
  case (2 x xs)
  have "edits (length zs) zs []" for zs :: "'a list" by (induction zs) (auto intro: edits.intros)
  from this[of "x # xs"] show ?case by simp
next
  case (3 x xs y ys)
  have "edits (lev xs ys + (if x \<noteq> y then 1 else 0)) (x # xs) (y # ys)" using 3(1) by (auto intro: edits.intros)
  moreover have "edits (lev (x # xs) ys + 1) (x # xs) (y # ys)" using edits_insert[OF 3(2)] by simp
  moreover have "edits (lev xs (y # ys) + 1) (x # xs) (y # ys)" using edits_delete[OF 3(3)] by simp
  ultimately show ?case unfolding lev.simps by (rule min3[where P = "\<lambda>n. edits n (x # xs) (y # ys)"])
qed

lemma lev_step: "lev xs (y # ys) \<le> Suc (lev xs ys)" "lev (x # xs) ys \<le> Suc (lev xs ys)"
  by (cases xs; auto) (cases ys; auto)

lemma lev_least: "edits n xs ys \<Longrightarrow> lev xs ys \<le> n"
proof (induction rule: edits.induct)
  case (edits_insert n xs ys y)
  then show ?case using lev_step(1)[of xs y ys] by simp
next
  case (edits_delete n xs ys x)
  then show ?case using lev_step(2)[of x xs ys] by simp
qed auto

lemma lev_rev: "lev (rev xs) (rev ys) = lev xs ys"
proof (rule antisym)
  have le: "lev (rev as) (rev bs) \<le> lev as bs" for as bs :: "'a list" by (intro lev_least edits_rev edits_lev)
  show "lev (rev xs) (rev ys) \<le> lev xs ys" by (rule le)
  show "lev xs ys \<le> lev (rev xs) (rev ys)" using le[of "rev xs" "rev ys"] by simp
qed

text \<open>A row of the table holds the distances of a prefix of the left list to every prefix of the right one.\<close>

definition distance_row :: "'a list \<Rightarrow> 'a list \<Rightarrow> nat list" where
  "distance_row us right = map (\<lambda>j. lev us (rev (take j right))) [0..<length right + 1]"

lemma distance_cells_row:
  assumes "prev = map (\<lambda>j. lev us (rev (take j (ds @ rs)))) [length ds..<length ds + length rs + 1]"
    and "cell = lev (l # us) (rev ds)"
  shows "distance_cells l rs prev cell =
    map (\<lambda>j. lev (l # us) (rev (take j (ds @ rs)))) [length ds + 1..<length ds + length rs + 1]"
  using assms
proof (induction rs arbitrary: ds prev cell)
  case (Cons r rs)
  have upt: "[length ds..<length ds + length (r # rs) + 1] = length ds # [length (ds @ [r])..<length (ds @ [r]) + length rs + 1]"
    by (simp add: upt_rec del: upt_Suc)
  have prev: "prev = lev us (rev ds) # map (\<lambda>j. lev us (rev (take j ((ds @ [r]) @ rs)))) [length (ds @ [r])..<length (ds @ [r]) + length rs + 1]"
    unfolding Cons.prems(1) upt by (simp del: upt_Suc)
  have "[length (ds @ [r])..<length (ds @ [r]) + length rs + 1] = length (ds @ [r]) # [length (ds @ [r]) + 1..<length (ds @ [r]) + length rs + 1]"
    by (simp add: upt_rec del: upt_Suc)
  then have one: "prev ! 1 = lev us (rev (ds @ [r]))" and zero: "prev ! 0 = lev us (rev ds)"
    unfolding prev by (simp_all del: upt_Suc)
  define cell' where "cell' = min (min (prev ! 0 + (if l \<noteq> r then 1 else 0)) (prev ! 1 + 1)) (cell + 1)"
  have cell': "cell' = lev (l # us) (rev (ds @ [r]))"
    unfolding cell'_def one zero Cons.prems(2) by (simp add: min.commute min.left_commute)
  have rest: "distance_cells l rs (tl prev) cell' =
      map (\<lambda>j. lev (l # us) (rev (take j ((ds @ [r]) @ rs)))) [length (ds @ [r]) + 1..<length (ds @ [r]) + length rs + 1]"
    by (rule Cons.IH) (simp_all add: prev cell' del: upt_Suc)
  have "[length ds + 1..<length ds + length (r # rs) + 1] =
      length (ds @ [r]) # [length (ds @ [r]) + 1..<length (ds @ [r]) + length rs + 1]"
    by (simp add: upt_rec del: upt_Suc)
  moreover have "distance_cells l (r # rs) prev cell = cell' # distance_cells l rs (tl prev) cell'"
    by (simp add: cell'_def Let_def)
  moreover have "(ds @ [r]) @ rs = ds @ r # rs" "take (length (ds @ [r])) (ds @ r # rs) = ds @ [r]" by simp_all
  ultimately show ?case using rest cell' by (simp only: list.map)
qed simp

lemma distance_row_step: "(Suc (length us)) # distance_cells l right (distance_row us right) (Suc (length us)) = distance_row (l # us) right"
proof -
  have "distance_cells l right (distance_row us right) (Suc (length us)) =
      map (\<lambda>j. lev (l # us) (rev (take j right))) [1..<length right + 1]"
    using distance_cells_row[of "distance_row us right" us "[]" right "Suc (length us)" l] by (simp add: distance_row_def del: upt_Suc)
  moreover have "[0..<length right + 1] = 0 # [1..<length right + 1]" by (simp add: upt_rec del: upt_Suc)
  ultimately show ?thesis unfolding distance_row_def by (simp del: upt_Suc)
qed

lemma distance_rows_row: "distance_rows (length us) ls right (distance_row us right) = distance_row (rev ls @ us) right"
proof (induction ls arbitrary: us)
  case (Cons l ls)
  from Cons[of "l # us"] show ?case by (simp add: distance_row_step)
qed simp

lemma edit_distance_lev: "edit_distance left right = lev (chars left) (chars right)"
proof -
  have "[0..<length (chars right) + 1] = distance_row [] (chars right)"
    by (rule nth_equalityI) (auto simp: distance_row_def simp del: upt_Suc)
  then have "edit_distance left right = distance_row (rev (chars left)) (chars right) ! length (chars right)"
    using distance_rows_row[of "[]" "chars left" "chars right"] by (simp add: edit_distance_def Let_def del: upt_Suc)
  then show ?thesis by (simp add: distance_row_def lev_rev del: upt_Suc)
qed

text \<open>The table computes the distance. The distance of two words is the least number of characters to change, insert or
  delete that makes one the other.\<close>

theorem edit_distance_is_least: "edit_distance left right = (LEAST n. edits n (chars left) (chars right))"
  unfolding edit_distance_lev by (rule Least_equality[symmetric]) (blast intro: edits_lev lev_least)+

section \<open>Commands are found\<close>

definition command_names :: "command_spec \<Rightarrow> str list" where
  "command_names c = cs_name c # cs_aliases c"

lemma registry_names:
  "distinct (concat (map command_names REGISTRY))"
  "list_all (\<lambda>n. to_ascii_lowercase n = n) (concat (map command_names REGISTRY))"
  by code_simp+

lemma concat_distinct_same:
  assumes "distinct (concat (map f xs))" and "a \<in> set xs" and "b \<in> set xs" and "n \<in> set (f a)" and "n \<in> set (f b)"
  shows "a = b"
  using assms by (induction xs) auto

text \<open>A typed name means one command. In whatever case a name or an alias is typed, exactly the command it belongs to is
  found; no two commands of the registry share a spelling.\<close>

theorem command_is_found:
  assumes "c \<in> set REGISTRY" and "n \<in> set (command_names c)" and "eq_ignore_ascii_case n typed"
  shows "find_command typed = Some c"
proof -
  have meant: "eq_ignore_ascii_case (cs_name d) typed \<or> list_ex (\<lambda>alias. eq_ignore_ascii_case alias typed) (cs_aliases d) \<longleftrightarrow>
      d = c" if d: "d \<in> set REGISTRY" for d
  proof
    assume "eq_ignore_ascii_case (cs_name d) typed \<or> list_ex (\<lambda>alias. eq_ignore_ascii_case alias typed) (cs_aliases d)"
    then obtain m where m: "m \<in> set (command_names d)" "eq_ignore_ascii_case m typed"
      by (auto simp: command_names_def list_ex_iff)
    with d assms(1,2) registry_names(2) have "to_ascii_lowercase m = m" "to_ascii_lowercase n = n"
      by (auto simp: list_all_iff)
    with m(2) assms(3) have "m = n" by (simp add: eq_ignore_ascii_case_def)
    with m(1) d assms(1,2) show "d = c" by (metis concat_distinct_same[OF registry_names(1)])
  next
    assume "d = c"
    with assms(2,3) show "eq_ignore_ascii_case (cs_name d) typed \<or> list_ex (\<lambda>alias. eq_ignore_ascii_case alias typed) (cs_aliases d)"
      by (auto simp: command_names_def list_ex_iff)
  qed
  have "find (\<lambda>d. eq_ignore_ascii_case (cs_name d) typed \<or> list_ex (\<lambda>alias. eq_ignore_ascii_case alias typed) (cs_aliases d)) ds = Some c"
    if "set ds \<subseteq> set REGISTRY" "c \<in> set ds" for ds
    using that meant by (induction ds) auto
  with assms(1) show ?thesis by (simp add: find_command_def)
qed

lemma command_is_found_witness: "map_option cs_name (find_command ''AGENTS'') = Some ''activity''"
proof -
  define c where "c = the (find (\<lambda>c. cs_name c = ''activity'') REGISTRY)"
  have c: "cs_name c = ''activity''" "''agents'' \<in> set (command_names c)" "eq_ignore_ascii_case ''agents'' ''AGENTS''"
    "c = REGISTRY ! 4" "4 < length REGISTRY"
    unfolding c_def by code_simp+
  then have "c \<in> set REGISTRY" by (simp only: nth_mem)
  from command_is_found[OF this c(2,3)] c(1) show ?thesis by simp
qed

section \<open>The suggestion\<close>

lemma first_min_Some:
  "first_min f xs = Some x \<Longrightarrow> x \<in> set xs \<and> (\<forall>y \<in> set xs. f x \<le> f y)"
proof (induction xs arbitrary: x)
  case (Cons a xs)
  show ?case
  proof (cases "first_min f xs")
    case None
    then have "xs = []" by (cases xs) (auto split: option.splits)
    with Cons.prems show ?thesis by simp
  next
    case (Some b)
    from Cons.IH[OF Some] Cons.prems Some show ?thesis by (auto split: if_splits)
  qed
qed simp

lemma first_min_None: "first_min f xs = None \<longleftrightarrow> xs = []"
  by (cases xs) (auto split: option.splits)

text \<open>C40: A mistyped command suggests a nearest one. When nothing matches a typed name, the suggestion is a command of the
  registry that the name is turned into by the least number of edits over all commands, and that number is at most a third of
  the length, at least one and at most three.\<close>

theorem suggestion_is_nearest:
  assumes "command_matches name False = []" and "suggestion name = Some c"
  shows "c \<in> set REGISTRY \<and> (\<exists>n. edits n (chars (to_ascii_lowercase name)) (chars (cs_name c)) \<and>
    n \<le> max 1 (min (char_count (to_ascii_lowercase name) div 3) 3) \<and>
    (\<forall>d \<in> set REGISTRY. \<forall>k. edits k (chars (to_ascii_lowercase name)) (chars (cs_name d)) \<longrightarrow> n \<le> k))"
proof -
  let ?typed = "to_ascii_lowercase name" and ?budget = "max 1 (min (char_count (to_ascii_lowercase name) div 3) 3)"
  from assms have "first_min (\<lambda>c. edit_distance ?typed (cs_name c))
      (filter (\<lambda>c. edit_distance ?typed (cs_name c) \<le> ?budget) REGISTRY) = Some c"
    by (simp add: suggestion_def Let_def split: if_splits)
  from first_min_Some[OF this] have c: "c \<in> set REGISTRY" "lev (chars ?typed) (chars (cs_name c)) \<le> ?budget"
    "\<forall>d \<in> set REGISTRY. lev (chars ?typed) (chars (cs_name d)) \<le> ?budget \<longrightarrow>
       lev (chars ?typed) (chars (cs_name c)) \<le> lev (chars ?typed) (chars (cs_name d))"
    by (auto simp: edit_distance_lev)
  have "lev (chars ?typed) (chars (cs_name c)) \<le> k" if "d \<in> set REGISTRY" "edits k (chars ?typed) (chars (cs_name d))" for d k
    using c that lev_least[OF that(2)] by (meson le_trans nle_le)
  with c(1,2) edits_lev show ?thesis by blast
qed

lemma seven_lower: "CHR ''7'' \<in> set (to_ascii_lowercase s) \<Longrightarrow> CHR ''7'' \<in> set s"
proof -
  have "lower_char c = CHR ''7'' \<Longrightarrow> c = CHR ''7''" for c
  proof (rule ccontr)
    assume eq: "lower_char c = CHR ''7''" and "c \<noteq> CHR ''7''"
    then have up: "65 \<le> byte c" "byte c \<le> 90" and "char_of (byte c + 32) = CHR ''7''"
      by (auto simp: lower_char_def split: if_splits)
    then have "byte (char_of (byte c + 32)) = byte (CHR ''7'')" by (simp only:)
    with up show False by simp
  qed
  moreover assume "CHR ''7'' \<in> set (to_ascii_lowercase s)"
  then obtain c where "c \<in> set s" "lower_char c = CHR ''7''" by (auto simp: to_ascii_lowercase_def)
  ultimately show "CHR ''7'' \<in> set s" by metis
qed

lemma no_seven: "CHR ''7'' \<notin> set (concat (map (\<lambda>c. concat (command_names c) @ cs_description c) REGISTRY))"
  by (simp add: REGISTRY_def command_names_def)

lemma unmatched_seven:
  assumes "c \<in> set REGISTRY" and "CHR ''7'' \<in> set (to_ascii_lowercase query)"
  shows "rank_of c query = None"
proof -
  let ?q = "to_ascii_lowercase query"
  have sub: "subsequence_of qs cs \<Longrightarrow> set qs \<subseteq> set cs" for qs cs :: "str list"
    by (induction qs cs rule: subsequence_of.induct) (auto split: if_splits)
  have within: "\<not> contains s ?q" "s \<noteq> ?q" "\<not> starts_with s ?q" "\<not> is_subsequence ?q s" if "CHR ''7'' \<notin> set s" for s
  proof -
    show c: "\<not> contains s ?q" using that assms(2) contains_set[of s ?q] by blast
    from c show "\<not> starts_with s ?q" using starts_with_contains by blast
    then show "s \<noteq> ?q" by (metis starts_with_refl)
    have "set ?q \<subseteq> set s" if "is_subsequence ?q s"
    proof -
      from that have "set (chars ?q) \<subseteq> set (chars s)" by (simp add: is_subsequence_def sub)
      then have "set (concat (chars ?q)) \<subseteq> set (concat (chars s))" unfolding set_concat by (rule Union_mono[OF image_mono])
      then show ?thesis by (simp only: concat_chars)
    qed
    with that assms(2) show "\<not> is_subsequence ?q s" by blast
  qed
  have free: "CHR ''7'' \<notin> set (to_ascii_lowercase s)" if "s \<in> set (command_names c) \<or> s = cs_description c" for s
    using that assms(1) no_seven seven_lower[of s] by auto
  have aliases: "\<not> list_ex (\<lambda>a. to_ascii_lowercase a = ?q \<or> starts_with (to_ascii_lowercase a) ?q) (cs_aliases c)"
    using within free by (auto simp: list_ex_iff command_names_def)
  have "query \<noteq> []" using assms(2) by (auto simp: to_ascii_lowercase_def)
  with within[OF free] aliases show ?thesis by (simp add: rank_of_def Let_def command_names_def)
qed

lemma suggestion_is_nearest_witness:
  "\<exists>c. suggestion ''g7'' = Some c \<and> c \<in> set REGISTRY"
proof -
  have typed: "edit_distance ''g7'' ''gh'' = 1" "to_ascii_lowercase ''g7'' = ''g7''" by code_simp+
  have "List.map_filter (\<lambda>(i, spec). map_option (\<lambda>r. (i, \<lparr>cm_spec = spec, cm_rank = r,
      cm_availability = availability_of spec False\<rparr>)) (rank_of spec ''g7'')) (enumerate n cs) = []"
    if "set cs \<subseteq> set REGISTRY" for n :: nat and cs
    using that by (induction cs arbitrary: n) (simp_all add: List.map_filter_simps unmatched_seven typed(2))
  then have matches: "command_matches ''g7'' False = []" by (simp add: command_matches_def Let_def)
  have "list_ex (\<lambda>c. cs_name c = ''gh'') REGISTRY" by code_simp
  then obtain c where "c \<in> set REGISTRY" "cs_name c = ''gh''" by (auto simp: list_ex_iff)
  with typed have "suggestion ''g7'' \<noteq> None"
    unfolding suggestion_def matches Let_def typed(2) by (auto simp: first_min_None filter_empty_conv intro!: bexI[of _ c])
  with suggestion_is_nearest[OF matches] show ?thesis by auto
qed

end
