(* ===== verification/Spec2Isabelle.thy ===== *)
theory Spec2Isabelle
  imports Agents Tools_Policy Models_Routing Judge Context_Budget Hot_Cache Facts Auto_Routing Protocol Store_Usage Store_Board Terminal Clarify Store_Office Plans Turn_Items Run_Roles Self_Update Agent_Tools Tui_Commands
begin

text \<open>
  Minha is a coding harness: a terminal interface and a command line over a core
  (\<open>crates/minha-core\<close>) that runs several agents over one goal. The core keeps a durable store
  (SQLite, \<open>store.rs\<close>), picks a model and a provider for every role (\<open>models.rs\<close>, \<open>fairness.rs\<close> and
  the routing part of \<open>runtime.rs\<close>), streams turns from providers (\<open>provider.rs\<close>), and executes the
  tool calls of agents under a policy (\<open>tools.rs\<close>, \<open>executor.rs\<close>, \<open>terminal.rs\<close>). This library models
  the core's logic and proves what makes it correct. Definitions keep the names of the source.

  The prelude.
  \<^item> \<open>Rust_Base\<close>: integers, results, ordered and hash maps (locales \<open>kv_store\<close> and \<open>wire_format\<close>).
  \<^item> \<open>Rust_Str\<close>, \<open>Rust_Search\<close>, \<open>Rust_Utf8\<close>: strings as UTF-8 bytes and the standard library's
    operations on them; \<open>Rust_Path\<close>: paths; \<open>Json\<close>: JSON values.

  Planning and agents.
  \<^item> \<open>Graph\<close> (\<open>graph.rs\<close>): the versioned execution graph and its lease table; every reachable graph is
    well formed and acyclic, \<open>add_dependency\<close> accepts exactly the edges that keep it so, a live lease
    is exclusive, and unfinished work always rests on a node that is ready, running, failed or blocked.
  \<^item> \<open>Agents\<close> (\<open>agent.rs\<close>): the scheduler's handlers; a tick matches ready nodes to idle agents.
  \<^item> \<open>Judge\<close> (\<open>judge.rs\<close>): the verdict is exact. \<open>Clarify\<close> (\<open>clarify.rs\<close>): the intake of a goal, its
    meter, its rounds of questions and the brief; best judgement ends the questions.
  \<^item> \<open>Facts\<close> (\<open>facts.rs\<close>, \<open>memory.rs\<close>): the fact store and retrieval.
  \<^item> \<open>Office\<close> (\<open>office.rs\<close>): addresses, private rooms, envelopes.

  Routing and providers.
  \<^item> \<open>Models_Routing\<close> (\<open>models.rs\<close>), \<open>Fairness\<close> (\<open>fairness.rs\<close>), \<open>Usage\<close> (\<open>usage.rs\<close>): reservations are
    exact, and a limit is passed only by what calls report beyond their estimates.
  \<^item> \<open>Fair_Store\<close> and \<open>Fair_Ledger\<close> (\<open>store.rs\<close>): the admission transactions and what they promise:
    every counter is the exact account of the admissions, and rounds keep candidates together.
  \<^item> \<open>Provider_Health\<close> (\<open>store.rs\<close>, \<open>runtime.rs\<close>): the stored health refines a fold over observations.
  \<^item> \<open>Config\<close> (\<open>config.rs\<close>) and \<open>Auto_Routing\<close> (\<open>runtime.rs\<close>): an automatic route satisfies pin, policy,
    health, cooldown and reserve, and exists whenever some model does.
  \<^item> \<open>Provider_Models\<close>, \<open>Sse\<close>, \<open>Provider_Http\<close> (\<open>provider.rs\<close>): references, redaction, the event
    stream of a turn, retries. A streamed turn does not depend on how its bytes are cut.

  The runtime.
  \<^item> \<open>Plans\<close>: the plans a model proposes: reading, repair, validation, resources and their overlap;
    validation accepts exactly the plans it should. \<open>Turn_Items\<close>: the conversation sent with a turn;
    the recent items keep every output with its call. \<open>Run_Roles\<close>: leader, workers and judge of a
    run, their names and permissions, the kind of a run.

  Tools.
  \<^item> \<open>Tools_Policy\<close> (\<open>tools.rs\<close>), \<open>Exec_Policy\<close> (\<open>executor.rs\<close>), \<open>Terminal\<close> (\<open>terminal.rs\<close>): who may
    run what, containment of paths and patches, approvals, the batch of a terminal.
  \<^item> \<open>Books\<close>, \<open>Book_Registry\<close> (\<open>books.rs\<close>) and \<open>Books_Tool\<close> (\<open>executor.rs\<close>): verification, catalogue and search of
    books, cards and specialists, the check of the bundled registry; a search
    offers books that passed the verification, stale ones marked so; reads are cut to a budget of words.
  \<^item> \<open>Agent_Tools\<close> (\<open>executor.rs\<close>): the tools for todos, messages, board, artifacts and books on the store;
    a name finds a known agent or is written as a group, a message waits for its agent, and through
    \<open>execute\<close> no read-only agent changes the board.
  \<^item> \<open>Self_Update\<close> (\<open>update.rs\<close>): what is installed has the digest of the release and is newer.
  \<^item> \<open>Cache_Core\<close>, \<open>Hot_Cache\<close> (\<open>cache.rs\<close>): keys, and a cache within its limits up to pinned entries; \<open>Context_Budget\<close> (\<open>context.rs\<close>).

  The terminal interface. \<open>Tui_Commands\<close> (\<open>crates/minha-tui/src/commands.rs\<close>): the registry of slash
  commands; a typed name means one command, the table of the edit distance computes the least number
  of edits, a mistyped command suggests a nearest one.

  The store. \<open>Protocol\<close> (\<open>protocol.rs\<close>) has the types it keeps. \<open>Store_Schema\<close> has its tables (the
  \<open>CREATE TABLE\<close> texts of \<open>store.rs\<close>) as ordered maps in one record, keys and references being checked
  where a row is written, and the monad of operations that are several statements.
  \<^item> \<open>Store_Runs\<close>: runs, workspaces, messages, events. The event log of every run is without gaps, in
    order and what was recorded. \<open>Store_Tasks\<close>: plans, agents, leases; a lease excludes other tasks, a
    stored plan reads back. \<open>Store_Usage\<close>: the counters of a run are the sums of its ledger.
  \<^item> \<open>Store_Board\<close>: board, todos, clarification rows, forks; a fork leaves other runs alone, but
    for board entries it may mark as superseded.
  \<^item> \<open>Store_Office\<close>: rooms and messages; a private room stays private, an inbox delivers once.

  How effects are written. An operation of the store takes the database and returns an error, and
  then the database is the old one, or a result and the new database; an operation that is several
  transactions returns both the result and the database reached (\<open>store_m\<close>). A call that may not
  return or panics has an outer option. What is not under the source directory is an argument: the
  clock (an instant for each operation, on one scale), fresh identifiers, SHA-256, Unicode tables
  (\<open>lower\<close>, \<open>uni\<close>), the JSON and TOML texts serde reads and writes (\<open>codec\<close>, \<open>office_codec\<close>), the order in
  which SQLite scans rows, the file system, the programs that are run, a pseudo-terminal. Where a
  theorem needs something of an argument, such as that a text is read back, it is a hypothesis, and
  its witness has an instance.

  Bounds. Rust's unsigned integers are naturals; saturating and checked operations are written out,
  and sums the code leaves unchecked are noted where they could leave their width. SQLite turns an
  integer sum that overflows into a real; the model keeps that it is no longer an integer, not its
  value, and reading it as an integer is the error the driver reports. Loops are recursions with a
  measure; the one that need not end (the redaction of provider errors) is a \<open>partial_function\<close>.

  Not modelled. Asynchronous driving of agents in \<open>runtime.rs\<close>, locks and connections, SQL text,
  migrations of old databases; in the store: agent dispatch summaries, memories, cache entries
  and maintenance; the typed hive messages and float observations of \<open>office.rs\<close>, which nothing stores;
  HTTP, TLS and key rings (\<open>auth.rs\<close>, \<open>provider_credentials.rs\<close>, \<open>deepseek.rs\<close>, \<open>mimo.rs\<close>);
  programs that are run (\<open>github.rs\<close>, \<open>worktree.rs\<close>); \<open>instructions.rs\<close>, which reads files; the terminal interface but for its
  commands, and the command line.
\<close>

end
